(* ===== verification/Prelude.thy ===== *)
theory Prelude
  imports Main "HOL-Library.AList" "HOL-Library.Sublist"
begin

text \<open>
  The vocabulary the component theories share.

  \<^item> Errors: the codes of \<^verbatim>\<open>MaisterError\<close> and the result type of code that may throw.
  \<^item> Tables: a Postgres table is the list of its rows; \<open>sql_update\<close>, \<open>sql_returning\<close> and
    \<open>sql_select\<close> are drizzle's \<^verbatim>\<open>update(t).set(f).where(p)\<close>, its \<^verbatim>\<open>.returning()\<close> and
    \<^verbatim>\<open>select().from(t).where(p)\<close>.  The locale \<open>keyed_table\<close> holds what every table with a
    primary key promises; each table of the model interprets it.
  \<^item> JavaScript collections: a \<^verbatim>\<open>Set\<close> is a duplicate-free list in insertion order, a
    \<^verbatim>\<open>Map\<close> an association list updated in place (\<open>AList.update\<close>).
  \<^item> "Newest row per key": the fold that three modules of the code write by hand, as a locale.
\<close>

section \<open>Collections of rewrite rules\<close>

named_theorems sql_simps \<open>reading a table after an update\<close>
named_theorems js_simps \<open>JavaScript collections\<close>

section \<open>Types the components share\<close>

text \<open>Timestamps are instants of one clock, in milliseconds; identifiers are strings.\<close>

type_synonym time = int
type_synonym ident = string

section \<open>Errors\<close>

text \<open>\<^verbatim>\<open>web/lib/errors-core.ts\<close>: the closed set of codes.\<close>

datatype maister_error_code =
    PRECONDITION | SPAWN | NEEDS_INPUT | HITL_TIMEOUT | CRASH | CONFLICT | CONFIG
  | EXECUTOR_UNAVAILABLE | FLOW_INSTALL | ACP_PROTOCOL | CHECKPOINT | BUDGET_EXCEEDED
  | EMBEDDING_UNAVAILABLE | STEP_CHECKPOINTED | UNAUTHENTICATED | UNAUTHORIZED
  | PASSWORD_CHANGE_REQUIRED | ACCOUNT_INACTIVE

definition MAISTER_ERROR_CODES :: "(string \<times> maister_error_code) list" where
  "MAISTER_ERROR_CODES =
     [(''PRECONDITION'', PRECONDITION), (''SPAWN'', SPAWN), (''NEEDS_INPUT'', NEEDS_INPUT),
      (''HITL_TIMEOUT'', HITL_TIMEOUT), (''CRASH'', CRASH), (''CONFLICT'', CONFLICT),
      (''CONFIG'', CONFIG), (''EXECUTOR_UNAVAILABLE'', EXECUTOR_UNAVAILABLE),
      (''FLOW_INSTALL'', FLOW_INSTALL), (''ACP_PROTOCOL'', ACP_PROTOCOL),
      (''CHECKPOINT'', CHECKPOINT), (''BUDGET_EXCEEDED'', BUDGET_EXCEEDED),
      (''EMBEDDING_UNAVAILABLE'', EMBEDDING_UNAVAILABLE),
      (''STEP_CHECKPOINTED'', STEP_CHECKPOINTED), (''UNAUTHENTICATED'', UNAUTHENTICATED),
      (''UNAUTHORIZED'', UNAUTHORIZED),
      (''PASSWORD_CHANGE_REQUIRED'', PASSWORD_CHANGE_REQUIRED),
      (''ACCOUNT_INACTIVE'', ACCOUNT_INACTIVE)]"

text \<open>
  \<^verbatim>\<open>isMaisterErrorCode\<close> as a partial reader: \<open>Some c\<close> exactly when the guard accepts the
  string, which it then denotes.
\<close>

definition isMaisterErrorCode :: "string \<Rightarrow> maister_error_code option" where
  "isMaisterErrorCode s = map_of MAISTER_ERROR_CODES s"

text \<open>
  A thrown \<^verbatim>\<open>MaisterError\<close> carries its code and, where the code sets one, the
  \<^verbatim>\<open>details.reason\<close> token; the prose of the message is not modelled.
\<close>

datatype maister_error = MaisterError (err_code: maister_error_code) (err_reason: string)

definition rbind :: "'e + 'a \<Rightarrow> ('a \<Rightarrow> 'e + 'b) \<Rightarrow> 'e + 'b" where
  "rbind m f = (case m of Inl e \<Rightarrow> Inl e | Inr x \<Rightarrow> f x)"

lemma rbind_simps [simp]:
  "rbind (Inl e) f = Inl e"
  "rbind (Inr x) f = f x"
  by (simp_all add: rbind_def)

lemma rbind_assoc: "rbind (rbind m f) g = rbind m (\<lambda>x. rbind (f x) g)"
  by (cases m) simp_all

lemma rbind_Inr_iff: "rbind m f = Inr y \<longleftrightarrow> (\<exists>x. m = Inr x \<and> f x = Inr y)"
  by (cases m) auto

lemma rbind_InrE:
  assumes "rbind m f = Inr y"
  obtains x where "m = Inr x" and "f x = Inr y"
  using assms by (auto simp: rbind_Inr_iff)

section \<open>Tables\<close>

definition sql_select :: "('r \<Rightarrow> bool) \<Rightarrow> 'r list \<Rightarrow> 'r list" where
  "sql_select P rows = filter P rows"

definition sql_update :: "('r \<Rightarrow> bool) \<Rightarrow> ('r \<Rightarrow> 'r) \<Rightarrow> 'r list \<Rightarrow> 'r list" where
  "sql_update P f rows = map (\<lambda>r. if P r then f r else r) rows"

text \<open>\<^verbatim>\<open>.returning()\<close> reads the rows after the update.\<close>

definition sql_returning :: "('r \<Rightarrow> bool) \<Rightarrow> ('r \<Rightarrow> 'r) \<Rightarrow> 'r list \<Rightarrow> 'r list" where
  "sql_returning P f rows = map f (filter P rows)"

definition sql_count :: "('r \<Rightarrow> bool) \<Rightarrow> 'r list \<Rightarrow> nat" where
  "sql_count P rows = length (filter P rows)"

lemma length_sql_update [simp, sql_simps]: "length (sql_update P f rows) = length rows"
  by (simp add: sql_update_def)

lemma sql_update_Nil [simp, sql_simps]: "sql_update P f [] = []"
  by (simp add: sql_update_def)

lemma set_sql_update:
  "set (sql_update P f rows) = f ` {r \<in> set rows. P r} \<union> {r \<in> set rows. \<not> P r}"
  by (auto simp: sql_update_def)

lemma sql_update_none:
  assumes "\<And>r. r \<in> set rows \<Longrightarrow> \<not> P r"
  shows "sql_update P f rows = rows"
  using assms by (auto simp: sql_update_def intro: map_idI)

lemma sql_returning_Nil_iff: "sql_returning P f rows = [] \<longleftrightarrow> (\<forall>r \<in> set rows. \<not> P r)"
  by (auto simp: sql_returning_def filter_empty_conv)

lemma sql_count_append [simp, sql_simps]:
  "sql_count P (xs @ ys) = sql_count P xs + sql_count P ys"
  by (simp add: sql_count_def)

lemma sql_count_Cons [simp]:
  "sql_count P (x # xs) = (if P x then Suc (sql_count P xs) else sql_count P xs)"
  by (simp add: sql_count_def)

lemma sql_count_Nil [simp]: "sql_count P [] = 0"
  by (simp add: sql_count_def)

lemma sql_count_0_iff: "sql_count P rows = 0 \<longleftrightarrow> (\<forall>r \<in> set rows. \<not> P r)"
  by (auto simp: sql_count_def filter_empty_conv)

lemma filter_sql_update_frame:
  assumes "\<And>r. r \<in> set rows \<Longrightarrow> P r \<Longrightarrow> \<not> Q r \<and> \<not> Q (f r)"
  shows "filter Q (sql_update P f rows) = filter Q rows"
  using assms by (induction rows) (auto simp: sql_update_def)

lemma sql_count_update_frame:
  assumes "\<And>r. r \<in> set rows \<Longrightarrow> P r \<Longrightarrow> Q (f r) = Q r"
  shows "sql_count Q (sql_update P f rows) = sql_count Q rows"
  using assms by (induction rows) (auto simp: sql_update_def)

text \<open>\<^verbatim>\<open>ORDER BY key DESC LIMIT 1\<close>: the first row with the greatest key.\<close>

fun sql_latest :: "('r \<Rightarrow> nat) \<Rightarrow> 'r list \<Rightarrow> 'r option" where
  "sql_latest k [] = None"
| "sql_latest k (r # rs) =
     (case sql_latest k rs of None \<Rightarrow> Some r | Some m \<Rightarrow> if k m > k r then Some m else Some r)"

lemma sql_latest_None_iff [simp]: "sql_latest k rows = None \<longleftrightarrow> rows = []"
  by (cases rows) (auto split: option.splits)

lemma sql_latest_SomeD:
  "sql_latest k rows = Some m \<Longrightarrow> m \<in> set rows \<and> (\<forall>r \<in> set rows. k r \<le> k m)"
proof (induction rows arbitrary: m)
  case (Cons r rs)
  then show ?case
    by (force split: option.splits if_splits)
qed simp

text \<open>
  What a table with a primary key promises.  \<open>pk\<close> is the key; an update is well behaved when it
  leaves the key alone, as every \<^verbatim>\<open>.set({...})\<close> of the code does.
\<close>

locale keyed_table =
  fixes pk :: "'r \<Rightarrow> 'k"
begin

definition wf_rows :: "'r list \<Rightarrow> bool" where
  "wf_rows rows \<longleftrightarrow> distinct (map pk rows)"

definition row :: "'k \<Rightarrow> 'r list \<Rightarrow> 'r option" where
  "row k rows = find (\<lambda>r. pk r = k) rows"

lemma map_pk_update:
  assumes "\<And>r. pk (f r) = pk r"
  shows "map pk (sql_update P f rows) = map pk rows"
  using assms by (simp add: sql_update_def)

lemma wf_update: "(\<And>r. pk (f r) = pk r) \<Longrightarrow> wf_rows rows \<Longrightarrow> wf_rows (sql_update P f rows)"
  by (simp add: wf_rows_def map_pk_update)

lemma wf_insert: "wf_rows rows \<Longrightarrow> pk r \<notin> pk ` set rows \<Longrightarrow> wf_rows (rows @ [r])"
  by (auto simp: wf_rows_def)

lemma row_in_set: "row k rows = Some r \<Longrightarrow> r \<in> set rows \<and> pk r = k"
  by (auto simp: row_def find_Some_iff)

lemma row_None_iff: "row k rows = None \<longleftrightarrow> (\<forall>r \<in> set rows. pk r \<noteq> k)"
  by (auto simp: row_def find_None_iff)

lemma row_unique: "wf_rows rows \<Longrightarrow> r \<in> set rows \<Longrightarrow> row (pk r) rows = Some r"
proof (induction rows)
  case (Cons x xs)
  then show ?case by (force simp: wf_rows_def row_def)
qed simp

lemma row_iff: "wf_rows rows \<Longrightarrow> row k rows = Some r \<longleftrightarrow> r \<in> set rows \<and> pk r = k"
  using row_in_set row_unique by blast

lemma row_update:
  assumes "\<And>r. pk (f r) = pk r"
  shows "row k (sql_update P f rows) = map_option (\<lambda>r. if P r then f r else r) (row k rows)"
  using assms by (induction rows) (auto simp: row_def sql_update_def)

lemma returning_key:
  assumes "wf_rows rows"
  shows "sql_returning (\<lambda>r. pk r = k \<and> Q r) f rows =
    (case row k rows of None \<Rightarrow> [] | Some r \<Rightarrow> if Q r then [f r] else [])"
  using assms
proof (induction rows)
  case (Cons x xs)
  show ?case
  proof (cases "pk x = k")
    case True
    from Cons.prems have "pk x \<notin> pk ` set xs"
      by (simp add: wf_rows_def)
    with True have "\<forall>r \<in> set xs. pk r \<noteq> k"
      by (auto simp: image_iff)
    then have "filter (\<lambda>r. pk r = k \<and> Q r) xs = []"
      by (simp add: filter_empty_conv)
    with True show ?thesis by (simp add: sql_returning_def row_def)
  next
    case False
    with Cons show ?thesis by (simp add: sql_returning_def row_def wf_rows_def)
  qed
qed (simp add: sql_returning_def row_def)

lemma returning_key_Nil_iff:
  "sql_returning (\<lambda>r. pk r = k \<and> Q r) f rows = [] \<longleftrightarrow> (\<forall>r \<in> set rows. pk r = k \<longrightarrow> \<not> Q r)"
  by (auto simp: sql_returning_Nil_iff)

end

section \<open>JavaScript collections\<close>

text \<open>\<^verbatim>\<open>Set.add\<close>: a member stays where it is, a new element goes last.\<close>

definition set_add :: "'a \<Rightarrow> 'a list \<Rightarrow> 'a list" where
  "set_add x xs = (if x \<in> set xs then xs else xs @ [x])"

lemma set_set_add [simp, js_simps]: "set (set_add x xs) = insert x (set xs)"
  by (auto simp: set_add_def)

lemma distinct_set_add [simp, js_simps]: "distinct xs \<Longrightarrow> distinct (set_add x xs)"
  by (auto simp: set_add_def)

text \<open>\<^verbatim>\<open>new Set(xs)\<close>.\<close>

definition set_of_list :: "'a list \<Rightarrow> 'a list" where
  "set_of_list xs = fold set_add xs []"

lemma fold_set_add: "set (fold set_add xs ys) = set xs \<union> set ys"
  by (induction xs arbitrary: ys) auto

lemma distinct_fold_set_add: "distinct ys \<Longrightarrow> distinct (fold set_add xs ys)"
  by (induction xs arbitrary: ys) auto

lemma set_set_of_list [simp, js_simps]: "set (set_of_list xs) = set xs"
  by (simp add: set_of_list_def fold_set_add)

lemma distinct_set_of_list [simp, js_simps]: "distinct (set_of_list xs)"
  by (simp add: set_of_list_def distinct_fold_set_add)

lemma map_of_update [simp, js_simps]: "map_of (AList.update k v m) = (map_of m)(k \<mapsto> v)"
  by (simp add: update_conv')

section \<open>The newest row per key\<close>

text \<open>
  \<^verbatim>\<open>for (const r of rows) { const cur = latest.get(key(r)); if (!cur || newer(r, cur))
  latest.set(key(r), r); }\<close>.  \<open>collapseLatestExternalPerGate\<close>, \<open>latestAttemptByNode\<close> and
  \<open>latestAttemptIdsByNode\<close> are this loop with a key and a strict "newer than" test.
\<close>

definition newest_step :: "('r \<Rightarrow> 'k) \<Rightarrow> ('r \<Rightarrow> 'r \<Rightarrow> bool) \<Rightarrow> 'r \<Rightarrow> ('k \<times> 'r) list \<Rightarrow> ('k \<times> 'r) list" where
  "newest_step key newer r m =
     (case map_of m (key r) of
        None \<Rightarrow> AList.update (key r) r m
      | Some cur \<Rightarrow> if newer r cur then AList.update (key r) r m else m)"

definition newest_by :: "('r \<Rightarrow> 'k) \<Rightarrow> ('r \<Rightarrow> 'r \<Rightarrow> bool) \<Rightarrow> 'r list \<Rightarrow> ('k \<times> 'r) list" where
  "newest_by key newer rows = fold (newest_step key newer) rows []"

locale newest_per_key =
  fixes key :: "'r \<Rightarrow> 'k" and newer :: "'r \<Rightarrow> 'r \<Rightarrow> bool"
  assumes newer_irrefl: "\<not> newer r r"
    and newer_trans: "newer a b \<Longrightarrow> newer b c \<Longrightarrow> newer a c"
begin

definition newest_inv :: "'r list \<Rightarrow> ('k \<times> 'r) list \<Rightarrow> bool" where
  "newest_inv seen m \<longleftrightarrow>
     distinct (map fst m)
     \<and> (\<forall>k r. map_of m k = Some r \<longrightarrow>
          r \<in> set seen \<and> key r = k \<and> (\<forall>s \<in> set seen. key s = k \<longrightarrow> \<not> newer s r))
     \<and> (\<forall>s \<in> set seen. map_of m (key s) \<noteq> None)"

lemma newer_asym: "newer a b \<Longrightarrow> \<not> newer b a"
  using newer_irrefl newer_trans by blast

lemma newest_step_inv:
  assumes "newest_inv seen m"
  shows "newest_inv (seen @ [r]) (newest_step key newer r m)"
proof (cases "map_of m (key r)")
  case None
  with assms show ?thesis
    by (force simp: newest_inv_def newest_step_def distinct_update newer_irrefl)
next
  case (Some cur)
  with assms have cur: "cur \<in> set seen" "key cur = key r"
    "\<And>s. s \<in> set seen \<Longrightarrow> key s = key r \<Longrightarrow> \<not> newer s cur"
    by (auto simp: newest_inv_def)
  show ?thesis
  proof (cases "newer r cur")
    case True
    have "\<not> newer s r" if "s \<in> set seen" "key s = key r" for s
      using cur(3)[OF that] True newer_trans by blast
    with assms Some True show ?thesis
      by (auto simp: newest_inv_def newest_step_def distinct_update newer_irrefl)
  next
    case False
    then have step: "newest_step key newer r m = m"
      using Some by (simp add: newest_step_def)
    have d: "distinct (map fst m)"
      and a: "\<And>k v. map_of m k = Some v \<Longrightarrow> v \<in> set seen \<and> key v = k"
      and b: "\<And>k v s. map_of m k = Some v \<Longrightarrow> s \<in> set seen \<Longrightarrow> key s = k \<Longrightarrow> \<not> newer s v"
      and c: "\<And>s. s \<in> set seen \<Longrightarrow> map_of m (key s) \<noteq> None"
      using assms unfolding newest_inv_def by blast+
    have e: "\<not> newer s v" if "map_of m k = Some v" "s \<in> set (seen @ [r])" "key s = k" for s k v
    proof (cases "s = r")
      case True
      with that Some False show ?thesis by simp
    next
      case False
      with that b show ?thesis by auto
    qed
    have g: "map_of m (key s) \<noteq> None" if "s \<in> set (seen @ [r])" for s
      using that c Some by (cases "s = r") auto
    show ?thesis
      unfolding step newest_inv_def using d a e g by (simp only: set_append) blast
  qed
qed

lemma fold_newest_inv:
  "newest_inv seen m \<Longrightarrow> newest_inv (seen @ rows) (fold (newest_step key newer) rows m)"
proof (induction rows arbitrary: seen m)
  case (Cons r rs)
  then show ?case
    using newest_step_inv[of seen m r] by fastforce
qed simp

lemma newest_by_inv: "newest_inv rows (newest_by key newer rows)"
proof -
  have "newest_inv [] []" by (simp add: newest_inv_def)
  from fold_newest_inv[OF this, of rows] show ?thesis by (simp add: newest_by_def)
qed

lemma newest_by_distinct: "distinct (map fst (newest_by key newer rows))"
  using newest_by_inv by (auto simp: newest_inv_def)

lemma newest_by_Some:
  "map_of (newest_by key newer rows) k = Some r \<Longrightarrow>
     r \<in> set rows \<and> key r = k \<and> (\<forall>s \<in> set rows. key s = k \<longrightarrow> \<not> newer s r)"
  using newest_by_inv by (auto simp: newest_inv_def)

lemma newest_by_covers:
  "s \<in> set rows \<Longrightarrow> \<exists>r. map_of (newest_by key newer rows) (key s) = Some r"
  using newest_by_inv[of rows] by (auto simp: newest_inv_def)

lemma newest_by_entry:
  "(k, r) \<in> set (newest_by key newer rows) \<longleftrightarrow> map_of (newest_by key newer rows) k = Some r"
  using newest_by_distinct by (metis map_of_SomeD map_of_is_SomeI)

text \<open>
  Where no two rows tie, the outcome does not depend on the order in which the rows arrive.
\<close>

lemma newest_by_order:
  assumes "set rows = set rows'"
    and total: "\<And>a b. a \<in> set rows \<Longrightarrow> b \<in> set rows \<Longrightarrow> key a = key b \<Longrightarrow> a \<noteq> b \<Longrightarrow> newer a b \<or> newer b a"
  shows "map_of (newest_by key newer rows) = map_of (newest_by key newer rows')"
proof
  fix k
  show "map_of (newest_by key newer rows) k = map_of (newest_by key newer rows') k"
  proof (cases "map_of (newest_by key newer rows) k")
    case None
    then have "\<forall>s \<in> set rows'. key s \<noteq> k"
      using newest_by_covers[of _ rows] assms(1) by fastforce
    then have "map_of (newest_by key newer rows') k = None"
      using newest_by_Some[of rows' k] by (cases "map_of (newest_by key newer rows') k") auto
    with None show ?thesis by simp
  next
    case (Some r)
    note r = newest_by_Some[OF Some]
    with assms(1) obtain r' where r': "map_of (newest_by key newer rows') k = Some r'"
      using newest_by_covers[of r rows'] by auto
    note s = newest_by_Some[OF r']
    have "r' \<in> set rows" "r \<in> set rows'"
      using r s assms(1) by auto
    with r s have "r = r'"
      using total[of r r'] by metis
    with Some r' show ?thesis by simp
  qed
qed

end

end
