(* ===== verification/JsValue.thy ===== *)
theory JsValue
  imports Complex_Main Prelude "HOL-Library.Log_Nat"
begin

text \<open>
  The JavaScript values the modelled code computes with.

  \<^item> Strings are \<open>string\<close>, one character per UTF-16 code unit; the model covers code units below 256,
    which is where every character class the code tests lies (\<^verbatim>\<open>\s\<close>, \<^verbatim>\<open>\d\<close>,
    \<^verbatim>\<open>[A-Za-z0-9_]\<close>, quotes and braces).
  \<^item> Numbers are IEEE doubles: a rational, an infinity or NaN.  The two zeros are one value; nothing
    modelled here tells them apart.  \<open>round_double\<close> is rounding to nearest, ties to even, with
    gradual underflow and overflow to infinity.
  \<^item> \<open>json\<close> is what \<^verbatim>\<open>JSON.parse\<close> and a \<^verbatim>\<open>jsonb\<close> column give; an object keeps its own keys in
    order.
  \<^item> \<open>js_toISOString\<close> is \<^verbatim>\<open>Date.prototype.toISOString\<close> on the proleptic Gregorian calendar.
\<close>

section \<open>Strings\<close>

text \<open>White space and line terminators below code unit 256: what \<^verbatim>\<open>\s\<close> and \<^verbatim>\<open>trim\<close> use.\<close>

definition is_js_ws :: "char \<Rightarrow> bool" where
  "is_js_ws c \<longleftrightarrow> of_char c \<in> {9, 10, 11, 12, 13, 32, 160 :: nat}"

definition js_trim_start :: "string \<Rightarrow> string" where
  "js_trim_start s = dropWhile is_js_ws s"

definition js_trim :: "string \<Rightarrow> string" where
  "js_trim s = rev (dropWhile is_js_ws (rev (dropWhile is_js_ws s)))"

definition is_upper_ascii :: "char \<Rightarrow> bool" where
  "is_upper_ascii c \<longleftrightarrow> 65 \<le> (of_char c :: nat) \<and> (of_char c :: nat) \<le> 90"

definition is_lower_ascii :: "char \<Rightarrow> bool" where
  "is_lower_ascii c \<longleftrightarrow> 97 \<le> (of_char c :: nat) \<and> (of_char c :: nat) \<le> 122"

definition is_digit :: "char \<Rightarrow> bool" where
  "is_digit c \<longleftrightarrow> 48 \<le> (of_char c :: nat) \<and> (of_char c :: nat) \<le> 57"

definition digit_val :: "char \<Rightarrow> nat" where
  "digit_val c = of_char c - 48"

text \<open>\<^verbatim>\<open>toLowerCase\<close>: ASCII letters and the Latin-1 capitals (all but the multiplication sign).\<close>

definition js_lower_char :: "char \<Rightarrow> char" where
  "js_lower_char c =
     (let n = (of_char c :: nat)
      in if is_upper_ascii c \<or> (192 \<le> n \<and> n \<le> 222 \<and> n \<noteq> 215) then char_of (n + 32) else c)"

definition js_lower :: "string \<Rightarrow> string" where
  "js_lower s = map js_lower_char s"

text \<open>\<^verbatim>\<open>s.split(sep)\<close> for a one-character separator: never empty.\<close>

fun js_split :: "char \<Rightarrow> string \<Rightarrow> string list" where
  "js_split sep [] = [[]]"
| "js_split sep (c # cs) =
     (if c = sep then [] # js_split sep cs
      else (case js_split sep cs of [] \<Rightarrow> [[c]] | w # ws \<Rightarrow> (c # w) # ws))"

fun js_join :: "string \<Rightarrow> string list \<Rightarrow> string" where
  "js_join sep [] = []"
| "js_join sep [w] = w"
| "js_join sep (w # v # ws) = w @ sep @ js_join sep (v # ws)"

lemma js_split_not_Nil [simp]: "js_split sep s \<noteq> []"
  by (induction s) (auto split: list.splits)

lemma js_split_hd: "hd (js_split sep s) = takeWhile (\<lambda>c. c \<noteq> sep) s"
  by (induction s) (auto split: list.splits)

lemma js_split_plain: "sep \<notin> set s \<Longrightarrow> js_split sep s = [s]"
  by (induction s) auto

lemma js_split_append_sep:
  "sep \<notin> set s \<Longrightarrow> js_split sep (s @ sep # t) = s # js_split sep t"
  by (induction s) auto

lemma js_split_join:
  "ws \<noteq> [] \<Longrightarrow> \<forall>w \<in> set ws. sep \<notin> set w \<Longrightarrow> js_split sep (js_join [sep] ws) = ws"
  by (induction "[sep]" ws rule: js_join.induct) (auto simp: js_split_plain js_split_append_sep)

lemma js_trim_idem_pre: "s \<noteq> [] \<Longrightarrow> \<not> is_js_ws (hd s) \<Longrightarrow> \<not> is_js_ws (last s) \<Longrightarrow> js_trim s = s"
  by (simp add: js_trim_def dropWhile_eq_self_iff[THEN iffD2] hd_rev)

section \<open>Numbers\<close>

datatype js_number = Fin rat | PosInf | NegInf | NaN

definition round_half_even :: "rat \<Rightarrow> int" where
  "round_half_even q =
     (let f = \<lfloor>q\<rfloor>; d = q - of_int f
      in if d < 1/2 then f else if d > 1/2 then f + 1 else if even f then f else f + 1)"

text \<open>The binary exponent of a positive rational: \<open>2\<^sup>e \<le> x < 2\<^sup>e\<^sup>+\<^sup>1\<close>.\<close>

definition binary_exponent :: "rat \<Rightarrow> int" where
  "binary_exponent x =
     (let (a, b) = quotient_of x; e = bitlen a - bitlen b
      in if 2 powi e \<le> x then e else e - 1)"

definition round_double :: "rat \<Rightarrow> js_number" where
  "round_double x =
     (if x = 0 then Fin 0
      else let a = \<bar>x\<bar>; e = max (binary_exponent a) (-1022); u = 2 powi (e - 52);
               r = of_int (round_half_even (a / u)) * u
           in if r \<ge> 2 powi 1024 then (if x > 0 then PosInf else NegInf)
              else Fin (sgn x * r))"

definition is_finite_num :: "js_number \<Rightarrow> bool" where
  "is_finite_num x \<longleftrightarrow> (case x of Fin _ \<Rightarrow> True | _ \<Rightarrow> False)"

lemma is_finite_num_simps [simp]:
  "is_finite_num (Fin q)" "\<not> is_finite_num PosInf" "\<not> is_finite_num NegInf" "\<not> is_finite_num NaN"
  by (simp_all add: is_finite_num_def)

text \<open>The value of a run of decimal digits, and \<^verbatim>\<open>Number.parseInt(s, 10)\<close>.\<close>

definition digits_val :: "string \<Rightarrow> nat" where
  "digits_val ds = fold (\<lambda>c n. 10 * n + digit_val c) ds 0"

definition js_parseInt10 :: "string \<Rightarrow> js_number" where
  "js_parseInt10 s =
     (let t = js_trim_start s;
          (neg, u) = (case t of [] \<Rightarrow> (False, [])
                      | c # cs \<Rightarrow> if c = CHR ''-'' then (True, cs)
                                 else if c = CHR ''+'' then (False, cs) else (False, c # cs));
          ds = takeWhile is_digit u
      in if ds = [] then NaN
         else round_double (if neg then - of_nat (digits_val ds) else of_nat (digits_val ds)))"

section \<open>JSON values\<close>

datatype json =
    JNull
  | JBool bool
  | JNum js_number
  | JStr string
  | JArr "json list"
  | JObj "(string \<times> json) list"

text \<open>
  An own property, \<^verbatim>\<open>Object.hasOwn(v, k)\<close>: an object has its keys; an array has its decimal indices
  and \<^verbatim>\<open>length\<close>.  Property reads of the code go through objects that \<^verbatim>\<open>JSON.parse\<close> made, whose
  keys are distinct (the last of two equal keys wins).
\<close>

fun nat_digits :: "nat \<Rightarrow> string" where
  "nat_digits n = (if n < 10 then [char_of (48 + n)] else nat_digits (n div 10) @ [char_of (48 + n mod 10)])"

declare nat_digits.simps [simp del]

definition pad_digits :: "nat \<Rightarrow> nat \<Rightarrow> string" where
  "pad_digits w n = (let ds = nat_digits n in replicate (w - length ds) (CHR ''0'') @ ds)"

text \<open>Year, month and day of a count of days since 1970-01-01.\<close>

definition civil_of_days :: "int \<Rightarrow> int \<times> nat \<times> nat" where
  "civil_of_days days =
     (let z = days + 719468; era = z div 146097; doe = z mod 146097;
          yoe = (doe - doe div 1460 + doe div 36524 - doe div 146096) div 365;
          doy = doe - (365 * yoe + yoe div 4 - yoe div 100);
          mp = (5 * doy + 2) div 153;
          m = (if mp < 10 then mp + 3 else mp - 9);
          y = yoe + era * 400 + (if m \<le> 2 then 1 else 0)
      in (y, nat m, nat (doy - (153 * mp + 2) div 5 + 1)))"

definition iso_year :: "int \<Rightarrow> string" where
  "iso_year y =
     (if 0 \<le> y \<and> y \<le> 9999 then pad_digits 4 (nat y)
      else (if y < 0 then ''-'' else ''+'') @ pad_digits 6 (nat \<bar>y\<bar>))"

definition js_toISOString :: "time \<Rightarrow> string" where
  "js_toISOString t =
     (let (y, m, d) = civil_of_days (t div 86400000); ms = t mod 86400000
      in iso_year y @ ''-'' @ pad_digits 2 m @ ''-'' @ pad_digits 2 d @ ''T''
         @ pad_digits 2 (nat (ms div 3600000)) @ '':'' @ pad_digits 2 (nat (ms div 60000 mod 60)) @ '':''
         @ pad_digits 2 (nat (ms div 1000 mod 60)) @ ''.'' @ pad_digits 3 (nat (ms mod 1000)) @ ''Z'')"

definition arr_key :: "json list \<Rightarrow> string \<Rightarrow> json option" where
  "arr_key xs k =
     (if k = ''length'' then Some (JNum (Fin (of_nat (length xs))))
      else map_of (zip (map nat_digits [0..<length xs]) xs) k)"

definition own_prop :: "json \<Rightarrow> string \<Rightarrow> json option" where
  "own_prop v k = (case v of JObj kvs \<Rightarrow> map_of kvs k | JArr xs \<Rightarrow> arr_key xs k | _ \<Rightarrow> None)"

text \<open>\<^verbatim>\<open>v !== null && typeof v === "object"\<close>.\<close>

definition is_object :: "json \<Rightarrow> bool" where
  "is_object v \<longleftrightarrow> (case v of JObj _ \<Rightarrow> True | JArr _ \<Rightarrow> True | _ \<Rightarrow> False)"

lemma own_prop_object: "own_prop v k = Some w \<Longrightarrow> is_object v"
  by (cases v) (auto simp: own_prop_def is_object_def)

end
