(* ===== verification/HostSequence.thy ===== *)
theory HostSequence
  imports JsValue "HOL-Library.List_Lexorder" "HOL-Library.Char_ord"
begin

text \<open>
  Event sequence numbers of an execution host (\<^verbatim>\<open>supervisor/src/host-state.ts\<close>).  A sequence is a
  \<^verbatim>\<open>bigint\<close>, an \<open>int\<close> here, stored as decimal text beside a fixed-width sort key; SQLite compares
  text byte by byte (\<^verbatim>\<open>BINARY\<close> collation), which is the order of \<open>List_Lexorder\<close> on strings.  The
  theorem of this theory is that the text order of the keys is the numeric order of the sequences, so
  that every \<^verbatim>\<open>ORDER BY\<close>, range and watermark comparison of the outbox means what it says.
\<close>

section \<open>Errors of the host\<close>

text \<open>\<^verbatim>\<open>supervisor/src/host-runtime-errors.ts\<close>.\<close>

datatype host_reason =
    Runtime_storage_unavailable | Runtime_storage_pressure | Command_in_progress
  | Command_invariant_conflict | Event_outbox_soft_limit | Event_outbox_hard_limit
  | Event_outbox_physical_limit | Event_outbox_terminal_reserve_exhausted
  | Event_outbox_wallet_exhausted | Stream_identity_conflict | Replay_floor_exceeded
  | Ack_not_contiguous | Ack_beyond_emitted | Stream_corrupt

datatype outbox_limit = Unacknowledged | Retained | Physical | Control_limit | Wallet_limit

fun outboxLimitOf :: "host_reason \<Rightarrow> outbox_limit option" where
  "outboxLimitOf Event_outbox_soft_limit = Some Unacknowledged"
| "outboxLimitOf Event_outbox_hard_limit = Some Retained"
| "outboxLimitOf Event_outbox_physical_limit = Some Physical"
| "outboxLimitOf Event_outbox_terminal_reserve_exhausted = Some Control_limit"
| "outboxLimitOf Event_outbox_wallet_exhausted = Some Wallet_limit"
| "outboxLimitOf _ = None"

text \<open>
  What a host operation may throw: a \<^verbatim>\<open>HostRuntimeEventError\<close> with its reason, a plain
  \<^verbatim>\<open>Error\<close>, a \<^verbatim>\<open>RuntimeLimitsError\<close>, or SQLite's error for a violated \<^verbatim>\<open>UNIQUE\<close> index.
\<close>

datatype host_error =
    HostRuntimeEventError host_reason
  | PlainError
  | RuntimeLimitsError
  | SqliteConstraint

section \<open>Decimal text\<close>

lemma of_char_48 [simp]: "n \<le> 9 \<Longrightarrow> (of_char (char_of (48 + n :: nat)) :: nat) = 48 + n"
  by (simp add: of_char_of)

lemma digit_val_char [simp]: "n \<le> 9 \<Longrightarrow> digit_val (char_of (48 + n)) = n"
  by (simp add: digit_val_def)

lemma is_digit_char [simp]: "n \<le> 9 \<Longrightarrow> is_digit (char_of (48 + n :: nat))"
  by (simp add: is_digit_def)

lemma digits_val_Nil [simp]: "digits_val [] = 0"
  by (simp add: digits_val_def)

lemma digits_val_snoc [simp]: "digits_val (ds @ [c]) = 10 * digits_val ds + digit_val c"
  by (simp add: digits_val_def)

lemma digits_val_append: "digits_val (xs @ ys) = digits_val xs * 10 ^ length ys + digits_val ys"
proof (induction ys rule: rev_induct)
  case (snoc y ys)
  have "digits_val (xs @ ys @ [y]) = 10 * digits_val (xs @ ys) + digit_val y"
    using digits_val_snoc[of "xs @ ys" y] by simp
  with snoc show ?case by (simp add: algebra_simps)
qed simp

lemma digits_val_Cons: "digits_val (c # ds) = digit_val c * 10 ^ length ds + digits_val ds"
  using digits_val_append[of "[c]" ds] digits_val_snoc[of "[]" c] by simp

lemma digits_val_bound: "list_all is_digit ds \<Longrightarrow> digits_val ds < 10 ^ length ds"
proof (induction ds)
  case (Cons c ds)
  then have "digit_val c \<le> 9" by (auto simp: is_digit_def digit_val_def)
  then have "digit_val c * 10 ^ length ds \<le> 9 * 10 ^ length ds" by (intro mult_right_mono) auto
  moreover have "digits_val ds < 10 ^ length ds" using Cons by simp
  ultimately have "digit_val c * 10 ^ length ds + digits_val ds < 10 * 10 ^ length ds" by linarith
  then show ?case unfolding digits_val_Cons by simp
qed simp

lemma digits_val_zeros: "digits_val (replicate k (CHR ''0'') @ ds) = digits_val ds"
  by (induction k) (simp_all add: digits_val_Cons digit_val_def)

lemma nat_digits_val [simp]: "digits_val (nat_digits n) = n"
proof (induction n rule: nat_digits.induct)
  case (1 n)
  show ?case
  proof (cases "n < 10")
    case True
    then show ?thesis using digits_val_snoc[of "[]"] by (subst nat_digits.simps) simp
  next
    case False
    then show ?thesis using 1 by (subst nat_digits.simps) simp
  qed
qed

lemma nat_digits_all: "list_all is_digit (nat_digits n)"
proof (induction n rule: nat_digits.induct)
  case (1 n)
  then show ?case by (subst nat_digits.simps) simp
qed

lemma nat_digits_nonempty [simp]: "nat_digits n \<noteq> []"
  by (subst nat_digits.simps) simp

lemma nat_digits_inj: "nat_digits m = nat_digits n \<longleftrightarrow> m = n"
  by (metis nat_digits_val)

lemma nat_digits_length: "n < 10 ^ k \<Longrightarrow> 0 < k \<Longrightarrow> length (nat_digits n) \<le> k"
proof (induction n arbitrary: k rule: nat_digits.induct)
  case (1 n)
  show ?case
  proof (cases "n < 10")
    case True
    then show ?thesis using 1(3) by (subst nat_digits.simps) simp
  next
    case False
    obtain j where k: "k = Suc j" using 1(3) by (cases k) auto
    have "n div 10 < 10 ^ j" using 1(2) unfolding k by (simp add: less_mult_imp_div_less mult.commute)
    moreover have "0 < j" using 1(2) False unfolding k by (cases j) auto
    ultimately have "length (nat_digits (n div 10)) \<le> j" using 1(1) False by blast
    then show ?thesis using False unfolding k by (subst nat_digits.simps) simp
  qed
qed

lemma of_char_zero_digit: "(of_char (CHR ''0'') :: nat) = 48"
  by simp

lemma is_digit_zero [simp]: "is_digit (CHR ''0'')"
  by (simp add: is_digit_def)

lemma nat_digits_0 [simp]: "nat_digits 0 = ''0''"
proof -
  have "(of_char (char_of (48 :: nat)) :: nat) = of_char (CHR ''0'')" by (simp only: of_char_zero_digit) simp
  then show ?thesis by (subst nat_digits.simps) (simp only: of_char_eq_iff, simp)
qed

text \<open>No leading zero: the first digit of a positive number is positive.\<close>

lemma nat_digits_hd: "0 < n \<Longrightarrow> hd (nat_digits n) \<noteq> CHR ''0''"
proof (induction n rule: nat_digits.induct)
  case (1 n)
  show ?case
  proof (cases "n < 10")
    case True
    then have "(of_char (char_of (48 + n)) :: nat) = 48 + n" by simp
    then have "char_of (48 + n) \<noteq> CHR ''0''" using 1(2) by (metis add_eq_self_zero less_numeral_extra(3) of_char_zero_digit)
    then show ?thesis using True by (subst nat_digits.simps) simp
  next
    case False
    then have "hd (nat_digits (n div 10)) \<noteq> CHR ''0''" using 1 by simp
    then show ?thesis using False by (subst nat_digits.simps) simp
  qed
qed

section \<open>Reading and writing a sequence\<close>

definition MAX_HOST_EVENT_SEQUENCE :: int where
  "MAX_HOST_EVENT_SEQUENCE = 2 ^ 63 - 1"

definition HOST_EVENT_SEQUENCE_SORT_WIDTH :: nat where
  "HOST_EVENT_SEQUENCE_SORT_WIDTH = 20"

text \<open>\<^verbatim>\<open>BigInt.prototype.toString\<close>.\<close>

definition bigint_string :: "int \<Rightarrow> string" where
  "bigint_string n = (if n < 0 then CHR ''-'' # nat_digits (nat (- n)) else nat_digits (nat n))"

text \<open>The test \<^verbatim>\<open>/^(0|[1-9][0-9]*)$/\<close>.\<close>

definition canonical_decimal :: "string \<Rightarrow> bool" where
  "canonical_decimal s \<longleftrightarrow> s = ''0'' \<or> (s \<noteq> [] \<and> hd s \<noteq> CHR ''0'' \<and> list_all is_digit s)"

definition parseHostEventSequence :: "string \<Rightarrow> host_error + int" where
  "parseHostEventSequence s =
     (if \<not> canonical_decimal s then Inl PlainError
      else let n = int (digits_val s)
           in if n > MAX_HOST_EVENT_SEQUENCE then Inl PlainError else Inr n)"

definition padStart :: "nat \<Rightarrow> char \<Rightarrow> string \<Rightarrow> string" where
  "padStart w c s = replicate (w - length s) c @ s"

definition padEnd :: "nat \<Rightarrow> char \<Rightarrow> string \<Rightarrow> string" where
  "padEnd w c s = s @ replicate (w - length s) c"

definition hostEventSequenceSortKey :: "int \<Rightarrow> host_error + string" where
  "hostEventSequenceSortKey n =
     (if n = -1 then Inr (padEnd HOST_EVENT_SEQUENCE_SORT_WIDTH (CHR ''0'') ''-'')
      else if n < 0 \<or> n > MAX_HOST_EVENT_SEQUENCE then Inl PlainError
      else Inr (padStart HOST_EVENT_SEQUENCE_SORT_WIDTH (CHR ''0'') (bigint_string n)))"

text \<open>The sequences the host stores, and the sentinel before the first one.\<close>

definition storable :: "int \<Rightarrow> bool" where
  "storable n \<longleftrightarrow> 0 \<le> n \<and> n \<le> MAX_HOST_EVENT_SEQUENCE"

definition sort_key_of :: "int \<Rightarrow> string" where
  "sort_key_of n = (case hostEventSequenceSortKey n of Inl _ \<Rightarrow> [] | Inr k \<Rightarrow> k)"

lemma parse_print: "storable n \<Longrightarrow> parseHostEventSequence (bigint_string n) = Inr n"
proof -
  assume n: "storable n"
  have "canonical_decimal (nat_digits (nat n))"
  proof (cases "nat n = 0")
    case True
    then show ?thesis by (simp add: canonical_decimal_def)
  next
    case False
    then show ?thesis using nat_digits_hd[of "nat n"] nat_digits_all by (simp add: canonical_decimal_def)
  qed
  then show ?thesis
    using n by (simp add: parseHostEventSequence_def bigint_string_def storable_def Let_def)
qed

lemma parse_storable: "parseHostEventSequence s = Inr n \<Longrightarrow> storable n"
  by (auto simp: parseHostEventSequence_def storable_def Let_def split: if_splits)

lemma sort_key_ok: "storable n \<or> n = -1 \<Longrightarrow> hostEventSequenceSortKey n = Inr (sort_key_of n)"
  by (auto simp: sort_key_of_def hostEventSequenceSortKey_def storable_def)

lemma bigint_string_inj: "storable a \<Longrightarrow> storable b \<Longrightarrow> bigint_string a = bigint_string b \<longleftrightarrow> a = b"
  by (auto simp: bigint_string_def storable_def nat_digits_inj)

section \<open>The text order of the sort keys is the numeric order\<close>

lemma char_less_digit: "is_digit a \<Longrightarrow> is_digit b \<Longrightarrow> a < b \<longleftrightarrow> digit_val a < digit_val b"
  by (auto simp: less_char_def is_digit_def digit_val_def)

lemma digit_val_inj: "is_digit a \<Longrightarrow> is_digit b \<Longrightarrow> digit_val a = digit_val b \<longleftrightarrow> a = b"
  by (metis char_less_digit less_irrefl linorder_neqE)

text \<open>Two runs of digits of one length compare as the numbers they denote.\<close>

lemma digits_lex:
  "length xs = length ys \<Longrightarrow> list_all is_digit xs \<Longrightarrow> list_all is_digit ys \<Longrightarrow>
   xs < ys \<longleftrightarrow> digits_val xs < digits_val ys"
proof (induction xs ys rule: list_induct2)
  case (Cons x xs y ys)
  have b: "digits_val xs < 10 ^ length ys" "digits_val ys < 10 ^ length ys"
    using digits_val_bound[of xs] digits_val_bound[of ys] Cons by simp_all
  consider "digit_val x < digit_val y" | "x = y" | "digit_val y < digit_val x"
    using Cons(3,4) digit_val_inj[of x y] by fastforce
  then show ?case
  proof cases
    case 1
    then have "Suc (digit_val x) * 10 ^ length ys \<le> digit_val y * 10 ^ length ys"
      by (intro mult_right_mono) auto
    then have "digits_val (x # xs) < digits_val (y # ys)"
      using b Cons(1) unfolding digits_val_Cons by simp
    then show ?thesis using 1 Cons(3,4) by (simp add: char_less_digit Cons_less_Cons)
  next
    case 2
    then show ?thesis using Cons by (simp add: digits_val_Cons)
  next
    case 3
    then have "Suc (digit_val y) * 10 ^ length ys \<le> digit_val x * 10 ^ length ys"
      by (intro mult_right_mono) auto
    then have "\<not> digits_val (x # xs) < digits_val (y # ys)"
      using b Cons(1) unfolding digits_val_Cons by simp
    then show ?thesis using 3 Cons(3,4) char_less_digit[of x y] by auto
  qed
qed simp

lemma storable_digits: "storable n \<Longrightarrow> length (nat_digits (nat n)) \<le> 20"
  by (rule nat_digits_length) (auto simp: storable_def MAX_HOST_EVENT_SEQUENCE_def)

lemma sort_key_digits:
  assumes "storable n"
  shows "length (sort_key_of n) = 20" "list_all is_digit (sort_key_of n)"
    "digits_val (sort_key_of n) = nat n"
proof -
  have "sort_key_of n = replicate (20 - length (nat_digits (nat n))) (CHR ''0'') @ nat_digits (nat n)"
    using assms
    by (auto simp: sort_key_of_def hostEventSequenceSortKey_def storable_def padStart_def
        HOST_EVENT_SEQUENCE_SORT_WIDTH_def bigint_string_def)
  then show "length (sort_key_of n) = 20" "list_all is_digit (sort_key_of n)"
    "digits_val (sort_key_of n) = nat n"
    using storable_digits[OF assms] nat_digits_all[of "nat n"]
    by (auto simp: digits_val_zeros list_all_iff is_digit_zero)
qed

lemma sort_key_sentinel: "sort_key_of (-1) = CHR ''-'' # replicate 19 (CHR ''0'')"
  by (simp add: sort_key_of_def hostEventSequenceSortKey_def padEnd_def HOST_EVENT_SEQUENCE_SORT_WIDTH_def)

lemma sentinel_below:
  assumes "storable n"
  shows "sort_key_of (-1) < sort_key_of n"
proof -
  obtain c cs where k: "sort_key_of n = c # cs" using sort_key_digits(1)[OF assms] by (cases "sort_key_of n") auto
  have "is_digit c" using sort_key_digits(2)[OF assms] unfolding k by simp
  then have "CHR ''-'' < c" by (simp add: less_char_def is_digit_def)
  then show ?thesis unfolding k sort_key_sentinel by (simp add: Cons_less_Cons)
qed

lemma sort_key_less [simp]:
  assumes "storable a \<or> a = -1" "storable b \<or> b = -1"
  shows "sort_key_of a < sort_key_of b \<longleftrightarrow> a < b"
proof -
  consider "storable a" "storable b" | "storable a" "b = -1" | "a = -1" "storable b" | "a = -1" "b = -1"
    using assms by blast
  then show ?thesis
  proof cases
    case 1
    then show ?thesis
      using digits_lex[of "sort_key_of a" "sort_key_of b"] by (auto simp: sort_key_digits storable_def)
  next
    case 2
    then show ?thesis using sentinel_below[of a] by (simp add: storable_def)
  next
    case 3
    then show ?thesis using sentinel_below[of b] by (simp add: storable_def)
  next
    case 4
    then show ?thesis by simp
  qed
qed

lemma sort_key_le [simp]:
  assumes "storable a \<or> a = -1" "storable b \<or> b = -1"
  shows "sort_key_of a \<le> sort_key_of b \<longleftrightarrow> a \<le> b"
  using sort_key_less[of b a] assms by (meson linorder_not_less)

lemma sort_key_eq [simp]:
  assumes "storable a \<or> a = -1" "storable b \<or> b = -1"
  shows "sort_key_of a = sort_key_of b \<longleftrightarrow> a = b"
  using sort_key_le[OF assms] sort_key_le[OF assms(2,1)] by (metis order_antisym order_refl)

text \<open>The empty text sorts below every key and \<^verbatim>\<open>"~"\<close> above every one: the open ends of a page.\<close>

lemma sort_key_bounds:
  assumes "storable n \<or> n = -1"
  shows "[] < sort_key_of n" "sort_key_of n \<le> ''~''"
proof -
  obtain c cs where k: "sort_key_of n = c # cs" and c: "is_digit c \<or> c = CHR ''-''"
  proof (cases "n = -1")
    case True
    then show ?thesis using that sort_key_sentinel by simp
  next
    case False
    then have "storable n" using assms by simp
    then show ?thesis using that sort_key_digits[of n] by (cases "sort_key_of n") auto
  qed
  show "[] < sort_key_of n" unfolding k by simp
  have "c < CHR ''~''" using c by (auto simp: less_char_def is_digit_def)
  then show "sort_key_of n \<le> ''~''" unfolding k by (simp add: less_imp_le Cons_less_Cons)
qed

text \<open>
  For any two sequence numbers the host can store, and for the sentinel -1 that stands before the
  first one, the sort keys exist, compare as text exactly as the numbers compare, and lie between the
  open ends "" and "~" that the page query uses.
\<close>

lemma sort_key_order:
  assumes "-1 \<le> a" "a \<le> MAX_HOST_EVENT_SEQUENCE" "-1 \<le> b" "b \<le> MAX_HOST_EVENT_SEQUENCE"
  shows "\<exists>ka kb. hostEventSequenceSortKey a = Inr ka \<and> hostEventSequenceSortKey b = Inr kb
           \<and> (ka < kb \<longleftrightarrow> a < b) \<and> (ka = kb \<longleftrightarrow> a = b) \<and> '''' < ka \<and> ka \<le> ''~''"
proof -
  have s: "storable a \<or> a = -1" "storable b \<or> b = -1" using assms by (auto simp: storable_def)
  show ?thesis
    using sort_key_ok[OF s(1)] sort_key_ok[OF s(2)] sort_key_bounds[OF s(1)] s by auto
qed

lemma sort_key_order_witness:
  "\<exists>ka kb. hostEventSequenceSortKey 9 = Inr ka \<and> hostEventSequenceSortKey 10 = Inr kb
           \<and> (ka < kb \<longleftrightarrow> (9::int) < 10) \<and> (ka = kb \<longleftrightarrow> (9::int) = 10) \<and> '''' < ka \<and> ka \<le> ''~''"
  using sort_key_order[of 9 10] by (simp add: MAX_HOST_EVENT_SEQUENCE_def)

end
