(* ===== verification/HostDb.thy ===== *)
theory HostDb
  imports HostSequence
begin

text \<open>
  The state an execution host keeps in its SQLite file (\<^verbatim>\<open>supervisor/src/host-state.ts\<close>,
  \<^verbatim>\<open>outbox-budget.ts\<close>, \<^verbatim>\<open>outbox-ack.ts\<close>, \<^verbatim>\<open>runtime-file-budget.ts\<close>) and the limits it runs
  under (\<^verbatim>\<open>runtime-limits.ts\<close>).  A table is the list of its rows; the counters that SQL triggers
  maintain are stored fields, written only by the trigger definitions below, so that their agreement
  with the rows is something to prove.  A transaction is a function that returns the new database or
  the error; on an error the database is the old one (\<^verbatim>\<open>ROLLBACK\<close>).
\<close>

section \<open>Limits\<close>

definition CONTROL_EVENT_MAX_BYTES :: int where "CONTROL_EVENT_MAX_BYTES = 16 * 1024"
definition EMERGENCY_EVENT_ROWS :: int where "EMERGENCY_EVENT_ROWS = 64"
definition EMERGENCY_EVENT_BYTES :: int where
  "EMERGENCY_EVENT_BYTES = EMERGENCY_EVENT_ROWS * CONTROL_EVENT_MAX_BYTES"
definition PRODUCER_BASE_CONTROL_ROWS :: int where "PRODUCER_BASE_CONTROL_ROWS = 18"
definition MAX_DECLARED_OUTPUT_BINDINGS :: int where "MAX_DECLARED_OUTPUT_BINDINGS = 32"
definition MAX_RECEIPT_BODY_BYTES :: int where "MAX_RECEIPT_BODY_BYTES = 2 * 1024 * 1024"
definition SQLITE_WRITE_HEADROOM_BYTES :: int where "SQLITE_WRITE_HEADROOM_BYTES = 8 * 1024 * 1024"
definition MAX_RUNTIME_EVENT_BYTES :: int where "MAX_RUNTIME_EVENT_BYTES = 1048576"

record runtime_limits =
  eventLowBytes :: int
  eventSoftBytes :: int
  eventHardBytes :: int
  eventLowRows :: int
  eventSoftRows :: int
  eventHardRows :: int
  eventControlBytes :: int
  eventControlRows :: int
  eventAckGraceMs :: int
  stateMaxBytes :: int
  objectLowBytes :: int
  objectSoftBytes :: int
  objectMaxBytes :: int
  runtimeMinFreeBytes :: int

definition DEFAULT_RUNTIME_LIMITS :: runtime_limits where
  "DEFAULT_RUNTIME_LIMITS = \<lparr>
     eventLowBytes = 320 * 1024 * 1024, eventSoftBytes = 400 * 1024 * 1024,
     eventHardBytes = 512 * 1024 * 1024,
     eventLowRows = 64000, eventSoftRows = 80000, eventHardRows = 100000,
     eventControlBytes = 16 * 1024 * 1024, eventControlRows = 1024,
     eventAckGraceMs = 24 * 60 * 60 * 1000,
     stateMaxBytes = 2 * 1024 * 1024 * 1024,
     objectLowBytes = 6 * 1024 * 1024 * 1024, objectSoftBytes = 8 * 1024 * 1024 * 1024,
     objectMaxBytes = 10 * 1024 * 1024 * 1024,
     runtimeMinFreeBytes = 1024 * 1024 * 1024 \<rparr>"

text \<open>\<^verbatim>\<open>Number.isSafeInteger\<close> on an integer.\<close>

definition safe_integer :: "int \<Rightarrow> bool" where
  "safe_integer n \<longleftrightarrow> \<bar>n\<bar> \<le> 2 ^ 53 - 1"

definition sqliteControlHeadroomBytes :: "runtime_limits \<Rightarrow> int" where
  "sqliteControlHeadroomBytes l =
     (let wallets = (eventControlRows l - EMERGENCY_EVENT_ROWS) div PRODUCER_BASE_CONTROL_ROWS
      in 2 * eventControlBytes l + eventControlRows l * 64 * 1024
         + wallets * (2 * MAX_RECEIPT_BODY_BYTES + 64 * 1024))"

definition validateRuntimeLimits :: "runtime_limits \<Rightarrow> host_error + runtime_limits" where
  "validateRuntimeLimits l =
     (let settings = [eventLowBytes l, eventSoftBytes l, eventHardBytes l, eventLowRows l, eventSoftRows l,
                      eventHardRows l, eventControlBytes l, eventControlRows l, eventAckGraceMs l,
                      stateMaxBytes l, objectLowBytes l, objectSoftBytes l, objectMaxBytes l,
                      runtimeMinFreeBytes l];
          minimumStateBytes = eventHardBytes l + eventControlBytes l + sqliteControlHeadroomBytes l
                                + SQLITE_WRITE_HEADROOM_BYTES
      in if \<not> list_all (\<lambda>v. safe_integer v \<and> 0 < v) settings then Inl RuntimeLimitsError
         else if \<not> (eventLowBytes l < eventSoftBytes l \<and> eventSoftBytes l < eventHardBytes l
                     \<and> eventLowRows l < eventSoftRows l \<and> eventSoftRows l < eventHardRows l
                     \<and> objectLowBytes l < objectSoftBytes l \<and> objectSoftBytes l < objectMaxBytes l)
         then Inl RuntimeLimitsError
         else if eventControlRows l < EMERGENCY_EVENT_ROWS + PRODUCER_BASE_CONTROL_ROWS
                 \<or> \<not> safe_integer (eventControlRows l * CONTROL_EVENT_MAX_BYTES)
                 \<or> eventControlBytes l < eventControlRows l * CONTROL_EVENT_MAX_BYTES
         then Inl RuntimeLimitsError
         else if \<not> safe_integer minimumStateBytes \<or> stateMaxBytes l \<le> minimumStateBytes
                 \<or> \<not> safe_integer (runtimeMinFreeBytes l + stateMaxBytes l + objectMaxBytes l)
         then Inl RuntimeLimitsError
         else Inr l)"

definition producerWalletRows :: "int \<Rightarrow> host_error + int" where
  "producerWalletRows outputBindingCount =
     (if \<not> safe_integer outputBindingCount \<or> outputBindingCount < 0
         \<or> outputBindingCount > MAX_DECLARED_OUTPUT_BINDINGS
      then Inl RuntimeLimitsError
      else Inr (PRODUCER_BASE_CONTROL_ROWS + outputBindingCount))"

text \<open>What boot validation establishes of the limits, as the later proofs use it.\<close>

definition limits_ok :: "runtime_limits \<Rightarrow> bool" where
  "limits_ok l \<longleftrightarrow> validateRuntimeLimits l = Inr l"

lemma limits_okD:
  assumes "limits_ok l"
  shows "eventLowBytes l < eventSoftBytes l" "eventSoftBytes l < eventHardBytes l"
    "eventLowRows l < eventSoftRows l" "eventSoftRows l < eventHardRows l"
    "objectLowBytes l < objectSoftBytes l" "objectSoftBytes l < objectMaxBytes l"
    "82 \<le> eventControlRows l" "eventControlRows l * CONTROL_EVENT_MAX_BYTES \<le> eventControlBytes l"
    "0 < eventLowBytes l" "0 < eventLowRows l" "0 < objectLowBytes l"
  using assms
  by (auto simp: limits_ok_def validateRuntimeLimits_def Let_def EMERGENCY_EVENT_ROWS_def
      PRODUCER_BASE_CONTROL_ROWS_def split: if_splits)

lemma default_limits_ok: "limits_ok DEFAULT_RUNTIME_LIMITS"
  by (simp add: limits_ok_def validateRuntimeLimits_def DEFAULT_RUNTIME_LIMITS_def safe_integer_def
      sqliteControlHeadroomBytes_def EMERGENCY_EVENT_ROWS_def PRODUCER_BASE_CONTROL_ROWS_def
      CONTROL_EVENT_MAX_BYTES_def MAX_RECEIPT_BODY_BYTES_def SQLITE_WRITE_HEADROOM_BYTES_def)

section \<open>Rows\<close>

datatype event_partition = Regular | Control | Emergency

record partition_usage =
  retained_count :: int
  retained_bytes :: int
  unacknowledged_count :: int
  unacknowledged_bytes :: int

record stream_row =
  st_id :: ident
  st_next_sequence :: string
  st_acknowledged_through :: "string option"
  st_acknowledged_sort_key :: "string option"
  st_replay_floor_sequence :: "string option"
  st_replay_floor_sort_key :: "string option"

record outbox_row =
  ob_stream :: ident
  ob_sequence :: string
  ob_sort_key :: string
  ob_event_id :: ident
  ob_envelope_json :: string
  ob_encoded_bytes :: int
  ob_occurred_at :: string
  ob_acknowledged_at :: "time option"
  ob_created_at :: time
  ob_partition :: event_partition

record ack_range =
  ar_stream :: ident
  ar_first :: string
  ar_through :: string
  ar_at :: time

record pressure_row =
  pr_pressured :: bool
  pr_since_ms :: "int option"
  pr_count_at_start :: "int option"
  pr_bytes_at_start :: "int option"
  pr_episodes :: int

record wallet_row =
  wl_id :: ident
  wl_run :: ident
  wl_assignment :: ident
  wl_epoch :: int
  wl_bindings :: int
  wl_remaining :: int
  wl_session :: "ident option"
  wl_ended :: bool
  wl_closed :: bool

record teardown_row =
  td_command :: ident
  td_wallet :: ident
  td_kind :: string
  td_remaining :: int
  td_completed :: bool

record frame_row =
  fr_id :: ident
  fr_boot :: ident
  fr_wallet :: ident
  fr_rows :: int
  fr_bytes :: int

datatype receipt_phase = Accepted | Completed | Rejected

record receipt_row =
  rc_command :: ident
  rc_run :: ident
  rc_kind :: string
  rc_assignment :: "ident option"
  rc_epoch :: int
  rc_session :: "ident option"
  rc_digest :: "string option"
  rc_schema :: "string option"
  rc_version :: int
  rc_host_key :: "ident option"
  rc_accepted_sequence :: "string option"
  rc_terminal_stream :: "ident option"
  rc_terminal_sequence :: "string option"
  rc_event :: "ident option"
  rc_phase :: receipt_phase
  rc_status :: int
  rc_body :: json
  rc_received_at :: time
  rc_completed_at :: "time option"
  rc_retired_at :: "time option"

record fence_row =
  fn_run :: ident
  fn_assignment :: ident
  fn_epoch :: int
  fn_updated_at :: time

datatype process_phase = Registered | Unproven | Released

record process_row =
  ps_command :: ident
  ps_run :: ident
  ps_assignment :: ident
  ps_epoch :: int
  ps_session :: "ident option"
  ps_group :: "int option"
  ps_phase :: process_phase
  ps_registered_at :: time
  ps_retired_at :: "time option"
  ps_boot :: "string option"
  ps_namespace :: "string option"
  ps_retired_boot :: "string option"

datatype file_kind = Object_file | Log_file | Spool_file | Legacy_file

record file_row =
  fl_id :: ident
  fl_path :: string
  fl_temporary :: "string option"
  fl_kind :: file_kind
  fl_wallet :: "ident option"
  fl_capacity :: int
  fl_written :: int
  fl_sealed :: bool
  fl_writer_boot :: "ident option"
  fl_writer_token :: "ident option"

record file_wallet_row =
  fw_id :: ident
  fw_remaining :: int

record file_credit_row =
  fc_reservation :: ident
  fc_wallet :: ident
  fc_remaining :: int

record file_budget_row =
  fb_charged :: int
  fb_written :: int
  fb_pressured :: bool

record host_db =
  h_streams :: "stream_row list"
  h_outbox :: "outbox_row list"
  h_ack_ranges :: "ack_range list"
  h_budget :: "event_partition \<Rightarrow> partition_usage"
  h_pressure :: pressure_row
  h_wallets :: "wallet_row list"
  h_teardowns :: "teardown_row list"
  h_frames :: "frame_row list"
  h_receipts :: "receipt_row list"
  h_fences :: "fence_row list"
  h_processes :: "process_row list"
  h_file_budget :: file_budget_row
  h_file_wallets :: "file_wallet_row list"
  h_files :: "file_row list"
  h_file_credits :: "file_credit_row list"
  h_file_progress :: "(ident \<times> int) list"

definition no_usage :: partition_usage where
  "no_usage = \<lparr>retained_count = 0, retained_bytes = 0, unacknowledged_count = 0, unacknowledged_bytes = 0\<rparr>"

text \<open>The file as the schema creates it: empty tables, zeroed counter rows.\<close>

definition empty_host_db :: host_db where
  "empty_host_db = \<lparr>
     h_streams = [], h_outbox = [], h_ack_ranges = [], h_budget = (\<lambda>_. no_usage),
     h_pressure = \<lparr>pr_pressured = False, pr_since_ms = None, pr_count_at_start = None,
                   pr_bytes_at_start = None, pr_episodes = 0\<rparr>,
     h_wallets = [], h_teardowns = [], h_frames = [], h_receipts = [], h_fences = [], h_processes = [],
     h_file_budget = \<lparr>fb_charged = 0, fb_written = 0, fb_pressured = False\<rparr>,
     h_file_wallets = [], h_files = [], h_file_credits = [], h_file_progress = []\<rparr>"

text \<open>Equality of two nullable columns in SQL: \<^verbatim>\<open>NULL\<close> equals nothing.\<close>

definition sql_eq :: "'a option \<Rightarrow> 'a option \<Rightarrow> bool" where
  "sql_eq a b \<longleftrightarrow> a = b \<and> a \<noteq> None"

lemma sql_eq_simps [simp]:
  "\<not> sql_eq None b" "\<not> sql_eq a None" "sql_eq (Some x) (Some y) \<longleftrightarrow> x = y"
  by (auto simp: sql_eq_def)

definition sum_rows :: "('r \<Rightarrow> int) \<Rightarrow> 'r list \<Rightarrow> int" where
  "sum_rows f rows = sum_list (map f rows)"

lemma sum_rows_simps [simp]:
  "sum_rows f [] = 0"
  "sum_rows f (r # rows) = f r + sum_rows f rows"
  "sum_rows f (xs @ ys) = sum_rows f xs + sum_rows f ys"
  by (simp_all add: sum_rows_def)

lemma sum_rows_nonneg: "(\<And>r. r \<in> set rows \<Longrightarrow> 0 \<le> f r) \<Longrightarrow> 0 \<le> sum_rows f rows"
  by (induction rows) (simp_all add: add_nonneg_nonneg)

lemma sum_rows_cong: "(\<And>r. r \<in> set rows \<Longrightarrow> f r = g r) \<Longrightarrow> sum_rows f rows = sum_rows g rows"
  by (induction rows) simp_all

lemma sum_rows_le: "(\<And>r. r \<in> set rows \<Longrightarrow> f r \<le> g r) \<Longrightarrow> sum_rows f rows \<le> sum_rows g rows"
  by (induction rows) (simp_all add: add_mono)

lemma sum_rows_partition: "sum_rows f rows = sum_rows f (filter P rows) + sum_rows f (filter (\<lambda>r. \<not> P r) rows)"
  by (induction rows) simp_all

lemma sum_rows_update:
  "sum_rows f (sql_update P g rows) = sum_rows (\<lambda>r. if P r then f (g r) else f r) rows"
  by (induction rows) (simp_all add: sql_update_def)

lemma sum_rows_diff: "sum_rows f rows - sum_rows g rows = sum_rows (\<lambda>r. f r - g r) rows"
  by (induction rows) simp_all

lemma sum_rows_filter: "sum_rows f (filter P rows) = sum_rows (\<lambda>r. if P r then f r else 0) rows"
  by (induction rows) simp_all

text \<open>A key selects at most one row.\<close>

lemma key_filter_le: "distinct (map k rows) \<Longrightarrow> length (filter (\<lambda>r. k r = x) rows) \<le> 1"
proof (induction rows)
  case (Cons r rows)
  then have "k r = x \<Longrightarrow> filter (\<lambda>r. k r = x) rows = []" by (auto simp: filter_empty_conv image_iff)
  with Cons show ?case by auto
qed simp

lemma key_filter_one:
  assumes "distinct (map k rows)" "r \<in> set rows"
  shows "filter (\<lambda>s. k s = k r) rows = [r]"
proof -
  have "r \<in> set (filter (\<lambda>s. k s = k r) rows)" using assms(2) by simp
  then show ?thesis using key_filter_le[OF assms(1), of "k r"]
    by (cases "filter (\<lambda>s. k s = k r) rows") auto
qed

text \<open>A change to the one row with a given key changes a sum by that row's difference.\<close>

lemma sum_rows_one:
  assumes "distinct (map k rows)" and "r \<in> set rows" and "\<And>x. x \<in> set rows \<Longrightarrow> P x \<longleftrightarrow> k x = k r"
  shows "sum_rows f (sql_update P g rows) = sum_rows f rows + f (g r) - f r"
  using assms
proof (induction rows)
  case (Cons x xs)
  show ?case
  proof (cases "k x = k r")
    case True
    then have "r \<notin> set xs" using Cons.prems(1) by (metis distinct.simps(2) image_eqI list.simps(9) set_map)
    then have x: "x = r" using Cons.prems(2) by auto
    have "\<not> P y" if "y \<in> set xs" for y
    proof -
      have "k y \<noteq> k r" using Cons.prems(1) x that by (metis distinct.simps(2) image_eqI list.simps(9) set_map)
      then show ?thesis using Cons.prems(3)[of y] that by simp
    qed
    then have "sql_update P g xs = xs" by (rule sql_update_none)
    then show ?thesis using x Cons.prems(3)[of x] by (simp add: sql_update_def)
  next
    case False
    then show ?thesis using Cons by (auto simp: sql_update_def)
  qed
qed simp

section \<open>Triggers\<close>

text \<open>\<^verbatim>\<open>runtime_event_budget_insert\<close>: a stored event is charged to its partition.\<close>

definition bump_usage ::
  "event_partition \<Rightarrow> (partition_usage \<Rightarrow> partition_usage) \<Rightarrow> (event_partition \<Rightarrow> partition_usage)
     \<Rightarrow> event_partition \<Rightarrow> partition_usage" where
  "bump_usage p f b = b(p := f (b p))"

definition insert_outbox :: "outbox_row \<Rightarrow> host_db \<Rightarrow> host_db" where
  "insert_outbox r d =
     d\<lparr>h_outbox := h_outbox d @ [r],
       h_budget := bump_usage (ob_partition r)
         (\<lambda>u. u\<lparr>retained_count := retained_count u + 1,
                retained_bytes := retained_bytes u + ob_encoded_bytes r,
                unacknowledged_count := unacknowledged_count u + (if ob_acknowledged_at r = None then 1 else 0),
                unacknowledged_bytes := unacknowledged_bytes u
                  + (if ob_acknowledged_at r = None then ob_encoded_bytes r else 0)\<rparr>)
         (h_budget d)\<rparr>"

text \<open>
  \<^verbatim>\<open>runtime_event_budget_delete_v8\<close>: a deleted event is credited back; it counts as unacknowledged
  exactly when its key is above the stream's watermark.
\<close>

definition stream_ack_key :: "host_db \<Rightarrow> ident \<Rightarrow> string" where
  "stream_ack_key d s =
     (case find (\<lambda>r. st_id r = s) (h_streams d) of
        None \<Rightarrow> [] | Some r \<Rightarrow> (case st_acknowledged_sort_key r of None \<Rightarrow> [] | Some k \<Rightarrow> k))"

definition row_pending :: "host_db \<Rightarrow> outbox_row \<Rightarrow> bool" where
  "row_pending d r \<longleftrightarrow> stream_ack_key d (ob_stream r) < ob_sort_key r"

definition discharge_row :: "host_db \<Rightarrow> outbox_row \<Rightarrow> (event_partition \<Rightarrow> partition_usage)
    \<Rightarrow> event_partition \<Rightarrow> partition_usage" where
  "discharge_row d r =
     bump_usage (ob_partition r)
       (\<lambda>u. u\<lparr>retained_count := retained_count u - 1,
              retained_bytes := retained_bytes u - ob_encoded_bytes r,
              unacknowledged_count := unacknowledged_count u - (if row_pending d r then 1 else 0),
              unacknowledged_bytes := unacknowledged_bytes u - (if row_pending d r then ob_encoded_bytes r else 0)\<rparr>)"

definition delete_outbox :: "(outbox_row \<Rightarrow> bool) \<Rightarrow> host_db \<Rightarrow> host_db" where
  "delete_outbox P d =
     d\<lparr>h_outbox := filter (\<lambda>r. \<not> P r) (h_outbox d),
       h_budget := fold (discharge_row d) (filter P (h_outbox d)) (h_budget d)\<rparr>"

text \<open>The triggers of \<^verbatim>\<open>runtime_file_wallets\<close>: the charged counter follows every change of the column.\<close>

definition update_file_wallets ::
  "(file_wallet_row \<Rightarrow> bool) \<Rightarrow> (int \<Rightarrow> int) \<Rightarrow> host_db \<Rightarrow> host_db" where
  "update_file_wallets P f d =
     d\<lparr>h_file_wallets := sql_update P (\<lambda>w. w\<lparr>fw_remaining := f (fw_remaining w)\<rparr>) (h_file_wallets d),
       h_file_budget := (h_file_budget d)\<lparr>fb_charged := fb_charged (h_file_budget d)
         + sum_rows (\<lambda>w. f (fw_remaining w) - fw_remaining w) (filter P (h_file_wallets d))\<rparr>\<rparr>"

definition insert_file_wallet :: "file_wallet_row \<Rightarrow> host_db \<Rightarrow> host_db" where
  "insert_file_wallet w d =
     d\<lparr>h_file_wallets := h_file_wallets d @ [w],
       h_file_budget := (h_file_budget d)\<lparr>fb_charged := fb_charged (h_file_budget d) + fw_remaining w\<rparr>\<rparr>"

text \<open>
  \<^verbatim>\<open>UPDATE runtime_event_wallets SET remaining_rows = 0, closed = 1\<close>, with the trigger
  \<^verbatim>\<open>runtime_file_wallet_close\<close>: closing a wallet that was open drops its file reservation.
\<close>

definition close_wallets :: "(wallet_row \<Rightarrow> bool) \<Rightarrow> host_db \<Rightarrow> host_db" where
  "close_wallets P d =
     (let newly = map wl_id (filter (\<lambda>w. P w \<and> \<not> wl_closed w) (h_wallets d));
          d' = d\<lparr>h_wallets := sql_update P (\<lambda>w. w\<lparr>wl_remaining := 0, wl_closed := True\<rparr>) (h_wallets d)\<rparr>
      in update_file_wallets (\<lambda>w. fw_id w \<in> set newly) (\<lambda>_. 0) d')"

end
