(* ===== verification/OutboxBudget.thy ===== *)
theory OutboxBudget
  imports HostDb
begin

text \<open>
  Admission control of the execution host's event outbox (\<^verbatim>\<open>supervisor/src/outbox-budget.ts\<close>): the
  pressure bit with its two thresholds, the reservations a producer holds (its wallet of control rows,
  the credit of a teardown command, the rows and bytes of an output frame), and the spending of one
  event against them.  Every function takes the database and returns the new one or the error; the
  caller's transaction rolls back on an error.
\<close>

section \<open>Snapshots\<close>

record budget_snapshot =
  sn_regular :: partition_usage
  sn_control :: partition_usage
  sn_emergency :: partition_usage
  sn_reservedControlRows :: int
  sn_reservedControlBytes :: int
  sn_reservedRegularRows :: int
  sn_reservedRegularBytes :: int
  sn_pressured :: bool

definition control_rows_reserved :: "host_db \<Rightarrow> int" where
  "control_rows_reserved d =
     sum_rows wl_remaining (filter (\<lambda>w. \<not> wl_closed w) (h_wallets d))
     + sum_rows td_remaining (filter (\<lambda>t. \<not> td_completed t) (h_teardowns d))"

definition outboxBudgetSnapshot :: "host_db \<Rightarrow> budget_snapshot" where
  "outboxBudgetSnapshot d = \<lparr>
     sn_regular = h_budget d Regular, sn_control = h_budget d Control, sn_emergency = h_budget d Emergency,
     sn_reservedControlRows = control_rows_reserved d,
     sn_reservedControlBytes = control_rows_reserved d * CONTROL_EVENT_MAX_BYTES,
     sn_reservedRegularRows = sum_rows fr_rows (h_frames d),
     sn_reservedRegularBytes = sum_rows fr_bytes (h_frames d),
     sn_pressured = pr_pressured (h_pressure d)\<rparr>"

definition unacknowledgedAtThreshold :: "partition_usage \<Rightarrow> int \<Rightarrow> int \<Rightarrow> bool" where
  "unacknowledgedAtThreshold used bytes rows \<longleftrightarrow>
     unacknowledged_bytes used \<ge> bytes \<or> unacknowledged_count used \<ge> rows"

definition retainedAtThreshold :: "partition_usage \<Rightarrow> int \<Rightarrow> int \<Rightarrow> bool" where
  "retainedAtThreshold used bytes rows \<longleftrightarrow> retained_bytes used \<ge> bytes \<or> retained_count used \<ge> rows"

definition reservedRegularUsage :: "budget_snapshot \<Rightarrow> partition_usage" where
  "reservedRegularUsage s = \<lparr>
     retained_count = retained_count (sn_regular s) + sn_reservedRegularRows s,
     retained_bytes = retained_bytes (sn_regular s) + sn_reservedRegularBytes s,
     unacknowledged_count = unacknowledged_count (sn_regular s) + sn_reservedRegularRows s,
     unacknowledged_bytes = unacknowledged_bytes (sn_regular s) + sn_reservedRegularBytes s\<rparr>"

section \<open>The pressure bit\<close>

definition next_pressure :: "runtime_limits \<Rightarrow> host_db \<Rightarrow> bool" where
  "next_pressure l d =
     (let s = outboxBudgetSnapshot d; regular = reservedRegularUsage s
      in if sn_pressured s then unacknowledgedAtThreshold regular (eventLowBytes l) (eventLowRows l)
         else unacknowledgedAtThreshold regular (eventSoftBytes l) (eventSoftRows l))"

definition refreshOutboxBudget :: "runtime_limits \<Rightarrow> int \<Rightarrow> host_db \<Rightarrow> budget_snapshot \<times> host_db" where
  "refreshOutboxBudget l nowMs d =
     (let s = outboxBudgetSnapshot d;
          regular = reservedRegularUsage s;
          pressured = next_pressure l d;
          p = h_pressure d;
          d' = (if sn_pressured s = pressured then d
                else if pressured
                then d\<lparr>h_pressure := p\<lparr>pr_pressured := True, pr_since_ms := Some nowMs,
                        pr_count_at_start := Some (unacknowledged_count regular),
                        pr_bytes_at_start := Some (unacknowledged_bytes regular)\<rparr>\<rparr>
                else d\<lparr>h_pressure := p\<lparr>pr_pressured := False, pr_since_ms := None,
                        pr_count_at_start := None, pr_bytes_at_start := None,
                        pr_episodes := pr_episodes p + 1\<rparr>\<rparr>)
      in (s\<lparr>sn_pressured := pressured\<rparr>, d'))"

section \<open>Frames\<close>

definition FRAME_EVENT_ROWS :: int where "FRAME_EVENT_ROWS = 4"
definition FRAME_EVENT_BYTES :: int where "FRAME_EVENT_BYTES = FRAME_EVENT_ROWS * 1048576"

definition frameFitsUnderHard :: "budget_snapshot \<Rightarrow> runtime_limits \<Rightarrow> bool" where
  "frameFitsUnderHard s l \<longleftrightarrow>
     (let used = reservedRegularUsage s
      in retained_bytes used + FRAME_EVENT_BYTES \<le> eventHardBytes l
         \<and> retained_count used + FRAME_EVENT_ROWS \<le> eventHardRows l)"

definition wallet_open :: "host_db \<Rightarrow> ident \<Rightarrow> bool" where
  "wallet_open d w \<longleftrightarrow> list_ex (\<lambda>r. wl_id r = w \<and> \<not> wl_closed r) (h_wallets d)"

definition reserveFrameCapacity ::
  "runtime_limits \<Rightarrow> ident \<Rightarrow> ident \<Rightarrow> ident \<Rightarrow> int \<Rightarrow> host_db \<Rightarrow> host_error + (bool \<times> host_db)" where
  "reserveFrameCapacity l reservationId bootId walletId nowMs d0 =
     (let (s, d) = refreshOutboxBudget l nowMs d0
      in if sn_pressured s \<or> \<not> frameFitsUnderHard s l then Inr (False, d)
         else if \<not> wallet_open d walletId then Inl (HostRuntimeEventError Event_outbox_wallet_exhausted)
         else if list_ex (\<lambda>f. fr_id f = reservationId) (h_frames d) then Inl SqliteConstraint
         else Inr (True, d\<lparr>h_frames := h_frames d @ [\<lparr>fr_id = reservationId, fr_boot = bootId,
                            fr_wallet = walletId, fr_rows = FRAME_EVENT_ROWS, fr_bytes = FRAME_EVENT_BYTES\<rparr>]\<rparr>))"

definition outboxRefusesFrames :: "host_db \<Rightarrow> runtime_limits \<Rightarrow> bool" where
  "outboxRefusesFrames d l \<longleftrightarrow>
     (let s = outboxBudgetSnapshot d in sn_pressured s \<or> \<not> frameFitsUnderHard s l)"

section \<open>Admission\<close>

definition assertRetainedBelowHard :: "runtime_limits \<Rightarrow> host_db \<Rightarrow> host_error + host_db" where
  "assertRetainedBelowHard l d =
     (if retainedAtThreshold (reservedRegularUsage (outboxBudgetSnapshot d)) (eventHardBytes l) (eventHardRows l)
      then Inl (HostRuntimeEventError Event_outbox_hard_limit) else Inr d)"

definition assertOutboxAdmission :: "runtime_limits \<Rightarrow> int \<Rightarrow> host_db \<Rightarrow> host_error + host_db" where
  "assertOutboxAdmission l nowMs d0 =
     (let (s, d) = refreshOutboxBudget l nowMs d0
      in if sn_pressured s then Inl (HostRuntimeEventError Event_outbox_soft_limit)
         else assertRetainedBelowHard l d)"

definition assertStoredOutboxFits :: "host_db \<Rightarrow> runtime_limits \<Rightarrow> host_error + unit" where
  "assertStoredOutboxFits d l =
     (let s = outboxBudgetSnapshot d
      in if retained_bytes (sn_regular s) > eventHardBytes l \<or> retained_count (sn_regular s) > eventHardRows l
         then Inl (HostRuntimeEventError Event_outbox_hard_limit)
         else if retained_count (sn_control s) + sn_reservedControlRows s > eventControlRows l - EMERGENCY_EVENT_ROWS
                 \<or> retained_bytes (sn_control s) + sn_reservedControlBytes s > eventControlBytes l - EMERGENCY_EVENT_BYTES
         then Inl (HostRuntimeEventError Event_outbox_terminal_reserve_exhausted)
         else Inr ())"

definition controlFundsProducerWallet :: "budget_snapshot \<Rightarrow> runtime_limits \<Rightarrow> int \<Rightarrow> bool" where
  "controlFundsProducerWallet s l rows \<longleftrightarrow>
     retained_count (sn_control s) + sn_reservedControlRows s + rows \<le> eventControlRows l - EMERGENCY_EVENT_ROWS
     \<and> retained_bytes (sn_control s) + sn_reservedControlBytes s + rows * CONTROL_EVENT_MAX_BYTES
         \<le> eventControlBytes l - EMERGENCY_EVENT_BYTES"

record wallet_binding =
  wb_wallet :: ident
  wb_run :: ident
  wb_assignment :: ident
  wb_epoch :: int
  wb_bindings :: int

definition reserveProducerWallet ::
  "runtime_limits \<Rightarrow> wallet_binding \<Rightarrow> int \<Rightarrow> host_db \<Rightarrow> host_error + host_db" where
  "reserveProducerWallet l b nowMs d =
     rbind (producerWalletRows (wb_bindings b)) (\<lambda>rows.
       case find (\<lambda>w. wl_id w = wb_wallet b) (h_wallets d) of
         Some e \<Rightarrow>
           (if wl_closed e then Inl (HostRuntimeEventError Command_invariant_conflict)
            else if wl_run e \<noteq> wb_run b \<or> wl_assignment e \<noteq> wb_assignment b \<or> wl_epoch e \<noteq> wb_epoch b
                    \<or> wl_bindings e \<noteq> wb_bindings b
            then Inl (HostRuntimeEventError Stream_identity_conflict)
            else Inr d)
       | None \<Rightarrow>
           rbind (assertOutboxAdmission l nowMs d) (\<lambda>d'.
             if \<not> controlFundsProducerWallet (outboxBudgetSnapshot d') l rows
             then Inl (HostRuntimeEventError Event_outbox_terminal_reserve_exhausted)
             else Inr (d'\<lparr>h_wallets := h_wallets d' @ [\<lparr>wl_id = wb_wallet b, wl_run = wb_run b,
                    wl_assignment = wb_assignment b, wl_epoch = wb_epoch b, wl_bindings = wb_bindings b,
                    wl_remaining = rows, wl_session = None, wl_ended = False, wl_closed = False\<rparr>]\<rparr>)))"

text \<open>The limit a new create without output bindings, or a new prompt, would meet: the health signal.\<close>

definition outboxRefusesNewWork :: "host_db \<Rightarrow> runtime_limits \<Rightarrow> outbox_limit option" where
  "outboxRefusesNewWork d l =
     (let s = outboxBudgetSnapshot d
      in if sn_pressured s then Some Unacknowledged
         else if retainedAtThreshold (reservedRegularUsage s) (eventHardBytes l) (eventHardRows l)
         then Some Retained
         else case producerWalletRows 0 of
                Inl _ \<Rightarrow> None
              | Inr rows \<Rightarrow> if \<not> controlFundsProducerWallet s l rows then Some Control_limit else None)"

definition closeProducerWallet :: "ident \<Rightarrow> host_db \<Rightarrow> host_db" where
  "closeProducerWallet walletId d = close_wallets (\<lambda>w. wl_id w = walletId) d"

datatype receipt_admission =
    New_work | Producer int | Resolve | Teardown "ident option"

definition SESSION_TEARDOWN_KINDS :: "string list" where
  "SESSION_TEARDOWN_KINDS = [''session.cancel'', ''session.checkpoint'', ''session.delete'']"

definition TEARDOWN_KINDS :: "string list" where
  "TEARDOWN_KINDS = SESSION_TEARDOWN_KINDS @ [''workspace.release'', ''runtime_object.delete'']"

definition teardown_fundable :: "host_db \<Rightarrow> receipt_row \<Rightarrow> ident \<Rightarrow> wallet_row \<Rightarrow> bool" where
  "teardown_fundable d r walletId w \<longleftrightarrow>
     wl_id w = walletId \<and> wl_run w = rc_run r
     \<and> ((sql_eq (Some (wl_assignment w)) (rc_assignment r) \<and> wl_epoch w = rc_epoch r)
        \<or> (wl_epoch w < rc_epoch r
           \<and> list_ex (\<lambda>f. fn_run f = wl_run w \<and> sql_eq (Some (fn_assignment f)) (rc_assignment r)
                            \<and> fn_epoch f = rc_epoch r) (h_fences d)))
     \<and> \<not> wl_closed w \<and> wl_remaining w \<ge> 2"

definition admitTeardown ::
  "runtime_limits \<Rightarrow> receipt_row \<Rightarrow> ident option \<Rightarrow> int \<Rightarrow> host_db \<Rightarrow> host_error + host_db" where
  "admitTeardown l r walletId nowMs d =
     (if rc_kind r \<notin> set TEARDOWN_KINDS then Inl (HostRuntimeEventError Stream_identity_conflict)
      else case walletId of
        None \<Rightarrow> Inr d
      | Some wid \<Rightarrow>
         if rc_kind r \<notin> set SESSION_TEARDOWN_KINDS \<or> \<not> wallet_open d wid then Inr d
         else if list_ex (\<lambda>t. td_wallet t = wid \<and> \<not> td_completed t) (h_teardowns d)
         then Inl (HostRuntimeEventError Event_outbox_wallet_exhausted)
         else let (s, d') = refreshOutboxBudget l nowMs d
              in if sn_pressured s \<and> list_ex (\<lambda>t. td_wallet t = wid \<and> td_kind t = rc_kind r) (h_teardowns d')
                 then Inl (HostRuntimeEventError Event_outbox_wallet_exhausted)
                 else if length (filter (teardown_fundable d' r wid) (h_wallets d')) \<noteq> 1
                 then Inl (HostRuntimeEventError Event_outbox_wallet_exhausted)
                 else if list_ex (\<lambda>t. td_command t = rc_command r) (h_teardowns d') then Inl SqliteConstraint
                 else Inr (d'\<lparr>h_wallets := sql_update (teardown_fundable d' r wid)
                                 (\<lambda>w. w\<lparr>wl_remaining := wl_remaining w - 2\<rparr>) (h_wallets d'),
                             h_teardowns := h_teardowns d' @ [\<lparr>td_command = rc_command r, td_wallet = wid,
                                 td_kind = rc_kind r, td_remaining = 2, td_completed = False\<rparr>]\<rparr>))"

definition receipt_known :: "host_db \<Rightarrow> ident \<Rightarrow> bool" where
  "receipt_known d c \<longleftrightarrow> list_ex (\<lambda>r. rc_command r = c) (h_receipts d)"

definition admitReceipt ::
  "runtime_limits \<Rightarrow> receipt_row \<Rightarrow> receipt_admission \<Rightarrow> int \<Rightarrow> host_db \<Rightarrow> host_error + host_db" where
  "admitReceipt l r admission nowMs d =
     (if rc_phase r \<noteq> Accepted \<or> receipt_known d (rc_command r) then Inr d
      else case admission of
        Producer n \<Rightarrow>
          (case rc_assignment r of
             None \<Rightarrow> Inl (HostRuntimeEventError Stream_identity_conflict)
           | Some a \<Rightarrow>
               if rc_kind r \<noteq> ''session.create'' then Inl (HostRuntimeEventError Stream_identity_conflict)
               else reserveProducerWallet l \<lparr>wb_wallet = rc_command r, wb_run = rc_run r, wb_assignment = a,
                      wb_epoch = rc_epoch r, wb_bindings = n\<rparr> nowMs d)
      | New_work \<Rightarrow>
          rbind (assertOutboxAdmission l nowMs d) (\<lambda>d'.
            if rc_kind r = ''session.prompt'' \<and> rc_session r \<noteq> None
               \<and> list_ex (\<lambda>q. sql_eq (rc_session q) (rc_session r) \<and> rc_kind q = ''session.prompt''
                               \<and> rc_phase q = Accepted) (h_receipts d')
            then Inl (HostRuntimeEventError Command_in_progress) else Inr d')
      | Resolve \<Rightarrow> assertRetainedBelowHard l d
      | Teardown walletId \<Rightarrow> admitTeardown l r walletId nowMs d)"

section \<open>Settlement\<close>

definition wallet_releasable :: "host_db \<Rightarrow> wallet_row \<Rightarrow> bool" where
  "wallet_releasable d w \<longleftrightarrow>
     wl_ended w \<and> \<not> wl_closed w
     \<and> \<not> list_ex (\<lambda>r. rc_phase r = Accepted
                     \<and> (sql_eq (rc_session r) (wl_session w) \<or> rc_command r = wl_id w)) (h_receipts d)
     \<and> \<not> list_ex (\<lambda>t. td_wallet t = wl_id w \<and> \<not> td_completed t) (h_teardowns d)"

definition releaseEndedWallets :: "host_db \<Rightarrow> host_db" where
  "releaseEndedWallets d = close_wallets (wallet_releasable d) d"

definition settleReceiptBudget :: "receipt_row \<Rightarrow> host_db \<Rightarrow> host_db" where
  "settleReceiptBudget r d =
     (if rc_phase r = Accepted then d
      else let d1 = (if rc_kind r = ''session.create'' \<and> rc_phase r = Rejected
                     then d\<lparr>h_wallets := sql_update (\<lambda>w. wl_id w = rc_command r \<and> wl_session w = None)
                              (\<lambda>w. w\<lparr>wl_ended := True\<rparr>) (h_wallets d)\<rparr>
                     else d);
               d2 = (case find (\<lambda>t. td_command t = rc_command r \<and> \<not> td_completed t) (h_teardowns d1) of
                       None \<Rightarrow> d1
                     | Some t \<Rightarrow>
                         d1\<lparr>h_wallets := sql_update (\<lambda>w. wl_id w = td_wallet t \<and> \<not> wl_closed w)
                               (\<lambda>w. w\<lparr>wl_remaining := wl_remaining w + td_remaining t\<rparr>) (h_wallets d1),
                            h_teardowns := sql_update (\<lambda>u. td_command u = rc_command r)
                               (\<lambda>u. u\<lparr>td_remaining := 0, td_completed := True\<rparr>) (h_teardowns d1)\<rparr>)
           in releaseEndedWallets d2)"

text \<open>The unique index on \<^verbatim>\<open>host_session_id\<close> refuses a session another wallet already holds.\<close>

definition markProducerEnded :: "ident \<Rightarrow> ident \<Rightarrow> host_db \<Rightarrow> host_error + host_db" where
  "markProducerEnded walletId hostSessionId d =
     (if list_ex (\<lambda>w. wl_id w = walletId) (h_wallets d)
         \<and> list_ex (\<lambda>w. wl_id w \<noteq> walletId \<and> wl_session w = Some hostSessionId) (h_wallets d)
      then Inl SqliteConstraint
      else Inr (releaseEndedWallets
             (d\<lparr>h_wallets := sql_update (\<lambda>w. wl_id w = walletId)
                  (\<lambda>w. w\<lparr>wl_ended := True, wl_session := Some hostSessionId\<rparr>) (h_wallets d)\<rparr>)))"

section \<open>Spending\<close>

datatype event_funding =
    Fund_regular "ident option" bool
  | Fund_control ident "ident option"
  | Fund_emergency

definition spendEmergency :: "int \<Rightarrow> host_db \<Rightarrow> host_error + event_partition" where
  "spendEmergency encodedBytes d =
     (let used = h_budget d Emergency
      in if encodedBytes > CONTROL_EVENT_MAX_BYTES
         then Inl (HostRuntimeEventError Event_outbox_wallet_exhausted)
         else if retained_bytes used + encodedBytes > EMERGENCY_EVENT_BYTES
                 \<or> retained_count used + 1 > EMERGENCY_EVENT_ROWS
         then Inl (HostRuntimeEventError Event_outbox_wallet_exhausted)
         else Inr Emergency)"

record event_identity =
  ei_run :: ident
  ei_assignment :: ident
  ei_epoch :: int

definition wallet_matches :: "event_identity \<Rightarrow> wallet_row \<Rightarrow> bool" where
  "wallet_matches i w \<longleftrightarrow> wl_run w = ei_run i \<and> wl_assignment w = ei_assignment i \<and> wl_epoch w = ei_epoch i"

definition frame_spendable :: "host_db \<Rightarrow> event_identity \<Rightarrow> ident \<Rightarrow> int \<Rightarrow> frame_row \<Rightarrow> bool" where
  "frame_spendable d i rid bytes f \<longleftrightarrow>
     fr_id f = rid \<and> fr_rows f > 0 \<and> fr_bytes f \<ge> bytes
     \<and> list_ex (\<lambda>w. wl_id w = fr_wallet f \<and> wallet_matches i w) (h_wallets d)"

definition spend_frame :: "event_identity \<Rightarrow> ident \<Rightarrow> int \<Rightarrow> host_db \<Rightarrow> host_error + host_db" where
  "spend_frame i rid bytes d =
     (if length (filter (frame_spendable d i rid bytes) (h_frames d)) \<noteq> 1
      then Inl (HostRuntimeEventError Event_outbox_wallet_exhausted)
      else Inr (d\<lparr>h_frames := sql_update (frame_spendable d i rid bytes)
                    (\<lambda>f. f\<lparr>fr_rows := fr_rows f - 1, fr_bytes := fr_bytes f - bytes\<rparr>) (h_frames d)\<rparr>))"

definition over_hard :: "runtime_limits \<Rightarrow> int \<Rightarrow> host_db \<Rightarrow> bool" where
  "over_hard l encodedBytes d \<longleftrightarrow>
     (let regular = reservedRegularUsage (outboxBudgetSnapshot d)
      in retained_bytes regular + encodedBytes > eventHardBytes l
         \<or> unacknowledged_bytes regular + encodedBytes > eventHardBytes l
         \<or> retained_count regular + 1 > eventHardRows l
         \<or> unacknowledged_count regular + 1 > eventHardRows l)"

definition teardown_spendable :: "host_db \<Rightarrow> event_identity \<Rightarrow> ident \<Rightarrow> ident \<Rightarrow> teardown_row \<Rightarrow> bool" where
  "teardown_spendable d i cid wid t \<longleftrightarrow>
     td_command t = cid \<and> td_wallet t = wid \<and> \<not> td_completed t \<and> td_remaining t > 0
     \<and> list_ex (\<lambda>w. wl_id w = td_wallet t \<and> wallet_matches i w) (h_wallets d)"

definition wallet_spendable :: "event_identity \<Rightarrow> ident \<Rightarrow> wallet_row \<Rightarrow> bool" where
  "wallet_spendable i wid w \<longleftrightarrow> wl_id w = wid \<and> wallet_matches i w \<and> \<not> wl_closed w \<and> wl_remaining w > 0"

definition spend_control ::
  "event_identity \<Rightarrow> ident \<Rightarrow> ident option \<Rightarrow> host_db \<Rightarrow> host_error + host_db" where
  "spend_control i wid cid d =
     (if (\<exists>c \<in> set_option cid. list_ex (\<lambda>t. td_command t = c \<and> td_wallet t = wid) (h_teardowns d))
      then (if length (filter (teardown_spendable d i (the cid) wid) (h_teardowns d)) \<noteq> 1
            then Inl (HostRuntimeEventError Event_outbox_wallet_exhausted)
            else Inr (d\<lparr>h_teardowns := sql_update (teardown_spendable d i (the cid) wid)
                          (\<lambda>t. t\<lparr>td_remaining := td_remaining t - 1\<rparr>) (h_teardowns d)\<rparr>))
      else if length (filter (wallet_spendable i wid) (h_wallets d)) \<noteq> 1
      then Inl (HostRuntimeEventError Event_outbox_wallet_exhausted)
      else Inr (d\<lparr>h_wallets := sql_update (wallet_spendable i wid)
                    (\<lambda>w. w\<lparr>wl_remaining := wl_remaining w - 1\<rparr>) (h_wallets d)\<rparr>))"

definition spendEventCapacity ::
  "runtime_limits \<Rightarrow> event_funding \<Rightarrow> int \<Rightarrow> event_identity \<Rightarrow> host_db
     \<Rightarrow> host_error + (event_partition \<times> host_db)" where
  "spendEventCapacity l funding encodedBytes i d =
     (case funding of
        Fund_regular reservation overflow \<Rightarrow>
          rbind (case reservation of None \<Rightarrow> Inr d | Some rid \<Rightarrow> spend_frame i rid encodedBytes d) (\<lambda>d'.
            if over_hard l encodedBytes d'
            then (if overflow \<and> reservation = None
                  then rbind (spendEmergency encodedBytes d') (\<lambda>p. Inr (p, d'))
                  else Inl (HostRuntimeEventError Event_outbox_hard_limit))
            else Inr (Regular, d'))
      | Fund_emergency \<Rightarrow>
          (if encodedBytes > CONTROL_EVENT_MAX_BYTES
           then Inl (HostRuntimeEventError Event_outbox_wallet_exhausted)
           else rbind (spendEmergency encodedBytes d) (\<lambda>p. Inr (p, d)))
      | Fund_control wid cid \<Rightarrow>
          (if encodedBytes > CONTROL_EVENT_MAX_BYTES
           then Inl (HostRuntimeEventError Event_outbox_wallet_exhausted)
           else rbind (spend_control i wid cid d) (\<lambda>d'. Inr (Control, d'))))"

end
