(* ===== verification/FileBudget.thy ===== *)
theory FileBudget
  imports HostDb
begin

text \<open>
  The byte budget of the execution host's files (\<^verbatim>\<open>supervisor/src/runtime-file-budget.ts\<close>): every
  object, log and spool file has a promised capacity, charged before it is written; a producer's wallet
  and an output frame hold bytes in advance.  The free space of the file system is an argument.
  The invariant of the theory is that the charged counter is the sum of the promises and stays within
  the configured maximum, so that the audit of the next start passes.
\<close>

definition PRODUCER_FILE_RESERVE_BYTES :: int where "PRODUCER_FILE_RESERVE_BYTES = 8 * 1024 * 1024"
definition OUTPUT_FILE_RESERVE_BYTES :: int where "OUTPUT_FILE_RESERVE_BYTES = 50 * 1024 * 1024"

datatype file_funding =
    File_regular | File_producer ident | File_frame ident ident | File_wallet ident

record file_snapshot =
  fs_charged :: int
  fs_written :: int
  fs_unused :: int
  fs_pressured :: bool

definition progress_of :: "host_db \<Rightarrow> file_row \<Rightarrow> int" where
  "progress_of d f = (case map_of (h_file_progress d) (fl_id f) of None \<Rightarrow> fl_written f | Some w \<Rightarrow> w)"

definition active_written_delta :: "host_db \<Rightarrow> int" where
  "active_written_delta d = sum_rows (\<lambda>f. progress_of d f - fl_written f) (h_files d)"

definition runtimeFileBudgetSnapshot :: "host_db \<Rightarrow> file_snapshot" where
  "runtimeFileBudgetSnapshot d =
     (let charged = fb_charged (h_file_budget d) + sum_rows fc_remaining (h_file_credits d);
          written = fb_written (h_file_budget d) + active_written_delta d
      in \<lparr>fs_charged = charged, fs_written = written, fs_unused = charged - written,
          fs_pressured = fb_pressured (h_file_budget d)\<rparr>)"

definition updateRuntimeFilePressure ::
  "runtime_limits \<Rightarrow> file_snapshot \<Rightarrow> host_db \<Rightarrow> file_snapshot \<times> host_db" where
  "updateRuntimeFilePressure l s d =
     (let pressured = (fs_charged s \<ge> (if fs_pressured s then objectLowBytes l else objectSoftBytes l));
          d' = (if pressured = fs_pressured s then d
                else d\<lparr>h_file_budget := (h_file_budget d)\<lparr>fb_pressured := pressured\<rparr>\<rparr>)
      in (s\<lparr>fs_pressured := pressured\<rparr>, d'))"

definition refreshRuntimeFileBudget :: "runtime_limits \<Rightarrow> host_db \<Rightarrow> file_snapshot \<times> host_db" where
  "refreshRuntimeFileBudget l d = updateRuntimeFilePressure l (runtimeFileBudgetSnapshot d) d"

definition assertFileBytes :: "int \<Rightarrow> host_error + unit" where
  "assertFileBytes bytes =
     (if \<not> safe_integer bytes \<or> bytes < 0 then Inl (HostRuntimeEventError Command_invariant_conflict)
      else Inr ())"

definition assertFileHeadroom ::
  "file_snapshot \<Rightarrow> runtime_limits \<Rightarrow> int option \<Rightarrow> int \<Rightarrow> host_error + unit" where
  "assertFileHeadroom s l freeBytes additional =
     (case freeBytes of
        None \<Rightarrow> Inr ()
      | Some free \<Rightarrow>
          if free < runtimeMinFreeBytes l + fs_unused s + additional
          then Inl (HostRuntimeEventError Runtime_storage_pressure) else Inr ())"

definition producerIsStarting :: "host_db \<Rightarrow> ident \<Rightarrow> bool" where
  "producerIsStarting d walletId \<longleftrightarrow>
     list_ex (\<lambda>r. rc_command r = walletId \<and> rc_kind r = ''session.create'' \<and> rc_phase r = Accepted
        \<and> list_ex (\<lambda>w. wl_id w = rc_command r \<and> \<not> wl_closed w) (h_wallets d)) (h_receipts d)"

text \<open>
  The triggers of the two credit tables: a spent wallet byte leaves the charged counter, a spent frame
  byte leaves the table the snapshot sums.
\<close>

definition fundFileCapacity ::
  "runtime_limits \<Rightarrow> int \<Rightarrow> file_funding \<Rightarrow> file_snapshot \<Rightarrow> host_db \<Rightarrow> host_error + host_db" where
  "fundFileCapacity l bytes funding s d =
     rbind (assertFileBytes bytes) (\<lambda>_.
       if bytes = 0 then Inr d
       else case funding of
         File_frame wid rid \<Rightarrow>
           (let spendable = (\<lambda>c. fc_reservation c = rid \<and> fc_wallet c = wid \<and> fc_remaining c \<ge> bytes)
            in if length (filter spendable (h_file_credits d)) \<noteq> 1
               then Inl (HostRuntimeEventError Runtime_storage_pressure)
               else Inr (d\<lparr>h_file_credits := sql_update spendable
                             (\<lambda>c. c\<lparr>fc_remaining := fc_remaining c - bytes\<rparr>) (h_file_credits d)\<rparr>))
       | File_wallet wid \<Rightarrow>
           (let spendable = (\<lambda>w. fw_id w = wid \<and> fw_remaining w \<ge> bytes
                               \<and> list_ex (\<lambda>v. wl_id v = fw_id w \<and> \<not> wl_closed v) (h_wallets d))
            in if length (filter spendable (h_file_wallets d)) \<noteq> 1
               then Inl (HostRuntimeEventError Runtime_storage_pressure)
               else Inr (update_file_wallets spendable (\<lambda>n. n - bytes) d))
       | _ \<Rightarrow>
           (let starting = (case funding of File_producer wid \<Rightarrow> producerIsStarting d wid | _ \<Rightarrow> False);
                (s', d') = (if starting then (s\<lparr>fs_pressured := False\<rparr>, d) else updateRuntimeFilePressure l s d)
            in if fs_pressured s' \<or> bytes > objectMaxBytes l - fs_charged s
               then Inl (HostRuntimeEventError Runtime_storage_pressure) else Inr d'))"

definition reserveProducerFileWallet ::
  "runtime_limits \<Rightarrow> ident \<Rightarrow> int \<Rightarrow> int option \<Rightarrow> host_db \<Rightarrow> host_error + host_db" where
  "reserveProducerFileWallet l walletId outputBindingCount freeBytes d =
     (if list_ex (\<lambda>w. fw_id w = walletId) (h_file_wallets d) then Inr d
      else let bytes = PRODUCER_FILE_RESERVE_BYTES + outputBindingCount * OUTPUT_FILE_RESERVE_BYTES;
               s = runtimeFileBudgetSnapshot d
           in rbind (assertFileHeadroom s l freeBytes bytes) (\<lambda>_.
              rbind (fundFileCapacity l bytes File_regular s d) (\<lambda>d'.
                if \<not> list_ex (\<lambda>w. wl_id w = walletId) (h_wallets d') then Inl SqliteConstraint
                else Inr (snd (refreshRuntimeFileBudget l
                       (insert_file_wallet \<lparr>fw_id = walletId, fw_remaining = bytes\<rparr> d'))))))"

definition getRuntimeFile :: "ident \<Rightarrow> host_db \<Rightarrow> file_row option" where
  "getRuntimeFile fileId d =
     map_option (\<lambda>f. f\<lparr>fl_written := progress_of d f\<rparr>) (find (\<lambda>f. fl_id f = fileId) (h_files d))"

text \<open>The triggers of \<^verbatim>\<open>runtime_files\<close>.\<close>

definition insert_file :: "file_row \<Rightarrow> host_db \<Rightarrow> host_db" where
  "insert_file f d =
     d\<lparr>h_files := h_files d @ [f],
       h_file_budget := (h_file_budget d)\<lparr>fb_charged := fb_charged (h_file_budget d) + fl_capacity f,
                                         fb_written := fb_written (h_file_budget d) + fl_written f\<rparr>\<rparr>"

definition update_files :: "(file_row \<Rightarrow> bool) \<Rightarrow> (file_row \<Rightarrow> file_row) \<Rightarrow> host_db \<Rightarrow> host_db" where
  "update_files P g d =
     d\<lparr>h_files := sql_update P g (h_files d),
       h_file_budget := (h_file_budget d)\<lparr>
         fb_charged := fb_charged (h_file_budget d)
           + sum_rows (\<lambda>f. fl_capacity (g f) - fl_capacity f) (filter P (h_files d)),
         fb_written := fb_written (h_file_budget d)
           + sum_rows (\<lambda>f. fl_written (g f) - fl_written f) (filter P (h_files d))\<rparr>\<rparr>"

definition drop_progress :: "ident \<Rightarrow> host_db \<Rightarrow> host_db" where
  "drop_progress fileId d = d\<lparr>h_file_progress := AList.delete fileId (h_file_progress d)\<rparr>"

definition funded_in_advance :: "file_funding \<Rightarrow> bool" where
  "funded_in_advance f = (case f of File_wallet _ \<Rightarrow> True | File_frame _ _ \<Rightarrow> True | _ \<Rightarrow> False)"

text \<open>A row that violates a unique path, a foreign key or the written-within-capacity check is refused.\<close>

definition file_row_insertable :: "file_row \<Rightarrow> host_db \<Rightarrow> bool" where
  "file_row_insertable f d \<longleftrightarrow>
     \<not> list_ex (\<lambda>g. fl_path g = fl_path f \<or> sql_eq (fl_temporary g) (fl_temporary f)) (h_files d)
     \<and> (\<forall>w \<in> set_option (fl_wallet f). list_ex (\<lambda>v. wl_id v = w) (h_wallets d))
     \<and> fl_written f \<le> fl_capacity f"

definition reserveRuntimeFile ::
  "runtime_limits \<Rightarrow> int option \<Rightarrow> file_row \<Rightarrow> file_funding \<Rightarrow> host_db \<Rightarrow> host_error + host_db" where
  "reserveRuntimeFile l freeBytes f funding d =
     rbind (assertFileBytes (fl_capacity f)) (\<lambda>_.
     rbind (assertFileBytes (fl_written f)) (\<lambda>_.
       case getRuntimeFile (fl_id f) d of
         Some e \<Rightarrow>
           (if fl_path e \<noteq> fl_path f \<or> fl_temporary e \<noteq> fl_temporary f \<or> fl_kind e \<noteq> fl_kind f
               \<or> fl_wallet e \<noteq> fl_wallet f
            then Inl (HostRuntimeEventError Command_invariant_conflict)
            else if fl_capacity e \<noteq> fl_capacity f \<or> fl_sealed e \<noteq> fl_sealed f
            then Inl (HostRuntimeEventError Command_invariant_conflict)
            else Inr d)
       | None \<Rightarrow>
           (let s = runtimeFileBudgetSnapshot d
            in rbind (assertFileHeadroom s l freeBytes (if funded_in_advance funding then 0 else fl_capacity f)) (\<lambda>_.
               rbind (fundFileCapacity l (fl_capacity f) funding s d) (\<lambda>d'.
                 if \<not> file_row_insertable f d' then Inl SqliteConstraint
                 else Inr (snd (refreshRuntimeFileBudget l
                        (insert_file (f\<lparr>fl_writer_boot := None, fl_writer_token := None\<rparr>) d'))))))))"

definition growRuntimeFile ::
  "runtime_limits \<Rightarrow> int option \<Rightarrow> ident \<Rightarrow> int \<Rightarrow> file_funding \<Rightarrow> host_db \<Rightarrow> host_error + host_db" where
  "growRuntimeFile l freeBytes fileId bytes funding d =
     (case getRuntimeFile fileId d of
        None \<Rightarrow> Inl (HostRuntimeEventError Command_invariant_conflict)
      | Some f \<Rightarrow>
          if fl_sealed f then Inl (HostRuntimeEventError Command_invariant_conflict)
          else let s = runtimeFileBudgetSnapshot d
               in rbind (assertFileHeadroom s l freeBytes (if funded_in_advance funding then 0 else bytes)) (\<lambda>_.
                  rbind (fundFileCapacity l bytes funding s d) (\<lambda>d'.
                    Inr (snd (refreshRuntimeFileBudget l
                      (update_files (\<lambda>g. fl_id g = fileId) (\<lambda>g. g\<lparr>fl_capacity := fl_capacity g + bytes\<rparr>) d'))))))"

definition recordRuntimeFileBytes :: "ident \<Rightarrow> int \<Rightarrow> host_db \<Rightarrow> host_error + host_db" where
  "recordRuntimeFileBytes fileId writtenBytes d =
     rbind (assertFileBytes writtenBytes) (\<lambda>_.
       let P = (\<lambda>f. fl_id f = fileId \<and> fl_capacity f \<ge> writtenBytes \<and> \<not> fl_sealed f)
       in if length (filter P (h_files d)) \<noteq> 1 then Inl (HostRuntimeEventError Runtime_storage_unavailable)
          else Inr (drop_progress fileId (update_files P (\<lambda>f. f\<lparr>fl_written := writtenBytes\<rparr>) d)))"

definition recordProducerFileBytes :: "ident \<Rightarrow> int \<Rightarrow> host_db \<Rightarrow> host_error + host_db" where
  "recordProducerFileBytes fileId writtenBytes d =
     rbind (assertFileBytes writtenBytes) (\<lambda>_.
       if length (filter (\<lambda>f. fl_id f = fileId \<and> fl_kind f \<in> {Log_file, Spool_file} \<and> \<not> fl_sealed f
                              \<and> fl_capacity f \<ge> writtenBytes) (h_files d)) \<noteq> 1
       then Inl (HostRuntimeEventError Runtime_storage_unavailable)
       else Inr (d\<lparr>h_file_progress := AList.update fileId writtenBytes (h_file_progress d)\<rparr>))"

definition sealRuntimeFile :: "runtime_limits \<Rightarrow> ident \<Rightarrow> int \<Rightarrow> host_db \<Rightarrow> host_error + host_db" where
  "sealRuntimeFile l fileId writtenBytes d =
     rbind (assertFileBytes writtenBytes) (\<lambda>_.
       let P = (\<lambda>f. fl_id f = fileId \<and> fl_capacity f \<ge> writtenBytes)
       in if length (filter P (h_files d)) \<noteq> 1 then Inl (HostRuntimeEventError Runtime_storage_unavailable)
          else Inr (snd (refreshRuntimeFileBudget l (drop_progress fileId
                 (update_files P (\<lambda>f. f\<lparr>fl_capacity := writtenBytes, fl_written := writtenBytes, fl_sealed := True\<rparr>) d)))))"

definition releaseRuntimeFile :: "runtime_limits \<Rightarrow> ident \<Rightarrow> host_db \<Rightarrow> host_db" where
  "releaseRuntimeFile l fileId d =
     snd (refreshRuntimeFileBudget l (drop_progress fileId
       (update_files (\<lambda>f. fl_id f = fileId) (\<lambda>f. f\<lparr>fl_capacity := 0, fl_written := 0, fl_sealed := True\<rparr>) d)))"

definition claimRuntimeFileWriter :: "ident \<Rightarrow> ident \<Rightarrow> ident \<Rightarrow> host_db \<Rightarrow> host_error + host_db" where
  "claimRuntimeFileWriter fileId bootId token d =
     (let P = (\<lambda>f. fl_id f = fileId \<and> \<not> fl_sealed f
                  \<and> (fl_writer_token f = None \<or> (fl_writer_boot f \<noteq> None \<and> fl_writer_boot f \<noteq> Some bootId)))
      in if length (filter P (h_files d)) \<noteq> 1 then Inl (HostRuntimeEventError Command_in_progress)
         else Inr (d\<lparr>h_files := sql_update P
                (\<lambda>f. f\<lparr>fl_writer_boot := Some bootId, fl_writer_token := Some token\<rparr>) (h_files d)\<rparr>))"

definition releaseRuntimeFileWriter :: "ident \<Rightarrow> ident \<Rightarrow> ident \<Rightarrow> host_db \<Rightarrow> host_error + host_db" where
  "releaseRuntimeFileWriter fileId bootId token d =
     (let P = (\<lambda>f. fl_id f = fileId \<and> fl_writer_boot f = Some bootId \<and> fl_writer_token f = Some token)
      in if length (filter P (h_files d)) \<noteq> 1 then Inl (HostRuntimeEventError Command_invariant_conflict)
         else Inr (d\<lparr>h_files := sql_update P
                (\<lambda>f. f\<lparr>fl_writer_boot := None, fl_writer_token := None\<rparr>) (h_files d)\<rparr>))"

definition auditRuntimeFileBudget :: "host_db \<Rightarrow> runtime_limits \<Rightarrow> host_error + unit" where
  "auditRuntimeFileBudget d l =
     (let charged = sum_rows fl_capacity (h_files d) + sum_rows fw_remaining (h_file_wallets d)
                      + sum_rows fc_remaining (h_file_credits d);
          written = sum_rows fl_written (h_files d) + active_written_delta d;
          stored = runtimeFileBudgetSnapshot d
      in if charged \<noteq> fs_charged stored \<or> written \<noteq> fs_written stored
         then Inl (HostRuntimeEventError Stream_corrupt)
         else if fs_charged stored > objectMaxBytes l
         then Inl (HostRuntimeEventError Runtime_storage_unavailable)
         else Inr ())"

text \<open>The file credit of a frame refers to the frame's reservation; without it the insert is refused.\<close>

definition reserveRuntimeFrameFiles ::
  "runtime_limits \<Rightarrow> ident \<Rightarrow> ident \<Rightarrow> int \<Rightarrow> int option \<Rightarrow> host_db \<Rightarrow> host_error + host_db" where
  "reserveRuntimeFrameFiles l reservationId walletId frameBytes freeBytes d =
     (if \<not> safe_integer frameBytes \<or> frameBytes < 1 \<or> frameBytes > 1048576
      then Inl (HostRuntimeEventError Command_invariant_conflict)
      else let bytes = min (4 * 1024 * 1024) (4 * frameBytes + 64 * 1024);
               s = runtimeFileBudgetSnapshot d
           in rbind (assertFileHeadroom s l freeBytes bytes) (\<lambda>_.
              rbind (fundFileCapacity l bytes (File_producer walletId) s d) (\<lambda>d'.
                if list_ex (\<lambda>c. fc_reservation c = reservationId) (h_file_credits d')
                   \<or> \<not> list_ex (\<lambda>f. fr_id f = reservationId) (h_frames d')
                then Inl SqliteConstraint
                else Inr (snd (refreshRuntimeFileBudget l
                       (d'\<lparr>h_file_credits := h_file_credits d' @ [\<lparr>fc_reservation = reservationId,
                              fc_wallet = walletId, fc_remaining = bytes\<rparr>]\<rparr>))))))"

section \<open>The books balance\<close>

definition charge :: "host_db \<Rightarrow> int" where
  "charge d = fb_charged (h_file_budget d) + sum_rows fc_remaining (h_file_credits d)"

definition file_books :: "host_db \<Rightarrow> bool" where
  "file_books d \<longleftrightarrow>
     fb_charged (h_file_budget d) = sum_rows fl_capacity (h_files d) + sum_rows fw_remaining (h_file_wallets d)
     \<and> fb_written (h_file_budget d) = sum_rows fl_written (h_files d)"

definition file_keys :: "host_db \<Rightarrow> bool" where
  "file_keys d \<longleftrightarrow>
     distinct (map fl_id (h_files d)) \<and> distinct (map fw_id (h_file_wallets d))
     \<and> distinct (map fc_reservation (h_file_credits d))"

definition file_signs :: "host_db \<Rightarrow> bool" where
  "file_signs d \<longleftrightarrow>
     (\<forall>f \<in> set (h_files d). 0 \<le> fl_written f \<and> fl_written f \<le> fl_capacity f)
     \<and> (\<forall>w \<in> set (h_file_wallets d). 0 \<le> fw_remaining w)
     \<and> (\<forall>c \<in> set (h_file_credits d). 0 \<le> fc_remaining c)"

definition file_ok :: "runtime_limits \<Rightarrow> host_db \<Rightarrow> bool" where
  "file_ok l d \<longleftrightarrow> file_books d \<and> file_keys d \<and> file_signs d \<and> charge d \<le> objectMaxBytes l"

lemmas file_ok_defs = file_ok_def file_books_def file_keys_def file_signs_def charge_def

lemma file_ok_cong:
  assumes "h_files d' = h_files d" "h_file_wallets d' = h_file_wallets d"
    "h_file_credits d' = h_file_credits d"
    "fb_charged (h_file_budget d') = fb_charged (h_file_budget d)"
    "fb_written (h_file_budget d') = fb_written (h_file_budget d)"
  shows "file_ok l d' = file_ok l d"
  using assms by (simp add: file_ok_defs)

text \<open>Refreshing the pressure bit touches nothing else.\<close>

lemma refresh_file_fields [simp]:
  "h_files (snd (updateRuntimeFilePressure l s d)) = h_files d"
  "h_file_wallets (snd (updateRuntimeFilePressure l s d)) = h_file_wallets d"
  "h_file_credits (snd (updateRuntimeFilePressure l s d)) = h_file_credits d"
  "h_file_progress (snd (updateRuntimeFilePressure l s d)) = h_file_progress d"
  "fb_charged (h_file_budget (snd (updateRuntimeFilePressure l s d))) = fb_charged (h_file_budget d)"
  "fb_written (h_file_budget (snd (updateRuntimeFilePressure l s d))) = fb_written (h_file_budget d)"
  by (simp_all add: updateRuntimeFilePressure_def Let_def)

lemma refresh_file_frame [simp]:
  "h_streams (snd (updateRuntimeFilePressure l s d)) = h_streams d"
  "h_outbox (snd (updateRuntimeFilePressure l s d)) = h_outbox d"
  "h_ack_ranges (snd (updateRuntimeFilePressure l s d)) = h_ack_ranges d"
  "h_budget (snd (updateRuntimeFilePressure l s d)) = h_budget d"
  "h_pressure (snd (updateRuntimeFilePressure l s d)) = h_pressure d"
  "h_wallets (snd (updateRuntimeFilePressure l s d)) = h_wallets d"
  "h_teardowns (snd (updateRuntimeFilePressure l s d)) = h_teardowns d"
  "h_frames (snd (updateRuntimeFilePressure l s d)) = h_frames d"
  "h_receipts (snd (updateRuntimeFilePressure l s d)) = h_receipts d"
  "h_fences (snd (updateRuntimeFilePressure l s d)) = h_fences d"
  "h_processes (snd (updateRuntimeFilePressure l s d)) = h_processes d"
  by (simp_all add: updateRuntimeFilePressure_def Let_def)

lemma refresh_file_ok [simp]: "file_ok l (snd (refreshRuntimeFileBudget l' d)) = file_ok l d"
  by (rule file_ok_cong) (simp_all add: refreshRuntimeFileBudget_def)

lemma snapshot_charge [simp]: "fs_charged (runtimeFileBudgetSnapshot d) = charge d"
  by (simp add: runtimeFileBudgetSnapshot_def charge_def Let_def)

lemma assertFileBytes_Inr [simp]: "assertFileBytes n = Inr u \<longleftrightarrow> safe_integer n \<and> 0 \<le> n"
  by (auto simp: assertFileBytes_def)

lemma map_sql_update_key: "(\<And>r. k (g r) = k r) \<Longrightarrow> map k (sql_update P g rows) = map k rows"
  by (simp add: sql_update_def)

lemma sum_rows_credit:
  assumes "length (filter P rows) = 1" and "\<And>r. f (g r) = f r - n"
  shows "sum_rows f (sql_update P g rows) = sum_rows f rows - n"
proof -
  obtain r where r: "filter P rows = [r]" using assms(1) by (auto simp: length_Suc_conv)
  have "sum_rows f (sql_update P g rows) - sum_rows f rows = sum_rows (\<lambda>x. f (g x) - f x) (filter P rows)"
    by (induction rows) (simp_all add: sql_update_def)
  then show ?thesis using r assms(2)[of r] by simp
qed

text \<open>
  Funding a number of bytes leaves room for them: either they were moved out of a reservation that was
  already charged, or the total was checked against the maximum.
\<close>

lemma fundFileCapacity_ok:
  assumes "file_ok l d" and "fundFileCapacity l bytes funding (runtimeFileBudgetSnapshot d) d = Inr d'"
  shows "0 \<le> bytes" "file_books d'" "file_keys d'" "file_signs d'" "charge d' + bytes \<le> objectMaxBytes l"
    "h_files d' = h_files d" "h_file_progress d' = h_file_progress d" "h_wallets d' = h_wallets d"
    "h_frames d' = h_frames d" "map fw_id (h_file_wallets d') = map fw_id (h_file_wallets d)"
    "map fc_reservation (h_file_credits d') = map fc_reservation (h_file_credits d)"
proof -
  have b: "0 \<le> bytes" using assms(2) by (auto simp: fundFileCapacity_def rbind_Inr_iff)
  have "file_books d' \<and> file_keys d' \<and> file_signs d' \<and> charge d' + bytes \<le> objectMaxBytes l
     \<and> h_files d' = h_files d \<and> h_file_progress d' = h_file_progress d \<and> h_wallets d' = h_wallets d
     \<and> h_frames d' = h_frames d \<and> map fw_id (h_file_wallets d') = map fw_id (h_file_wallets d)
     \<and> map fc_reservation (h_file_credits d') = map fc_reservation (h_file_credits d)"
  proof (cases "bytes = 0")
    case True
    then have "d' = d" using assms(2) by (auto simp: fundFileCapacity_def rbind_Inr_iff)
    then show ?thesis using True assms(1) by (simp add: file_ok_def)
  next
    case nz: False
    show ?thesis
    proof (cases funding)
      case (File_frame wid rid)
      define P where "P = (\<lambda>c :: file_credit_row. fc_reservation c = rid \<and> fc_wallet c = wid \<and> fc_remaining c \<ge> bytes)"
      have d': "d' = d\<lparr>h_file_credits := sql_update P (\<lambda>c. c\<lparr>fc_remaining := fc_remaining c - bytes\<rparr>) (h_file_credits d)\<rparr>"
        and one: "length (filter P (h_file_credits d)) = 1"
        using assms(2) nz File_frame
        by (auto simp: fundFileCapacity_def rbind_Inr_iff P_def Let_def split: if_splits)
      have "sum_rows fc_remaining (h_file_credits d') = sum_rows fc_remaining (h_file_credits d) - bytes"
        unfolding d' using sum_rows_credit[OF one] by simp
      moreover have "file_signs d'"
        using assms(1) unfolding d' by (auto simp: file_ok_def file_signs_def set_sql_update P_def)
      ultimately show ?thesis
        using assms(1) unfolding d' by (simp add: file_ok_defs map_sql_update_key)
    next
      case (File_wallet wid)
      define P where "P = (\<lambda>w :: file_wallet_row. fw_id w = wid \<and> fw_remaining w \<ge> bytes
                               \<and> list_ex (\<lambda>v. wl_id v = fw_id w \<and> \<not> wl_closed v) (h_wallets d))"
      have d': "d' = update_file_wallets P (\<lambda>n. n - bytes) d"
        and one: "length (filter P (h_file_wallets d)) = 1"
        using assms(2) nz File_wallet
        by (auto simp: fundFileCapacity_def rbind_Inr_iff P_def Let_def split: if_splits)
      obtain w where w: "filter P (h_file_wallets d) = [w]" using one by (auto simp: length_Suc_conv)
      have "sum_rows fw_remaining (h_file_wallets d') = sum_rows fw_remaining (h_file_wallets d) - bytes"
        unfolding d' update_file_wallets_def using sum_rows_credit[OF one] by simp
      moreover have "fb_charged (h_file_budget d') = fb_charged (h_file_budget d) - bytes"
        unfolding d' using w by (simp add: update_file_wallets_def)
      moreover have "file_signs d'"
        using assms(1) unfolding d' update_file_wallets_def
        by (auto simp: file_ok_def file_signs_def set_sql_update P_def)
      ultimately show ?thesis
        using assms(1) unfolding d' update_file_wallets_def by (simp add: file_ok_defs map_sql_update_key)
    next
      case File_regular
      then show ?thesis
        using assms nz
        by (auto simp: fundFileCapacity_def rbind_Inr_iff Let_def file_ok_defs case_prod_beta split: if_splits)
    next
      case (File_producer wid)
      then show ?thesis
        using assms nz
        by (auto simp: fundFileCapacity_def rbind_Inr_iff Let_def file_ok_defs case_prod_beta split: if_splits)
    qed
  qed
  then show "0 \<le> bytes" "file_books d'" "file_keys d'" "file_signs d'" "charge d' + bytes \<le> objectMaxBytes l"
    "h_files d' = h_files d" "h_file_progress d' = h_file_progress d" "h_wallets d' = h_wallets d"
    "h_frames d' = h_frames d" "map fw_id (h_file_wallets d') = map fw_id (h_file_wallets d)"
    "map fc_reservation (h_file_credits d') = map fc_reservation (h_file_credits d)"
    using b by blast+
qed

text \<open>Adding what was funded restores the books.\<close>

lemma insert_file_ok:
  assumes "file_books d" "file_keys d" "file_signs d" "charge d + fl_capacity f \<le> objectMaxBytes l"
    and "fl_id f \<notin> fl_id ` set (h_files d)" "0 \<le> fl_written f" "fl_written f \<le> fl_capacity f"
  shows "file_ok l (insert_file f d)"
  using assms by (auto simp: file_ok_defs insert_file_def)

lemma insert_file_wallet_ok:
  assumes "file_books d" "file_keys d" "file_signs d" "charge d + fw_remaining w \<le> objectMaxBytes l"
    and "fw_id w \<notin> fw_id ` set (h_file_wallets d)" "0 \<le> fw_remaining w"
  shows "file_ok l (insert_file_wallet w d)"
  using assms by (auto simp: file_ok_defs insert_file_wallet_def)

lemma sum_update_files:
  "sum_rows f (sql_update P g rows) = sum_rows f rows + sum_rows (\<lambda>r. f (g r) - f r) (filter P rows)"
  by (induction rows) (simp_all add: sql_update_def)

lemma update_files_ok:
  assumes "file_books d" "file_keys d" "file_signs d" "\<And>f. fl_id (g f) = fl_id f"
    and "\<And>f. f \<in> set (h_files d) \<Longrightarrow> P f \<Longrightarrow> 0 \<le> fl_written (g f) \<and> fl_written (g f) \<le> fl_capacity (g f)"
    and "charge d + sum_rows (\<lambda>f. fl_capacity (g f) - fl_capacity f) (filter P (h_files d)) \<le> objectMaxBytes l"
  shows "file_ok l (update_files P g d)"
proof -
  have "file_signs (update_files P g d)"
    using assms(3,5) by (auto simp: file_signs_def update_files_def set_sql_update)
  then show ?thesis
    using assms by (simp add: file_ok_def file_books_def file_keys_def charge_def update_files_def
        sum_update_files map_sql_update_key)
qed

lemma sum_rows_nonpos: "(\<And>r. r \<in> set rows \<Longrightarrow> f r \<le> 0) \<Longrightarrow> sum_rows f rows \<le> 0"
  using sum_rows_le[of rows f "\<lambda>_. 0"] by (simp add: sum_rows_def)

lemma shrink_files_ok:
  assumes "file_ok l d" "\<And>f. fl_id (g f) = fl_id f"
    and "\<And>f. f \<in> set (h_files d) \<Longrightarrow> P f \<Longrightarrow>
           0 \<le> fl_written (g f) \<and> fl_written (g f) \<le> fl_capacity (g f) \<and> fl_capacity (g f) \<le> fl_capacity f"
  shows "file_ok l (update_files P g d)"
proof (rule update_files_ok)
  have "sum_rows (\<lambda>f. fl_capacity (g f) - fl_capacity f) (filter P (h_files d)) \<le> 0"
    using assms(3) by (intro sum_rows_nonpos) auto
  then show "charge d + sum_rows (\<lambda>f. fl_capacity (g f) - fl_capacity f) (filter P (h_files d)) \<le> objectMaxBytes l"
    using assms(1) by (simp add: file_ok_def)
qed (use assms in \<open>auto simp: file_ok_def\<close>)

lemma drop_progress_ok [simp]: "file_ok l (drop_progress x d) = file_ok l d"
  by (rule file_ok_cong) (simp_all add: drop_progress_def)

lemma getRuntimeFile_None: "getRuntimeFile x d = None \<longleftrightarrow> x \<notin> fl_id ` set (h_files d)"
  by (auto simp: getRuntimeFile_def find_None_iff)

lemma reserveProducerFileWallet_ok:
  assumes "file_ok l d" "reserveProducerFileWallet l w n free d = Inr d'"
  shows "file_ok l d'"
proof (cases "list_ex (\<lambda>v. fw_id v = w) (h_file_wallets d)")
  case True
  then show ?thesis using assms by (simp add: reserveProducerFileWallet_def)
next
  case False
  define bytes where "bytes = PRODUCER_FILE_RESERVE_BYTES + n * OUTPUT_FILE_RESERVE_BYTES"
  obtain d1 where f: "fundFileCapacity l bytes File_regular (runtimeFileBudgetSnapshot d) d = Inr d1"
    and d': "d' = snd (refreshRuntimeFileBudget l (insert_file_wallet \<lparr>fw_id = w, fw_remaining = bytes\<rparr> d1))"
    using assms(2) False
    by (auto simp: reserveProducerFileWallet_def Let_def rbind_Inr_iff bytes_def split: if_splits)
  note ok = fundFileCapacity_ok[OF assms(1) f]
  have "w \<notin> fw_id ` set (h_file_wallets d1)"
    using False ok(10) by (metis (mono_tags, lifting) imageE image_set list_ex_iff)
  then show ?thesis
    unfolding d' using ok by (simp add: insert_file_wallet_ok)
qed

lemma reserveRuntimeFile_ok:
  assumes "file_ok l d" "reserveRuntimeFile l free f funding d = Inr d'"
  shows "file_ok l d'"
proof (cases "getRuntimeFile (fl_id f) d")
  case (Some e)
  then show ?thesis
    using assms by (auto simp: reserveRuntimeFile_def rbind_Inr_iff split: if_splits)
next
  case None
  obtain d1 where fund: "fundFileCapacity l (fl_capacity f) funding (runtimeFileBudgetSnapshot d) d = Inr d1"
    and ins: "file_row_insertable f d1" and w: "0 \<le> fl_written f"
    and d': "d' = snd (refreshRuntimeFileBudget l
                     (insert_file (f\<lparr>fl_writer_boot := None, fl_writer_token := None\<rparr>) d1))"
    using assms(2) None by (auto simp: reserveRuntimeFile_def Let_def rbind_Inr_iff split: if_splits)
  note ok = fundFileCapacity_ok[OF assms(1) fund]
  show ?thesis
    unfolding d' using ok None ins w
    by (simp add: insert_file_ok getRuntimeFile_None file_row_insertable_def)
qed

lemma growRuntimeFile_ok:
  assumes "file_ok l d" "growRuntimeFile l free x bytes funding d = Inr d'"
  shows "file_ok l d'"
proof -
  obtain d1 where fund: "fundFileCapacity l bytes funding (runtimeFileBudgetSnapshot d) d = Inr d1"
    and d': "d' = snd (refreshRuntimeFileBudget l
        (update_files (\<lambda>g. fl_id g = x) (\<lambda>g. g\<lparr>fl_capacity := fl_capacity g + bytes\<rparr>) d1))"
    using assms(2)
    by (auto simp: growRuntimeFile_def Let_def rbind_Inr_iff split: if_splits option.splits)
  note ok = fundFileCapacity_ok[OF assms(1) fund]
  have "sum_rows (\<lambda>f. fl_capacity (f\<lparr>fl_capacity := fl_capacity f + bytes\<rparr>) - fl_capacity f)
          (filter (\<lambda>g. fl_id g = x) (h_files d1)) \<le> bytes"
  proof -
    have "length (filter (\<lambda>g. fl_id g = x) (h_files d1)) \<le> 1"
      using ok(3) by (intro key_filter_le) (simp add: file_keys_def)
    then show ?thesis using ok(1) by (cases "filter (\<lambda>g. fl_id g = x) (h_files d1)") (auto simp: sum_rows_def)
  qed
  then show ?thesis
    unfolding d' refresh_file_ok using ok
    by (intro update_files_ok) (auto simp: file_signs_def)
qed

lemma recordRuntimeFileBytes_ok:
  assumes "file_ok l d" "recordRuntimeFileBytes x n d = Inr d'"
  shows "file_ok l d'"
  using assms
  by (auto simp: recordRuntimeFileBytes_def Let_def rbind_Inr_iff intro!: shrink_files_ok split: if_splits)

lemma recordProducerFileBytes_ok:
  assumes "file_ok l d" "recordProducerFileBytes x n d = Inr d'"
  shows "file_ok l d'"
  using assms file_ok_cong[of d' d l]
  by (auto simp: recordProducerFileBytes_def rbind_Inr_iff split: if_splits)

lemma sealRuntimeFile_ok:
  assumes "file_ok l d" "sealRuntimeFile l x n d = Inr d'"
  shows "file_ok l d'"
  using assms
  by (auto simp: sealRuntimeFile_def Let_def rbind_Inr_iff intro!: shrink_files_ok split: if_splits)

lemma releaseRuntimeFile_ok:
  assumes "file_ok l d"
  shows "file_ok l (releaseRuntimeFile l x d)"
proof -
  have "\<And>f. f \<in> set (h_files d) \<Longrightarrow> 0 \<le> fl_capacity f"
    using assms by (fastforce simp: file_ok_def file_signs_def)
  then show ?thesis
    unfolding releaseRuntimeFile_def refresh_file_ok drop_progress_ok
    by (intro shrink_files_ok assms) simp_all
qed

lemma rewrite_writer_ok:
  assumes "file_ok l d" "\<And>f. fl_id (g f) = fl_id f \<and> fl_capacity (g f) = fl_capacity f \<and> fl_written (g f) = fl_written f"
  shows "file_ok l (d\<lparr>h_files := sql_update P g (h_files d)\<rparr>)"
proof -
  have "map fl_id (sql_update P g (h_files d)) = map fl_id (h_files d)"
    using assms(2) by (intro map_sql_update_key) simp
  moreover have "sum_rows fl_capacity (sql_update P g (h_files d)) = sum_rows fl_capacity (h_files d)"
    "sum_rows fl_written (sql_update P g (h_files d)) = sum_rows fl_written (h_files d)"
    using assms(2) by (simp_all add: sum_rows_update cong: if_cong)
  moreover have "file_signs (d\<lparr>h_files := sql_update P g (h_files d)\<rparr>)"
    using assms by (auto simp: file_ok_def file_signs_def set_sql_update)
  ultimately show ?thesis using assms(1) by (simp add: file_ok_def file_books_def file_keys_def charge_def)
qed

lemma claimRuntimeFileWriter_ok:
  assumes "file_ok l d" "claimRuntimeFileWriter x b t d = Inr d'"
  shows "file_ok l d'"
  using assms by (auto simp: claimRuntimeFileWriter_def Let_def intro!: rewrite_writer_ok split: if_splits)

lemma releaseRuntimeFileWriter_ok:
  assumes "file_ok l d" "releaseRuntimeFileWriter x b t d = Inr d'"
  shows "file_ok l d'"
  using assms by (auto simp: releaseRuntimeFileWriter_def Let_def intro!: rewrite_writer_ok split: if_splits)

lemma reserveRuntimeFrameFiles_ok:
  assumes "file_ok l d" "reserveRuntimeFrameFiles l rid w n free d = Inr d'"
  shows "file_ok l d'"
proof -
  define bytes where "bytes = min (4 * 1024 * 1024) (4 * n + 64 * 1024)"
  obtain d1 where fund: "fundFileCapacity l bytes (File_producer w) (runtimeFileBudgetSnapshot d) d = Inr d1"
    and new: "\<not> list_ex (\<lambda>c. fc_reservation c = rid) (h_file_credits d1)"
    and d': "d' = snd (refreshRuntimeFileBudget l (d1\<lparr>h_file_credits := h_file_credits d1 @
               [\<lparr>fc_reservation = rid, fc_wallet = w, fc_remaining = bytes\<rparr>]\<rparr>))"
    using assms(2)
    by (auto simp: reserveRuntimeFrameFiles_def Let_def rbind_Inr_iff bytes_def split: if_splits)
  show ?thesis
    unfolding d' refresh_file_ok using fundFileCapacity_ok(1-5)[OF assms(1) fund] new
    by (auto simp: file_ok_defs list_ex_iff)
qed

text \<open>Closing event wallets returns the bytes their file wallets still hold.\<close>

lemma zero_file_wallets_ok:
  assumes "file_ok l d"
  shows "file_ok l (update_file_wallets P (\<lambda>_. 0) d)"
proof -
  have s: "sum_rows (\<lambda>w. 0 - fw_remaining w) (filter P (h_file_wallets d)) \<le> 0"
    using assms by (intro sum_rows_nonpos) (auto simp: file_ok_def file_signs_def)
  have "file_signs (update_file_wallets P (\<lambda>_. 0) d)"
    using assms by (auto simp: file_ok_def file_signs_def update_file_wallets_def set_sql_update)
  then show ?thesis
    using assms s
    by (simp add: file_ok_def file_books_def file_keys_def charge_def update_file_wallets_def
        sum_update_files map_sql_update_key)
qed

lemma close_wallets_file_ok:
  assumes "file_ok l d"
  shows "file_ok l (close_wallets P d)"
  unfolding close_wallets_def Let_def
  by (rule zero_file_wallets_ok) (use assms in \<open>simp add: file_ok_defs\<close>)

lemma drop_credits_ok:
  assumes "file_ok l d"
  shows "file_ok l (d\<lparr>h_file_credits := filter P (h_file_credits d)\<rparr>)"
proof -
  have "sum_rows fc_remaining (filter P (h_file_credits d)) \<le> sum_rows fc_remaining (h_file_credits d)"
    unfolding sum_rows_filter using assms by (intro sum_rows_le) (auto simp: file_ok_def file_signs_def)
  then show ?thesis
    using assms by (auto simp: file_ok_defs distinct_map_filter)
qed

text \<open>With the books balanced, the audit of the next start passes.\<close>

lemma audit_files: "file_ok l d \<Longrightarrow> auditRuntimeFileBudget d l = Inr ()"
  by (simp add: auditRuntimeFileBudget_def file_ok_defs Let_def runtimeFileBudgetSnapshot_def)

end
