(* ===== verification/JsNumber.thy ===== *)
theory JsNumber
  imports JsValue
begin

text \<open>
  Comparing, reading and printing JavaScript numbers: the relational operators, \<^verbatim>\<open>Number(s)\<close> on a
  decimal literal, \<^verbatim>\<open>Number.prototype.toString\<close> and \<^verbatim>\<open>String(v)\<close> on a JSON value.
\<close>

section \<open>Scanning text\<close>

lemma split_chars: "x \<in> set s \<Longrightarrow> x = sep \<or> (\<exists>w \<in> set (js_split sep s). x \<in> set w)"
  by (induction s) (auto split: list.splits)

lemma span_stop:
  "list_all P w \<Longrightarrow> r = [] \<or> \<not> P (hd r) \<Longrightarrow> takeWhile P (w @ r) = w \<and> dropWhile P (w @ r) = r"
  by (induction w) (auto simp: neq_Nil_conv takeWhile_eq_Nil_iff dropWhile_eq_self_iff)

lemma drop_ws: "list_all is_js_ws w \<Longrightarrow> t \<noteq> [] \<Longrightarrow> \<not> is_js_ws (hd t) \<Longrightarrow> dropWhile is_js_ws (w @ t) = t"
  using span_stop[of is_js_ws w t] by simp

lemma list_all_takeWhile: "list_all P (takeWhile P s)"
  by (auto simp: list_all_iff dest: set_takeWhileD)

section \<open>Comparison\<close>

text \<open>\<^verbatim>\<open>a < b\<close>, \<^verbatim>\<open>a <= b\<close> and \<^verbatim>\<open>a === b\<close>: false as soon as one side is NaN.\<close>

fun js_lt :: "js_number \<Rightarrow> js_number \<Rightarrow> bool" where
  "js_lt (Fin a) (Fin b) = (a < b)"
| "js_lt (Fin a) PosInf = True"
| "js_lt NegInf (Fin b) = True"
| "js_lt NegInf PosInf = True"
| "js_lt _ _ = False"

definition js_eq :: "js_number \<Rightarrow> js_number \<Rightarrow> bool" where
  "js_eq a b \<longleftrightarrow> a = b \<and> a \<noteq> NaN"

definition js_le :: "js_number \<Rightarrow> js_number \<Rightarrow> bool" where
  "js_le a b \<longleftrightarrow> js_lt a b \<or> js_eq a b"

lemma js_le_simps [simp]:
  "js_le (Fin a) (Fin b) = (a \<le> b)"
  "js_le NaN y = False" "js_le x NaN = False"
  "js_le (Fin a) PosInf" "js_le NegInf (Fin b)" "\<not> js_le PosInf (Fin b)" "\<not> js_le (Fin a) NegInf"
  by (auto simp: js_le_def js_eq_def)

lemma js_eq_Fin [simp]: "js_eq (Fin a) (Fin b) = (a = b)"
  by (simp add: js_eq_def)

section \<open>Reading a decimal literal\<close>

text \<open>
  \<^verbatim>\<open>Number(s)\<close> where \<open>s\<close> is an optional minus sign, digits, and optionally a point with digits
  after it.
\<close>

definition decimal_magnitude :: "string \<Rightarrow> string \<Rightarrow> rat" where
  "decimal_magnitude whole part = of_nat (digits_val (whole @ part)) / 10 ^ length part"

definition js_Number_decimal :: "bool \<Rightarrow> string \<Rightarrow> string \<Rightarrow> js_number" where
  "js_Number_decimal neg whole part =
     round_double (if neg then - decimal_magnitude whole part else decimal_magnitude whole part)"

section \<open>Printing\<close>

text \<open>
  \<^verbatim>\<open>Number::toString\<close>: the shortest run of at most 17 digits that reads back as the number, the one
  nearest to it among several, laid out plainly for exponents between -7 and 21 and with an exponent
  otherwise.
\<close>

definition pow10 :: "int \<Rightarrow> rat" where
  "pow10 e = 10 powi e"

text \<open>The \<open>e\<close> with \<open>10\<^sup>e\<^sup>-\<^sup>1 \<le> x < 10\<^sup>e\<close>, found among the exponents a double can have.\<close>

definition decimal_exponent :: "rat \<Rightarrow> int" where
  "decimal_exponent x =
     (case find (\<lambda>k. x < pow10 (int k - 324)) [0..<650] of None \<Rightarrow> 0 | Some k \<Rightarrow> int k - 324)"

definition digit_candidates :: "rat \<Rightarrow> nat \<Rightarrow> int \<Rightarrow> (nat \<times> nat \<times> int) list" where
  "digit_candidates x k e =
     (let q = \<lfloor>x / pow10 (e - int k)\<rfloor>
      in map (\<lambda>s. (nat s, k, e))
           (filter (\<lambda>s. 10 ^ (k - 1) \<le> s \<and> s < 10 ^ k \<and> round_double (of_int s * pow10 (e - int k)) = Fin x)
              [q, q + 1]))"

fun nearest :: "rat \<Rightarrow> (nat \<times> nat \<times> int) list \<Rightarrow> (nat \<times> nat \<times> int) option" where
  "nearest x [] = None"
| "nearest x ((s, k, e) # cs) =
     (case nearest x cs of
        None \<Rightarrow> Some (s, k, e)
      | Some (s', k', e') \<Rightarrow>
          if \<bar>of_nat s' * pow10 (e' - int k') - x\<bar> < \<bar>of_nat s * pow10 (e - int k) - x\<bar>
          then Some (s', k', e') else Some (s, k, e))"

definition shortest_digits :: "rat \<Rightarrow> nat \<times> nat \<times> int" where
  "shortest_digits x =
     (let e = decimal_exponent x;
          found = map (\<lambda>k. nearest x (digit_candidates x k e @ digit_candidates x k (e + 1))) [1..<18]
      in case find (\<lambda>c. c \<noteq> None) found of Some (Some c) \<Rightarrow> c | _ \<Rightarrow> (0, 1, 1))"

definition layout_digits :: "nat \<times> nat \<times> int \<Rightarrow> string" where
  "layout_digits c =
     (case c of (s, k, n) \<Rightarrow>
        let ds = nat_digits s; kk = int k
        in if kk \<le> n \<and> n \<le> 21 then ds @ replicate (nat (n - kk)) (CHR ''0'')
           else if 0 < n \<and> n \<le> 21 then take (nat n) ds @ ''.'' @ drop (nat n) ds
           else if -6 < n \<and> n \<le> 0 then ''0.'' @ replicate (nat (- n)) (CHR ''0'') @ ds
           else let ex = n - 1; tail = (if ex < 0 then ''-'' else ''+'') @ nat_digits (nat \<bar>ex\<bar>)
                in if k = 1 then ds @ ''e'' @ tail else take 1 ds @ ''.'' @ drop 1 ds @ ''e'' @ tail)"

definition js_number_string :: "js_number \<Rightarrow> string" where
  "js_number_string x =
     (case x of NaN \<Rightarrow> ''NaN'' | PosInf \<Rightarrow> ''Infinity'' | NegInf \<Rightarrow> ''-Infinity''
      | Fin q \<Rightarrow> if q = 0 then ''0'' else if q < 0 then ''-'' @ layout_digits (shortest_digits (- q))
                 else layout_digits (shortest_digits q))"

text \<open>
  \<^verbatim>\<open>String(v)\<close>: an array joins its elements with commas, \<^verbatim>\<open>null\<close> elements empty; an object
  prints its tag.  A JSON object with a key \<^verbatim>\<open>toString\<close> shadows the inherited method with a value
  that cannot be called, and the inherited \<^verbatim>\<open>valueOf\<close> gives no primitive: the conversion throws
  a \<^verbatim>\<open>TypeError\<close>, \<open>None\<close> here.
\<close>

fun js_String :: "json \<Rightarrow> string option" and js_element :: "json \<Rightarrow> string option" where
  "js_String JNull = Some ''null''"
| "js_String (JBool b) = Some (if b then ''true'' else ''false'')"
| "js_String (JNum x) = Some (js_number_string x)"
| "js_String (JStr s) = Some s"
| "js_String (JArr vs) = map_option (js_join '','') (those (map js_element vs))"
| "js_String (JObj kvs) = (if map_of kvs ''toString'' = None then Some ''[object Object]'' else None)"
| "js_element JNull = Some []"
| "js_element (JBool b) = Some (if b then ''true'' else ''false'')"
| "js_element (JNum x) = Some (js_number_string x)"
| "js_element (JStr s) = Some s"
| "js_element (JArr vs) = map_option (js_join '','') (those (map js_element vs))"
| "js_element (JObj kvs) = (if map_of kvs ''toString'' = None then Some ''[object Object]'' else None)"

end
