(* ===== verification/RuntimeEvents.thy ===== *)
theory RuntimeEvents
  imports HostSequence JsNumber HostDb
begin

text \<open>
  The envelope of a runtime event and its redaction (\<^verbatim>\<open>supervisor/src/runtime-events.ts\<close>).  A payload
  is JSON; before it is stored, keys that name secrets are dropped and texts that name host paths are
  replaced, at every depth.  The Zod schema of the envelope, with its \<^verbatim>\<open>superRefine\<close>, is a parameter
  \<open>accepts\<close> of the builder, as is the SHA-1 of the event id; the size checks, the redaction and the safety
  check the schema repeats are the code's.
\<close>

section \<open>JSON text\<close>

text \<open>\<^verbatim>\<open>Buffer.byteLength(s, "utf8")\<close> on code units below 256.\<close>

definition utf8_length :: "string \<Rightarrow> int" where
  "utf8_length s = sum_rows (\<lambda>c. if (of_char c :: nat) < 128 then 1 else 2) s"

definition hex_digit :: "nat \<Rightarrow> char" where
  "hex_digit n = (if n < 10 then char_of (48 + n) else char_of (87 + n))"

text \<open>\<^verbatim>\<open>JSON.stringify\<close>: the escapes of a string, and \<^verbatim>\<open>null\<close> for a number that is not finite.\<close>

definition escape_char :: "char \<Rightarrow> string" where
  "escape_char c =
     (let n = (of_char c :: nat); bs = char_of (92 :: nat)
      in if n = 34 then [bs, c] else if n = 92 then [bs, c]
         else if n = 8 then [bs, CHR ''b''] else if n = 12 then [bs, CHR ''f'']
         else if n = 10 then [bs, CHR ''n''] else if n = 13 then [bs, CHR ''r'']
         else if n = 9 then [bs, CHR ''t'']
         else if n < 32 then [bs, CHR ''u'', CHR ''0'', CHR ''0'', hex_digit (n div 16), hex_digit (n mod 16)]
         else [c])"

definition quote_json :: "string \<Rightarrow> string" where
  "quote_json s = (let q = char_of (34 :: nat) in q # concat (map escape_char s) @ [q])"

fun json_stringify :: "json \<Rightarrow> string" where
  "json_stringify JNull = ''null''"
| "json_stringify (JBool b) = (if b then ''true'' else ''false'')"
| "json_stringify (JNum x) = (if is_finite_num x then js_number_string x else ''null'')"
| "json_stringify (JStr s) = quote_json s"
| "json_stringify (JArr vs) = ''['' @ js_join '','' (map json_stringify vs) @ '']''"
| "json_stringify (JObj kvs) =
     ''{'' @ js_join '','' (map (\<lambda>(k, v). quote_json k @ '':'' @ json_stringify v) kvs) @ ''}''"

definition encodedByteLength :: "json \<Rightarrow> int" where
  "encodedByteLength v = utf8_length (json_stringify v)"

section \<open>What a payload may not contain\<close>

definition contains_text :: "string \<Rightarrow> string \<Rightarrow> bool" where
  "contains_text p s \<longleftrightarrow> list_ex (\<lambda>i. take (length p) (drop i s) = p) [0..<Suc (length s)]"

text \<open>The suffix alternative \<^verbatim>\<open>(^|[_-])(access|refresh|auth)?token(s)?$\<close>, on lower-case text.\<close>

definition token_key :: "string \<Rightarrow> bool" where
  "token_key s \<longleftrightarrow>
     list_ex (\<lambda>w. length w \<le> length s \<and> drop (length s - length w) s = w
                  \<and> (length w = length s \<or> s ! (length s - length w - 1) \<in> {CHR ''_'', CHR ''-''}))
       [a @ ''token'' @ b. a \<leftarrow> ['''', ''access'', ''refresh'', ''auth''], b \<leftarrow> ['''', ''s'']]"

definition SECRET_KEY :: "string \<Rightarrow> bool" where
  "SECRET_KEY key \<longleftrightarrow>
     (let s = js_lower key
      in list_ex (\<lambda>p. contains_text p s)
           [''authorization'', ''cookie'', ''secret'', ''password'', ''apikey'', ''api_key'', ''api-key'',
            ''headers'', ''environment'']
         \<or> token_key s \<or> s = ''env'')"

text \<open>\<^verbatim>\<open>/(?:^|\s)\/(?:[^\s]*)/\<close>: a slash at the start or after white space.\<close>

fun slash_after_ws :: "bool \<Rightarrow> string \<Rightarrow> bool" where
  "slash_after_ws b [] = False"
| "slash_after_ws b (c # cs) = ((b \<and> c = CHR ''/'') \<or> slash_after_ws (is_js_ws c) cs)"

definition ABSOLUTE_PATH :: "string \<Rightarrow> bool" where
  "ABSOLUTE_PATH s = slash_after_ws True s"

definition FILE_URI :: "string \<Rightarrow> bool" where
  "FILE_URI s \<longleftrightarrow> js_lower (take 7 s) = ''file://''"

section \<open>Shape and safety\<close>

definition MAX_RUNTIME_EVENT_DEPTH :: nat where "MAX_RUNTIME_EVENT_DEPTH = 16"
definition MAX_RUNTIME_EVENT_KEYS :: nat where "MAX_RUNTIME_EVENT_KEYS = 256"
definition MAX_RUNTIME_EVENT_ARRAY :: nat where "MAX_RUNTIME_EVENT_ARRAY = 1024"
definition MAX_RUNTIME_EVENT_STRING_BYTES :: int where "MAX_RUNTIME_EVENT_STRING_BYTES = 65536"

text \<open>\<^verbatim>\<open>normalizeJsonValue\<close>: a round trip through text turns a number that is not finite into \<^verbatim>\<open>null\<close>.\<close>

fun normalizeJsonValue :: "json \<Rightarrow> json" where
  "normalizeJsonValue (JNum x) = (if is_finite_num x then JNum x else JNull)"
| "normalizeJsonValue (JArr vs) = JArr (map normalizeJsonValue vs)"
| "normalizeJsonValue (JObj kvs) = JObj (map (\<lambda>(k, v). (k, normalizeJsonValue v)) kvs)"
| "normalizeJsonValue v = v"

text \<open>The checks below return whether they pass; each failure is a plain \<^verbatim>\<open>Error\<close>.\<close>

fun assertJsonValue :: "json \<Rightarrow> nat \<Rightarrow> bool" where
  "assertJsonValue (JStr s) depth \<longleftrightarrow>
     depth \<le> MAX_RUNTIME_EVENT_DEPTH \<and> utf8_length s \<le> MAX_RUNTIME_EVENT_STRING_BYTES"
| "assertJsonValue (JArr vs) depth \<longleftrightarrow>
     depth \<le> MAX_RUNTIME_EVENT_DEPTH \<and> length vs \<le> MAX_RUNTIME_EVENT_ARRAY
     \<and> list_all (\<lambda>v. assertJsonValue v (depth + 1)) vs"
| "assertJsonValue (JObj kvs) depth \<longleftrightarrow>
     depth \<le> MAX_RUNTIME_EVENT_DEPTH \<and> length kvs \<le> MAX_RUNTIME_EVENT_KEYS
     \<and> list_all (\<lambda>(k, v). assertJsonValue v (depth + 1)) kvs"
| "assertJsonValue _ depth \<longleftrightarrow> depth \<le> MAX_RUNTIME_EVENT_DEPTH"

fun redactValue :: "json \<Rightarrow> json" where
  "redactValue (JStr s) = JStr (if FILE_URI s \<or> ABSOLUTE_PATH s then ''[REDACTED_HOST_PATH]'' else s)"
| "redactValue (JArr vs) = JArr (map redactValue vs)"
| "redactValue (JObj kvs) = JObj (map (\<lambda>(k, v). (k, redactValue v)) (filter (\<lambda>(k, v). \<not> SECRET_KEY k) kvs))"
| "redactValue v = v"

fun assertNoUnsafePayloadValue :: "json \<Rightarrow> string option \<Rightarrow> bool" where
  "assertNoUnsafePayloadValue (JStr s) key \<longleftrightarrow>
     \<not> (\<exists>k \<in> set_option key. k \<noteq> [] \<and> SECRET_KEY k) \<and> \<not> (FILE_URI s \<or> ABSOLUTE_PATH s)"
| "assertNoUnsafePayloadValue (JArr vs) key \<longleftrightarrow>
     \<not> (\<exists>k \<in> set_option key. k \<noteq> [] \<and> SECRET_KEY k)
     \<and> list_all (\<lambda>v. assertNoUnsafePayloadValue v None) vs"
| "assertNoUnsafePayloadValue (JObj kvs) key \<longleftrightarrow>
     \<not> (\<exists>k \<in> set_option key. k \<noteq> [] \<and> SECRET_KEY k)
     \<and> list_all (\<lambda>(k, v). assertNoUnsafePayloadValue v (Some k)) kvs"
| "assertNoUnsafePayloadValue _ key \<longleftrightarrow> \<not> (\<exists>k \<in> set_option key. k \<noteq> [] \<and> SECRET_KEY k)"

definition is_json_object :: "json \<Rightarrow> bool" where
  "is_json_object v = (case v of JObj _ \<Rightarrow> True | _ \<Rightarrow> False)"

definition assertRuntimeEventPayloadSafe :: "json \<Rightarrow> bool" where
  "assertRuntimeEventPayloadSafe v \<longleftrightarrow>
     assertJsonValue v 0 \<and> is_json_object v \<and> assertNoUnsafePayloadValue v None
     \<and> encodedByteLength v \<le> MAX_RUNTIME_EVENT_BYTES"

definition redactRuntimeEventPayload :: "json \<Rightarrow> host_error + json" where
  "redactRuntimeEventPayload value =
     (let normalized = normalizeJsonValue value
      in if \<not> assertJsonValue normalized 0 then Inl PlainError
         else if \<not> is_json_object normalized then Inl PlainError
         else let redacted = redactValue normalized
              in if encodedByteLength redacted > MAX_RUNTIME_EVENT_BYTES then Inl PlainError
                 else Inr redacted)"

section \<open>The envelope\<close>

record event_draft =
  dr_run :: ident
  dr_assignment :: ident
  dr_epoch :: int
  dr_session :: "ident option"
  dr_type :: string
  dr_occurred_at :: string
  dr_payload :: json

record event_envelope =
  en_event_id :: ident
  en_host_key :: ident
  en_boot :: ident
  en_stream :: ident
  en_sequence :: string
  en_run :: ident
  en_assignment :: ident
  en_epoch :: int
  en_session :: "ident option"
  en_type :: string
  en_occurred_at :: string
  en_schema :: string
  en_payload :: json

definition EVENT_SCHEMA_PAIRS :: "(string \<times> string) list" where
  "EVENT_SCHEMA_PAIRS =
     [(''session.created'', ''maister.session.created.v1''),
      (''session.line'', ''maister.session.line.v1''),
      (''session.update'', ''maister.session.update.v1''),
      (''session.permission_request'', ''maister.session.permission-request.v1''),
      (''session.hook_trip'', ''maister.session.hook-trip.v1''),
      (''session.command'', ''maister.session.command.v1''),
      (''session.chat_turn'', ''maister.session.chat-turn.v1''),
      (''session.exited'', ''maister.session.exited.v1''),
      (''session.crashed'', ''maister.session.crashed.v1''),
      (''usage.recorded'', ''maister.usage.recorded.v1''),
      (''runtime_object.available'', ''maister.runtime-object.available.v1''),
      (''runtime_object.state'', ''maister.runtime-object.state.v1'')]"

definition payloadSchemaForRuntimeEvent :: "string \<Rightarrow> host_error + string" where
  "payloadSchemaForRuntimeEvent t =
     (case map_of EVENT_SCHEMA_PAIRS t of None \<Rightarrow> Inl PlainError | Some s \<Rightarrow> Inr s)"

definition envelope_schema :: "string \<Rightarrow> json \<Rightarrow> host_error + string" where
  "envelope_schema t payload =
     (if own_prop payload ''contentRef'' \<noteq> None then Inr ''maister.session.content.v2''
      else if t = ''session.command''
              \<and> own_prop payload ''requestSchema'' = Some (JStr ''maister.command.request.v2'')
      then Inr ''maister.session.command.v2''
      else payloadSchemaForRuntimeEvent t)"

definition json_int :: "int \<Rightarrow> json" where
  "json_int n = JNum (Fin (of_int n))"

definition json_opt :: "string option \<Rightarrow> json" where
  "json_opt s = (case s of None \<Rightarrow> JNull | Some t \<Rightarrow> JStr t)"

text \<open>The text of an envelope, \<^verbatim>\<open>JSON.stringify(envelope)\<close>, with the keys in the schema's order.\<close>

definition envelope_text :: "event_envelope \<Rightarrow> string" where
  "envelope_text e = json_stringify (JObj
     [(''envelopeVersion'', json_int 1), (''eventId'', JStr (en_event_id e)),
      (''hostKey'', JStr (en_host_key e)), (''hostBootId'', JStr (en_boot e)),
      (''streamId'', JStr (en_stream e)), (''sequence'', JStr (en_sequence e)),
      (''runId'', JStr (en_run e)), (''assignmentId'', JStr (en_assignment e)),
      (''assignmentEpoch'', json_int (en_epoch e)), (''hostSessionId'', json_opt (en_session e)),
      (''eventType'', JStr (en_type e)), (''occurredAt'', JStr (en_occurred_at e)),
      (''payloadSchema'', JStr (en_schema e)), (''payload'', en_payload e)])"

text \<open>
  What the host is configured with: its key and boot id, the envelope schema (\<open>accepts\<close>), its reading
  back from text (\<open>parse_envelope\<close>) and the event id digest, a SHA-1 over host, stream and sequence.
\<close>

record host_identity =
  hi_key :: ident
  hi_boot :: ident
  hi_accepts :: "event_envelope \<Rightarrow> bool"
  hi_parse :: "string \<Rightarrow> event_envelope option"
  hi_event_id :: "ident \<Rightarrow> ident \<Rightarrow> string \<Rightarrow> ident"

definition buildRuntimeEventEnvelope ::
  "host_identity \<Rightarrow> ident \<Rightarrow> string \<Rightarrow> event_draft \<Rightarrow> host_error + event_envelope" where
  "buildRuntimeEventEnvelope h stream seq draft =
     rbind (redactRuntimeEventPayload (dr_payload draft)) (\<lambda>payload.
     rbind (envelope_schema (dr_type draft) payload) (\<lambda>schema.
       let e = \<lparr>en_event_id = hi_event_id h (hi_key h) stream seq, en_host_key = hi_key h,
                en_boot = hi_boot h, en_stream = stream, en_sequence = seq, en_run = dr_run draft,
                en_assignment = dr_assignment draft, en_epoch = dr_epoch draft,
                en_session = dr_session draft, en_type = dr_type draft,
                en_occurred_at = dr_occurred_at draft, en_schema = schema, en_payload = payload\<rparr>
       in if \<not> hi_accepts h e then Inl PlainError
          else if utf8_length (envelope_text e) > MAX_RUNTIME_EVENT_BYTES then Inl PlainError
          else Inr e))"

section \<open>Redaction is complete\<close>

lemma redacted_marker:
  "\<not> FILE_URI ''[REDACTED_HOST_PATH]''" "\<not> ABSOLUTE_PATH ''[REDACTED_HOST_PATH]''"
  "utf8_length ''[REDACTED_HOST_PATH]'' = 20"
  by (simp_all add: FILE_URI_def ABSOLUTE_PATH_def utf8_length_def is_js_ws_def js_lower_def
      js_lower_char_def is_upper_ascii_def Let_def)

lemma redact_no_unsafe:
  "\<not> (\<exists>k \<in> set_option key. k \<noteq> [] \<and> SECRET_KEY k) \<Longrightarrow> assertNoUnsafePayloadValue (redactValue v) key"
proof (induction v arbitrary: key rule: redactValue.induct)
  case (1 s)
  then show ?case by (simp add: redacted_marker)
next
  case (2 vs)
  then show ?case by (auto simp: list_all_iff)
next
  case (3 kvs)
  then show ?case by (auto simp: list_all_iff)
qed auto

lemma redact_shape: "assertJsonValue v depth \<Longrightarrow> assertJsonValue (redactValue v) depth"
proof (induction v arbitrary: depth rule: redactValue.induct)
  case (1 s)
  then show ?case by (simp add: redacted_marker MAX_RUNTIME_EVENT_STRING_BYTES_def)
next
  case (2 vs)
  then show ?case by (auto simp: list_all_iff)
next
  case (3 kvs)
  have "length (filter (\<lambda>(k, v). \<not> SECRET_KEY k) kvs) \<le> MAX_RUNTIME_EVENT_KEYS"
    using 3(2) by (auto intro: order_trans[OF length_filter_le])
  moreover have "assertJsonValue (redactValue v) (depth + 1)"
    if "(k, v) \<in> set kvs" "\<not> SECRET_KEY k" for k v
    using 3(1)[of "(k, v)" k v] 3(2) that by (auto simp: list_all_iff)
  ultimately show ?case using 3(2) by (auto simp: list_all_iff)
qed auto

lemma redact_object: "is_json_object (redactValue v) = is_json_object v"
  by (cases v) (simp_all add: is_json_object_def)

lemma redact_safe:
  "redactRuntimeEventPayload v = Inr w \<Longrightarrow> assertRuntimeEventPayloadSafe w"
  by (auto simp: redactRuntimeEventPayload_def assertRuntimeEventPayloadSafe_def Let_def redact_object
      intro: redact_no_unsafe redact_shape split: if_splits)

lemma built_envelope:
  assumes "buildRuntimeEventEnvelope h stream seq draft = Inr e"
  shows "assertRuntimeEventPayloadSafe (en_payload e)" "hi_accepts h e"
    "utf8_length (envelope_text e) \<le> MAX_RUNTIME_EVENT_BYTES"
    "en_stream e = stream" "en_sequence e = seq" "en_occurred_at e = dr_occurred_at draft"
    "en_event_id e = hi_event_id h (hi_key h) stream seq" "en_epoch e = dr_epoch draft"
  using assms
  by (auto simp: buildRuntimeEventEnvelope_def Let_def rbind_Inr_iff redact_safe split: if_splits)

end
