(* ===== verification/HostOutbox.thy ===== *)
theory HostOutbox
  imports OutboxBudget FileBudget RuntimeEvents
begin

text \<open>
  The durable event outbox of an execution host (\<^verbatim>\<open>supervisor/src/host-state.ts\<close>,
  \<^verbatim>\<open>outbox-ack.ts\<close>): appending an event under the next sequence, the manager's acknowledgement of a
  contiguous prefix, pruning of acknowledged events, the bounded pages a manager replays, and the
  audit that a start runs before anything else.  Fresh identifiers, the clock and the measurements of
  the file system are arguments.
\<close>

section \<open>Storage\<close>

text \<open>
  What \<^verbatim>\<open>sqlite-storage.ts\<close> measures of the disk at the time of a call: whether an earlier failure
  closed the storage, whether one bounded write fits, whether a number of reserved bytes can be
  admitted, and the free bytes of the file system.
\<close>

record host_physical =
  ph_available :: bool
  ph_write_fits :: bool
  ph_can_admit :: "int \<Rightarrow> bool"
  ph_free :: "int option"

definition storage_write :: "host_physical \<Rightarrow> host_error + 'a \<Rightarrow> host_error + 'a" where
  "storage_write ph operation =
     (if \<not> ph_available ph \<or> \<not> ph_write_fits ph
      then Inl (HostRuntimeEventError Runtime_storage_unavailable) else operation)"

definition physicalReservationBytes :: "runtime_limits \<Rightarrow> budget_snapshot \<Rightarrow> int \<Rightarrow> int" where
  "physicalReservationBytes l s additional =
     sqliteControlHeadroomBytes l + sn_reservedRegularBytes s * 2 + sn_reservedRegularRows s * 16 * 1024 + additional"

definition canAdmitPhysical :: "runtime_limits \<Rightarrow> host_physical \<Rightarrow> host_db \<Rightarrow> bool" where
  "canAdmitPhysical l ph d \<longleftrightarrow>
     ph_available ph \<and> ph_can_admit ph (physicalReservationBytes l (outboxBudgetSnapshot d) 0)"

definition assertPhysicalAdmission :: "runtime_limits \<Rightarrow> host_physical \<Rightarrow> host_db \<Rightarrow> host_error + unit" where
  "assertPhysicalAdmission l ph d =
     (if \<not> ph_available ph then Inl (HostRuntimeEventError Runtime_storage_unavailable)
      else if \<not> canAdmitPhysical l ph d then Inl (HostRuntimeEventError Event_outbox_physical_limit)
      else Inr ())"

text \<open>After each commit the pressure bits are recomputed (\<^verbatim>\<open>observeCapacity\<close>, \<^verbatim>\<open>notifyCapacity\<close>).\<close>

definition observeCapacity :: "runtime_limits \<Rightarrow> time \<Rightarrow> host_db \<Rightarrow> host_db" where
  "observeCapacity l now d = snd (refreshRuntimeFileBudget l (snd (refreshOutboxBudget l now d)))"

section \<open>The stream\<close>

definition getRuntimeEventStream :: "ident \<Rightarrow> host_db \<Rightarrow> host_error + stream_row" where
  "getRuntimeEventStream streamId d =
     (case h_streams d of
        [s] \<Rightarrow> if st_id s = streamId then Inr s else Inl (HostRuntimeEventError Stream_identity_conflict)
      | _ \<Rightarrow> Inl (HostRuntimeEventError Stream_identity_conflict))"

definition ensureRuntimeEventStream :: "ident \<Rightarrow> host_db \<Rightarrow> host_error + (stream_row \<times> host_db)" where
  "ensureRuntimeEventStream fresh d =
     (case h_streams d of
        [] \<Rightarrow> (let s = \<lparr>st_id = fresh, st_next_sequence = ''0'', st_acknowledged_through = None,
                        st_acknowledged_sort_key = None, st_replay_floor_sequence = None,
                        st_replay_floor_sort_key = None\<rparr>;
                   d' = d\<lparr>h_streams := [s]\<rparr>
               in rbind (getRuntimeEventStream fresh d') (\<lambda>s. Inr (s, d')))
      | [s] \<Rightarrow> Inr (s, d)
      | _ \<Rightarrow> Inl (HostRuntimeEventError Stream_corrupt))"

definition update_stream :: "ident \<Rightarrow> (stream_row \<Rightarrow> stream_row) \<Rightarrow> host_db \<Rightarrow> host_db" where
  "update_stream s f d = d\<lparr>h_streams := sql_update (\<lambda>r. st_id r = s) f (h_streams d)\<rparr>"

section \<open>Appending\<close>

record append_input =
  ai_draft :: event_draft
  ai_funding :: "event_funding option"

definition draft_identity :: "event_draft \<Rightarrow> event_identity" where
  "draft_identity dr = \<lparr>ei_run = dr_run dr, ei_assignment = dr_assignment dr, ei_epoch = dr_epoch dr\<rparr>"

text \<open>
  The insert refuses a second row with the same stream and sequence (primary key) or the same event id
  (unique column).
\<close>

definition outbox_insertable :: "outbox_row \<Rightarrow> host_db \<Rightarrow> bool" where
  "outbox_insertable r d \<longleftrightarrow>
     \<not> list_ex (\<lambda>q. (ob_stream q = ob_stream r \<and> ob_sequence q = ob_sequence r)
                     \<or> ob_event_id q = ob_event_id r) (h_outbox d)"

definition ends_session :: "append_input \<Rightarrow> (ident \<times> ident) option" where
  "ends_session input =
     (case (ai_funding input, dr_session (ai_draft input)) of
        (Some (Fund_control wid _), Some sid) \<Rightarrow>
          if dr_type (ai_draft input) \<in> {''session.exited'', ''session.crashed''} then Some (wid, sid) else None
      | _ \<Rightarrow> None)"

definition appendRuntimeEventInTransaction ::
  "runtime_limits \<Rightarrow> host_identity \<Rightarrow> time \<Rightarrow> ident \<Rightarrow> append_input \<Rightarrow> host_db
     \<Rightarrow> host_error + (outbox_row \<times> host_db)" where
  "appendRuntimeEventInTransaction l h now fresh input d =
     rbind (ensureRuntimeEventStream fresh d) (\<lambda>(st, d1).
     rbind (parseHostEventSequence (st_next_sequence st)) (\<lambda>n.
       if n > MAX_HOST_EVENT_SEQUENCE then Inl (HostRuntimeEventError Stream_corrupt)
       else
     rbind (buildRuntimeEventEnvelope h (st_id st) (bigint_string n) (ai_draft input)) (\<lambda>e.
       let encoded = utf8_length (envelope_text e)
       in
     rbind (spendEventCapacity l (case ai_funding input of None \<Rightarrow> Fund_regular None False | Some f \<Rightarrow> f)
              encoded (draft_identity (ai_draft input)) d1) (\<lambda>(part, d2).
     rbind (hostEventSequenceSortKey n) (\<lambda>key.
       let row = \<lparr>ob_stream = st_id st, ob_sequence = bigint_string n, ob_sort_key = key,
                  ob_event_id = en_event_id e, ob_envelope_json = envelope_text e,
                  ob_encoded_bytes = encoded, ob_occurred_at = en_occurred_at e,
                  ob_acknowledged_at = None, ob_created_at = now, ob_partition = part\<rparr>;
           d3 = update_stream (st_id st) (\<lambda>s. s\<lparr>st_next_sequence := bigint_string (n + 1)\<rparr>)
                  (insert_outbox row d2)
       in if \<not> outbox_insertable row d2 then Inl SqliteConstraint
          else case ends_session input of
                 None \<Rightarrow> Inr (row, d3)
               | Some (wid, sid) \<Rightarrow> rbind (markProducerEnded wid sid d3) (\<lambda>d4. Inr (row, d4)))))))"

fun append_all ::
  "runtime_limits \<Rightarrow> host_identity \<Rightarrow> time \<Rightarrow> ident \<Rightarrow> append_input list \<Rightarrow> host_db
     \<Rightarrow> host_error + (outbox_row list \<times> host_db)" where
  "append_all l h now fresh [] d = Inr ([], d)"
| "append_all l h now fresh (i # is) d =
     rbind (appendRuntimeEventInTransaction l h now fresh i d) (\<lambda>(r, d1).
     rbind (append_all l h now fresh is d1) (\<lambda>(rs, d2). Inr (r # rs, d2)))"

definition unreserved :: "append_input \<Rightarrow> bool" where
  "unreserved i =
     (case ai_funding i of None \<Rightarrow> True | Some (Fund_regular None _) \<Rightarrow> True | _ \<Rightarrow> False)"

definition appendRuntimeEvents ::
  "runtime_limits \<Rightarrow> host_identity \<Rightarrow> host_physical \<Rightarrow> time \<Rightarrow> ident \<Rightarrow> append_input list \<Rightarrow> host_db
     \<Rightarrow> host_error + (outbox_row list \<times> host_db)" where
  "appendRuntimeEvents l h ph now fresh inputs d =
     storage_write ph
       (if length inputs < 1 \<or> length inputs > 2 then Inl (HostRuntimeEventError Stream_corrupt)
        else rbind (if list_ex unreserved inputs then assertPhysicalAdmission l ph d else Inr ()) (\<lambda>_.
             rbind (append_all l h now fresh inputs d) (\<lambda>(rows, d'). Inr (rows, observeCapacity l now d'))))"

section \<open>Acknowledging\<close>

definition acknowledged_number :: "stream_row \<Rightarrow> host_error + int" where
  "acknowledged_number s =
     (case st_acknowledged_through s of None \<Rightarrow> Inr (-1) | Some t \<Rightarrow> parseHostEventSequence t)"

fun contiguous_from :: "int \<Rightarrow> string list \<Rightarrow> host_error + int" where
  "contiguous_from expected [] = Inr expected"
| "contiguous_from expected (t # ts) =
     rbind (parseHostEventSequence t) (\<lambda>n.
       if n \<noteq> expected then Inl (HostRuntimeEventError Ack_not_contiguous)
       else contiguous_from (expected + 1) ts)"

definition keys_between :: "ident \<Rightarrow> string \<Rightarrow> string \<Rightarrow> outbox_row \<Rightarrow> bool" where
  "keys_between stream after through r \<longleftrightarrow>
     ob_stream r = stream \<and> after < ob_sort_key r \<and> ob_sort_key r \<le> through"

definition recordRuntimeEventAck ::
  "ident \<Rightarrow> string \<Rightarrow> string \<Rightarrow> time \<Rightarrow> host_db \<Rightarrow> host_error + host_db" where
  "recordRuntimeEventAck stream firstKey throughKey at_time d =
     (let rows = filter (\<lambda>r. ob_stream r = stream \<and> firstKey \<le> ob_sort_key r \<and> ob_sort_key r \<le> throughKey)
                   (h_outbox d);
          budget = (\<lambda>p. let mine = filter (\<lambda>r. ob_partition r = p) rows; u = h_budget d p
                        in u\<lparr>unacknowledged_count := unacknowledged_count u - int (length mine),
                             unacknowledged_bytes := unacknowledged_bytes u - sum_rows ob_encoded_bytes mine\<rparr>)
      in if \<not> firstKey \<le> throughKey
            \<or> list_ex (\<lambda>a. ar_stream a = stream \<and> ar_through a = throughKey) (h_ack_ranges d)
         then Inl SqliteConstraint
         else Inr (d\<lparr>h_budget := budget,
                     h_ack_ranges := h_ack_ranges d @ [\<lparr>ar_stream = stream, ar_first = firstKey,
                                        ar_through = throughKey, ar_at = at_time\<rparr>]\<rparr>))"

definition ackRuntimeEvents ::
  "runtime_limits \<Rightarrow> host_physical \<Rightarrow> time \<Rightarrow> ident \<Rightarrow> string \<Rightarrow> host_db \<Rightarrow> host_error + (string \<times> host_db)" where
  "ackRuntimeEvents l ph now streamId throughSequence d =
     storage_write ph
       (rbind (parseHostEventSequence throughSequence) (\<lambda>through.
        rbind (getRuntimeEventStream streamId d) (\<lambda>st.
        rbind (parseHostEventSequence (st_next_sequence st)) (\<lambda>nxt.
        rbind (acknowledged_number st) (\<lambda>acked.
          if through \<le> acked then Inr (bigint_string acked, d)
          else if through \<ge> nxt then Inl (HostRuntimeEventError Ack_beyond_emitted)
          else
        rbind (hostEventSequenceSortKey acked) (\<lambda>ackKey.
        rbind (hostEventSequenceSortKey through) (\<lambda>throughKey.
        rbind (contiguous_from (acked + 1)
                 (map ob_sequence (sort_key ob_sort_key (filter (keys_between streamId ackKey throughKey) (h_outbox d)))))
          (\<lambda>expected.
          if expected \<noteq> through + 1 then Inl (HostRuntimeEventError Ack_not_contiguous)
          else
        rbind (hostEventSequenceSortKey (acked + 1)) (\<lambda>firstKey.
        rbind (recordRuntimeEventAck streamId firstKey throughKey now
                 (update_stream streamId (\<lambda>s. s\<lparr>st_acknowledged_through := Some (bigint_string through),
                                               st_acknowledged_sort_key := Some throughKey\<rparr>) d)) (\<lambda>d'.
          Inr (bigint_string through, observeCapacity l now d')))))))))))"

section \<open>Pruning\<close>

datatype prune_mode = Grace | Retained_pressure

text \<open>\<^verbatim>\<open>RUNTIME_EVENT_ACK_TIMESTAMP_SQL\<close>: the row's own stamp, else that of the first range that covers it.\<close>

definition ack_timestamp :: "host_db \<Rightarrow> outbox_row \<Rightarrow> time option" where
  "ack_timestamp d r =
     (case ob_acknowledged_at r of
        Some t \<Rightarrow> Some t
      | None \<Rightarrow>
          (case sort_key ar_through (filter (\<lambda>a. ar_stream a = ob_stream r \<and> ob_sort_key r \<le> ar_through a
                                               \<and> ar_first a \<le> ob_sort_key r) (h_ack_ranges d)) of
             [] \<Rightarrow> None | a # _ \<Rightarrow> Some (ar_at a)))"

text \<open>The walk over the oldest rows: how many it may delete before the first it must keep.\<close>

fun prune_walk :: "host_db \<Rightarrow> time option \<Rightarrow> int \<Rightarrow> outbox_row list \<Rightarrow> outbox_row list" where
  "prune_walk d cutoff bytes [] = []"
| "prune_walk d cutoff bytes (r # rs) =
     (case ack_timestamp d r of
        None \<Rightarrow> []
      | Some t \<Rightarrow>
          if (\<exists>c \<in> set_option cutoff. t \<ge> c) \<or> bytes + ob_encoded_bytes r > MAX_RUNTIME_EVENT_BYTES then []
          else r # prune_walk d cutoff (bytes + ob_encoded_bytes r) rs)"

definition pruneAcknowledgedRuntimeEvents ::
  "runtime_limits \<Rightarrow> host_physical \<Rightarrow> time \<Rightarrow> ident \<Rightarrow> prune_mode \<Rightarrow> time \<Rightarrow> host_db
     \<Rightarrow> host_error + (nat \<times> host_db)" where
  "pruneAcknowledgedRuntimeEvents l ph now fresh mode olderThan d0 =
     storage_write ph
       (rbind (ensureRuntimeEventStream fresh d0) (\<lambda>(st, d).
          let cutoff = (case mode of Retained_pressure \<Rightarrow> None
                                   | Grace \<Rightarrow> Some (min olderThan (now - eventAckGraceMs l)));
              candidates = take 100 (sort_key ob_sort_key (filter (\<lambda>r. ob_stream r = st_id st) (h_outbox d)));
              walked = prune_walk d cutoff 0 candidates
          in if walked = [] then Inr (0, d)
             else let lastRow = last walked;
                      doomed = (\<lambda>r. ob_stream r = st_id st \<and> ob_sort_key r \<le> ob_sort_key lastRow);
                      d1 = update_stream (st_id st)
                             (\<lambda>s. s\<lparr>st_replay_floor_sequence := Some (ob_sequence lastRow),
                                    st_replay_floor_sort_key := Some (ob_sort_key lastRow)\<rparr>) d
                  in if length (filter doomed (h_outbox d1)) \<noteq> length walked
                     then Inl (HostRuntimeEventError Stream_corrupt)
                     else let d2 = delete_outbox doomed d1;
                              d3 = d2\<lparr>h_ack_ranges := filter (\<lambda>a. \<not> (ar_stream a = st_id st
                                       \<and> ar_through a \<le> ob_sort_key lastRow)) (h_ack_ranges d2)\<rparr>
                          in Inr (length walked, observeCapacity l now d3)))"

section \<open>Reading\<close>

definition validateRuntimeEventLimit :: "int \<Rightarrow> host_error + int" where
  "validateRuntimeEventLimit limit = (if limit < 1 \<or> limit > 50000 then Inl PlainError else Inr limit)"

text \<open>The longest run of candidates whose bytes fit one event's maximum; an invalid length is corruption.\<close>

fun page_walk :: "int \<Rightarrow> outbox_row list \<Rightarrow> host_error + outbox_row list" where
  "page_walk bytes [] = Inr []"
| "page_walk bytes (r # rs) =
     (if ob_encoded_bytes r > MAX_RUNTIME_EVENT_BYTES \<or> ob_encoded_bytes r < 1
      then Inl (HostRuntimeEventError Stream_corrupt)
      else if bytes + ob_encoded_bytes r > MAX_RUNTIME_EVENT_BYTES then Inr []
      else rbind (page_walk (bytes + ob_encoded_bytes r) rs) (\<lambda>page. Inr (r # page)))"

definition runtimeEventPage ::
  "host_db \<Rightarrow> ident \<Rightarrow> string option \<Rightarrow> int \<Rightarrow> string option \<Rightarrow> host_error + outbox_row list" where
  "runtimeEventPage d streamId afterKey limit throughKey =
     (let after = (case afterKey of None \<Rightarrow> [] | Some k \<Rightarrow> k);
          candidates = take (nat (min limit 500)) (sort_key ob_sort_key
             (filter (keys_between streamId after (case throughKey of None \<Rightarrow> ''~'' | Some k \<Rightarrow> k)) (h_outbox d)))
      in rbind (page_walk 0 candidates) (\<lambda>page.
           if page = [] then Inr []
           else Inr (sort_key ob_sort_key
                  (filter (keys_between streamId after (ob_sort_key (last page))) (h_outbox d)))))"

definition runtimeEventsAfter ::
  "host_db \<Rightarrow> ident \<Rightarrow> string option \<Rightarrow> int \<Rightarrow> host_error + outbox_row list" where
  "runtimeEventsAfter d streamId afterSequence limit =
     rbind (getRuntimeEventStream streamId d) (\<lambda>st.
     rbind (case afterSequence of
              None \<Rightarrow> Inr None
            | Some t \<Rightarrow> rbind (parseHostEventSequence t) (\<lambda>n. rbind (hostEventSequenceSortKey n) (\<lambda>k. Inr (Some (n, k)))))
       (\<lambda>after.
     rbind (case (st_replay_floor_sequence st, after) of
              (Some f, Some (n, _)) \<Rightarrow> rbind (parseHostEventSequence f) (\<lambda>floor.
                 if n < floor then Inl (HostRuntimeEventError Replay_floor_exceeded) else Inr ())
            | _ \<Rightarrow> Inr ()) (\<lambda>_.
     rbind (validateRuntimeEventLimit limit) (\<lambda>lim.
       runtimeEventPage d streamId (map_option snd after) lim None))))"

datatype span_reason = Replay_floor_lost | Stream_identity_changed | Beyond_emitted

datatype span_page =
    Span_unavailable span_reason
  | Span_complete "outbox_row list"
  | Span_partial string "outbox_row list"

definition runtimeEventsInRange ::
  "host_db \<Rightarrow> ident \<Rightarrow> ident \<Rightarrow> string \<Rightarrow> string \<Rightarrow> int \<Rightarrow> host_error + span_page" where
  "runtimeEventsInRange d0 fresh streamId after through limit =
     rbind (ensureRuntimeEventStream fresh d0) (\<lambda>(st, d).
       if st_id st \<noteq> streamId then Inr (Span_unavailable Stream_identity_changed)
       else
     rbind (parseHostEventSequence after) (\<lambda>lower.
     rbind (parseHostEventSequence through) (\<lambda>upper.
     rbind (parseHostEventSequence (st_next_sequence st)) (\<lambda>nxt.
       if upper \<ge> nxt then Inr (Span_unavailable Beyond_emitted)
       else
     rbind (case st_replay_floor_sequence st of None \<Rightarrow> Inr None
            | Some f \<Rightarrow> rbind (parseHostEventSequence f) (\<lambda>n. Inr (Some n))) (\<lambda>floor.
       if (\<exists>f \<in> set_option floor. lower < f) then Inr (Span_unavailable Replay_floor_lost)
       else
     rbind (hostEventSequenceSortKey lower) (\<lambda>lowerKey.
     rbind (validateRuntimeEventLimit limit) (\<lambda>lim.
     rbind (hostEventSequenceSortKey upper) (\<lambda>upperKey.
     rbind (runtimeEventPage d streamId (Some lowerKey) lim (Some upperKey)) (\<lambda>events.
       if events = [] then Inl (HostRuntimeEventError Stream_corrupt)
       else if ob_sequence (last events) = through then Inr (Span_complete events)
       else Inr (Span_partial (ob_sequence (last events)) events))))))))))"

definition pendingRuntimeEvents :: "host_db \<Rightarrow> ident \<Rightarrow> int \<Rightarrow> host_error + outbox_row list" where
  "pendingRuntimeEvents d streamId limit =
     rbind (getRuntimeEventStream streamId d) (\<lambda>st.
     rbind (validateRuntimeEventLimit limit) (\<lambda>lim.
       runtimeEventPage d streamId (st_acknowledged_sort_key st) lim None))"

definition hasRuntimeEventsAfter :: "host_db \<Rightarrow> ident \<Rightarrow> string \<Rightarrow> host_error + bool" where
  "hasRuntimeEventsAfter d streamId seq =
     rbind (getRuntimeEventStream streamId d) (\<lambda>_.
     rbind (parseHostEventSequence seq) (\<lambda>n.
     rbind (hostEventSequenceSortKey n) (\<lambda>k.
       Inr (list_ex (\<lambda>r. ob_stream r = streamId \<and> k < ob_sort_key r) (h_outbox d)))))"

section \<open>The audit of a start\<close>

definition stored_usage :: "host_db \<Rightarrow> event_partition \<Rightarrow> partition_usage" where
  "stored_usage d p =
     (let rows = filter (\<lambda>r. ob_partition r = p \<and> list_ex (\<lambda>s. st_id s = ob_stream r) (h_streams d)) (h_outbox d);
          pending = filter (row_pending d) rows
      in \<lparr>retained_count = int (length rows), retained_bytes = sum_rows ob_encoded_bytes rows,
          unacknowledged_count = int (length pending), unacknowledged_bytes = sum_rows ob_encoded_bytes pending\<rparr>)"

fun audit_rows :: "host_identity \<Rightarrow> host_db \<Rightarrow> ident \<Rightarrow> int \<Rightarrow> int \<Rightarrow> int \<Rightarrow> outbox_row list \<Rightarrow> host_error + int" where
  "audit_rows h d stream nxt acked expected [] = Inr expected"
| "audit_rows h d stream nxt acked expected (r # rs) =
     rbind (parseHostEventSequence (ob_sequence r)) (\<lambda>n.
       if n \<noteq> expected \<or> n \<ge> nxt then Inl (HostRuntimeEventError Stream_corrupt)
       else case hi_parse h (ob_envelope_json r) of
              None \<Rightarrow> Inl PlainError
            | Some e \<Rightarrow>
                if en_stream e \<noteq> stream \<or> en_sequence e \<noteq> ob_sequence r \<or> en_event_id e \<noteq> ob_event_id r
                   \<or> en_occurred_at e \<noteq> ob_occurred_at r \<or> utf8_length (ob_envelope_json r) \<noteq> ob_encoded_bytes r
                then Inl (HostRuntimeEventError Stream_corrupt)
                else if (n \<le> acked) \<noteq> (ack_timestamp d r \<noteq> None)
                then Inl (HostRuntimeEventError Stream_corrupt)
                else audit_rows h d stream nxt acked (expected + 1) rs)"

definition auditRuntimeEventState :: "host_identity \<Rightarrow> host_db \<Rightarrow> host_error + unit" where
  "auditRuntimeEventState h d =
     (if list_ex (\<lambda>p. stored_usage d p \<noteq> h_budget d p) [Regular, Control, Emergency]
      then Inl (HostRuntimeEventError Stream_corrupt)
      else case h_streams d of
        [] \<Rightarrow> Inr ()
      | [st] \<Rightarrow>
         rbind (parseHostEventSequence (st_next_sequence st)) (\<lambda>nxt.
         rbind (acknowledged_number st) (\<lambda>acked.
         rbind (case st_replay_floor_sequence st of None \<Rightarrow> Inr (-1) | Some f \<Rightarrow> parseHostEventSequence f) (\<lambda>floor.
           if floor > acked \<or> acked \<ge> nxt then Inl (HostRuntimeEventError Stream_corrupt)
           else if list_ex (\<lambda>r. ob_encoded_bytes r > MAX_RUNTIME_EVENT_BYTES
                              \<or> utf8_length (ob_envelope_json r) \<noteq> ob_encoded_bytes r) (h_outbox d)
           then Inl (HostRuntimeEventError Stream_corrupt)
           else
         rbind (audit_rows h d (st_id st) nxt acked (floor + 1)
                  (sort_key ob_sort_key (filter (\<lambda>r. ob_stream r = st_id st) (h_outbox d)))) (\<lambda>expected.
           if expected \<noteq> nxt then Inl (HostRuntimeEventError Stream_corrupt) else Inr ()))))
      | _ \<Rightarrow> Inl (HostRuntimeEventError Stream_corrupt))"

end
