(* ===== verification/HostState.thy ===== *)
theory HostState
  imports HostOutbox
begin

text \<open>
  The operations of \<^verbatim>\<open>openHostState\<close> (\<^verbatim>\<open>supervisor/src/host-state.ts\<close>) beside the outbox itself: fences,
  command receipts and their retirement, producer wallets and frames, the obligations for session
  processes, files, and the start of the host.  \<open>host_op\<close> lists them as one datatype, with the clock, the
  disk measurements and fresh identifiers of each call as arguments; \<open>host_exec\<close> runs one, \<open>host_run\<close>
  runs a sequence in which a call that throws leaves the file as it was.
\<close>

section \<open>Fences\<close>

definition getFence :: "ident \<Rightarrow> host_db \<Rightarrow> fence_row option" where
  "getFence runId d = find (\<lambda>f. fn_run f = runId) (h_fences d)"

definition setFence :: "host_physical \<Rightarrow> time \<Rightarrow> ident \<Rightarrow> ident \<Rightarrow> int \<Rightarrow> host_db \<Rightarrow> host_error + host_db" where
  "setFence ph now runId assignmentId epoch d =
     storage_write ph
       (Inr (if list_ex (\<lambda>f. fn_run f = runId) (h_fences d)
             then d\<lparr>h_fences := sql_update (\<lambda>f. fn_run f = runId)
                     (\<lambda>f. f\<lparr>fn_assignment := assignmentId, fn_epoch := epoch, fn_updated_at := now\<rparr>) (h_fences d)\<rparr>
             else d\<lparr>h_fences := h_fences d @ [\<lparr>fn_run = runId, fn_assignment = assignmentId,
                     fn_epoch = epoch, fn_updated_at = now\<rparr>]\<rparr>))"

section \<open>Receipts\<close>

definition getReceipt :: "ident \<Rightarrow> host_db \<Rightarrow> receipt_row option" where
  "getReceipt commandId d = find (\<lambda>r. rc_command r = commandId) (h_receipts d)"

definition coalesce :: "'a option \<Rightarrow> 'a option \<Rightarrow> 'a option" where
  "coalesce a b = (case a of None \<Rightarrow> b | Some x \<Rightarrow> Some x)"

text \<open>
  \<^verbatim>\<open>ON CONFLICT (command_id) DO UPDATE\<close>: bindings once set are kept, the outcome is replaced, identity
  columns and the retirement stamp are not written.
\<close>

definition merge_receipt :: "receipt_row \<Rightarrow> receipt_row \<Rightarrow> receipt_row" where
  "merge_receipt new old =
     old\<lparr>rc_assignment := coalesce (rc_assignment old) (rc_assignment new),
         rc_session := coalesce (rc_session old) (rc_session new),
         rc_digest := coalesce (rc_digest old) (rc_digest new),
         rc_accepted_sequence := coalesce (rc_accepted_sequence old) (rc_accepted_sequence new),
         rc_terminal_stream := coalesce (rc_terminal_stream old) (rc_terminal_stream new),
         rc_terminal_sequence := coalesce (rc_terminal_sequence old) (rc_terminal_sequence new),
         rc_event := rc_event new, rc_phase := rc_phase new, rc_status := rc_status new,
         rc_body := rc_body new, rc_completed_at := rc_completed_at new\<rparr>"

definition writeReceiptRow :: "receipt_row \<Rightarrow> host_db \<Rightarrow> host_error + host_db" where
  "writeReceiptRow row d =
     (if encodedByteLength (rc_body row) > MAX_RECEIPT_BODY_BYTES
      then Inl (HostRuntimeEventError Command_invariant_conflict)
      else Inr (if receipt_known d (rc_command row)
                then d\<lparr>h_receipts := sql_update (\<lambda>r. rc_command r = rc_command row) (merge_receipt row) (h_receipts d)\<rparr>
                else d\<lparr>h_receipts := h_receipts d @ [row\<lparr>rc_retired_at := None\<rparr>]\<rparr>))"

definition starts_with :: "string \<Rightarrow> string \<Rightarrow> bool" where
  "starts_with p s \<longleftrightarrow> take (length p) s = p"

definition is_teardown :: "receipt_admission option \<Rightarrow> bool" where
  "is_teardown a = (case a of Some (Teardown _) \<Rightarrow> True | _ \<Rightarrow> False)"

definition admitRuntimeReceipt ::
  "runtime_limits \<Rightarrow> host_physical \<Rightarrow> time \<Rightarrow> receipt_row \<Rightarrow> receipt_admission option \<Rightarrow> host_db
     \<Rightarrow> host_error + host_db" where
  "admitRuntimeReceipt l ph now row admission d =
     (if rc_phase row \<noteq> Accepted then Inr d
      else case admission of
        None \<Rightarrow> Inl (HostRuntimeEventError Command_invariant_conflict)
      | Some a \<Rightarrow>
          (let gated = starts_with ''session.'' (rc_kind row) \<and> \<not> is_teardown admission;
               (s, d1) = (if gated then refreshRuntimeFileBudget l d
                          else ((runtimeFileBudgetSnapshot d)\<lparr>fs_pressured := False\<rparr>, d))
           in if gated \<and> fs_pressured s then Inl (HostRuntimeEventError Runtime_storage_pressure)
              else rbind (admitReceipt l row a now d1) (\<lambda>d2.
                   case a of
                     Producer n \<Rightarrow> reserveProducerFileWallet l (rc_command row) n (ph_free ph) d2
                   | _ \<Rightarrow> Inr d2)))"

definition putReceipt ::
  "runtime_limits \<Rightarrow> host_physical \<Rightarrow> time \<Rightarrow> receipt_row \<Rightarrow> receipt_admission option \<Rightarrow> host_db
     \<Rightarrow> host_error + host_db" where
  "putReceipt l ph now row admission d =
     storage_write ph
       (rbind (if rc_phase row = Accepted \<and> \<not> is_teardown admission then assertPhysicalAdmission l ph d else Inr ()) (\<lambda>_.
        rbind (admitRuntimeReceipt l ph now row admission d) (\<lambda>d1.
        rbind (writeReceiptRow row d1) (\<lambda>d2.
          Inr (observeCapacity l now (settleReceiptBudget row d2))))))"

definition receipt_with_event :: "receipt_row \<Rightarrow> outbox_row \<Rightarrow> receipt_row" where
  "receipt_with_event row ev =
     (let r = row\<lparr>rc_event := Some (ob_event_id ev)\<rparr>
      in if rc_phase row = Accepted then r\<lparr>rc_accepted_sequence := Some (ob_sequence ev)\<rparr>
         else r\<lparr>rc_terminal_stream := Some (ob_stream ev), rc_terminal_sequence := Some (ob_sequence ev)\<rparr>)"

definition putReceiptWithRuntimeEvent ::
  "runtime_limits \<Rightarrow> host_identity \<Rightarrow> host_physical \<Rightarrow> time \<Rightarrow> ident \<Rightarrow> receipt_row \<Rightarrow> append_input
     \<Rightarrow> receipt_admission option \<Rightarrow> host_db \<Rightarrow> host_error + (outbox_row \<times> host_db)" where
  "putReceiptWithRuntimeEvent l h ph now fresh row input admission d =
     storage_write ph
       (rbind (if rc_phase row = Accepted \<and> \<not> is_teardown admission then assertPhysicalAdmission l ph d else Inr ()) (\<lambda>_.
        rbind (admitRuntimeReceipt l ph now row admission d) (\<lambda>d1.
        rbind (appendRuntimeEventInTransaction l h now fresh input d1) (\<lambda>(ev, d2).
        rbind (writeReceiptRow (receipt_with_event row ev) d2) (\<lambda>d3.
          Inr (ev, observeCapacity l now (settleReceiptBudget row d3)))))))"

section \<open>Retirement\<close>

record retirement_proof =
  rp_digest :: "string option"
  rp_phase :: receipt_phase
  rp_epoch :: int

datatype retirement_outcome =
    Missing | Not_terminal | Identity_mismatch | Producer_open | Terminal_event_unacked
  | Retired time | Already_retired time

definition RETIRED_RECEIPT_BODY :: json where
  "RETIRED_RECEIPT_BODY = JObj [(''retired'', JBool True)]"

text \<open>
  A version-2 receipt may be compacted only when the manager has acknowledged its terminal event.  The
  two watermarks are compared with \<^verbatim>\<open>BigInt\<close>, which reads any decimal text.
\<close>

definition terminal_acked :: "stream_row \<Rightarrow> string option \<Rightarrow> bool" where
  "terminal_acked st terminal =
     (case (st_acknowledged_through st, terminal) of
        (Some a, Some t) \<Rightarrow> digits_val t \<le> digits_val a
      | _ \<Rightarrow> False)"

definition compact_receipt :: "time \<Rightarrow> receipt_row \<Rightarrow> host_db \<Rightarrow> retirement_outcome \<times> host_db" where
  "compact_receipt now row d =
     (case rc_retired_at row of
        Some t \<Rightarrow> (Already_retired t, d)
      | None \<Rightarrow> (Retired now, d\<lparr>h_receipts := sql_update (\<lambda>r. rc_command r = rc_command row)
                  (\<lambda>r. r\<lparr>rc_body := RETIRED_RECEIPT_BODY, rc_retired_at := Some now\<rparr>) (h_receipts d)\<rparr>))"

definition retireReceipt ::
  "host_physical \<Rightarrow> time \<Rightarrow> ident \<Rightarrow> ident \<Rightarrow> retirement_proof \<Rightarrow> host_db
     \<Rightarrow> host_error + (retirement_outcome \<times> host_db)" where
  "retireReceipt ph now fresh commandId request d =
     storage_write ph
       (case getReceipt commandId d of
          None \<Rightarrow> Inr (Missing, d)
        | Some row \<Rightarrow>
            if rc_phase row = Accepted then Inr (Not_terminal, d)
            else if rc_phase row \<noteq> rp_phase request \<or> rc_epoch row \<noteq> rp_epoch request
                    \<or> (rp_digest request \<noteq> None \<and> rp_digest request \<noteq> rc_digest row)
            then Inr (Identity_mismatch, d)
            else if wallet_open d commandId
                    \<or> list_ex (\<lambda>p. ps_command p = commandId \<and> ps_phase p \<noteq> Released) (h_processes d)
            then Inr (Producer_open, d)
            else if rc_version row \<noteq> 2 then Inr (compact_receipt now row d)
            else if rc_terminal_sequence row = None then Inr (Terminal_event_unacked, d)
            else rbind (ensureRuntimeEventStream fresh d) (\<lambda>(st, d1).
                 if \<not> terminal_acked st (rc_terminal_sequence row) then Inr (Terminal_event_unacked, d1)
                 else Inr (compact_receipt now row d1)))"

section \<open>Producers and frames\<close>

definition bindProducerSession :: "host_physical \<Rightarrow> ident \<Rightarrow> ident \<Rightarrow> host_db \<Rightarrow> host_error + host_db" where
  "bindProducerSession ph walletId hostSessionId d =
     storage_write ph
       (let P = (\<lambda>w. wl_id w = walletId \<and> \<not> wl_closed w
                   \<and> (wl_session w = None \<or> wl_session w = Some hostSessionId))
        in if list_ex P (h_wallets d) \<and> list_ex (\<lambda>w. \<not> P w \<and> wl_session w = Some hostSessionId) (h_wallets d)
           then Inl SqliteConstraint
           else if length (filter P (h_wallets d)) \<noteq> 1
           then Inl (HostRuntimeEventError Stream_identity_conflict)
           else Inr (d\<lparr>h_wallets := sql_update P (\<lambda>w. w\<lparr>wl_session := Some hostSessionId\<rparr>) (h_wallets d)\<rparr>))"

definition closeProducerWallet_op ::
  "runtime_limits \<Rightarrow> host_physical \<Rightarrow> time \<Rightarrow> ident \<Rightarrow> host_db \<Rightarrow> host_error + host_db" where
  "closeProducerWallet_op l ph now walletId d =
     storage_write ph (Inr (observeCapacity l now (closeProducerWallet walletId d)))"

definition tryReserveRuntimeFrame ::
  "runtime_limits \<Rightarrow> host_identity \<Rightarrow> host_physical \<Rightarrow> time \<Rightarrow> ident \<Rightarrow> ident \<Rightarrow> int \<Rightarrow> host_db
     \<Rightarrow> host_error + (ident option \<times> host_db)" where
  "tryReserveRuntimeFrame l h ph now reservationId walletId frameBytes d =
     (let reservedBytes = physicalReservationBytes l (outboxBudgetSnapshot d) (8 * 1024 * 1024 + 4 * 16 * 1024)
      in if \<not> ph_available ph \<or> \<not> ph_can_admit ph reservedBytes then Inr (None, d)
         else case rbind (reserveFrameCapacity l reservationId (hi_boot h) walletId now d) (\<lambda>(reserved, d1).
                     if reserved
                     then rbind (reserveRuntimeFrameFiles l reservationId walletId frameBytes (ph_free ph) d1)
                            (\<lambda>d2. Inr (Some reservationId, observeCapacity l now d2))
                     else Inr (None, observeCapacity l now d1)) of
                Inl e \<Rightarrow>
                  (if e = HostRuntimeEventError Runtime_storage_pressure \<and> \<not> producerIsStarting d walletId
                   then Inr (None, d) else Inl e)
              | Inr r \<Rightarrow> Inr r)"

text \<open>Deleting a frame cascades to the file credit that refers to it.\<close>

definition releaseRuntimeFrame ::
  "runtime_limits \<Rightarrow> host_identity \<Rightarrow> host_physical \<Rightarrow> time \<Rightarrow> ident \<Rightarrow> host_db \<Rightarrow> host_error + host_db" where
  "releaseRuntimeFrame l h ph now reservationId d =
     (if \<not> ph_available ph then Inl (HostRuntimeEventError Runtime_storage_unavailable)
      else let gone = (\<lambda>f. fr_id f = reservationId \<and> fr_boot f = hi_boot h);
               ids = map fr_id (filter gone (h_frames d))
           in Inr (observeCapacity l now
                (d\<lparr>h_frames := filter (\<lambda>f. \<not> gone f) (h_frames d),
                   h_file_credits := filter (\<lambda>c. fc_reservation c \<notin> set ids) (h_file_credits d)\<rparr>)))"

section \<open>Session processes\<close>

record process_context =
  pc_boot :: string
  pc_namespace :: string

record register_process =
  rg_command :: ident
  rg_run :: ident
  rg_assignment :: ident
  rg_epoch :: int
  rg_session :: ident
  rg_group :: int

definition process_admitted :: "host_identity \<Rightarrow> register_process \<Rightarrow> host_db \<Rightarrow> bool" where
  "process_admitted h i d \<longleftrightarrow>
     list_ex (\<lambda>r. rc_command r = rg_command i \<and> rc_kind r = ''session.create'' \<and> rc_phase r = Accepted
        \<and> rc_run r = rg_run i \<and> rc_assignment r = Some (rg_assignment i) \<and> rc_epoch r = rg_epoch i
        \<and> (rc_session r = None \<or> rc_session r = Some (rg_session i))
        \<and> (rc_host_key r = None \<or> rc_host_key r = Some (hi_key h))
        \<and> list_ex (\<lambda>w. wl_id w = rc_command r \<and> wl_run w = rc_run r \<and> Some (wl_assignment w) = rc_assignment r
             \<and> wl_epoch w = rc_epoch r \<and> \<not> wl_closed w
             \<and> (wl_session w = None \<or> wl_session w = Some (rg_session i))) (h_wallets d)
        \<and> list_ex (\<lambda>f. fn_run f = rc_run r \<and> Some (fn_assignment f) = rc_assignment r
             \<and> fn_epoch f = rc_epoch r) (h_fences d)) (h_receipts d)"

definition registerSessionProcess ::
  "host_identity \<Rightarrow> process_context \<Rightarrow> host_physical \<Rightarrow> time \<Rightarrow> register_process \<Rightarrow> host_db
     \<Rightarrow> host_error + host_db" where
  "registerSessionProcess h pc ph now i d =
     storage_write ph
       (if \<not> process_admitted h i d \<or> rg_session i = [] \<or> \<not> safe_integer (rg_group i) \<or> rg_group i \<le> 0
        then Inl (HostRuntimeEventError Command_invariant_conflict)
        else case find (\<lambda>p. ps_command p = rg_command i) (h_processes d) of
               Some e \<Rightarrow>
                 (if ps_run e \<noteq> rg_run i \<or> ps_assignment e \<noteq> rg_assignment i \<or> ps_epoch e \<noteq> rg_epoch i
                     \<or> ps_session e \<noteq> Some (rg_session i) \<or> ps_group e \<noteq> Some (rg_group i)
                     \<or> ps_boot e \<noteq> Some (pc_boot pc) \<or> ps_namespace e \<noteq> Some (pc_namespace pc)
                     \<or> ps_phase e \<noteq> Registered
                  then Inl (HostRuntimeEventError Command_invariant_conflict) else Inr d)
             | None \<Rightarrow>
                 (if rg_epoch i \<le> 0
                     \<or> list_ex (\<lambda>p. ps_session p = Some (rg_session i)
                          \<or> (ps_phase p = Registered \<and> ps_group p = Some (rg_group i))) (h_processes d)
                  then Inl SqliteConstraint
                  else Inr (d\<lparr>h_processes := h_processes d @ [\<lparr>ps_command = rg_command i, ps_run = rg_run i,
                     ps_assignment = rg_assignment i, ps_epoch = rg_epoch i, ps_session = Some (rg_session i),
                     ps_group = Some (rg_group i), ps_phase = Registered, ps_registered_at = now,
                     ps_retired_at = None, ps_boot = Some (pc_boot pc), ps_namespace = Some (pc_namespace pc),
                     ps_retired_boot = None\<rparr>]\<rparr>)))"

text \<open>A retirement time that does not parse as a date is \<open>None\<close>.\<close>

definition releaseSessionProcess ::
  "process_context \<Rightarrow> host_physical \<Rightarrow> ident \<Rightarrow> time option \<Rightarrow> host_db \<Rightarrow> host_error + host_db" where
  "releaseSessionProcess pc ph commandId retiredAt d =
     storage_write ph
       (case find (\<lambda>p. ps_command p = commandId) (h_processes d) of
          None \<Rightarrow> Inl (HostRuntimeEventError Command_invariant_conflict)
        | Some e \<Rightarrow>
            if ps_group e = None \<or> retiredAt = None then Inl (HostRuntimeEventError Command_invariant_conflict)
            else if ps_phase e = Released then Inr d
            else if ps_boot e \<noteq> Some (pc_boot pc) \<or> ps_namespace e \<noteq> Some (pc_namespace pc)
            then Inl (HostRuntimeEventError Command_invariant_conflict)
            else Inr (d\<lparr>h_processes := sql_update (\<lambda>p. ps_command p = commandId \<and> ps_phase p = Registered)
                          (\<lambda>p. p\<lparr>ps_phase := Released, ps_retired_at := retiredAt\<rparr>) (h_processes d)\<rparr>))"

definition releaseSessionProcessesFromPriorBoot ::
  "process_context \<Rightarrow> host_physical \<Rightarrow> time \<Rightarrow> host_db \<Rightarrow> host_error + (nat \<times> host_db)" where
  "releaseSessionProcessesFromPriorBoot pc ph now d =
     storage_write ph
       (let P = (\<lambda>p. ps_phase p \<noteq> Released \<and> ps_boot p \<noteq> None \<and> ps_boot p \<noteq> Some (pc_boot pc))
        in Inr (length (filter P (h_processes d)),
                d\<lparr>h_processes := sql_update P
                   (\<lambda>p. p\<lparr>ps_phase := Released, ps_retired_at := Some now, ps_retired_boot := Some (pc_boot pc)\<rparr>)
                   (h_processes d)\<rparr>))"

section \<open>Files\<close>

definition withRuntimeFileWrite ::
  "runtime_limits \<Rightarrow> host_physical \<Rightarrow> time \<Rightarrow> host_error + host_db \<Rightarrow> host_error + host_db" where
  "withRuntimeFileWrite l ph now operation =
     storage_write ph (rbind operation (\<lambda>d. Inr (observeCapacity l now d)))"

definition releaseRuntimeSpool :: "runtime_limits \<Rightarrow> ident \<Rightarrow> host_db \<Rightarrow> host_error + host_db" where
  "releaseRuntimeSpool l fileId d =
     (case getRuntimeFile fileId d of
        None \<Rightarrow> Inl (HostRuntimeEventError Command_invariant_conflict)
      | Some f \<Rightarrow>
          if fl_kind f \<noteq> Spool_file then Inl (HostRuntimeEventError Command_invariant_conflict)
          else let d1 = releaseRuntimeFile l fileId d
               in Inr (d1\<lparr>h_files := filter (\<lambda>g. \<not> (fl_id g = fileId \<and> fl_kind g = Spool_file \<and> fl_capacity g = 0))
                            (h_files d1)\<rparr>))"

text \<open>\<^verbatim>\<open>storage.writeTemporary\<close>: progress is kept in memory and needs no room on disk.\<close>

definition recordProducerFileBytes_op :: "host_physical \<Rightarrow> ident \<Rightarrow> int \<Rightarrow> host_db \<Rightarrow> host_error + host_db" where
  "recordProducerFileBytes_op ph fileId n d =
     (if \<not> ph_available ph then Inl (HostRuntimeEventError Runtime_storage_unavailable)
      else recordProducerFileBytes fileId n d)"

section \<open>Starting the host\<close>

text \<open>
  Every producer wallet without an obligation gets one of an unproven process, except where the rejected
  create proves that no process was started.  A wallet that disagrees with its create receipt stops the
  start.  Stored envelopes are read by the host's reader.
\<close>

definition quiescence_of :: "receipt_row \<Rightarrow> json option" where
  "quiescence_of r =
     Option.bind (own_prop (rc_body r) ''details'') (\<lambda>details. own_prop details ''sessionCreateQuiescence'')"

definition created_event :: "host_identity \<Rightarrow> ident \<Rightarrow> outbox_row \<Rightarrow> bool" where
  "created_event h commandId row =
     (case hi_parse h (ob_envelope_json row) of
        None \<Rightarrow> False
      | Some e \<Rightarrow> en_type e = ''session.created''
                 \<and> own_prop (en_payload e) ''createdByCommandId'' = Some (JStr commandId))"

definition never_started :: "host_identity \<Rightarrow> host_db \<Rightarrow> wallet_row \<Rightarrow> receipt_row \<Rightarrow> bool" where
  "never_started h d w r \<longleftrightarrow>
     rc_phase r = Rejected \<and> 400 \<le> rc_status r \<and> rc_status r \<le> 599 \<and> rc_completed_at r \<noteq> None
     \<and> wl_session w = None \<and> rc_session r = None
     \<and> (case quiescence_of r of
          Some (JObj kvs) \<Rightarrow> own_prop (JObj kvs) ''version'' = Some (json_int 1)
             \<and> own_prop (JObj kvs) ''process'' = Some (JStr ''not_started'') \<and> length kvs = 2
        | _ \<Rightarrow> False)
     \<and> \<not> list_ex (created_event h (wl_id w)) (h_outbox d)"

definition wallet_conflict :: "host_db \<Rightarrow> wallet_row \<Rightarrow> bool" where
  "wallet_conflict d w =
     (case getReceipt (wl_id w) d of
        None \<Rightarrow> \<not> wl_closed w
      | Some r \<Rightarrow> rc_kind r \<noteq> ''session.create'' \<or> rc_run r \<noteq> wl_run w
                 \<or> rc_assignment r \<noteq> Some (wl_assignment w) \<or> rc_epoch r \<noteq> wl_epoch w)"

definition unproven_wallets :: "host_identity \<Rightarrow> host_db \<Rightarrow> wallet_row list" where
  "unproven_wallets h d =
     filter (\<lambda>w. \<not> list_ex (\<lambda>p. ps_command p = wl_id w) (h_processes d)
                 \<and> (case getReceipt (wl_id w) d of None \<Rightarrow> True | Some r \<Rightarrow> \<not> never_started h d w r)) (h_wallets d)"

definition unproven_process :: "process_context \<Rightarrow> time \<Rightarrow> wallet_row \<Rightarrow> process_row" where
  "unproven_process pc now w = \<lparr>ps_command = wl_id w, ps_run = wl_run w, ps_assignment = wl_assignment w,
     ps_epoch = wl_epoch w, ps_session = wl_session w, ps_group = None, ps_phase = Unproven,
     ps_registered_at = now, ps_retired_at = None, ps_boot = Some (pc_boot pc), ps_namespace = Some (pc_namespace pc),
     ps_retired_boot = None\<rparr>"

text \<open>The positive epoch, the primary key and the unique session of the table, for rows inserted in turn.\<close>

fun processes_insertable :: "process_row list \<Rightarrow> process_row list \<Rightarrow> bool" where
  "processes_insertable old [] = True"
| "processes_insertable old (p # ps) =
     (0 < ps_epoch p
      \<and> \<not> list_ex (\<lambda>q. ps_command q = ps_command p \<or> sql_eq (ps_session q) (ps_session p)) old
      \<and> processes_insertable (old @ [p]) ps)"

definition seedMissingSessionProcesses ::
  "host_identity \<Rightarrow> process_context \<Rightarrow> time \<Rightarrow> host_db \<Rightarrow> host_error + host_db" where
  "seedMissingSessionProcesses h pc now d =
     (let seeds = map (unproven_process pc now) (unproven_wallets h d)
      in if list_ex (wallet_conflict d) (h_wallets d) then Inl (HostRuntimeEventError Stream_corrupt)
         else if \<not> processes_insertable (h_processes d) seeds then Inl SqliteConstraint
         else Inr (d\<lparr>h_processes := h_processes d @ seeds\<rparr>))"

text \<open>
  \<^verbatim>\<open>openHostState\<close> on a file of the current schema: the missing obligations are seeded, the tables of the
  previous connection that live in memory are gone, the audits run before anything else, and the pressure
  bits are recomputed.
\<close>

definition drop_temporary :: "host_db \<Rightarrow> host_db" where
  "drop_temporary d = d\<lparr>h_frames := [], h_file_credits := [], h_file_progress := []\<rparr>"

definition openHostState ::
  "runtime_limits \<Rightarrow> host_identity \<Rightarrow> process_context \<Rightarrow> time \<Rightarrow> host_db \<Rightarrow> host_error + host_db" where
  "openHostState l h pc now d0 =
     rbind (seedMissingSessionProcesses h pc now d0) (\<lambda>d1.
       let d = drop_temporary d1
       in rbind (auditRuntimeEventState h d) (\<lambda>_.
          rbind (assertStoredOutboxFits d l) (\<lambda>_.
          rbind (auditRuntimeFileBudget d l) (\<lambda>_.
            Inr (observeCapacity l now d)))))"

text \<open>
  \<^verbatim>\<open>recoverAcceptedPromptReceipts\<close> notes on an accepted create that its process may still be alive.
\<close>

definition noteUnsettledCreate :: "host_physical \<Rightarrow> ident \<Rightarrow> json \<Rightarrow> host_db \<Rightarrow> host_error + host_db" where
  "noteUnsettledCreate ph commandId body d =
     storage_write ph
       (Inr (d\<lparr>h_receipts := sql_update (\<lambda>r. rc_command r = commandId \<and> rc_phase r = Accepted)
                (\<lambda>r. r\<lparr>rc_status := 503, rc_body := body\<rparr>) (h_receipts d)\<rparr>))"

text \<open>
  Where the next event goes.  The first question creates the stream, in a statement of its own outside any
  transaction.
\<close>

definition nextRuntimeEventPosition :: "ident \<Rightarrow> host_db \<Rightarrow> host_error + ((ident \<times> string) \<times> host_db)" where
  "nextRuntimeEventPosition fresh d =
     rbind (ensureRuntimeEventStream fresh d) (\<lambda>(st, d'). Inr ((st_id st, st_next_sequence st), d'))"

section \<open>The host as a machine\<close>

datatype host_op =
    Op_append host_physical time ident "append_input list"
  | Op_ack host_physical time ident string
  | Op_prune host_physical time ident prune_mode time
  | Op_fence host_physical time ident ident int
  | Op_put_receipt host_physical time receipt_row "receipt_admission option"
  | Op_put_receipt_event host_physical time ident receipt_row append_input "receipt_admission option"
  | Op_retire host_physical time ident ident retirement_proof
  | Op_bind host_physical ident ident
  | Op_close_wallet host_physical time ident
  | Op_reserve_frame host_physical time ident ident int
  | Op_release_frame host_physical time ident
  | Op_register_process process_context host_physical time register_process
  | Op_release_process process_context host_physical ident "time option"
  | Op_release_prior process_context host_physical time
  | Op_reserve_file host_physical time "int option" file_row file_funding
  | Op_grow_file host_physical time "int option" ident int file_funding
  | Op_record_file host_physical time ident int
  | Op_record_progress host_physical ident int
  | Op_seal_file host_physical time ident int
  | Op_release_file host_physical time ident
  | Op_release_spool host_physical time ident
  | Op_claim_writer host_physical time ident ident
  | Op_release_writer host_physical time ident ident
  | Op_note_unsettled host_physical ident json
  | Op_position ident
  | Op_restart process_context time

fun host_exec :: "runtime_limits \<Rightarrow> host_identity \<Rightarrow> host_op \<Rightarrow> host_db \<Rightarrow> host_error + host_db" where
  "host_exec l h (Op_append ph now fresh inputs) d =
     rbind (appendRuntimeEvents l h ph now fresh inputs d) (\<lambda>(_, d'). Inr d')"
| "host_exec l h (Op_ack ph now stream through) d =
     rbind (ackRuntimeEvents l ph now stream through d) (\<lambda>(_, d'). Inr d')"
| "host_exec l h (Op_prune ph now fresh mode older) d =
     rbind (pruneAcknowledgedRuntimeEvents l ph now fresh mode older d) (\<lambda>(_, d'). Inr d')"
| "host_exec l h (Op_fence ph now run asg epoch) d = setFence ph now run asg epoch d"
| "host_exec l h (Op_put_receipt ph now row adm) d = putReceipt l ph now row adm d"
| "host_exec l h (Op_put_receipt_event ph now fresh row input adm) d =
     rbind (putReceiptWithRuntimeEvent l h ph now fresh row input adm d) (\<lambda>(_, d'). Inr d')"
| "host_exec l h (Op_retire ph now fresh cmd evidence) d =
     rbind (retireReceipt ph now fresh cmd evidence d) (\<lambda>(_, d'). Inr d')"
| "host_exec l h (Op_bind ph wallet session) d = bindProducerSession ph wallet session d"
| "host_exec l h (Op_close_wallet ph now wallet) d = closeProducerWallet_op l ph now wallet d"
| "host_exec l h (Op_reserve_frame ph now rid wallet bytes) d =
     rbind (tryReserveRuntimeFrame l h ph now rid wallet bytes d) (\<lambda>(_, d'). Inr d')"
| "host_exec l h (Op_release_frame ph now rid) d = releaseRuntimeFrame l h ph now rid d"
| "host_exec l h (Op_register_process pc ph now i) d = registerSessionProcess h pc ph now i d"
| "host_exec l h (Op_release_process pc ph cmd at_time) d = releaseSessionProcess pc ph cmd at_time d"
| "host_exec l h (Op_release_prior pc ph now) d =
     rbind (releaseSessionProcessesFromPriorBoot pc ph now d) (\<lambda>(_, d'). Inr d')"
| "host_exec l h (Op_reserve_file ph now free f funding) d =
     withRuntimeFileWrite l ph now (reserveRuntimeFile l free f funding d)"
| "host_exec l h (Op_grow_file ph now free x bytes funding) d =
     withRuntimeFileWrite l ph now (growRuntimeFile l free x bytes funding d)"
| "host_exec l h (Op_record_file ph now x n) d = withRuntimeFileWrite l ph now (recordRuntimeFileBytes x n d)"
| "host_exec l h (Op_record_progress ph x n) d = recordProducerFileBytes_op ph x n d"
| "host_exec l h (Op_seal_file ph now x n) d = withRuntimeFileWrite l ph now (sealRuntimeFile l x n d)"
| "host_exec l h (Op_release_file ph now x) d = withRuntimeFileWrite l ph now (Inr (releaseRuntimeFile l x d))"
| "host_exec l h (Op_release_spool ph now x) d = withRuntimeFileWrite l ph now (releaseRuntimeSpool l x d)"
| "host_exec l h (Op_claim_writer ph now x t) d =
     withRuntimeFileWrite l ph now (claimRuntimeFileWriter x (hi_boot h) t d)"
| "host_exec l h (Op_release_writer ph now x t) d =
     withRuntimeFileWrite l ph now (releaseRuntimeFileWriter x (hi_boot h) t d)"
| "host_exec l h (Op_note_unsettled ph x body) d = noteUnsettledCreate ph x body d"
| "host_exec l h (Op_position fresh) d = rbind (nextRuntimeEventPosition fresh d) (\<lambda>(_, d'). Inr d')"
| "host_exec l h (Op_restart pc now) d = openHostState l h pc now d"

definition is_fence_op :: "host_op \<Rightarrow> bool" where
  "is_fence_op op = (case op of Op_fence _ _ _ _ _ \<Rightarrow> True | _ \<Rightarrow> False)"

text \<open>
  A history of the host: each operation with the boot id of the process that ran it, drawn afresh at every
  start.
\<close>

definition host_step ::
  "runtime_limits \<Rightarrow> host_identity \<Rightarrow> ident \<times> host_op \<Rightarrow> host_db \<Rightarrow> host_error + host_db" where
  "host_step l h bop d = host_exec l (h\<lparr>hi_boot := fst bop\<rparr>) (snd bop) d"

fun host_run :: "runtime_limits \<Rightarrow> host_identity \<Rightarrow> (ident \<times> host_op) list \<Rightarrow> host_db \<Rightarrow> host_db" where
  "host_run l h [] d = d"
| "host_run l h (bop # ops) d = host_run l h ops (case host_step l h bop d of Inl _ \<Rightarrow> d | Inr d' \<Rightarrow> d')"

end
