(* ===== verification/HostOutboxProps.thy ===== *)
theory HostOutboxProps
  imports HostOutbox
begin

text \<open>
  The invariant of the outbox.  \<open>view d st nxt acked flr\<close> reads the tables as numbers: the stored rows
  are exactly the sequences above the replay floor and below the next one, in order, and the
  acknowledgement ranges cover exactly those up to the watermark.  Appending, acknowledging and pruning
  keep it, keep the budget counters equal to the rows, and with them keep the audit of the next start
  silent.
\<close>

section \<open>Rows as numbers\<close>

definition row_no :: "outbox_row \<Rightarrow> int" where
  "row_no r = int (digits_val (ob_sequence r))"

definition row_ok :: "ident \<Rightarrow> outbox_row \<Rightarrow> bool" where
  "row_ok s r \<longleftrightarrow>
     ob_stream r = s \<and> ob_sequence r = bigint_string (row_no r)
     \<and> ob_sort_key r = sort_key_of (row_no r) \<and> ob_acknowledged_at r = None"

definition watermark :: "int \<Rightarrow> string option \<Rightarrow> string option \<Rightarrow> bool" where
  "watermark n t k \<longleftrightarrow>
     (n = -1 \<and> t = None \<and> k = None) \<or> (storable n \<and> t = Some (bigint_string n) \<and> k = Some (sort_key_of n))"

definition range_ok :: "ident \<Rightarrow> int \<Rightarrow> ack_range \<Rightarrow> bool" where
  "range_ok s acked a \<longleftrightarrow>
     ar_stream a = s \<and> (\<exists>x y. storable x \<and> storable y \<and> x \<le> y \<and> y \<le> acked
        \<and> ar_first a = sort_key_of x \<and> ar_through a = sort_key_of y)"

lemma range_ok_mono: "range_ok s a r \<Longrightarrow> a \<le> b \<Longrightarrow> range_ok s b r"
  unfolding range_ok_def by (meson order_trans)

definition covers :: "ack_range \<Rightarrow> int \<Rightarrow> bool" where
  "covers a n \<longleftrightarrow> ar_first a \<le> sort_key_of n \<and> sort_key_of n \<le> ar_through a"

definition view :: "host_db \<Rightarrow> stream_row \<Rightarrow> int \<Rightarrow> int \<Rightarrow> int \<Rightarrow> bool" where
  "view d st nxt acked flr \<longleftrightarrow>
     h_streams d = [st] \<and> st_next_sequence st = bigint_string nxt
     \<and> watermark acked (st_acknowledged_through st) (st_acknowledged_sort_key st)
     \<and> watermark flr (st_replay_floor_sequence st) (st_replay_floor_sort_key st)
     \<and> -1 \<le> flr \<and> flr \<le> acked \<and> acked < nxt \<and> nxt \<le> MAX_HOST_EVENT_SEQUENCE + 1
     \<and> map row_no (h_outbox d) = [flr + 1..nxt - 1] \<and> (\<forall>r \<in> set (h_outbox d). row_ok (st_id st) r)
     \<and> (\<forall>a \<in> set (h_ack_ranges d). range_ok (st_id st) acked a)
     \<and> (\<forall>n. flr < n \<and> n \<le> acked \<longrightarrow> (\<exists>a \<in> set (h_ack_ranges d). covers a n))"

lemma viewD:
  assumes "view d st nxt acked flr"
  shows "h_streams d = [st]" "st_next_sequence st = bigint_string nxt" "-1 \<le> flr" "flr \<le> acked"
    "acked < nxt" "nxt \<le> MAX_HOST_EVENT_SEQUENCE + 1" "map row_no (h_outbox d) = [flr + 1..nxt - 1]"
    "\<And>r. r \<in> set (h_outbox d) \<Longrightarrow> row_ok (st_id st) r"
    "storable acked \<or> acked = -1" "storable flr \<or> flr = -1" "0 \<le> nxt"
  using assms by (auto simp: view_def watermark_def)

lemma view_rows:
  assumes "view d st nxt acked flr" "r \<in> set (h_outbox d)"
  shows "flr < row_no r" "row_no r < nxt" "storable (row_no r)" "ob_stream r = st_id st"
    "ob_sequence r = bigint_string (row_no r)" "ob_sort_key r = sort_key_of (row_no r)"
    "ob_acknowledged_at r = None"
proof -
  have "row_no r \<in> set [flr + 1..nxt - 1]"
    using assms viewD(7)[OF assms(1)] by (metis image_eqI set_map)
  then show "flr < row_no r" "row_no r < nxt" "storable (row_no r)"
    using viewD[OF assms(1)] by (auto simp: storable_def)
  show "ob_stream r = st_id st" "ob_sequence r = bigint_string (row_no r)"
    "ob_sort_key r = sort_key_of (row_no r)" "ob_acknowledged_at r = None"
    using viewD(8)[OF assms] by (auto simp: row_ok_def)
qed

lemma sorted_upto: "sorted_wrt (<) [a..b :: int]"
  by (induction a b rule: upto.induct) (subst upto.simps, auto)

lemma view_sorted:
  assumes "view d st nxt acked flr"
  shows "sorted (map ob_sort_key (h_outbox d))"
proof -
  have "sorted_wrt (\<lambda>r s. row_no r < row_no s) (h_outbox d)"
    using sorted_upto[of "flr + 1" "nxt - 1"] viewD(7)[OF assms] by (metis sorted_wrt_map)
  then have "sorted_wrt (\<lambda>r s. ob_sort_key r \<le> ob_sort_key s) (h_outbox d)"
    by (rule sorted_wrt_mono_rel[rotated]) (use view_rows[OF assms] in \<open>auto simp: less_imp_le\<close>)
  then show ?thesis by (simp add: sorted_wrt_map)
qed

lemma view_sort_filter:
  assumes "view d st nxt acked flr"
  shows "sort_key ob_sort_key (filter P (h_outbox d)) = filter P (h_outbox d)"
  using view_sorted[OF assms] by (intro sort_key_id_if_sorted) (simp add: sorted_filter)

lemma filter_upto:
  assumes "lo \<le> a + 1" "b \<le> hi"
  shows "filter (\<lambda>n. a < n \<and> n \<le> b) [lo..hi] = [a + 1..b :: int]"
proof (cases "a + 1 \<le> b")
  case True
  have "[lo..hi] = [lo..a] @ [a + 1..b] @ [b + 1..hi]"
  proof -
    have "[lo..hi] = [lo..a] @ [a + 1..hi]" 
    proof (cases "lo \<le> a")
      case False
      then have "lo = a + 1" using assms by simp
      then show ?thesis by simp
    qed (use assms True upto_split2[of lo a hi] in simp)
    moreover have "[a + 1..hi] = [a + 1..b] @ [b + 1..hi]" using assms True upto_split2[of "a + 1" b hi] by simp
    ultimately show ?thesis by simp
  qed
  then show ?thesis by (simp add: filter_empty_conv filter_id_conv)
next
  case False
  then show ?thesis by (auto simp: filter_empty_conv)
qed

lemma map_filter_no: "map row_no (filter (\<lambda>r. Q (row_no r)) rows) = filter Q (map row_no rows)"
  by (induction rows) auto

lemma keys_between_no:
  assumes "view d st nxt acked flr" "r \<in> set (h_outbox d)"
    and "storable a \<or> a = -1" "storable b \<or> b = -1"
  shows "keys_between (st_id st) (sort_key_of a) (sort_key_of b) r \<longleftrightarrow> a < row_no r \<and> row_no r \<le> b"
  using view_rows[OF assms(1,2)] assms(3,4) by (simp add: keys_between_def)

text \<open>The rows a range query finds are exactly the sequences of the range.\<close>

lemma range_rows:
  assumes v: "view d st nxt acked flr" and "flr \<le> a" "b < nxt" "storable a \<or> a = -1" "storable b \<or> b = -1"
  shows "map row_no (filter (keys_between (st_id st) (sort_key_of a) (sort_key_of b)) (h_outbox d)) = [a + 1..b]"
proof -
  have "filter (keys_between (st_id st) (sort_key_of a) (sort_key_of b)) (h_outbox d)
      = filter (\<lambda>r. a < row_no r \<and> row_no r \<le> b) (h_outbox d)"
    using keys_between_no[OF v _ assms(4,5)] by (intro filter_cong) auto
  then show ?thesis
    using assms viewD(7)[OF v] map_filter_no[of "\<lambda>n. a < n \<and> n \<le> b" "h_outbox d"]
    by (simp add: filter_upto)
qed

section \<open>Contiguity\<close>

lemma contiguous_upto:
  assumes "0 \<le> a" "b \<le> MAX_HOST_EVENT_SEQUENCE"
  shows "contiguous_from a (map bigint_string [a..b]) = Inr (max a (b + 1))"
  using assms
proof (induction a b rule: upto.induct)
  case (1 a b)
  show ?case
  proof (cases "a \<le> b")
    case True
    then have "storable a" using 1 by (simp add: storable_def)
    moreover have "contiguous_from (a + 1) (map bigint_string [a + 1..b]) = Inr (max (a + 1) (b + 1))"
      using 1 True by simp
    ultimately show ?thesis using True by (subst upto.simps) (simp add: parse_print)
  qed simp
qed

lemma map_sequence:
  assumes "view d st nxt acked flr"
  shows "map ob_sequence (filter P (h_outbox d)) = map bigint_string (map row_no (filter P (h_outbox d)))"
  using view_rows(5)[OF assms] by auto

section \<open>Acknowledgement stamps\<close>

lemma stamp_iff:
  assumes v: "view d st nxt acked flr" and r: "r \<in> set (h_outbox d)"
  shows "ack_timestamp d r \<noteq> None \<longleftrightarrow> row_no r \<le> acked"
proof -
  let ?f = "filter (\<lambda>a. ar_stream a = ob_stream r \<and> ob_sort_key r \<le> ar_through a
               \<and> ar_first a \<le> ob_sort_key r) (h_ack_ranges d)"
  have "ack_timestamp d r \<noteq> None \<longleftrightarrow> sort_key ar_through ?f \<noteq> []"
    using view_rows[OF v r] by (simp add: ack_timestamp_def split: list.splits)
  also have "\<dots> \<longleftrightarrow> ?f \<noteq> []" by (simp flip: set_empty)
  also have "\<dots> \<longleftrightarrow> (\<exists>a \<in> set (h_ack_ranges d). covers a (row_no r))"
  proof -
    have "\<forall>a \<in> set (h_ack_ranges d). ar_stream a = st_id st" using v by (auto simp: view_def range_ok_def)
    then show ?thesis using view_rows[OF v r] by (auto simp: filter_empty_conv covers_def)
  qed
  also have "\<dots> \<longleftrightarrow> row_no r \<le> acked"
  proof
    assume "\<exists>a \<in> set (h_ack_ranges d). covers a (row_no r)"
    then obtain a y where "a \<in> set (h_ack_ranges d)" "covers a (row_no r)" "storable y" "y \<le> acked"
      "ar_through a = sort_key_of y" using v by (auto simp: view_def range_ok_def)
    then show "row_no r \<le> acked" using view_rows[OF v r] by (simp add: covers_def)
  next
    assume "row_no r \<le> acked"
    then show "\<exists>a \<in> set (h_ack_ranges d). covers a (row_no r)"
      using v view_rows(1)[OF v r] by (auto simp: view_def)
  qed
  finally show ?thesis .
qed

lemma ack_key_view:
  assumes v: "view d st nxt acked flr"
  shows "stream_ack_key d (st_id st) = (if acked = -1 then [] else sort_key_of acked)"
  using v by (auto simp: stream_ack_key_def view_def watermark_def storable_def)

lemma pending_iff:
  assumes v: "view d st nxt acked flr" and r: "r \<in> set (h_outbox d)"
  shows "row_pending d r \<longleftrightarrow> acked < row_no r"
  using ack_key_view[OF v] view_rows[OF v r] sort_key_bounds(1)[of "row_no r"] viewD(9)[OF v]
  by (auto simp: row_pending_def storable_def split: if_splits)

section \<open>The invariant\<close>

definition row_content :: "host_identity \<Rightarrow> outbox_row \<Rightarrow> bool" where
  "row_content h r \<longleftrightarrow>
     (\<exists>e. hi_accepts h e \<and> assertRuntimeEventPayloadSafe (en_payload e)
        \<and> ob_envelope_json r = envelope_text e \<and> ob_encoded_bytes r = utf8_length (envelope_text e)
        \<and> ob_encoded_bytes r \<le> MAX_RUNTIME_EVENT_BYTES
        \<and> en_stream e = ob_stream r \<and> en_sequence e = ob_sequence r \<and> en_event_id e = ob_event_id r
        \<and> en_occurred_at e = ob_occurred_at r)"

definition outbox_inv :: "host_identity \<Rightarrow> host_db \<Rightarrow> bool" where
  "outbox_inv h d \<longleftrightarrow>
     (h_streams d = [] \<and> h_outbox d = [] \<and> h_ack_ranges d = [] \<or> (\<exists>st nxt acked flr. view d st nxt acked flr))
     \<and> (\<forall>p. h_budget d p = stored_usage d p) \<and> (\<forall>r \<in> set (h_outbox d). row_content h r)"

definition same_outbox :: "host_db \<Rightarrow> host_db \<Rightarrow> bool" where
  "same_outbox d d' \<longleftrightarrow>
     h_streams d' = h_streams d \<and> h_outbox d' = h_outbox d \<and> h_ack_ranges d' = h_ack_ranges d
     \<and> h_budget d' = h_budget d"

lemma same_outbox_refl [simp]: "same_outbox d d"
  by (simp add: same_outbox_def)

lemma same_outbox_trans: "same_outbox d d' \<Longrightarrow> same_outbox d' d'' \<Longrightarrow> same_outbox d d''"
  by (simp add: same_outbox_def)

lemma view_cong:
  "h_streams d' = h_streams d \<Longrightarrow> h_outbox d' = h_outbox d \<Longrightarrow> h_ack_ranges d' = h_ack_ranges d \<Longrightarrow>
   view d' st nxt acked flr = view d st nxt acked flr"
  by (simp add: view_def)

lemma stored_usage_cong:
  "h_streams d' = h_streams d \<Longrightarrow> h_outbox d' = h_outbox d \<Longrightarrow> stored_usage d' p = stored_usage d p"
  by (simp add: stored_usage_def row_pending_def stream_ack_key_def)

lemma outbox_inv_cong: "same_outbox d d' \<Longrightarrow> outbox_inv h d' = outbox_inv h d"
  by (simp add: outbox_inv_def same_outbox_def view_cong[of d' d] stored_usage_cong[of d' d])

lemma view_usage:
  assumes v: "view d st nxt acked flr"
  shows "stored_usage d p =
    \<lparr>retained_count = int (length (filter (\<lambda>r. ob_partition r = p) (h_outbox d))),
     retained_bytes = sum_rows ob_encoded_bytes (filter (\<lambda>r. ob_partition r = p) (h_outbox d)),
     unacknowledged_count = int (length (filter (\<lambda>r. ob_partition r = p \<and> acked < row_no r) (h_outbox d))),
     unacknowledged_bytes = sum_rows ob_encoded_bytes (filter (\<lambda>r. ob_partition r = p \<and> acked < row_no r) (h_outbox d))\<rparr>"
proof -
  have "filter (\<lambda>r. ob_partition r = p \<and> list_ex (\<lambda>s. st_id s = ob_stream r) (h_streams d)) (h_outbox d)
      = filter (\<lambda>r. ob_partition r = p) (h_outbox d)"
    using view_rows(4)[OF v] viewD(1)[OF v] by (intro filter_cong) auto
  moreover have "filter (row_pending d) (filter (\<lambda>r. ob_partition r = p) (h_outbox d))
      = filter (\<lambda>r. ob_partition r = p \<and> acked < row_no r) (h_outbox d)"
    unfolding filter_filter using pending_iff[OF v] by (intro filter_cong) auto
  ultimately show ?thesis by (simp add: stored_usage_def Let_def)
qed

section \<open>The other tables\<close>

text \<open>Spending and settling move credits between wallets; they do not touch the outbox.\<close>

lemma refresh_same [simp]: "same_outbox d (snd (refreshOutboxBudget l now d))"
  by (simp add: refreshOutboxBudget_def Let_def same_outbox_def)

lemma update_file_wallets_same [simp]: "same_outbox d (update_file_wallets P f d)"
  by (simp add: update_file_wallets_def same_outbox_def)

lemma close_wallets_same [simp]: "same_outbox d (close_wallets P d)"
  by (simp add: close_wallets_def update_file_wallets_def Let_def same_outbox_def)

lemma markProducerEnded_same: "markProducerEnded w s d = Inr d' \<Longrightarrow> same_outbox d d'"
  using close_wallets_same[of "d\<lparr>h_wallets := x\<rparr>" P for x P]
  by (auto simp: markProducerEnded_def releaseEndedWallets_def same_outbox_def split: if_splits)

lemma spend_same:
  "spendEventCapacity l f n i d = Inr (p, d') \<Longrightarrow> same_outbox d d'"
  by (auto simp: spendEventCapacity_def rbind_Inr_iff spend_frame_def spend_control_def same_outbox_def
      split: event_funding.splits option.splits if_splits)

lemma observe_same [simp]: "same_outbox d (observeCapacity l now d)"
  unfolding observeCapacity_def refreshRuntimeFileBudget_def
  by (rule same_outbox_trans[OF refresh_same]) (simp add: same_outbox_def)

section \<open>Appending\<close>

lemma ensure_stream:
  assumes "ensureRuntimeEventStream fresh d = Inr (st, d')"
  shows "h_streams d' = [st]" "h_streams d = [] \<or> d' = d"
    "d' = d\<lparr>h_streams := [st]\<rparr>"
    "h_streams d = [] \<Longrightarrow> st_next_sequence st = ''0'' \<and> st_acknowledged_through st = None
       \<and> st_acknowledged_sort_key st = None \<and> st_replay_floor_sequence st = None \<and> st_replay_floor_sort_key st = None"
  using assms
  by (auto simp: ensureRuntimeEventStream_def getRuntimeEventStream_def Let_def split: list.splits)

lemma bigint_0 [simp]: "bigint_string 0 = ''0''"
  by (simp add: bigint_string_def)

lemma ensure_inv:
  assumes "outbox_inv h d" "ensureRuntimeEventStream fresh d = Inr (st, d')"
  obtains nxt acked flr where "view d' st nxt acked flr" "\<forall>p. h_budget d' p = stored_usage d' p"
    "\<forall>r \<in> set (h_outbox d'). row_content h r"
proof (cases "h_streams d = []")
  case True
  have d': "d' = d\<lparr>h_streams := [st]\<rparr>" using ensure_stream[OF assms(2)] by simp
  have e: "h_outbox d = []" "h_ack_ranges d = []" using assms(1) True by (auto simp: outbox_inv_def view_def)
  have "view d' st 0 (-1) (-1)"
    using e ensure_stream(4)[OF assms(2) True] unfolding d'
    by (simp add: view_def watermark_def MAX_HOST_EVENT_SEQUENCE_def)
  moreover have "\<forall>p. h_budget d' p = stored_usage d' p"
    using assms(1) e unfolding d' outbox_inv_def by (simp add: stored_usage_def)
  ultimately show ?thesis using that e unfolding d' by simp
next
  case False
  then have "d' = d" using ensure_stream(2)[OF assms(2)] by simp
  moreover from this have "h_streams d = [st]" using ensure_stream(1)[OF assms(2)] by simp
  moreover note False
  ultimately have "d' = d" "h_streams d = [st]" by auto
  then show ?thesis using assms(1) that by (auto simp: outbox_inv_def view_def)
qed

lemma update_stream_view:
  assumes "h_streams d = [st]" "st_id (f st) = st_id st"
  shows "h_streams (update_stream (st_id st) f d) = [f st]"
  using assms by (simp add: update_stream_def sql_update_def)

lemma upto_snoc: "a \<le> b + 1 \<Longrightarrow> [a..b + 1] = [a..b] @ [b + 1 :: int]"
  using upto_rec2[of a "b + 1"] by simp

lemma insert_view:
  assumes v: "view d st nxt acked flr" and n: "nxt \<le> MAX_HOST_EVENT_SEQUENCE"
    and r: "ob_stream r = st_id st" "ob_sequence r = bigint_string nxt" "ob_sort_key r = sort_key_of nxt"
      "ob_acknowledged_at r = None"
    and d': "d' = update_stream (st_id st) (\<lambda>s. s\<lparr>st_next_sequence := bigint_string (nxt + 1)\<rparr>) (insert_outbox r d)"
  shows "view d' (st\<lparr>st_next_sequence := bigint_string (nxt + 1)\<rparr>) (nxt + 1) acked flr"
proof -
  note w = viewD[OF v]
  have no: "row_no r = nxt" using r(2) w(11) by (simp add: row_no_def bigint_string_def)
  have s: "h_streams d' = [st\<lparr>st_next_sequence := bigint_string (nxt + 1)\<rparr>]"
    unfolding d' using w(1) by (intro update_stream_view) (simp_all add: insert_outbox_def)
  have o: "h_outbox d' = h_outbox d @ [r]" "h_ack_ranges d' = h_ack_ranges d"
    by (simp_all add: d' update_stream_def insert_outbox_def)
  have "map row_no (h_outbox d') = [flr + 1..nxt]"
    using w(3-7) upto_snoc[of "flr + 1" "nxt - 1"] by (simp add: o no)
  moreover have "\<forall>x \<in> set (h_outbox d'). row_ok (st_id st) x"
    using w(8) r no by (auto simp: o row_ok_def)
  ultimately show ?thesis
    using v n s o by (simp add: view_def)
qed

lemma insert_usage:
  assumes v: "view d st nxt acked flr" and b: "\<forall>p. h_budget d p = stored_usage d p"
    and v': "view d' st' (nxt + 1) acked flr" and n: "row_no r = nxt" and a: "ob_acknowledged_at r = None"
    and d': "h_outbox d' = h_outbox d @ [r]" "h_budget d' = h_budget (insert_outbox r d)"
  shows "h_budget d' p = stored_usage d' p"
  using b viewD(5)[OF v] n a
  by (auto simp: d' insert_outbox_def bump_usage_def view_usage[OF v] view_usage[OF v'] fun_upd_def)

text \<open>What a successful append did.\<close>

lemma appendE:
  assumes "appendRuntimeEventInTransaction l h now fresh input d = Inr (row, d')"
  obtains st d1 n e part d2 d3 where
    "ensureRuntimeEventStream fresh d = Inr (st, d1)"
    "parseHostEventSequence (st_next_sequence st) = Inr n"
    "buildRuntimeEventEnvelope h (st_id st) (bigint_string n) (ai_draft input) = Inr e"
    "spendEventCapacity l (case ai_funding input of None \<Rightarrow> Fund_regular None False | Some f \<Rightarrow> f)
        (utf8_length (envelope_text e)) (draft_identity (ai_draft input)) d1 = Inr (part, d2)"
    "row = \<lparr>ob_stream = st_id st, ob_sequence = bigint_string n, ob_sort_key = sort_key_of n,
            ob_event_id = en_event_id e, ob_envelope_json = envelope_text e,
            ob_encoded_bytes = utf8_length (envelope_text e), ob_occurred_at = en_occurred_at e,
            ob_acknowledged_at = None, ob_created_at = now, ob_partition = part\<rparr>"
    "d3 = update_stream (st_id st) (\<lambda>s. s\<lparr>st_next_sequence := bigint_string (n + 1)\<rparr>) (insert_outbox row d2)"
    "case ends_session input of None \<Rightarrow> d' = d3 | Some (wid, sid) \<Rightarrow> markProducerEnded wid sid d3 = Inr d'"
proof -
  from assms obtain st d1 n e part d2 key where
    1: "ensureRuntimeEventStream fresh d = Inr (st, d1)" and
    2: "parseHostEventSequence (st_next_sequence st) = Inr n" and
    3: "buildRuntimeEventEnvelope h (st_id st) (bigint_string n) (ai_draft input) = Inr e" and
    4: "spendEventCapacity l (case ai_funding input of None \<Rightarrow> Fund_regular None False | Some f \<Rightarrow> f)
        (utf8_length (envelope_text e)) (draft_identity (ai_draft input)) d1 = Inr (part, d2)" and
    5: "hostEventSequenceSortKey n = Inr key" and
    6: "row = \<lparr>ob_stream = st_id st, ob_sequence = bigint_string n, ob_sort_key = key,
            ob_event_id = en_event_id e, ob_envelope_json = envelope_text e,
            ob_encoded_bytes = utf8_length (envelope_text e), ob_occurred_at = en_occurred_at e,
            ob_acknowledged_at = None, ob_created_at = now, ob_partition = part\<rparr>" and
    7: "case ends_session input of
          None \<Rightarrow> d' = update_stream (st_id st) (\<lambda>s. s\<lparr>st_next_sequence := bigint_string (n + 1)\<rparr>) (insert_outbox row d2)
        | Some (wid, sid) \<Rightarrow> markProducerEnded wid sid
            (update_stream (st_id st) (\<lambda>s. s\<lparr>st_next_sequence := bigint_string (n + 1)\<rparr>) (insert_outbox row d2)) = Inr d'"
    unfolding appendRuntimeEventInTransaction_def
    by (auto simp: rbind_Inr_iff Let_def split: if_splits option.splits)
  have "key = sort_key_of n" using 5 by (simp add: sort_key_of_def)
  then show ?thesis using that[OF 1 2 3 4 _ refl] 6 7 by simp
qed

lemma envelope_text_pos: "1 \<le> utf8_length (envelope_text e)"
proof -
  obtain c cs where "envelope_text e = c # cs" by (simp add: envelope_text_def)
  moreover have "0 \<le> utf8_length cs" by (auto simp: utf8_length_def intro: sum_rows_nonneg)
  ultimately show ?thesis by (simp add: utf8_length_def)
qed

lemma append_inv:
  assumes inv: "outbox_inv h d" and ap: "appendRuntimeEventInTransaction l h now fresh input d = Inr (row, d')"
  shows "outbox_inv h d'"
proof -
  from ap obtain st d1 n e part d2 d3 where
    en: "ensureRuntimeEventStream fresh d = Inr (st, d1)" and
    n: "parseHostEventSequence (st_next_sequence st) = Inr n" and
    e: "buildRuntimeEventEnvelope h (st_id st) (bigint_string n) (ai_draft input) = Inr e" and
    sp: "spendEventCapacity l (case ai_funding input of None \<Rightarrow> Fund_regular None False | Some f \<Rightarrow> f)
        (utf8_length (envelope_text e)) (draft_identity (ai_draft input)) d1 = Inr (part, d2)" and
    row: "row = \<lparr>ob_stream = st_id st, ob_sequence = bigint_string n, ob_sort_key = sort_key_of n,
            ob_event_id = en_event_id e, ob_envelope_json = envelope_text e,
            ob_encoded_bytes = utf8_length (envelope_text e), ob_occurred_at = en_occurred_at e,
            ob_acknowledged_at = None, ob_created_at = now, ob_partition = part\<rparr>" and
    d3: "d3 = update_stream (st_id st) (\<lambda>s. s\<lparr>st_next_sequence := bigint_string (n + 1)\<rparr>) (insert_outbox row d2)" and
    last: "case ends_session input of None \<Rightarrow> d' = d3 | Some (wid, sid) \<Rightarrow> markProducerEnded wid sid d3 = Inr d'"
    by (rule appendE)
  obtain nxt acked flr where v1: "view d1 st nxt acked flr" and b1: "\<forall>p. h_budget d1 p = stored_usage d1 p"
    and c1: "\<forall>r \<in> set (h_outbox d1). row_content h r" by (rule ensure_inv[OF inv en])
  have same: "same_outbox d1 d2" by (rule spend_same[OF sp])
  then have v2: "view d2 st nxt acked flr" and b2: "\<forall>p. h_budget d2 p = stored_usage d2 p"
    and c2: "\<forall>r \<in> set (h_outbox d2). row_content h r"
    using v1 b1 c1 view_cong[of d2 d1] stored_usage_cong[of d2 d1] by (simp_all add: same_outbox_def)
  have nn: "n = nxt"
  proof -
    have "parseHostEventSequence (bigint_string nxt) = Inr n" using n viewD(2)[OF v1] by simp
    moreover from this have "storable n" by (rule parse_storable)
    ultimately show ?thesis using viewD(11)[OF v1]
      by (auto simp: parseHostEventSequence_def bigint_string_def Let_def split: if_splits)
  qed
  have le: "nxt \<le> MAX_HOST_EVENT_SEQUENCE" using parse_storable[OF n] by (simp add: nn storable_def)
  have v3: "view d3 (st\<lparr>st_next_sequence := bigint_string (nxt + 1)\<rparr>) (nxt + 1) acked flr"
    by (rule insert_view[OF v2 le]) (simp_all add: row nn d3)
  have o3: "h_outbox d3 = h_outbox d2 @ [row]" "h_budget d3 = h_budget (insert_outbox row d2)"
    by (simp_all add: d3 update_stream_def insert_outbox_def)
  have "row_no row = nxt" using viewD(11)[OF v1] by (simp add: row nn row_no_def bigint_string_def)
  then have "\<forall>p. h_budget d3 p = stored_usage d3 p"
    using insert_usage[OF v2 b2 v3 _ _ o3] row by simp
  moreover have "row_content h row"
    using built_envelope[OF e] by (auto simp: row_content_def row intro!: exI[of _ e])
  ultimately have "outbox_inv h d3" using v3 c2 by (auto simp: outbox_inv_def o3)
  moreover have "same_outbox d3 d'"
    using last markProducerEnded_same by (auto split: option.splits)
  ultimately show ?thesis by (simp add: outbox_inv_cong)
qed

lemma append_all_inv:
  "outbox_inv h d \<Longrightarrow> append_all l h now fresh is d = Inr (rows, d') \<Longrightarrow> outbox_inv h d'"
proof (induction "is" arbitrary: d rows)
  case (Cons i "is")
  then show ?case using append_inv by (fastforce simp: rbind_Inr_iff)
qed simp

section \<open>Acknowledging\<close>

lemma acknowledged_number_view: "view d st nxt acked flr \<Longrightarrow> acknowledged_number st = Inr acked"
  by (auto simp: view_def watermark_def acknowledged_number_def parse_print)

lemma get_stream_view: "view d st nxt acked flr \<Longrightarrow> getRuntimeEventStream s d = Inr st' \<longleftrightarrow> s = st_id st \<and> st' = st"
  by (auto simp: view_def getRuntimeEventStream_def)

lemma parse_next_view: "view d st nxt acked flr \<Longrightarrow> parseHostEventSequence (st_next_sequence st) = Inr n \<Longrightarrow> n = nxt"
  by (auto simp: view_def parseHostEventSequence_def bigint_string_def Let_def split: if_splits)

text \<open>
  On a view the scan that checks contiguity always succeeds: an acknowledgement is refused only when it
  names something that was not emitted.
\<close>

lemma ack_scan:
  assumes v: "view d st nxt acked flr" and t: "acked < through" "through < nxt" "storable through"
  shows "contiguous_from (acked + 1)
     (map ob_sequence (sort_key ob_sort_key (filter (keys_between (st_id st) (sort_key_of acked) (sort_key_of through))
        (h_outbox d)))) = Inr (through + 1)"
proof -
  have a: "storable acked \<or> acked = -1" by (rule viewD(9)[OF v])
  have "map row_no (filter (keys_between (st_id st) (sort_key_of acked) (sort_key_of through)) (h_outbox d))
      = [acked + 1..through]"
    using viewD(4)[OF v] t a by (intro range_rows[OF v]) auto
  then show ?thesis
    unfolding view_sort_filter[OF v] map_sequence[OF v]
    using contiguous_upto[of "acked + 1" through] t a by (auto simp: storable_def)
qed

definition ack_moved :: "host_db \<Rightarrow> stream_row \<Rightarrow> int \<Rightarrow> int \<Rightarrow> time \<Rightarrow> host_db \<Rightarrow> bool" where
  "ack_moved d st acked through now d' \<longleftrightarrow>
     recordRuntimeEventAck (st_id st) (sort_key_of (acked + 1)) (sort_key_of through) now
       (update_stream (st_id st) (\<lambda>s. s\<lparr>st_acknowledged_through := Some (bigint_string through),
                                       st_acknowledged_sort_key := Some (sort_key_of through)\<rparr>) d) = Inr d'"

lemma ackE:
  assumes v: "view d st nxt acked flr" and a: "ackRuntimeEvents l ph now s t d = Inr (u, d')"
  obtains "d' = d" "\<exists>n. parseHostEventSequence t = Inr n \<and> n \<le> acked"
  | through d1 where "parseHostEventSequence t = Inr through" "acked < through" "through < nxt"
      "ack_moved d st acked through now d1" "d' = observeCapacity l now d1" "s = st_id st"
proof -
  obtain through where t: "parseHostEventSequence t = Inr through" and s: "s = st_id st"
    using a by (auto simp: ackRuntimeEvents_def storage_write_def rbind_Inr_iff get_stream_view[OF v] split: if_splits)
  have st: "storable through" by (rule parse_storable[OF t])
  show ?thesis
  proof (cases "through \<le> acked")
    case True
    then have "d' = d"
      using a t s by (auto simp: ackRuntimeEvents_def storage_write_def rbind_Inr_iff get_stream_view[OF v]
          acknowledged_number_view[OF v] split: if_splits)
    then show ?thesis using that(1) t True by blast
  next
    case False
    then have "through < nxt \<and> (\<exists>d1. ack_moved d st acked through now d1 \<and> d' = observeCapacity l now d1)"
      using a t s st viewD(9)[OF v] parse_next_view[OF v]
      by (auto simp: ackRuntimeEvents_def storage_write_def rbind_Inr_iff get_stream_view[OF v] sort_key_ok
          acknowledged_number_view[OF v] ack_moved_def storable_def split: if_splits)
    then show ?thesis using that(2) t s False by force
  qed
qed

lemma ack_moved_view:
  assumes v: "view d st nxt acked flr" and t: "acked < through" "through < nxt" "storable through"
    and m: "ack_moved d st acked through now d'"
  shows "view d' (st\<lparr>st_acknowledged_through := Some (bigint_string through),
                   st_acknowledged_sort_key := Some (sort_key_of through)\<rparr>) nxt through flr"
proof -
  note w = viewD[OF v]
  have f: "storable (acked + 1)" using t w(3,4) by (auto simp: storable_def)
  have s: "h_streams d' = [st\<lparr>st_acknowledged_through := Some (bigint_string through),
                   st_acknowledged_sort_key := Some (sort_key_of through)\<rparr>]"
    and o: "h_outbox d' = h_outbox d"
    and r: "h_ack_ranges d' = h_ack_ranges d @ [\<lparr>ar_stream = st_id st, ar_first = sort_key_of (acked + 1),
              ar_through = sort_key_of through, ar_at = now\<rparr>]"
    using m w(1) by (auto simp: ack_moved_def recordRuntimeEventAck_def Let_def update_stream_def sql_update_def
        split: if_splits)
  have "\<exists>a \<in> set (h_ack_ranges d'). covers a n" if "flr < n" "n \<le> through" for n
  proof (cases "n \<le> acked")
    case True
    then show ?thesis using v that unfolding r by (auto simp: view_def)
  next
    case False
    then have "storable n" using that t f by (auto simp: storable_def)
    then show ?thesis using False that t f unfolding r by (auto simp: covers_def)
  qed
  moreover have "range_ok (st_id st) through \<lparr>ar_stream = st_id st, ar_first = sort_key_of (acked + 1),
              ar_through = sort_key_of through, ar_at = now\<rparr>"
    unfolding range_ok_def using t f by simp (metis order_refl zless_imp_add1_zle)
  then have "\<forall>a \<in> set (h_ack_ranges d'). range_ok (st_id st) through a"
    using v t range_ok_mono[of _ acked _ through] unfolding r by (auto simp: view_def)
  ultimately show ?thesis
    using v t s o by (simp add: view_def watermark_def)
qed

text \<open>The acknowledged rows leave the unacknowledged counters of their partitions.\<close>

lemma ack_moved_usage:
  assumes v: "view d st nxt acked flr" and b: "\<forall>p. h_budget d p = stored_usage d p"
    and t: "acked < through" "through < nxt" "storable through" and m: "ack_moved d st acked through now d'"
  shows "h_budget d' p = stored_usage d' p"
proof -
  note v' = ack_moved_view[OF v t m]
  have f: "storable (acked + 1)" using t viewD(3,4)[OF v] by (auto simp: storable_def)
  let ?new = "\<lambda>r. ob_partition r = p \<and> acked < row_no r \<and> row_no r \<le> through"
  have o: "h_outbox d' = h_outbox d"
    using m by (auto simp: ack_moved_def recordRuntimeEventAck_def Let_def update_stream_def split: if_splits)
  have new: "filter (\<lambda>r. ob_partition r = p) (filter (\<lambda>r. ob_stream r = st_id st
        \<and> sort_key_of (acked + 1) \<le> ob_sort_key r \<and> ob_sort_key r \<le> sort_key_of through) (h_outbox d))
      = filter ?new (h_outbox d)"
    unfolding filter_filter using view_rows[OF v] t f by (intro filter_cong) auto
  have "h_budget d' p = (h_budget d p)\<lparr>
       unacknowledged_count := unacknowledged_count (h_budget d p) - int (length (filter ?new (h_outbox d))),
       unacknowledged_bytes := unacknowledged_bytes (h_budget d p) - sum_rows ob_encoded_bytes (filter ?new (h_outbox d))\<rparr>"
    using m new by (auto simp: ack_moved_def recordRuntimeEventAck_def Let_def update_stream_def split: if_splits)
  moreover have "length (filter (\<lambda>r. ob_partition r = p \<and> acked < row_no r) rows)
       = length (filter ?new rows) + length (filter (\<lambda>r. ob_partition r = p \<and> through < row_no r) rows)" for rows
    using t(1) by (induction rows) auto
  moreover have "sum_rows ob_encoded_bytes (filter (\<lambda>r. ob_partition r = p \<and> acked < row_no r) rows)
       = sum_rows ob_encoded_bytes (filter ?new rows)
         + sum_rows ob_encoded_bytes (filter (\<lambda>r. ob_partition r = p \<and> through < row_no r) rows)" for rows
    using t(1) by (induction rows) auto
  ultimately show ?thesis
    using b by (simp add: view_usage[OF v] view_usage[OF v'] o)
qed

lemma outbox_inv_view:
  assumes "outbox_inv h d" "h_streams d \<noteq> []"
  obtains st nxt acked flr where "view d st nxt acked flr"
  using assms by (auto simp: outbox_inv_def)

lemma ack_inv:
  assumes inv: "outbox_inv h d" and a: "ackRuntimeEvents l ph now s t d = Inr (u, d')"
  shows "outbox_inv h d'"
proof -
  have "h_streams d \<noteq> []"
    using a by (auto simp: ackRuntimeEvents_def storage_write_def rbind_Inr_iff getRuntimeEventStream_def
        split: if_splits list.splits)
  then obtain st nxt acked flr where v: "view d st nxt acked flr" using outbox_inv_view[OF inv] by blast
  from v a show ?thesis
  proof (cases rule: ackE)
    case 1
    then show ?thesis using inv by simp
  next
    case (2 through d1)
    have st: "storable through" by (rule parse_storable[OF 2(1)])
    have "h_outbox d1 = h_outbox d"
      using 2(4) by (auto simp: ack_moved_def recordRuntimeEventAck_def Let_def update_stream_def split: if_splits)
    then have "outbox_inv h d1"
      using ack_moved_view[OF v 2(2,3) st 2(4)] ack_moved_usage[OF v _ 2(2,3) st 2(4)] inv
      by (auto simp: outbox_inv_def)
    then show ?thesis using 2(5) outbox_inv_cong[OF observe_same] by simp
  qed
qed

section \<open>Pruning\<close>

lemma prune_walk_take: "\<exists>k. prune_walk d c b rows = take k rows"
proof (induction rows arbitrary: b)
  case (Cons r rows)
  show ?case
  proof (cases "prune_walk d c b (r # rows) = []")
    case True
    then show ?thesis by (intro exI[of _ 0]) simp
  next
    case False
    then obtain k where "prune_walk d c b (r # rows) = r # take k rows"
      using Cons[of "b + ob_encoded_bytes r"] by (auto split: option.splits if_splits)
    then show ?thesis by (intro exI[of _ "Suc k"]) simp
  qed
qed simp

lemma prune_walk_stamped: "r \<in> set (prune_walk d c b rows) \<Longrightarrow> ack_timestamp d r \<noteq> None"
  by (induction rows arbitrary: b) (auto split: option.splits if_splits)

text \<open>The rows a pruning pass deletes are the oldest ones, a prefix, and all acknowledged.\<close>

lemma last_take_no:
  assumes "map row_no rows = [lo..hi]" "0 < k" "k \<le> length rows"
  shows "row_no (last (take k rows)) = lo + int k - 1"
proof -
  have len: "length rows = nat (hi - lo + 1)" using arg_cong[OF assms(1), of length] by simp
  have "take k rows \<noteq> []" using assms by auto
  then have "last (take k rows) = rows ! (k - 1)" using assms by (simp add: last_conv_nth min_absorb2)
  moreover have "row_no (rows ! (k - 1)) = [lo..hi] ! (k - 1)"
    using nth_map[of "k - 1" rows row_no] assms by simp
  moreover have "lo + int (k - 1) \<le> hi" using assms len by linarith
  ultimately show ?thesis using assms(2) by (simp add: nth_upto)
qed

lemma filter_le_take:
  assumes "map row_no rows = [lo..hi]" "k \<le> length rows"
  shows "filter (\<lambda>r. row_no r \<le> lo + int k - 1) rows = take k rows"
    "filter (\<lambda>r. \<not> row_no r \<le> lo + int k - 1) rows = drop k rows"
    "map row_no (drop k rows) = [lo + int k..hi]"
proof -
  have len: "length rows = nat (hi - lo + 1)" using arg_cong[OF assms(1), of length] by simp
  have nth: "row_no (rows ! i) = lo + int i" if "i < length rows" for i
  proof -
    have "row_no (rows ! i) = [lo..hi] ! i" using assms(1) that by (metis nth_map)
    then show ?thesis using that len by (simp add: nth_upto)
  qed
  have small: "\<forall>r \<in> set (take k rows). row_no r \<le> lo + int k - 1"
    using nth assms(2) by (auto simp: in_set_conv_nth)
  have big: "\<forall>r \<in> set (drop k rows). \<not> row_no r \<le> lo + int k - 1"
    using nth assms(2) by (auto simp: in_set_conv_nth)
  have split: "rows = take k rows @ drop k rows" by simp
  show "filter (\<lambda>r. row_no r \<le> lo + int k - 1) rows = take k rows"
    by (subst split, subst filter_append) (use small big in \<open>simp add: filter_id_conv filter_empty_conv\<close>)
  show "filter (\<lambda>r. \<not> row_no r \<le> lo + int k - 1) rows = drop k rows"
    by (subst split, subst filter_append) (use small big in \<open>simp add: filter_id_conv filter_empty_conv\<close>)
  show "map row_no (drop k rows) = [lo + int k..hi]"
    by (rule nth_equalityI) (use nth len assms(2) in \<open>auto simp: nth_upto\<close>)
qed

lemma fold_discharge:
  "fold (discharge_row d) rows b p = (b p)\<lparr>
     retained_count := retained_count (b p) - int (length (filter (\<lambda>r. ob_partition r = p) rows)),
     retained_bytes := retained_bytes (b p) - sum_rows ob_encoded_bytes (filter (\<lambda>r. ob_partition r = p) rows),
     unacknowledged_count := unacknowledged_count (b p)
       - int (length (filter (\<lambda>r. ob_partition r = p \<and> row_pending d r) rows)),
     unacknowledged_bytes := unacknowledged_bytes (b p)
       - sum_rows ob_encoded_bytes (filter (\<lambda>r. ob_partition r = p \<and> row_pending d r) rows)\<rparr>"
  by (induction rows arbitrary: b) (auto simp: discharge_row_def bump_usage_def)

definition pruned :: "host_db \<Rightarrow> stream_row \<Rightarrow> nat \<Rightarrow> host_db \<Rightarrow> bool" where
  "pruned d st k d' \<longleftrightarrow>
     0 < k \<and> k \<le> length (h_outbox d) \<and>
     (let lastRow = last (take k (h_outbox d));
          d1 = update_stream (st_id st)
                 (\<lambda>s. s\<lparr>st_replay_floor_sequence := Some (ob_sequence lastRow),
                        st_replay_floor_sort_key := Some (ob_sort_key lastRow)\<rparr>) d;
          d2 = delete_outbox (\<lambda>r. ob_stream r = st_id st \<and> ob_sort_key r \<le> ob_sort_key lastRow) d1
      in d' = d2\<lparr>h_ack_ranges := filter (\<lambda>a. \<not> (ar_stream a = st_id st
                     \<and> ar_through a \<le> ob_sort_key lastRow)) (h_ack_ranges d2)\<rparr>)"

lemma pruneE:
  assumes v: "view d st nxt acked flr" and pr: "pruneAcknowledgedRuntimeEvents l ph now fresh mode older d = Inr (k, d')"
  obtains "k = 0" "d' = d"
  | d1 where "pruned d st k d1" "d' = observeCapacity l now d1"
      "\<forall>r \<in> set (take k (h_outbox d)). ack_timestamp d r \<noteq> None"
proof -
  define cutoff where "cutoff = (case mode of Retained_pressure \<Rightarrow> None | Grace \<Rightarrow> Some (min older (now - eventAckGraceMs l)))"
  define walked where "walked = prune_walk d cutoff 0 (take 100 (h_outbox d))"
  have st: "ensureRuntimeEventStream fresh d = Inr (st, d)"
    using viewD(1)[OF v] by (simp add: ensureRuntimeEventStream_def)
  have "filter (\<lambda>r. ob_stream r = st_id st) (h_outbox d) = h_outbox d"
    using view_rows(4)[OF v] by (auto simp: filter_id_conv)
  then have cand: "sort_key ob_sort_key (filter (\<lambda>r. ob_stream r = st_id st) (h_outbox d)) = h_outbox d"
    using view_sort_filter[OF v, of "\<lambda>r. ob_stream r = st_id st"] by simp
  obtain j where j: "walked = take j (take 100 (h_outbox d))"
    using prune_walk_take unfolding walked_def by blast
  define i where "i = length walked"
  have w: "walked = take i (h_outbox d)" "i \<le> length (h_outbox d)"
    by (simp_all add: i_def j min_def)
  have stamped: "\<forall>r \<in> set walked. ack_timestamp d r \<noteq> None"
    using prune_walk_stamped unfolding walked_def by blast
  show ?thesis
  proof (cases "walked = []")
    case True
    then show ?thesis
      using pr that(1) unfolding pruneAcknowledgedRuntimeEvents_def storage_write_def
      by (auto simp: st cand Let_def walked_def cutoff_def split: if_splits)
  next
    case False
    define d2 where "d2 = delete_outbox (\<lambda>r. ob_stream r = st_id st \<and> ob_sort_key r \<le> ob_sort_key (last walked))
         (update_stream (st_id st) (\<lambda>s. s\<lparr>st_replay_floor_sequence := Some (ob_sequence (last walked)),
                        st_replay_floor_sort_key := Some (ob_sort_key (last walked))\<rparr>) d)"
    define d3 where "d3 = d2\<lparr>h_ack_ranges := filter (\<lambda>a. \<not> (ar_stream a = st_id st
                     \<and> ar_through a \<le> ob_sort_key (last walked))) (h_ack_ranges d2)\<rparr>"
    have k: "k = i" and d': "d' = observeCapacity l now d3"
      using pr False unfolding pruneAcknowledgedRuntimeEvents_def storage_write_def
      by (auto simp: st cand Let_def d2_def d3_def i_def simp flip: walked_def cutoff_def split: if_splits)
    have "0 < i" using False by (simp add: i_def)
    then have "pruned d st i d3"
      using w(2) by (simp add: pruned_def Let_def d2_def d3_def flip: w(1))
    then show ?thesis using that(2) d' k stamped w(1) by simp
  qed
qed

lemma pruned_view:
  assumes v: "view d st nxt acked flr" and pr: "pruned d st k d'" and a: "flr + int k \<le> acked"
  shows "\<exists>st'. view d' st' nxt acked (flr + int k) \<and> st_id st' = st_id st" "h_outbox d' = drop k (h_outbox d)"
    "\<forall>p. h_budget d p = stored_usage d p \<Longrightarrow> h_budget d' p = stored_usage d' p"
proof -
  note w = viewD[OF v]
  have k: "0 < k" "k \<le> length (h_outbox d)" using pr by (auto simp: pruned_def)
  define lr where "lr = last (take k (h_outbox d))"
  have lr: "row_no lr = flr + int k" using last_take_no[OF w(7) k] by (simp add: lr_def)
  have ne: "take k (h_outbox d) \<noteq> []" using k by auto
  note lrow = view_rows[OF v in_set_takeD[OF last_in_set[OF ne], folded lr_def]]
  define st' where "st' = st\<lparr>st_replay_floor_sequence := Some (ob_sequence lr), st_replay_floor_sort_key := Some (ob_sort_key lr)\<rparr>"
  define doomed where "doomed = (\<lambda>r :: outbox_row. ob_stream r = st_id st \<and> ob_sort_key r \<le> ob_sort_key lr)"
  define d1 where "d1 = update_stream (st_id st) (\<lambda>s. s\<lparr>st_replay_floor_sequence := Some (ob_sequence lr),
                        st_replay_floor_sort_key := Some (ob_sort_key lr)\<rparr>) d"
  have d': "d' = (delete_outbox doomed d1)\<lparr>h_ack_ranges := filter (\<lambda>a. \<not> (ar_stream a = st_id st
                     \<and> ar_through a \<le> ob_sort_key lr)) (h_ack_ranges d)\<rparr>"
    using pr by (simp add: pruned_def Let_def lr_def doomed_def d1_def delete_outbox_def update_stream_def)
  have s1: "h_streams d1 = [st']" unfolding d1_def st'_def using w(1) by (intro update_stream_view) simp_all
  have o1: "h_outbox d1 = h_outbox d" "h_budget d1 = h_budget d" by (simp_all add: d1_def update_stream_def)
  have dm: "doomed r \<longleftrightarrow> row_no r \<le> flr + int k" if "r \<in> set (h_outbox d)" for r
    using view_rows[OF v that] lrow lr by (simp add: doomed_def)
  have keep: "filter (\<lambda>r. \<not> doomed r) (h_outbox d) = drop k (h_outbox d)"
    using filter_le_take(2)[OF w(7) k(2)] dm by (simp cong: filter_cong)
  have gone: "filter doomed (h_outbox d) = take k (h_outbox d)"
    using filter_le_take(1)[OF w(7) k(2)] dm by (simp cong: filter_cong)
  show o: "h_outbox d' = drop k (h_outbox d)" by (simp add: d' delete_outbox_def o1 keep)
  have v': "view d' st' nxt acked (flr + int k)"
  proof -
    have "\<exists>a \<in> set (h_ack_ranges d'). covers a n" if "flr + int k < n" "n \<le> acked" for n
    proof -
      have "flr < n \<and> n \<le> acked" using that by simp
      then obtain a where ar: "a \<in> set (h_ack_ranges d)" "covers a n" using v unfolding view_def by blast
      have n: "storable n" using that w(3,5,6) by (auto simp: storable_def)
      obtain y where y: "ar_through a = sort_key_of y" "storable y" using ar(1) v by (auto simp: view_def range_ok_def)
      have "n \<le> y" using ar(2) y n by (simp add: covers_def)
      then have "\<not> ar_through a \<le> ob_sort_key lr" using y lrow lr that by simp
      then show ?thesis using ar by (auto simp: d')
    qed
    moreover have "map row_no (h_outbox d') = [flr + int k + 1..nxt - 1]"
      using filter_le_take(3)[OF w(7) k(2)] by (simp add: o algebra_simps)
    moreover have "\<forall>r \<in> set (h_outbox d'). row_ok (st_id st) r" using w(8) by (auto simp: o dest: in_set_dropD)
    moreover have "h_streams d' = [st']" by (simp add: d' delete_outbox_def s1)
    moreover have "\<forall>x \<in> set (h_ack_ranges d'). range_ok (st_id st) acked x" using v by (auto simp: d' view_def)
    moreover have "acked \<noteq> -1" using a k w(3) by simp
    ultimately show ?thesis
      using v a lrow lr by (simp add: view_def watermark_def st'_def)
  qed
  then show "\<exists>st'. view d' st' nxt acked (flr + int k) \<and> st_id st' = st_id st" by (auto simp: st'_def)
  assume b: "\<forall>p. h_budget d p = stored_usage d p"
  have early: "r \<in> set (h_outbox d)" "row_no r \<le> acked" if "r \<in> set (take k (h_outbox d))" for r
  proof -
    show r: "r \<in> set (h_outbox d)" using that by (rule in_set_takeD)
    have "doomed r" using that unfolding gone[symmetric] by simp
    then show "row_no r \<le> acked" using dm[OF r] a by simp
  qed
  have none: "filter (\<lambda>r. ob_partition r = p \<and> acked < row_no r) (take k (h_outbox d)) = []"
    using early(2) by (fastforce simp: filter_empty_conv)
  have "\<not> row_pending d1 r" if "r \<in> set (take k (h_outbox d))" for r
  proof -
    have "\<not> row_pending d r" using pending_iff[OF v early(1)[OF that]] early(2)[OF that] by simp
    moreover have "stream_ack_key d1 (st_id st) = stream_ack_key d (st_id st)"
      using s1 w(1) by (simp add: stream_ack_key_def st'_def)
    ultimately show ?thesis using view_rows(4)[OF v early(1)[OF that]] by (simp add: row_pending_def)
  qed
  then have none': "filter (\<lambda>r. ob_partition r = p \<and> row_pending d1 r) (take k (h_outbox d)) = []"
    by (auto simp: filter_empty_conv)
  have split: "filter P (h_outbox d) = filter P (take k (h_outbox d)) @ filter P (drop k (h_outbox d))" for P
    by (metis append_take_drop_id filter_append)
  have "h_budget d' p = fold (discharge_row d1) (take k (h_outbox d)) (h_budget d) p"
    by (simp add: d' delete_outbox_def o1 gone)
  also have "\<dots> = stored_usage d' p"
    unfolding fold_discharge none' b[rule_format] view_usage[OF v] view_usage[OF v'] o split
    by (simp add: none)
  finally show "h_budget d' p = stored_usage d' p" .
qed

lemma pruned_acked:
  assumes v: "view d st nxt acked flr" and k: "0 < k" "k \<le> length (h_outbox d)"
    and st: "\<forall>r \<in> set (take k (h_outbox d)). ack_timestamp d r \<noteq> None"
  shows "flr + int k \<le> acked"
proof -
  have ne: "take k (h_outbox d) \<noteq> []" using k by auto
  then have l: "last (take k (h_outbox d)) \<in> set (take k (h_outbox d))" by (rule last_in_set)
  have "row_no (last (take k (h_outbox d))) \<le> acked"
    using stamp_iff[OF v in_set_takeD[OF l]] st l by blast
  then show ?thesis using last_take_no[OF viewD(7)[OF v] k] by simp
qed

lemma prune_inv:
  assumes inv: "outbox_inv h d" and pr: "pruneAcknowledgedRuntimeEvents l ph now fresh mode older d = Inr (k, d')"
  shows "outbox_inv h d'"
proof (cases "h_streams d = []")
  case True
  then have e: "h_outbox d = []" "h_ack_ranges d = []" using inv by (auto simp: outbox_inv_def view_def)
  obtain st d1 where en: "ensureRuntimeEventStream fresh d = Inr (st, d1)" and d': "d' = d1"
    using pr e ensure_stream(3)
    by (fastforce simp: pruneAcknowledgedRuntimeEvents_def storage_write_def rbind_Inr_iff Let_def split: if_splits)
  show ?thesis unfolding d' using ensure_inv[OF inv en] by (metis outbox_inv_def)
next
  case False
  then obtain st nxt acked flr where v: "view d st nxt acked flr" using outbox_inv_view[OF inv] by blast
  from v pr show ?thesis
  proof (cases rule: pruneE)
    case 1
    then show ?thesis using inv by simp
  next
    case (2 d1)
    have "flr + int k \<le> acked" using pruned_acked[OF v _ _ 2(3)] 2(1) by (simp add: pruned_def)
    note p = pruned_view[OF v 2(1) this]
    have "\<forall>q. h_budget d1 q = stored_usage d1 q" using p(3) inv by (simp add: outbox_inv_def)
    then have "outbox_inv h d1"
      using p(1,2) inv by (auto simp: outbox_inv_def dest: in_set_dropD)
    then show ?thesis using 2(2) outbox_inv_cong[OF observe_same] by simp
  qed
qed

section \<open>The audit\<close>

text \<open>The schema reads back every envelope it accepted: parsing inverts \<^verbatim>\<open>JSON.stringify\<close>.\<close>

definition codec_ok :: "host_identity \<Rightarrow> bool" where
  "codec_ok h \<longleftrightarrow> (\<forall>e. hi_accepts h e \<longrightarrow> hi_parse h (envelope_text e) = Some e)"

lemma audit_rows_ok:
  assumes v: "view d st nxt acked flr" and c: "codec_ok h" "\<forall>r \<in> set (h_outbox d). row_content h r"
    and rows: "set rows \<subseteq> set (h_outbox d)" "map row_no rows = [lo..nxt - 1]"
  shows "audit_rows h d (st_id st) nxt acked lo rows = Inr (max lo nxt)"
  using rows
proof (induction rows arbitrary: lo)
  case Nil
  then show ?case by (simp add: upto_Nil2)
next
  case (Cons r rows)
  have le: "lo \<le> nxt - 1" using Cons.prems(2) by (metis list.distinct(1) list.simps(9) not_le upto_Nil)
  then have r: "row_no r = lo" and rs: "map row_no rows = [lo + 1..nxt - 1]"
    using Cons.prems(2) by (simp_all add: upto_rec1)
  have mem: "r \<in> set (h_outbox d)" using Cons.prems(1) by simp
  note w = view_rows[OF v mem]
  obtain e where e: "hi_accepts h e" "ob_envelope_json r = envelope_text e" "ob_encoded_bytes r = utf8_length (envelope_text e)"
    "en_stream e = ob_stream r" "en_sequence e = ob_sequence r" "en_event_id e = ob_event_id r"
    "en_occurred_at e = ob_occurred_at r" using c(2) mem by (auto simp: row_content_def)
  have p: "hi_parse h (envelope_text e) = Some e" using c(1) e(1) by (simp add: codec_ok_def)
  have "parseHostEventSequence (ob_sequence r) = Inr lo" using w(3,5) r parse_print by metis
  moreover have "(lo \<le> acked) = (ack_timestamp d r \<noteq> None)" using stamp_iff[OF v mem] r by simp
  moreover have "audit_rows h d (st_id st) nxt acked (lo + 1) rows = Inr (max (lo + 1) nxt)"
    using Cons.IH[OF _ rs] Cons.prems(1) by simp
  ultimately show ?case using e p w(4) le by auto
qed

lemma audit_events:
  assumes inv: "outbox_inv h d" and c: "codec_ok h"
    and n: "\<forall>st \<in> set (h_streams d). \<exists>n. parseHostEventSequence (st_next_sequence st) = Inr n"
  shows "auditRuntimeEventState h d = Inr ()"
proof (cases "h_streams d = []")
  case True
  then show ?thesis using inv by (simp add: auditRuntimeEventState_def outbox_inv_def)
next
  case False
  then obtain st nxt acked flr where v: "view d st nxt acked flr" using outbox_inv_view[OF inv] by blast
  note w = viewD[OF v]
  have nx: "parseHostEventSequence (st_next_sequence st) = Inr nxt"
    using n w(1) parse_next_view[OF v] by fastforce
  have f: "(case st_replay_floor_sequence st of None \<Rightarrow> Inr (-1) | Some x \<Rightarrow> parseHostEventSequence x) = Inr flr"
    using v by (auto simp: view_def watermark_def parse_print)
  have rows: "filter (\<lambda>r. ob_stream r = st_id st) (h_outbox d) = h_outbox d"
    using view_rows(4)[OF v] by (auto simp: filter_id_conv)
  have content: "\<forall>r \<in> set (h_outbox d). row_content h r" using inv by (simp add: outbox_inv_def)
  have "audit_rows h d (st_id st) nxt acked (flr + 1) (h_outbox d) = Inr (max (flr + 1) nxt)"
    using audit_rows_ok[OF v c content _ w(7)] by simp
  moreover have "max (flr + 1) nxt = nxt" using w(4,5) by simp
  moreover have "\<not> list_ex (\<lambda>r. ob_encoded_bytes r > MAX_RUNTIME_EVENT_BYTES
          \<or> utf8_length (ob_envelope_json r) \<noteq> ob_encoded_bytes r) (h_outbox d)"
    using content by (auto simp: list_ex_iff row_content_def)
  moreover have "stored_usage d p = h_budget d p" for p using inv by (simp add: outbox_inv_def)
  ultimately show ?thesis
    using w(1,4,5) nx f acknowledged_number_view[OF v] view_sort_filter[OF v, of "\<lambda>r. ob_stream r = st_id st"] rows
    by (simp add: auditRuntimeEventState_def)
qed

end
