(* ===== verification/OutboxFunding.thy ===== *)
theory OutboxFunding
  imports HostOutboxProps
begin

text \<open>
  Promises of the outbox are funded.  \<open>fund_inv\<close> bounds what each partition has stored plus what it has
  promised: open wallets and unfinished teardowns on the control partition, live frames on the regular
  one.  Every operation keeps it, hence the check that a restart makes of the stored promises never
  fails, and an event a promise was made for is never refused for want of space.
\<close>

section \<open>The invariant\<close>

definition fund_keys :: "host_db \<Rightarrow> bool" where
  "fund_keys d \<longleftrightarrow>
     distinct (map wl_id (h_wallets d)) \<and> distinct (map td_command (h_teardowns d)) \<and> distinct (map fr_id (h_frames d))"

definition fund_signs :: "host_db \<Rightarrow> bool" where
  "fund_signs d \<longleftrightarrow>
     (\<forall>w \<in> set (h_wallets d). 0 \<le> wl_remaining w) \<and> (\<forall>t \<in> set (h_teardowns d). 0 \<le> td_remaining t)
     \<and> (\<forall>f \<in> set (h_frames d). 0 \<le> fr_rows f \<and> 0 \<le> fr_bytes f)"

definition fund_rows :: "host_db \<Rightarrow> bool" where
  "fund_rows d \<longleftrightarrow>
     (\<forall>r \<in> set (h_outbox d). 1 \<le> ob_encoded_bytes r
        \<and> (ob_partition r \<noteq> Regular \<longrightarrow> ob_encoded_bytes r \<le> CONTROL_EVENT_MAX_BYTES))"

definition fits_control :: "runtime_limits \<Rightarrow> host_db \<Rightarrow> int \<Rightarrow> bool" where
  "fits_control l d n \<longleftrightarrow>
     retained_count (h_budget d Control) + control_rows_reserved d + n \<le> eventControlRows l - EMERGENCY_EVENT_ROWS"

definition fits_regular :: "runtime_limits \<Rightarrow> host_db \<Rightarrow> int \<Rightarrow> int \<Rightarrow> bool" where
  "fits_regular l d n bytes \<longleftrightarrow>
     retained_count (h_budget d Regular) + sum_rows fr_rows (h_frames d) + n \<le> eventHardRows l
     \<and> retained_bytes (h_budget d Regular) + sum_rows fr_bytes (h_frames d) + bytes \<le> eventHardBytes l"

definition fits_emergency :: "host_db \<Rightarrow> int \<Rightarrow> int \<Rightarrow> bool" where
  "fits_emergency d n bytes \<longleftrightarrow>
     retained_count (h_budget d Emergency) + n \<le> EMERGENCY_EVENT_ROWS
     \<and> retained_bytes (h_budget d Emergency) + bytes \<le> EMERGENCY_EVENT_BYTES"

definition fund_inv :: "runtime_limits \<Rightarrow> host_db \<Rightarrow> bool" where
  "fund_inv l d \<longleftrightarrow>
     fund_keys d \<and> fund_signs d \<and> fund_rows d
     \<and> fits_control l d 0 \<and> fits_regular l d 0 0 \<and> fits_emergency d 0 0"

lemmas fund_defs = fund_inv_def fund_keys_def fund_signs_def fund_rows_def
  fits_control_def fits_regular_def fits_emergency_def

definition same_fund :: "host_db \<Rightarrow> host_db \<Rightarrow> bool" where
  "same_fund d d' \<longleftrightarrow>
     h_wallets d' = h_wallets d \<and> h_teardowns d' = h_teardowns d \<and> h_frames d' = h_frames d
     \<and> h_outbox d' = h_outbox d
     \<and> (\<forall>p. retained_count (h_budget d' p) = retained_count (h_budget d p)
          \<and> retained_bytes (h_budget d' p) = retained_bytes (h_budget d p))"

lemma fund_inv_cong: "same_fund d d' \<Longrightarrow> fund_inv l d' = fund_inv l d"
  by (simp add: same_fund_def fund_defs control_rows_reserved_def)

lemma fits_cong:
  "same_fund d d' \<Longrightarrow> fits_control l d' n = fits_control l d n"
  "same_fund d d' \<Longrightarrow> fits_regular l d' n b = fits_regular l d n b"
  "same_fund d d' \<Longrightarrow> fits_emergency d' n b = fits_emergency d n b"
  by (simp_all add: same_fund_def fits_control_def fits_regular_def fits_emergency_def control_rows_reserved_def)

lemma refresh_fund [simp]: "same_fund d (snd (refreshOutboxBudget l now d))"
  by (simp add: refreshOutboxBudget_def Let_def same_fund_def)

lemma observe_fund [simp]: "same_fund d (observeCapacity l now d)"
  by (simp add: observeCapacity_def refreshRuntimeFileBudget_def same_fund_def refreshOutboxBudget_def Let_def)

section \<open>Sums over the open rows of a table\<close>

lemma sum_filter_update:
  assumes "length (filter P rows) = 1" "\<And>r. P r \<Longrightarrow> Q r \<and> Q (g r) \<and> f (g r) = f r + n"
  shows "sum_rows f (filter Q (sql_update P g rows)) = sum_rows f (filter Q rows) + n"
proof -
  obtain r where r: "filter P rows = [r]" using assms(1) by (auto simp: length_Suc_conv)
  then have "P r" by (metis filter_eq_ConsD)
  have "sum_rows f (filter Q (sql_update P g rows))
     = sum_rows f (filter Q rows) + sum_rows (\<lambda>x. (if Q (g x) then f (g x) else 0) - (if Q x then f x else 0)) (filter P rows)"
    using sum_update_files[of "\<lambda>r. if Q r then f r else 0" P g rows] by (simp add: sum_rows_filter)
  then show ?thesis using r assms(2)[OF \<open>P r\<close>] by simp
qed

lemma key_filter_and_le: "distinct (map k rows) \<Longrightarrow> length (filter (\<lambda>r. k r = x \<and> Q r) rows) \<le> 1"
proof (induction rows)
  case (Cons r rows)
  then have "k r = x \<Longrightarrow> filter (\<lambda>r. k r = x \<and> Q r) rows = []" by (auto simp: filter_empty_conv image_iff)
  with Cons show ?case by auto
qed simp

lemma sum_filter_drop:
  assumes "\<And>r. r \<in> set rows \<Longrightarrow> 0 \<le> f r" "\<And>r. P r \<Longrightarrow> \<not> Q (g r)"
  shows "sum_rows f (filter Q (sql_update P g rows)) \<le> sum_rows f (filter Q rows)"
  using assms by (induction rows) (auto simp: sql_update_def add_increasing)

lemma reserved_nonneg: "fund_signs d \<Longrightarrow> 0 \<le> control_rows_reserved d"
  by (auto simp: control_rows_reserved_def fund_signs_def intro!: add_nonneg_nonneg sum_rows_nonneg)

lemma frames_nonneg:
  assumes "fund_signs d"
  shows "0 \<le> sum_rows fr_rows (h_frames d)" "0 \<le> sum_rows fr_bytes (h_frames d)"
  using assms by (auto simp: fund_signs_def intro!: sum_rows_nonneg)

section \<open>Closing wallets\<close>

lemma close_wallets_fields [simp]:
  "h_teardowns (close_wallets P d) = h_teardowns d" "h_frames (close_wallets P d) = h_frames d"
  "h_outbox (close_wallets P d) = h_outbox d" "h_budget (close_wallets P d) = h_budget d"
  "h_wallets (close_wallets P d) = sql_update P (\<lambda>w. w\<lparr>wl_remaining := 0, wl_closed := True\<rparr>) (h_wallets d)"
  "h_receipts (close_wallets P d) = h_receipts d" "h_fences (close_wallets P d) = h_fences d"
  "h_pressure (close_wallets P d) = h_pressure d" "h_processes (close_wallets P d) = h_processes d"
  by (simp_all add: close_wallets_def update_file_wallets_def Let_def)

lemma close_wallets_fund:
  assumes "fund_inv l d"
  shows "fund_inv l (close_wallets P d)"
proof -
  have "sum_rows wl_remaining (filter (\<lambda>w. \<not> wl_closed w) (h_wallets (close_wallets P d)))
      \<le> sum_rows wl_remaining (filter (\<lambda>w. \<not> wl_closed w) (h_wallets d))"
    unfolding close_wallets_fields using assms by (intro sum_filter_drop) (auto simp: fund_inv_def fund_signs_def)
  moreover have "fund_signs (close_wallets P d)"
    using assms by (auto simp: fund_inv_def fund_signs_def set_sql_update)
  ultimately show ?thesis
    using assms by (simp add: fund_inv_def fund_keys_def fund_rows_def fits_control_def fits_regular_def
        fits_emergency_def control_rows_reserved_def map_sql_update_key)
qed

text \<open>Columns that carry no credit may be rewritten freely.\<close>

lemma relabel_wallets_fund:
  assumes "fund_inv l d" "\<And>w. wl_id (g w) = wl_id w \<and> wl_remaining (g w) = wl_remaining w \<and> wl_closed (g w) = wl_closed w"
  shows "fund_inv l (d\<lparr>h_wallets := sql_update P g (h_wallets d)\<rparr>)"
proof -
  have "sum_rows wl_remaining (filter (\<lambda>w. \<not> wl_closed w) (sql_update P g (h_wallets d)))
      = sum_rows wl_remaining (filter (\<lambda>w. \<not> wl_closed w) (h_wallets d))"
    using assms(2) by (simp add: sum_rows_filter sum_rows_update cong: if_cong)
  moreover have "fund_signs (d\<lparr>h_wallets := sql_update P g (h_wallets d)\<rparr>)"
    using assms by (auto simp: fund_inv_def fund_signs_def set_sql_update)
  moreover have "map wl_id (sql_update P g (h_wallets d)) = map wl_id (h_wallets d)"
    using assms(2) by (intro map_sql_update_key) simp
  ultimately show ?thesis
    using assms(1) by (simp add: fund_inv_def fund_keys_def fund_rows_def fits_control_def fits_regular_def
        fits_emergency_def control_rows_reserved_def)
qed

lemma release_fund: "fund_inv l d \<Longrightarrow> fund_inv l (releaseEndedWallets d)"
  by (simp add: releaseEndedWallets_def close_wallets_fund)

lemma markProducerEnded_fund:
  assumes "fund_inv l d" "markProducerEnded w s d = Inr d'"
  shows "fund_inv l d'"
  using assms by (auto simp: markProducerEnded_def intro!: release_fund relabel_wallets_fund split: if_splits)

section \<open>Admitting and settling\<close>

lemma assertOutboxAdmission_fund:
  "assertOutboxAdmission l now d = Inr d' \<Longrightarrow> same_fund d d'"
  by (auto simp: assertOutboxAdmission_def assertRetainedBelowHard_def case_prod_beta Let_def split: if_splits)

lemma producerWalletRows_Inr: "producerWalletRows n = Inr rows \<Longrightarrow> 0 \<le> rows \<and> 0 \<le> n"
  by (auto simp: producerWalletRows_def PRODUCER_BASE_CONTROL_ROWS_def split: if_splits)

lemma reserveProducerWallet_fund:
  assumes "fund_inv l d" "reserveProducerWallet l b now d = Inr d'"
  shows "fund_inv l d'"
proof -
  obtain rows where rows: "producerWalletRows (wb_bindings b) = Inr rows"
    using assms(2) by (auto simp: reserveProducerWallet_def rbind_Inr_iff)
  show ?thesis
  proof (cases "find (\<lambda>w. wl_id w = wb_wallet b) (h_wallets d)")
    case (Some e)
    then have "d' = d" using assms(2) rows by (auto simp: reserveProducerWallet_def split: if_splits)
    then show ?thesis using assms(1) by simp
  next
    case None
    then obtain d1 where d1: "assertOutboxAdmission l now d = Inr d1"
      and room: "controlFundsProducerWallet (outboxBudgetSnapshot d1) l rows"
      and d': "d' = d1\<lparr>h_wallets := h_wallets d1 @ [\<lparr>wl_id = wb_wallet b, wl_run = wb_run b,
                    wl_assignment = wb_assignment b, wl_epoch = wb_epoch b, wl_bindings = wb_bindings b,
                    wl_remaining = rows, wl_session = None, wl_ended = False, wl_closed = False\<rparr>]\<rparr>"
      using assms(2) rows by (auto simp: reserveProducerWallet_def rbind_Inr_iff split: if_splits)
    have same: "same_fund d d1" by (rule assertOutboxAdmission_fund[OF d1])
    then have inv: "fund_inv l d1" using assms(1) fund_inv_cong by blast
    have "wb_wallet b \<notin> wl_id ` set (h_wallets d1)"
      using None same by (auto simp: find_None_iff same_fund_def)
    then show ?thesis
      using inv room producerWalletRows_Inr[OF rows] unfolding d'
      by (auto simp: fund_defs control_rows_reserved_def controlFundsProducerWallet_def outboxBudgetSnapshot_def)
  qed
qed

lemma admitTeardown_fund:
  assumes "fund_inv l d" "admitTeardown l r wo now d = Inr d'"
  shows "fund_inv l d'"
proof (cases "same_fund d d'")
  case True
  then show ?thesis using assms(1) fund_inv_cong by blast
next
  case False
  define d1 where "d1 = snd (refreshOutboxBudget l now d)"
  have same: "same_fund d d1" by (simp add: d1_def)
  then have inv: "fund_inv l d1" using assms(1) fund_inv_cong by blast
  have refl: "d' \<noteq> d" using False by (auto simp: same_fund_def)
  obtain s where s: "refreshOutboxBudget l now d = (s, d1)" by (metis d1_def prod.collapse)
  obtain wid where one: "length (filter (teardown_fundable d1 r wid) (h_wallets d1)) = 1"
    and new: "\<not> list_ex (\<lambda>t. td_command t = rc_command r) (h_teardowns d1)"
    and d': "d' = d1\<lparr>h_wallets := sql_update (teardown_fundable d1 r wid)
                      (\<lambda>w. w\<lparr>wl_remaining := wl_remaining w - 2\<rparr>) (h_wallets d1),
                    h_teardowns := h_teardowns d1 @ [\<lparr>td_command = rc_command r, td_wallet = wid,
                      td_kind = rc_kind r, td_remaining = 2, td_completed = False\<rparr>]\<rparr>"
    using assms(2) refl by (auto simp: admitTeardown_def s split: if_splits option.splits)
  have "sum_rows wl_remaining (filter (\<lambda>w. \<not> wl_closed w) (sql_update (teardown_fundable d1 r wid)
           (\<lambda>w. w\<lparr>wl_remaining := wl_remaining w - 2\<rparr>) (h_wallets d1)))
      = sum_rows wl_remaining (filter (\<lambda>w. \<not> wl_closed w) (h_wallets d1)) + (-2)"
    by (rule sum_filter_update[OF one]) (auto simp: teardown_fundable_def)
  moreover have "fund_signs d'"
    using inv unfolding d' by (auto simp: fund_inv_def fund_signs_def set_sql_update teardown_fundable_def)
  moreover have "fund_keys d'"
    using inv new unfolding d'
    by (auto simp: fund_inv_def fund_keys_def map_sql_update_key list_ex_iff)
  ultimately show ?thesis
    using inv unfolding d'
    by (simp add: fund_inv_def fund_rows_def fits_control_def fits_regular_def fits_emergency_def control_rows_reserved_def)
qed

lemma admitReceipt_fund:
  assumes "fund_inv l d" "admitReceipt l r a now d = Inr d'"
  shows "fund_inv l d'"
proof (cases "rc_phase r \<noteq> Accepted \<or> receipt_known d (rc_command r)")
  case True
  then show ?thesis using assms by (auto simp: admitReceipt_def)
next
  case False
  note A = assms(2)[unfolded admitReceipt_def if_not_P[OF False]]
  show ?thesis
  proof (cases a)
    case New_work
    then obtain d1 where "assertOutboxAdmission l now d = Inr d1" "d' = d1"
      using A by (auto simp: rbind_Inr_iff split: if_splits)
    then show ?thesis using assertOutboxAdmission_fund fund_inv_cong assms(1) by blast
  next
    case (Producer n)
    then show ?thesis using A assms(1) reserveProducerWallet_fund
      by (auto split: option.splits if_splits)
  next
    case Resolve
    then show ?thesis using A assms(1) by (auto simp: assertRetainedBelowHard_def split: if_splits)
  next
    case (Teardown w)
    then show ?thesis using A admitTeardown_fund[OF assms(1)] by simp
  qed
qed

lemma settleReceiptBudget_fund:
  assumes "fund_inv l d"
  shows "fund_inv l (settleReceiptBudget r d)"
proof (cases "rc_phase r = Accepted")
  case True
  then show ?thesis using assms by (simp add: settleReceiptBudget_def)
next
  case False
  define d1 where "d1 = (if rc_kind r = ''session.create'' \<and> rc_phase r = Rejected
                     then d\<lparr>h_wallets := sql_update (\<lambda>w. wl_id w = rc_command r \<and> wl_session w = None)
                              (\<lambda>w. w\<lparr>wl_ended := True\<rparr>) (h_wallets d)\<rparr>
                     else d)"
  have inv: "fund_inv l d1" using assms by (auto simp: d1_def intro: relabel_wallets_fund)
  show ?thesis
  proof (cases "find (\<lambda>t. td_command t = rc_command r \<and> \<not> td_completed t) (h_teardowns d1)")
    case None
    then show ?thesis
      using False release_fund[OF inv] by (simp add: settleReceiptBudget_def d1_def[symmetric] Let_def)
  next
    case (Some t)
    then have t: "t \<in> set (h_teardowns d1)" "td_command t = rc_command r" "\<not> td_completed t"
      by (auto simp: find_Some_iff)
    define d2 where "d2 = d1\<lparr>h_wallets := sql_update (\<lambda>w. wl_id w = td_wallet t \<and> \<not> wl_closed w)
                               (\<lambda>w. w\<lparr>wl_remaining := wl_remaining w + td_remaining t\<rparr>) (h_wallets d1),
                            h_teardowns := sql_update (\<lambda>u. td_command u = rc_command r)
                               (\<lambda>u. u\<lparr>td_remaining := 0, td_completed := True\<rparr>) (h_teardowns d1)\<rparr>"
    have pos: "0 \<le> td_remaining t" using inv t(1) by (simp add: fund_inv_def fund_signs_def)
    have wsum: "sum_rows wl_remaining (filter (\<lambda>w. \<not> wl_closed w) (h_wallets d2))
        \<le> sum_rows wl_remaining (filter (\<lambda>w. \<not> wl_closed w) (h_wallets d1)) + td_remaining t"
    proof (cases "filter (\<lambda>w. wl_id w = td_wallet t \<and> \<not> wl_closed w) (h_wallets d1) = []")
      case True
      then have "h_wallets d2 = h_wallets d1"
        by (auto simp: d2_def filter_empty_conv intro: sql_update_none)
      then show ?thesis using pos by simp
    next
      case ne: False
      have "length (filter (\<lambda>w. wl_id w = td_wallet t \<and> \<not> wl_closed w) (h_wallets d1)) \<le> 1"
        using inv by (intro key_filter_and_le) (simp add: fund_inv_def fund_keys_def)
      then have "length (filter (\<lambda>w. wl_id w = td_wallet t \<and> \<not> wl_closed w) (h_wallets d1)) = 1"
        using ne by (cases "filter (\<lambda>w. wl_id w = td_wallet t \<and> \<not> wl_closed w) (h_wallets d1)") auto
      then show ?thesis
        unfolding d2_def by (simp, intro eq_refl sum_filter_update) auto
    qed
    have one: "filter (\<lambda>u. td_command u = rc_command r) (h_teardowns d1) = [t]"
      using key_filter_one[of td_command "h_teardowns d1" t] inv t by (simp add: fund_inv_def fund_keys_def)
    have "sum_rows td_remaining (filter (\<lambda>u. \<not> td_completed u) (h_teardowns d2))
        = sum_rows td_remaining (filter (\<lambda>u. \<not> td_completed u) (h_teardowns d1)) - td_remaining t"
      using sum_update_files[of "\<lambda>u. if \<not> td_completed u then td_remaining u else 0"
          "\<lambda>u. td_command u = rc_command r" "\<lambda>u. u\<lparr>td_remaining := 0, td_completed := True\<rparr>" "h_teardowns d1"] one t(3)
      by (simp add: d2_def sum_rows_filter)
    with wsum have "control_rows_reserved d2 \<le> control_rows_reserved d1"
      by (simp add: control_rows_reserved_def)
    moreover have "fund_signs d2"
      using inv pos by (auto simp: d2_def fund_inv_def fund_signs_def set_sql_update)
    ultimately have "fund_inv l d2"
      using inv by (simp add: d2_def fund_inv_def fund_keys_def fund_rows_def fits_control_def fits_regular_def
          fits_emergency_def map_sql_update_key)
    then show ?thesis
      using False Some release_fund by (simp add: settleReceiptBudget_def d1_def[symmetric] Let_def d2_def)
  qed
qed

section \<open>Spending\<close>

text \<open>The partition an event is charged to has room for it once the promise it spends is gone.\<close>

definition has_room :: "runtime_limits \<Rightarrow> host_db \<Rightarrow> event_partition \<Rightarrow> int \<Rightarrow> bool" where
  "has_room l d p bytes \<longleftrightarrow>
     (case p of
        Regular \<Rightarrow> fits_regular l d 1 bytes
      | Control \<Rightarrow> fits_control l d 1 \<and> bytes \<le> CONTROL_EVENT_MAX_BYTES
      | Emergency \<Rightarrow> fits_emergency d 1 bytes \<and> bytes \<le> CONTROL_EVENT_MAX_BYTES)"

lemma spend_frame_fund:
  assumes inv: "fund_inv l d" and b: "0 \<le> bytes" and sp: "spend_frame i rid bytes d = Inr d'"
  shows "fund_inv l d'" "fits_regular l d' 1 bytes"
proof -
  let ?P = "frame_spendable d i rid bytes"
  have one: "length (filter ?P (h_frames d)) = 1"
    and d': "d' = d\<lparr>h_frames := sql_update ?P
                    (\<lambda>f. f\<lparr>fr_rows := fr_rows f - 1, fr_bytes := fr_bytes f - bytes\<rparr>) (h_frames d)\<rparr>"
    using sp by (auto simp: spend_frame_def split: if_splits)
  have "sum_rows fr_rows (h_frames d') = sum_rows fr_rows (h_frames d) - 1"
    "sum_rows fr_bytes (h_frames d') = sum_rows fr_bytes (h_frames d) - bytes"
    unfolding d' using sum_rows_credit[OF one] by simp_all
  moreover have "fund_signs d'"
    using inv unfolding d' by (auto simp: fund_inv_def fund_signs_def set_sql_update frame_spendable_def)
  ultimately show "fund_inv l d'" "fits_regular l d' 1 bytes"
    using inv b unfolding d'
    by (simp_all add: fund_inv_def fund_keys_def fund_rows_def fits_control_def fits_regular_def fits_emergency_def
        control_rows_reserved_def map_sql_update_key)
qed

lemma spend_control_fund:
  assumes inv: "fund_inv l d" and sp: "spend_control i wid cid d = Inr d'"
  shows "fund_inv l d'" "fits_control l d' 1"
proof -
  let ?T = "teardown_spendable d i (the cid) wid" and ?W = "wallet_spendable i wid"
  consider (teardown) "length (filter ?T (h_teardowns d)) = 1"
      "d' = d\<lparr>h_teardowns := sql_update ?T (\<lambda>t. t\<lparr>td_remaining := td_remaining t - 1\<rparr>) (h_teardowns d)\<rparr>"
    | (wallet) "length (filter ?W (h_wallets d)) = 1"
      "d' = d\<lparr>h_wallets := sql_update ?W (\<lambda>w. w\<lparr>wl_remaining := wl_remaining w - 1\<rparr>) (h_wallets d)\<rparr>"
    using sp by (auto simp: spend_control_def split: if_splits)
  then have "fund_inv l d' \<and> fits_control l d' 1"
  proof cases
    case teardown
    have "sum_rows td_remaining (filter (\<lambda>t. \<not> td_completed t)
            (sql_update ?T (\<lambda>t. t\<lparr>td_remaining := td_remaining t - 1\<rparr>) (h_teardowns d)))
        = sum_rows td_remaining (filter (\<lambda>t. \<not> td_completed t) (h_teardowns d)) + (-1)"
      by (rule sum_filter_update[OF teardown(1)]) (auto simp: teardown_spendable_def)
    moreover have "fund_signs d'"
      using inv unfolding teardown(2)
      by (auto simp: fund_inv_def fund_signs_def set_sql_update teardown_spendable_def)
    ultimately show ?thesis
      using inv unfolding teardown(2)
      by (simp add: fund_inv_def fund_keys_def fund_rows_def fits_control_def fits_regular_def fits_emergency_def
          control_rows_reserved_def map_sql_update_key)
  next
    case wallet
    have "sum_rows wl_remaining (filter (\<lambda>w. \<not> wl_closed w)
            (sql_update ?W (\<lambda>w. w\<lparr>wl_remaining := wl_remaining w - 1\<rparr>) (h_wallets d)))
        = sum_rows wl_remaining (filter (\<lambda>w. \<not> wl_closed w) (h_wallets d)) + (-1)"
      by (rule sum_filter_update[OF wallet(1)]) (auto simp: wallet_spendable_def)
    moreover have "fund_signs d'"
      using inv unfolding wallet(2)
      by (auto simp: fund_inv_def fund_signs_def set_sql_update wallet_spendable_def)
    ultimately show ?thesis
      using inv unfolding wallet(2)
      by (simp add: fund_inv_def fund_keys_def fund_rows_def fits_control_def fits_regular_def fits_emergency_def
          control_rows_reserved_def map_sql_update_key)
  qed
  then show "fund_inv l d'" "fits_control l d' 1" by simp_all
qed

lemma not_over_hard: "\<not> over_hard l bytes d \<Longrightarrow> fits_regular l d 1 bytes"
  by (simp add: over_hard_def fits_regular_def reservedRegularUsage_def outboxBudgetSnapshot_def Let_def)

lemma spendEmergency_room: "spendEmergency bytes d = Inr p \<Longrightarrow> p = Emergency \<and> has_room l d Emergency bytes"
  by (auto simp: spendEmergency_def has_room_def fits_emergency_def Let_def split: if_splits)

lemma spend_fund:
  assumes inv: "fund_inv l d" and b: "0 \<le> bytes" and sp: "spendEventCapacity l f bytes i d = Inr (p, d')"
  shows "fund_inv l d'" "has_room l d' p bytes"
proof -
  have "fund_inv l d' \<and> has_room l d' p bytes"
  proof (cases f)
    case (Fund_regular rid ov)
    then obtain d1 where d1: "(case rid of None \<Rightarrow> Inr d | Some x \<Rightarrow> spend_frame i x bytes d) = Inr d1"
      and rest: "(if over_hard l bytes d1 then if ov \<and> rid = None then rbind (spendEmergency bytes d1) (\<lambda>p. Inr (p, d1))
                  else Inl (HostRuntimeEventError Event_outbox_hard_limit) else Inr (Regular, d1)) = Inr (p, d')"
      using sp by (auto simp: spendEventCapacity_def rbind_Inr_iff)
    have "fund_inv l d1" using d1 inv spend_frame_fund[OF inv b] by (auto split: option.splits)
    then show ?thesis
      using rest not_over_hard[of l bytes d1] spendEmergency_room[of bytes d1 _ l]
      by (auto simp: rbind_Inr_iff has_room_def split: if_splits)
  next
    case (Fund_control wid cid)
    then show ?thesis
      using sp spend_control_fund[OF inv]
      by (auto simp: spendEventCapacity_def rbind_Inr_iff has_room_def split: if_splits)
  next
    case Fund_emergency
    then show ?thesis
      using sp inv spendEmergency_room[of bytes d _ l]
      by (auto simp: spendEventCapacity_def rbind_Inr_iff split: if_splits)
  qed
  then show "fund_inv l d'" "has_room l d' p bytes" by simp_all
qed

lemma insert_fund:
  assumes inv: "fund_inv l d" and room: "has_room l d (ob_partition r) (ob_encoded_bytes r)" and b: "1 \<le> ob_encoded_bytes r"
  shows "fund_inv l (update_stream s g (insert_outbox r d))"
  using assms
  by (cases "ob_partition r")
     (auto simp: fund_defs has_room_def insert_outbox_def update_stream_def bump_usage_def control_rows_reserved_def)

lemma append_fund:
  assumes inv: "fund_inv l d" and ap: "appendRuntimeEventInTransaction l h now fresh input d = Inr (row, d')"
  shows "fund_inv l d'"
proof -
  from ap obtain st d1 n e part d2 d3 where
    en: "ensureRuntimeEventStream fresh d = Inr (st, d1)" and
    sp: "spendEventCapacity l (case ai_funding input of None \<Rightarrow> Fund_regular None False | Some f \<Rightarrow> f)
        (utf8_length (envelope_text e)) (draft_identity (ai_draft input)) d1 = Inr (part, d2)" and
    row: "row = \<lparr>ob_stream = st_id st, ob_sequence = bigint_string n, ob_sort_key = sort_key_of n,
            ob_event_id = en_event_id e, ob_envelope_json = envelope_text e,
            ob_encoded_bytes = utf8_length (envelope_text e), ob_occurred_at = en_occurred_at e,
            ob_acknowledged_at = None, ob_created_at = now, ob_partition = part\<rparr>" and
    d3: "d3 = update_stream (st_id st) (\<lambda>s. s\<lparr>st_next_sequence := bigint_string (n + 1)\<rparr>) (insert_outbox row d2)" and
    last: "case ends_session input of None \<Rightarrow> d' = d3 | Some (wid, sid) \<Rightarrow> markProducerEnded wid sid d3 = Inr d'"
    by (rule appendE)
  have "same_fund d d1" using ensure_stream(3)[OF en] by (simp add: same_fund_def)
  then have i1: "fund_inv l d1" using inv fund_inv_cong by blast
  have pos: "1 \<le> utf8_length (envelope_text e)" by (rule envelope_text_pos)
  have "fund_inv l d2" "has_room l d2 part (utf8_length (envelope_text e))"
    using spend_fund[OF i1 _ sp] pos by simp_all
  then have "fund_inv l d3" unfolding d3 using pos by (intro insert_fund) (simp_all add: row)
  then show ?thesis using last markProducerEnded_fund by (auto split: option.splits)
qed

lemma append_all_fund:
  "fund_inv l d \<Longrightarrow> append_all l h now fresh is d = Inr (rows, d') \<Longrightarrow> fund_inv l d'"
proof (induction "is" arbitrary: d rows)
  case (Cons i "is")
  then show ?case using append_fund by (fastforce simp: rbind_Inr_iff)
qed simp

end
