(* ===== verification/HostInvariant.thy ===== *)
theory HostInvariant
  imports HostState OutboxFunding
begin

text \<open>
  The invariant of the execution host and the theorem that every operation keeps it: the outbox is a
  gapless window between floor and head, every promise is funded, the file books balance, the pressure
  row is consistent and its bit is the one the counters call for.  From it follow the guarantees a
  manager relies on: the host always starts again on its own file, promised events are never refused,
  unacknowledged events are never deleted, and the health signal is what admission would answer.
\<close>

section \<open>The pressure row\<close>

definition pressure_row_ok :: "host_db \<Rightarrow> bool" where
  "pressure_row_ok d \<longleftrightarrow>
     (let p = h_pressure d
      in (pr_since_ms p = None) = (\<not> pr_pressured p) \<and> (pr_count_at_start p = None) = (\<not> pr_pressured p)
         \<and> (pr_bytes_at_start p = None) = (\<not> pr_pressured p)
         \<and> (\<forall>n \<in> set_option (pr_count_at_start p). 0 \<le> n) \<and> (\<forall>n \<in> set_option (pr_bytes_at_start p). 0 \<le> n)
         \<and> 0 \<le> pr_episodes p)"

definition settled :: "runtime_limits \<Rightarrow> host_db \<Rightarrow> bool" where
  "settled l d \<longleftrightarrow> pr_pressured (h_pressure d) = next_pressure l d"

definition core_inv :: "runtime_limits \<Rightarrow> host_identity \<Rightarrow> host_db \<Rightarrow> bool" where
  "core_inv l h d \<longleftrightarrow> outbox_inv h d \<and> fund_inv l d \<and> file_ok l d \<and> pressure_row_ok d"

definition host_inv :: "runtime_limits \<Rightarrow> host_identity \<Rightarrow> host_db \<Rightarrow> bool" where
  "host_inv l h d \<longleftrightarrow> core_inv l h d \<and> settled l d"

definition same_files :: "host_db \<Rightarrow> host_db \<Rightarrow> bool" where
  "same_files d d' \<longleftrightarrow>
     h_files d' = h_files d \<and> h_file_wallets d' = h_file_wallets d \<and> h_file_credits d' = h_file_credits d
     \<and> h_file_progress d' = h_file_progress d \<and> h_file_budget d' = h_file_budget d"

lemma same_files_ok: "same_files d d' \<Longrightarrow> file_ok l d' = file_ok l d"
  by (rule file_ok_cong) (simp_all add: same_files_def)

lemma same_files_refl [simp]: "same_files d d"
  by (simp add: same_files_def)

lemma pressure_row_cong: "h_pressure d' = h_pressure d \<Longrightarrow> pressure_row_ok d' = pressure_row_ok d"
  by (simp add: pressure_row_ok_def)

lemma usage_nonneg:
  assumes "outbox_inv h d" "fund_inv l d"
  shows "0 \<le> unacknowledged_count (h_budget d p)" "0 \<le> unacknowledged_bytes (h_budget d p)"
    "unacknowledged_count (h_budget d p) \<le> retained_count (h_budget d p)"
    "unacknowledged_bytes (h_budget d p) \<le> retained_bytes (h_budget d p)"
    "0 \<le> retained_count (h_budget d p)" "0 \<le> retained_bytes (h_budget d p)"
proof -
  have b: "h_budget d p = stored_usage d p" using assms(1) by (simp add: outbox_inv_def)
  have pos: "\<And>r. r \<in> set (h_outbox d) \<Longrightarrow> 0 \<le> ob_encoded_bytes r"
    using assms(2) by (fastforce simp: fund_inv_def fund_rows_def)
  have le: "sum_rows ob_encoded_bytes (filter P xs) \<le> sum_rows ob_encoded_bytes xs"
    if "\<And>r. r \<in> set xs \<Longrightarrow> 0 \<le> ob_encoded_bytes r" for P and xs :: "outbox_row list"
    unfolding sum_rows_filter using that by (intro sum_rows_le) auto
  show "0 \<le> unacknowledged_count (h_budget d p)" "0 \<le> unacknowledged_bytes (h_budget d p)"
    "unacknowledged_count (h_budget d p) \<le> retained_count (h_budget d p)"
    "unacknowledged_bytes (h_budget d p) \<le> retained_bytes (h_budget d p)"
    "0 \<le> retained_count (h_budget d p)" "0 \<le> retained_bytes (h_budget d p)"
    unfolding b stored_usage_def Let_def using pos
    by (auto intro!: sum_rows_nonneg le length_filter_le simp del: filter_filter)
qed

lemma snapshot_pressured [simp]: "sn_pressured (outboxBudgetSnapshot d) = pr_pressured (h_pressure d)"
  by (simp add: outboxBudgetSnapshot_def)

lemma regular_usage:
  "unacknowledged_count (reservedRegularUsage (outboxBudgetSnapshot d)) =
     unacknowledged_count (h_budget d Regular) + sum_rows fr_rows (h_frames d)"
  "unacknowledged_bytes (reservedRegularUsage (outboxBudgetSnapshot d)) =
     unacknowledged_bytes (h_budget d Regular) + sum_rows fr_bytes (h_frames d)"
  by (simp_all add: reservedRegularUsage_def outboxBudgetSnapshot_def)

lemma next_pressure_alt:
  "next_pressure l d =
     (let u = reservedRegularUsage (outboxBudgetSnapshot d)
      in if pr_pressured (h_pressure d) then unacknowledgedAtThreshold u (eventLowBytes l) (eventLowRows l)
         else unacknowledgedAtThreshold u (eventSoftBytes l) (eventSoftRows l))"
  by (simp add: next_pressure_def Let_def)

lemma refresh_pressure:
  "h_pressure (snd (refreshOutboxBudget l now d)) =
     (let p = h_pressure d; np = next_pressure l d; u = reservedRegularUsage (outboxBudgetSnapshot d)
      in if pr_pressured p = np then p
         else if np then p\<lparr>pr_pressured := True, pr_since_ms := Some now,
                           pr_count_at_start := Some (unacknowledged_count u),
                           pr_bytes_at_start := Some (unacknowledged_bytes u)\<rparr>
         else p\<lparr>pr_pressured := False, pr_since_ms := None, pr_count_at_start := None,
                pr_bytes_at_start := None, pr_episodes := pr_episodes p + 1\<rparr>)"
  by (simp add: refreshOutboxBudget_def Let_def)

lemma refresh_core:
  assumes "core_inv l h d"
  shows "core_inv l h (snd (refreshOutboxBudget l' now d))"
proof -
  have f: "same_files d (snd (refreshOutboxBudget l' now d))"
    by (simp add: same_files_def refreshOutboxBudget_def Let_def)
  have o: "outbox_inv h d" and fi: "fund_inv l d" using assms by (auto simp: core_inv_def)
  have "fund_signs d" using fi by (simp add: fund_inv_def)
  note fr = frames_nonneg[OF this]
  have "pressure_row_ok (snd (refreshOutboxBudget l' now d))"
    using assms usage_nonneg(1,2)[OF o fi, of Regular] fr
    by (simp add: core_inv_def pressure_row_ok_def refresh_pressure Let_def regular_usage)
  then show ?thesis
    using assms same_files_ok[OF f] outbox_inv_cong[OF refresh_same] fund_inv_cong[OF refresh_fund]
    by (simp add: core_inv_def)
qed

lemma refresh_files_core:
  assumes "core_inv l h d"
  shows "core_inv l h (snd (refreshRuntimeFileBudget l' d))"
proof -
  have "same_outbox d (snd (refreshRuntimeFileBudget l' d))" "same_fund d (snd (refreshRuntimeFileBudget l' d))"
    by (simp_all add: refreshRuntimeFileBudget_def same_outbox_def same_fund_def)
  moreover have "h_pressure (snd (refreshRuntimeFileBudget l' d)) = h_pressure d"
    by (simp add: refreshRuntimeFileBudget_def)
  ultimately show ?thesis
    using assms outbox_inv_cong[of d "snd (refreshRuntimeFileBudget l' d)"]
      fund_inv_cong[of d "snd (refreshRuntimeFileBudget l' d)"]
      pressure_row_cong[of "snd (refreshRuntimeFileBudget l' d)" d]
    by (simp add: core_inv_def)
qed

text \<open>
  Recomputing the pressure bit settles it: with the low threshold below the soft one, a second
  computation gives the same answer.
\<close>

lemma next_pressure_stable:
  assumes "limits_ok l"
  shows "settled l (snd (refreshOutboxBudget l now d))"
proof -
  let ?d = "snd (refreshOutboxBudget l now d)"
  have u: "reservedRegularUsage (outboxBudgetSnapshot ?d) = reservedRegularUsage (outboxBudgetSnapshot d)"
    by (simp add: refreshOutboxBudget_def Let_def reservedRegularUsage_def outboxBudgetSnapshot_def)
  have p: "pr_pressured (h_pressure ?d) = next_pressure l d"
    by (simp add: refresh_pressure Let_def)
  show ?thesis
    unfolding settled_def p
    using limits_okD(1,3)[OF assms] u p
    by (auto simp: next_pressure_alt Let_def unacknowledgedAtThreshold_def)
qed

lemma observe_host:
  assumes "limits_ok l" "core_inv l h d"
  shows "host_inv l h (observeCapacity l now d)"
proof -
  let ?d = "snd (refreshOutboxBudget l now d)"
  have "core_inv l h (observeCapacity l now d)"
    unfolding observeCapacity_def by (intro refresh_files_core refresh_core assms)
  moreover have "settled l (observeCapacity l now d)"
  proof -
    have "h_pressure (observeCapacity l now d) = h_pressure ?d"
      "reservedRegularUsage (outboxBudgetSnapshot (observeCapacity l now d)) = reservedRegularUsage (outboxBudgetSnapshot ?d)"
      by (simp_all add: observeCapacity_def refreshRuntimeFileBudget_def reservedRegularUsage_def outboxBudgetSnapshot_def)
    then show ?thesis
      using next_pressure_stable[OF assms(1), of now d]
      by (simp add: settled_def next_pressure_alt)
  qed
  ultimately show ?thesis by (simp add: host_inv_def)
qed

text \<open>A change outside the tables of the invariant keeps it.\<close>

lemma quiet_host:
  assumes "host_inv l h d" "same_outbox d d'" "same_fund d d'" "same_files d d'" "h_pressure d' = h_pressure d"
  shows "host_inv l h d'"
proof -
  have "reservedRegularUsage (outboxBudgetSnapshot d') = reservedRegularUsage (outboxBudgetSnapshot d)"
    using assms(2,3) by (simp add: reservedRegularUsage_def outboxBudgetSnapshot_def same_outbox_def same_fund_def)
  then have "settled l d'"
    using assms(1,5) by (simp add: host_inv_def settled_def next_pressure_alt)
  then show ?thesis
    using assms outbox_inv_cong[OF assms(2)] fund_inv_cong[OF assms(3)] same_files_ok[OF assms(4)]
      pressure_row_cong[OF assms(5)] by (simp add: host_inv_def core_inv_def)
qed

section \<open>The operations on files leave the outbox alone\<close>

definition same_events :: "host_db \<Rightarrow> host_db \<Rightarrow> bool" where
  "same_events d d' \<longleftrightarrow> same_outbox d d' \<and> same_fund d d' \<and> h_pressure d' = h_pressure d"

lemma same_eventsI:
  assumes "h_streams d' = h_streams d" "h_outbox d' = h_outbox d" "h_ack_ranges d' = h_ack_ranges d"
    "h_budget d' = h_budget d" "h_wallets d' = h_wallets d" "h_teardowns d' = h_teardowns d"
    "h_frames d' = h_frames d" "h_pressure d' = h_pressure d"
  shows "same_events d d'"
  using assms by (simp add: same_events_def same_outbox_def same_fund_def)

lemma file_step_core:
  assumes "core_inv l h d" "same_events d d'" "file_ok l d'"
  shows "core_inv l h d'"
  using assms outbox_inv_cong[of d d' h] fund_inv_cong[of d d' l] pressure_row_cong[of d' d]
  by (simp add: core_inv_def same_events_def)

lemma files_core: "core_inv l h d \<Longrightarrow> file_ok l d"
  by (simp add: core_inv_def)

lemmas file_frame_defs = refreshRuntimeFileBudget_def insert_file_wallet_def insert_file_def update_files_def
  drop_progress_def update_file_wallets_def

lemma fund_fields:
  assumes "fundFileCapacity l bytes funding s d = Inr d'"
  shows "h_streams d' = h_streams d" "h_outbox d' = h_outbox d" "h_ack_ranges d' = h_ack_ranges d"
    "h_budget d' = h_budget d" "h_wallets d' = h_wallets d" "h_teardowns d' = h_teardowns d"
    "h_frames d' = h_frames d" "h_pressure d' = h_pressure d"
  using assms
  by (auto simp: fundFileCapacity_def rbind_Inr_iff update_file_wallets_def Let_def case_prod_beta
       split: if_splits file_funding.splits)

lemma reserveRuntimeFile_events:
  assumes "reserveRuntimeFile l free f funding d = Inr d'"
  shows "same_events d d'"
  using assms
  by (auto simp: reserveRuntimeFile_def rbind_Inr_iff Let_def file_frame_defs fund_fields
      intro!: same_eventsI split: if_splits option.splits)

lemma growRuntimeFile_events:
  assumes "growRuntimeFile l free x bytes funding d = Inr d'"
  shows "same_events d d'"
  using assms
  by (auto simp: growRuntimeFile_def rbind_Inr_iff Let_def file_frame_defs fund_fields
      intro!: same_eventsI split: if_splits option.splits)

lemma reserveProducerFileWallet_events:
  assumes "reserveProducerFileWallet l w n free d = Inr d'"
  shows "same_events d d'"
  using assms
  by (auto simp: reserveProducerFileWallet_def rbind_Inr_iff Let_def file_frame_defs fund_fields
      intro!: same_eventsI split: if_splits)

lemma reserveRuntimeFrameFiles_events:
  assumes "reserveRuntimeFrameFiles l rid w n free d = Inr d'"
  shows "same_events d d'"
  using assms
  by (auto simp: reserveRuntimeFrameFiles_def rbind_Inr_iff Let_def file_frame_defs fund_fields
      intro!: same_eventsI split: if_splits)

lemma file_row_events:
  "recordRuntimeFileBytes x n d = Inr d' \<Longrightarrow> same_events d d'"
  "recordProducerFileBytes x n d = Inr d' \<Longrightarrow> same_events d d'"
  "sealRuntimeFile l x n d = Inr d' \<Longrightarrow> same_events d d'"
  "same_events d (releaseRuntimeFile l x d)"
  "claimRuntimeFileWriter x b t d = Inr d' \<Longrightarrow> same_events d d'"
  "releaseRuntimeFileWriter x b t d = Inr d' \<Longrightarrow> same_events d d'"
  by (rule same_eventsI; auto simp: recordRuntimeFileBytes_def recordProducerFileBytes_def sealRuntimeFile_def
      releaseRuntimeFile_def claimRuntimeFileWriter_def releaseRuntimeFileWriter_def rbind_Inr_iff Let_def
      file_frame_defs split: if_splits)+

section \<open>Admission and settlement\<close>

lemma admission_fields:
  assumes "assertOutboxAdmission l now d = Inr d'"
  shows "d' = snd (refreshOutboxBudget l now d)"
  using assms
  by (auto simp: assertOutboxAdmission_def assertRetainedBelowHard_def case_prod_beta Let_def split: if_splits)

definition admits :: "runtime_limits \<Rightarrow> time \<Rightarrow> host_db \<Rightarrow> host_db \<Rightarrow> bool" where
  "admits l now d d' \<longleftrightarrow>
     same_outbox d d' \<and> same_files d d'
     \<and> (h_pressure d' = h_pressure d \<or> h_pressure d' = h_pressure (snd (refreshOutboxBudget l now d)))"

lemma refresh_admits [simp]: "admits l now d (snd (refreshOutboxBudget l now d))" "admits l now d d"
  by (simp_all add: admits_def same_files_def refreshOutboxBudget_def Let_def same_outbox_def)

lemma admits_wallets [simp]:
  "admits l now d (d'\<lparr>h_wallets := w\<rparr>) = admits l now d d'" "admits l now d (d'\<lparr>h_teardowns := t\<rparr>) = admits l now d d'"
  by (simp_all add: admits_def same_files_def same_outbox_def)

lemma reserveProducerWallet_admits:
  "reserveProducerWallet l b now d = Inr d' \<Longrightarrow> admits l now d d'"
  by (auto simp: reserveProducerWallet_def rbind_Inr_iff dest!: admission_fields split: option.splits if_splits)

lemma admitTeardown_admits:
  "admitTeardown l r w now d = Inr d' \<Longrightarrow> admits l now d d'"
  by (auto simp: admitTeardown_def case_prod_beta Let_def split: option.splits if_splits)

lemma admitReceipt_admits:
  assumes "admitReceipt l r a now d = Inr d'"
  shows "admits l now d d'"
  using assms
  by (auto simp: admitReceipt_def rbind_Inr_iff assertRetainedBelowHard_def
      dest!: admission_fields reserveProducerWallet_admits admitTeardown_admits
      split: receipt_admission.splits option.splits if_splits)

lemma admits_core:
  assumes "core_inv l h d" "admits l now d d'" "fund_inv l d'"
  shows "core_inv l h d'"
proof -
  have "pressure_row_ok (snd (refreshOutboxBudget l now d))"
    using refresh_core[OF assms(1)] by (simp add: core_inv_def)
  then have "pressure_row_ok d'"
    using assms(1,2) pressure_row_cong[of d' d] pressure_row_cong[of d' "snd (refreshOutboxBudget l now d)"]
    by (auto simp: core_inv_def admits_def)
  then show ?thesis
    using assms outbox_inv_cong[of d d' h] same_files_ok[of d d' l] by (simp add: core_inv_def admits_def)
qed

lemma admitRuntimeReceipt_core:
  assumes "core_inv l h d" "admitRuntimeReceipt l ph now row adm d = Inr d'"
  shows "core_inv l h d'"
proof (cases "rc_phase row = Accepted")
  case False
  then show ?thesis using assms by (simp add: admitRuntimeReceipt_def)
next
  case True
  define gated where "gated = (starts_with ''session.'' (rc_kind row) \<and> \<not> is_teardown adm)"
  define d1 where "d1 = (if gated then snd (refreshRuntimeFileBudget l d) else d)"
  obtain a where a: "adm = Some a" using assms(2) True by (cases adm) (simp_all add: admitRuntimeReceipt_def)
  then have "rbind (admitReceipt l row a now d1) (\<lambda>d2.
                   case a of
                     Producer n \<Rightarrow> reserveProducerFileWallet l (rc_command row) n (ph_free ph) d2
                   | _ \<Rightarrow> Inr d2) = Inr d'"
    using assms(2) True
    by (simp add: admitRuntimeReceipt_def d1_def gated_def case_prod_beta Let_def split: if_splits)
  then obtain d2 where adm: "admitReceipt l row a now d1 = Inr d2"
    and d': "d' = d2 \<or> (\<exists>n. reserveProducerFileWallet l (rc_command row) n (ph_free ph) d2 = Inr d')"
    by (cases a) (auto simp: rbind_Inr_iff)
  have "core_inv l h d1" using assms(1) refresh_files_core by (simp add: d1_def)
  then have c2: "core_inv l h d2"
    by (intro admits_core[OF _ admitReceipt_admits[OF adm]] admitReceipt_fund[OF _ adm]) (simp_all add: core_inv_def)
  have "core_inv l h d'" if "reserveProducerFileWallet l (rc_command row) n (ph_free ph) d2 = Inr d'" for n
    by (rule file_step_core[OF c2 reserveProducerFileWallet_events[OF that] reserveProducerFileWallet_ok[OF files_core[OF c2] that]])
  with d' c2 show ?thesis by blast
qed

lemma writeReceiptRow_core:
  assumes "core_inv l h d" "writeReceiptRow row d = Inr d'"
  shows "core_inv l h d'"
proof -
  have "same_events d d'" "same_files d d'"
    using assms(2) by (auto simp: writeReceiptRow_def same_files_def intro!: same_eventsI split: if_splits)
  then show ?thesis using file_step_core[OF assms(1)] same_files_ok assms(1) by (auto simp: core_inv_def)
qed

text \<open>Closing, ending and settling change wallets and their file reservations only.\<close>

lemma wallet_step_core:
  assumes "core_inv l h d" "same_outbox d d'" "h_pressure d' = h_pressure d" "fund_inv l d'" "file_ok l d'"
  shows "core_inv l h d'"
  using assms outbox_inv_cong[OF assms(2)] pressure_row_cong[OF assms(3)] by (simp add: core_inv_def)

lemma wallets_file_ok [simp]:
  "file_ok l (d\<lparr>h_wallets := w\<rparr>) = file_ok l d" "file_ok l (d\<lparr>h_teardowns := t\<rparr>) = file_ok l d"
  "file_ok l (d\<lparr>h_frames := f\<rparr>) = file_ok l d"
  by (rule file_ok_cong; simp)+

lemma settleReceiptBudget_core:
  assumes "core_inv l h d"
  shows "core_inv l h (settleReceiptBudget r d)"
proof (rule wallet_step_core[OF assms])
  show "same_outbox d (settleReceiptBudget r d)"
    by (simp add: settleReceiptBudget_def releaseEndedWallets_def close_wallets_def update_file_wallets_def
        Let_def same_outbox_def split: option.splits)
  show "h_pressure (settleReceiptBudget r d) = h_pressure d"
    by (simp add: settleReceiptBudget_def releaseEndedWallets_def Let_def split: option.splits)
  show "fund_inv l (settleReceiptBudget r d)"
    using assms by (simp add: settleReceiptBudget_fund core_inv_def)
  show "file_ok l (settleReceiptBudget r d)"
    using files_core[OF assms]
    by (simp add: settleReceiptBudget_def releaseEndedWallets_def Let_def close_wallets_file_ok split: option.splits)
qed

lemma closeProducerWallet_core:
  assumes "core_inv l h d"
  shows "core_inv l h (closeProducerWallet w d)"
  unfolding closeProducerWallet_def
  by (rule wallet_step_core[OF assms])
     (use assms in \<open>simp_all add: core_inv_def close_wallets_fund close_wallets_file_ok\<close>)

section \<open>Events\<close>

lemma append_rest:
  assumes "appendRuntimeEventInTransaction l h now fresh input d = Inr (row, d')" "file_ok l d"
  shows "file_ok l d'" "h_pressure d' = h_pressure d"
proof -
  from assms(1) obtain st d1 n e part d2 d3 where
    en: "ensureRuntimeEventStream fresh d = Inr (st, d1)" and
    sp: "spendEventCapacity l (case ai_funding input of None \<Rightarrow> Fund_regular None False | Some f \<Rightarrow> f)
        (utf8_length (envelope_text e)) (draft_identity (ai_draft input)) d1 = Inr (part, d2)" and
    d3: "d3 = update_stream (st_id st) (\<lambda>s. s\<lparr>st_next_sequence := bigint_string (n + 1)\<rparr>) (insert_outbox row d2)" and
    last: "case ends_session input of None \<Rightarrow> d' = d3 | Some (wid, sid) \<Rightarrow> markProducerEnded wid sid d3 = Inr d'"
    by (rule appendE)
  have s1: "same_files d d1 \<and> h_pressure d1 = h_pressure d"
    by (simp add: ensure_stream(3)[OF en] same_files_def)
  have s2: "same_files d1 d2 \<and> h_pressure d2 = h_pressure d1"
    using sp by (auto simp: spendEventCapacity_def rbind_Inr_iff spend_frame_def spend_control_def same_files_def
        split: event_funding.splits option.splits if_splits)
  have s3: "same_files d2 d3 \<and> h_pressure d3 = h_pressure d2"
    by (simp add: d3 same_files_def update_stream_def insert_outbox_def)
  have p3: "file_ok l d3" using same_files_ok s1 s2 s3 assms(2) by blast
  then show "file_ok l d'" "h_pressure d' = h_pressure d"
    using last s1 s2 s3
    by (auto simp: markProducerEnded_def releaseEndedWallets_def close_wallets_file_ok split: option.splits if_splits)
qed

lemma append_core:
  assumes "core_inv l h d" "appendRuntimeEventInTransaction l h now fresh input d = Inr (row, d')"
  shows "core_inv l h d'"
  using assms append_inv[OF _ assms(2)] append_fund[OF _ assms(2)] append_rest[OF assms(2)] pressure_row_cong[of d' d]
  by (simp add: core_inv_def)

lemma append_all_core:
  "core_inv l h d \<Longrightarrow> append_all l h now fresh is d = Inr (rows, d') \<Longrightarrow> core_inv l h d'"
proof (induction "is" arbitrary: d rows)
  case (Cons i "is")
  then show ?case using append_core by (fastforce simp: rbind_Inr_iff)
qed simp

lemma ack_moved_rest:
  assumes "ack_moved d st acked through now d'"
  shows "same_fund d d'" "same_files d d'" "h_pressure d' = h_pressure d"
  using assms
  by (auto simp: ack_moved_def recordRuntimeEventAck_def Let_def update_stream_def same_fund_def same_files_def
      split: if_splits)

lemma ack_host:
  assumes lo: "limits_ok l" and inv: "host_inv l h d" and a: "ackRuntimeEvents l ph now s t d = Inr (u, d')"
  shows "host_inv l h d'"
proof -
  have o: "outbox_inv h d" using inv by (simp add: host_inv_def core_inv_def)
  have "h_streams d \<noteq> []"
    using a by (auto simp: ackRuntimeEvents_def storage_write_def rbind_Inr_iff getRuntimeEventStream_def split: if_splits)
  then obtain st nxt acked flr where v: "view d st nxt acked flr" using outbox_inv_view[OF o] by blast
  from v a show ?thesis
  proof (cases rule: ackE)
    case 1
    then show ?thesis using inv by simp
  next
    case (2 through d1)
    note r = ack_moved_rest[OF 2(4)]
    have "outbox_inv h d1" using ack_inv[OF o a] outbox_inv_cong[OF observe_same] by (simp add: 2(5))
    then have "core_inv l h d1"
      using inv fund_inv_cong[OF r(1)] same_files_ok[OF r(2)] pressure_row_cong[OF r(3)]
      by (simp add: host_inv_def core_inv_def)
    then show ?thesis using observe_host[OF lo] by (simp add: 2(5))
  qed
qed

text \<open>Pruning shrinks what is stored and touches no promise.\<close>

lemma drop_fund:
  assumes inv: "fund_inv l d" and o: "outbox_inv h d" "outbox_inv h d'" and sub: "h_outbox d' = drop k (h_outbox d)"
    and ids: "map st_id (h_streams d') = map st_id (h_streams d)"
    and w: "h_wallets d' = h_wallets d" "h_teardowns d' = h_teardowns d" "h_frames d' = h_frames d"
  shows "fund_inv l d'"
proof -
  have pos: "\<And>r. r \<in> set (h_outbox d) \<Longrightarrow> 0 \<le> ob_encoded_bytes r"
    using inv by (fastforce simp: fund_inv_def fund_rows_def)
  have st: "list_ex (\<lambda>s. st_id s = x) (h_streams d') = list_ex (\<lambda>s. st_id s = x) (h_streams d)" for x
  proof -
    have m: "list_ex (\<lambda>s. st_id s = x) ss \<longleftrightarrow> x \<in> set (map st_id ss)" for ss by (auto simp: list_ex_iff)
    show ?thesis unfolding m ids ..
  qed
  have split: "filter P (h_outbox d) = filter P (take k (h_outbox d)) @ filter P (drop k (h_outbox d))" for P
    by (metis append_take_drop_id filter_append)
  have "retained_count (h_budget d' p) \<le> retained_count (h_budget d p)
      \<and> retained_bytes (h_budget d' p) \<le> retained_bytes (h_budget d p)" for p
  proof -
    let ?P = "\<lambda>r. ob_partition r = p \<and> list_ex (\<lambda>s. st_id s = ob_stream r) (h_streams d)"
    have "0 \<le> sum_rows ob_encoded_bytes (filter ?P (take k (h_outbox d)))"
      by (auto intro!: sum_rows_nonneg pos dest: in_set_takeD)
    then show ?thesis
      using o split[of ?P] by (simp add: outbox_inv_def stored_usage_def Let_def sub st)
  qed
  then have b: "\<And>p. retained_count (h_budget d' p) \<le> retained_count (h_budget d p)"
    "\<And>p. retained_bytes (h_budget d' p) \<le> retained_bytes (h_budget d p)" by blast+
  have "fund_rows d'" using inv by (auto simp: fund_inv_def fund_rows_def sub dest: in_set_dropD)
  then show ?thesis
    using inv w b(1)[of Regular] b(2)[of Regular] b(1)[of Control] b(1)[of Emergency] b(2)[of Emergency]
    by (simp add: fund_inv_def fund_keys_def fund_signs_def fits_control_def fits_regular_def fits_emergency_def
        control_rows_reserved_def)
qed

lemma pruned_rest:
  assumes "pruned d st k d'"
  shows "same_files d d'" "h_pressure d' = h_pressure d" "map st_id (h_streams d') = map st_id (h_streams d)"
    "h_wallets d' = h_wallets d" "h_teardowns d' = h_teardowns d" "h_frames d' = h_frames d"
  using assms
  by (auto simp: pruned_def Let_def update_stream_def delete_outbox_def same_files_def map_sql_update_key)

lemma ensure_host:
  assumes "host_inv l h d" "ensureRuntimeEventStream fresh d = Inr (st, d')"
  shows "host_inv l h d'"
proof -
  have o: "outbox_inv h d'"
    using assms ensure_inv[OF _ assms(2)] by (metis core_inv_def host_inv_def outbox_inv_def)
  have s: "same_fund d d'" "same_files d d'" "h_pressure d' = h_pressure d"
    "reservedRegularUsage (outboxBudgetSnapshot d') = reservedRegularUsage (outboxBudgetSnapshot d)"
    unfolding ensure_stream(3)[OF assms(2)]
    by (simp_all add: same_fund_def same_files_def reservedRegularUsage_def outboxBudgetSnapshot_def)
  have "settled l d'" using assms(1) s(3,4) by (simp add: host_inv_def settled_def next_pressure_alt)
  then show ?thesis
    using assms(1) o fund_inv_cong[OF s(1)] same_files_ok[OF s(2)] pressure_row_cong[OF s(3)]
    by (simp add: host_inv_def core_inv_def)
qed

lemma prune_host:
  assumes lo: "limits_ok l" and inv: "host_inv l h d"
    and pr: "pruneAcknowledgedRuntimeEvents l ph now fresh mode older d = Inr (k, d')"
  shows "host_inv l h d'"
proof (cases "h_streams d = []")
  case True
  have e: "h_outbox d = []" using True inv by (auto simp: host_inv_def core_inv_def outbox_inv_def view_def)
  obtain st d1 where en: "ensureRuntimeEventStream fresh d = Inr (st, d1)" and d': "d' = d1"
    using pr e ensure_stream(3)
    by (fastforce simp: pruneAcknowledgedRuntimeEvents_def storage_write_def rbind_Inr_iff Let_def split: if_splits)
  show ?thesis unfolding d' by (rule ensure_host[OF inv en])
next
  case False
  have o: "outbox_inv h d" using inv by (simp add: host_inv_def core_inv_def)
  obtain st nxt acked flr where v: "view d st nxt acked flr" using outbox_inv_view[OF o False] by blast
  from v pr show ?thesis
  proof (cases rule: pruneE)
    case 1
    then show ?thesis using inv by simp
  next
    case (2 d1)
    note r = pruned_rest[OF 2(1)]
    have "flr + int k \<le> acked" using pruned_acked[OF v _ _ 2(3)] 2(1) by (simp add: pruned_def)
    note p = pruned_view[OF v 2(1) this]
    have o1: "outbox_inv h d1" using prune_inv[OF o pr] outbox_inv_cong[OF observe_same] by (simp add: 2(2))
    have "fund_inv l d1"
      using inv by (intro drop_fund[OF _ o o1 p(2) r(3-6)]) (simp add: host_inv_def core_inv_def)
    then have "core_inv l h d1"
      using inv o1 same_files_ok[OF r(1)] pressure_row_cong[OF r(2)] by (simp add: host_inv_def core_inv_def)
    then show ?thesis using observe_host[OF lo] by (simp add: 2(2))
  qed
qed

section \<open>Every operation keeps the invariant\<close>

lemma storage_write_Inr: "storage_write ph r = Inr x \<longleftrightarrow> ph_available ph \<and> ph_write_fits ph \<and> r = Inr x"
  by (auto simp: storage_write_def)

lemma append_host:
  assumes "limits_ok l" "host_inv l h d" "appendRuntimeEvents l h ph now fresh inputs d = Inr (rows, d')"
  shows "host_inv l h d'"
proof -
  obtain d1 where "append_all l h now fresh inputs d = Inr (rows, d1)" and d': "d' = observeCapacity l now d1"
    using assms(3) by (auto simp: appendRuntimeEvents_def storage_write_Inr rbind_Inr_iff split: if_splits)
  then have "core_inv l h d1" using append_all_core assms(2) by (auto simp: host_inv_def)
  then show ?thesis unfolding d' by (rule observe_host[OF assms(1)])
qed

lemma putReceipt_host:
  assumes "limits_ok l" "host_inv l h d" "putReceipt l ph now row adm d = Inr d'"
  shows "host_inv l h d'"
proof -
  obtain d1 d2 where "admitRuntimeReceipt l ph now row adm d = Inr d1" "writeReceiptRow row d1 = Inr d2"
    "d' = observeCapacity l now (settleReceiptBudget row d2)"
    using assms(3) by (auto simp: putReceipt_def storage_write_Inr rbind_Inr_iff)
  moreover have "core_inv l h d" using assms(2) by (simp add: host_inv_def)
  ultimately show ?thesis
    using observe_host[OF assms(1)] settleReceiptBudget_core writeReceiptRow_core admitRuntimeReceipt_core by blast
qed

lemma putReceiptWithRuntimeEvent_host:
  assumes "limits_ok l" "host_inv l h d" "putReceiptWithRuntimeEvent l h ph now fresh row input adm d = Inr (ev, d')"
  shows "host_inv l h d'"
proof -
  obtain d1 d2 d3 where adm: "admitRuntimeReceipt l ph now row adm d = Inr d1"
    and ap: "appendRuntimeEventInTransaction l h now fresh input d1 = Inr (ev, d2)"
    and wr: "writeReceiptRow (receipt_with_event row ev) d2 = Inr d3"
    and d': "d' = observeCapacity l now (settleReceiptBudget row d3)"
    using assms(3) by (auto simp: putReceiptWithRuntimeEvent_def storage_write_Inr rbind_Inr_iff)
  have "core_inv l h d" using assms(2) by (simp add: host_inv_def)
  then have "core_inv l h d3"
    by (intro writeReceiptRow_core[OF append_core[OF admitRuntimeReceipt_core[OF _ adm] ap] wr])
  then show ?thesis unfolding d' by (intro observe_host[OF assms(1)] settleReceiptBudget_core)
qed

lemma quiet_events: "host_inv l h d \<Longrightarrow> same_events d d' \<Longrightarrow> same_files d d' \<Longrightarrow> host_inv l h d'"
  using quiet_host by (auto simp: same_events_def)

lemma compact_quiet: "same_events d (snd (compact_receipt now row d))" "same_files d (snd (compact_receipt now row d))"
  by (auto simp: compact_receipt_def same_files_def intro!: same_eventsI split: option.splits)

lemma retireReceipt_host:
  assumes "host_inv l h d" "retireReceipt ph now fresh cmd rq d = Inr (out, d')"
  shows "host_inv l h d'"
proof -
  have c: "host_inv l h d1 \<Longrightarrow> host_inv l h (snd (compact_receipt now row d1))" for row d1
    using quiet_events compact_quiet by blast
  have c': "compact_receipt now row d1 = (o1, d2) \<Longrightarrow> host_inv l h d1 \<Longrightarrow> host_inv l h d2" for row d1 o1 d2
    using c by (metis snd_conv)
  show ?thesis
    using assms ensure_host[OF assms(1)] c'
    by (auto simp: retireReceipt_def storage_write_Inr rbind_Inr_iff split: option.splits if_splits)
qed

lemma bind_host:
  assumes "host_inv l h d" "bindProducerSession ph w s d = Inr d'"
  shows "host_inv l h d'"
proof -
  define P where "P = (\<lambda>v :: wallet_row. wl_id v = w \<and> \<not> wl_closed v \<and> (wl_session v = None \<or> wl_session v = Some s))"
  have d': "d' = d\<lparr>h_wallets := sql_update P (\<lambda>v. v\<lparr>wl_session := Some s\<rparr>) (h_wallets d)\<rparr>"
    using assms(2) by (auto simp: bindProducerSession_def storage_write_Inr Let_def P_def split: if_splits)
  have "core_inv l h d'"
  proof (rule wallet_step_core)
    show "fund_inv l d'" unfolding d' using assms(1) by (intro relabel_wallets_fund) (simp_all add: host_inv_def core_inv_def)
  qed (use assms(1) in \<open>simp_all add: d' host_inv_def core_inv_def same_outbox_def\<close>)
  moreover have "settled l d'"
    using assms(1) by (simp add: d' host_inv_def settled_def next_pressure_alt reservedRegularUsage_def outboxBudgetSnapshot_def)
  ultimately show ?thesis by (simp add: host_inv_def)
qed

lemma reserveFrameCapacity_core:
  assumes "core_inv l h d" "reserveFrameCapacity l rid boot w now d = Inr (b, d')"
  shows "core_inv l h d'"
proof (cases b)
  case False
  then have "d' = snd (refreshOutboxBudget l now d)"
    using assms(2) by (auto simp: reserveFrameCapacity_def case_prod_beta split: if_splits)
  then show ?thesis using refresh_core[OF assms(1)] by simp
next
  case True
  define d1 where "d1 = snd (refreshOutboxBudget l now d)"
  have c: "core_inv l h d1" unfolding d1_def by (rule refresh_core[OF assms(1)])
  have s: "frameFitsUnderHard (fst (refreshOutboxBudget l now d)) l = frameFitsUnderHard (outboxBudgetSnapshot d1) l"
    by (simp add: frameFitsUnderHard_def d1_def refreshOutboxBudget_def Let_def reservedRegularUsage_def
        outboxBudgetSnapshot_def)
  have fit: "frameFitsUnderHard (outboxBudgetSnapshot d1) l"
    and new: "\<not> list_ex (\<lambda>f. fr_id f = rid) (h_frames d1)"
    and d': "d' = d1\<lparr>h_frames := h_frames d1 @ [\<lparr>fr_id = rid, fr_boot = boot,
                            fr_wallet = w, fr_rows = FRAME_EVENT_ROWS, fr_bytes = FRAME_EVENT_BYTES\<rparr>]\<rparr>"
    using assms(2) True s by (auto simp: reserveFrameCapacity_def case_prod_beta d1_def split: if_splits)
  show ?thesis
  proof (rule wallet_step_core[OF c])
    show "fund_inv l d'"
      using c fit new unfolding d'
      by (auto simp: core_inv_def fund_defs frameFitsUnderHard_def Let_def reservedRegularUsage_def
          outboxBudgetSnapshot_def control_rows_reserved_def FRAME_EVENT_ROWS_def FRAME_EVENT_BYTES_def list_ex_iff)
  qed (use files_core[OF c] in \<open>simp_all add: d' same_outbox_def\<close>)
qed

lemma reserve_frame_host:
  assumes "limits_ok l" "host_inv l h d" "tryReserveRuntimeFrame l h ph now rid w n d = Inr (out, d')"
  shows "host_inv l h d'"
proof (cases "d' = d")
  case False
  have "\<exists>b d1 d2. reserveFrameCapacity l rid (hi_boot h) w now d = Inr (b, d1)
     \<and> (d2 = d1 \<or> reserveRuntimeFrameFiles l rid w n (ph_free ph) d1 = Inr d2) \<and> d' = observeCapacity l now d2"
    using assms(3) False
    by (auto simp: tryReserveRuntimeFrame_def rbind_Inr_iff Let_def split: if_splits sum.splits; blast)
  then obtain b d1 d2 where r: "reserveFrameCapacity l rid (hi_boot h) w now d = Inr (b, d1)"
    and d2: "d2 = d1 \<or> reserveRuntimeFrameFiles l rid w n (ph_free ph) d1 = Inr d2"
    and d': "d' = observeCapacity l now d2"
    by blast
  have c: "core_inv l h d1" using reserveFrameCapacity_core[OF _ r] assms(2) by (simp add: host_inv_def)
  have "core_inv l h d2" if "reserveRuntimeFrameFiles l rid w n (ph_free ph) d1 = Inr d2"
    by (rule file_step_core[OF c reserveRuntimeFrameFiles_events[OF that] reserveRuntimeFrameFiles_ok[OF files_core[OF c] that]])
  then show ?thesis using d2 c observe_host[OF assms(1)] by (auto simp: d')
qed (use assms in simp)

lemma drop_frames_fund:
  assumes "fund_inv l d"
  shows "fund_inv l (d\<lparr>h_frames := filter P (h_frames d)\<rparr>)"
proof -
  have "sum_rows fr_rows (filter P (h_frames d)) \<le> sum_rows fr_rows (h_frames d)"
    "sum_rows fr_bytes (filter P (h_frames d)) \<le> sum_rows fr_bytes (h_frames d)"
    unfolding sum_rows_filter using assms by (auto simp: fund_inv_def fund_signs_def intro!: sum_rows_le)
  then show ?thesis
    using assms by (auto simp: fund_defs control_rows_reserved_def distinct_map_filter)
qed

lemma drop_frames_core:
  assumes "core_inv l h d"
  shows "core_inv l h (d\<lparr>h_frames := filter P (h_frames d), h_file_credits := filter Q (h_file_credits d)\<rparr>)"
proof (rule wallet_step_core[OF assms])
  show "fund_inv l (d\<lparr>h_frames := filter P (h_frames d), h_file_credits := filter Q (h_file_credits d)\<rparr>)"
    using drop_frames_fund[of l d P] assms fund_inv_cong[of "d\<lparr>h_frames := filter P (h_frames d)\<rparr>"
        "d\<lparr>h_frames := filter P (h_frames d), h_file_credits := filter Q (h_file_credits d)\<rparr>"]
    by (simp add: core_inv_def same_fund_def)
  have "(d\<lparr>h_frames := filter P (h_frames d), h_file_credits := filter Q (h_file_credits d)\<rparr>)
      = (d\<lparr>h_file_credits := filter Q (h_file_credits d)\<rparr>)\<lparr>h_frames := filter P (h_frames d)\<rparr>" by simp
  then show "file_ok l (d\<lparr>h_frames := filter P (h_frames d), h_file_credits := filter Q (h_file_credits d)\<rparr>)"
    using drop_credits_ok[OF files_core[OF assms], of Q] wallets_file_ok(3) by metis
qed (simp_all add: same_outbox_def)

lemma drop_temporary_core:
  assumes "core_inv l h d"
  shows "core_inv l h (drop_temporary d)"
proof -
  let ?d = "d\<lparr>h_frames := filter (\<lambda>_. False) (h_frames d), h_file_credits := filter (\<lambda>_. False) (h_file_credits d)\<rparr>"
  have c: "core_inv l h ?d" by (rule drop_frames_core[OF assms])
  have "same_events ?d (drop_temporary d)" by (rule same_eventsI) (simp_all add: drop_temporary_def)
  moreover have "file_ok l (drop_temporary d) = file_ok l ?d" by (rule file_ok_cong) (simp_all add: drop_temporary_def)
  ultimately show ?thesis using file_step_core[OF c] files_core[OF c] by blast
qed

lemma seed_processes:
  "seedMissingSessionProcesses h pc now d = Inr d' \<Longrightarrow>
     d' = d\<lparr>h_processes := h_processes d @ map (unproven_process pc now) (unproven_wallets h d)\<rparr>"
  by (auto simp: seedMissingSessionProcesses_def Let_def split: if_splits)

lemma open_host:
  assumes "limits_ok l" "core_inv l h d" "openHostState l h pc now d = Inr d'"
  shows "host_inv l h d'"
proof -
  obtain d1 where s: "seedMissingSessionProcesses h pc now d = Inr d1" and d': "d' = observeCapacity l now (drop_temporary d1)"
    using assms(3) by (auto simp: openHostState_def rbind_Inr_iff Let_def)
  have "same_events d d1" "same_files d d1"
    by (auto simp: seed_processes[OF s] same_files_def intro!: same_eventsI)
  then have "core_inv l h d1" using file_step_core[OF assms(2)] same_files_ok files_core[OF assms(2)] by blast
  then show ?thesis unfolding d' by (intro observe_host[OF assms(1)] drop_temporary_core)
qed

lemma file_write_host:
  assumes "limits_ok l" "host_inv l h d" "withRuntimeFileWrite l ph now r = Inr d'"
    and "\<And>d1. r = Inr d1 \<Longrightarrow> same_events d d1" "\<And>d1. r = Inr d1 \<Longrightarrow> file_ok l d \<Longrightarrow> file_ok l d1"
  shows "host_inv l h d'"
proof -
  obtain d1 where r: "r = Inr d1" and d': "d' = observeCapacity l now d1"
    using assms(3) by (auto simp: withRuntimeFileWrite_def storage_write_Inr rbind_Inr_iff)
  have c: "core_inv l h d" using assms(2) by (simp add: host_inv_def)
  show ?thesis
    unfolding d' using file_step_core[OF c assms(4)[OF r] assms(5)[OF r files_core[OF c]]] by (rule observe_host[OF assms(1)])
qed

lemma releaseRuntimeSpool_step:
  assumes "releaseRuntimeSpool l x d = Inr d'"
  shows "same_events d d'" "file_ok l d \<Longrightarrow> file_ok l d'"
proof -
  define P where "P = (\<lambda>g :: file_row. \<not> (fl_id g = x \<and> fl_kind g = Spool_file \<and> fl_capacity g = 0))"
  have d': "d' = (releaseRuntimeFile l x d)\<lparr>h_files := filter P (h_files (releaseRuntimeFile l x d))\<rparr>"
    using assms by (auto simp: releaseRuntimeSpool_def Let_def P_def split: option.splits if_splits)
  have "same_events (releaseRuntimeFile l x d) d'" unfolding d' by (rule same_eventsI) simp_all
  then show "same_events d d'" using file_row_events(4)[of d l x] by (auto simp: same_events_def same_outbox_def same_fund_def)
  assume "file_ok l d"
  then have ok: "file_ok l (releaseRuntimeFile l x d)" by (rule releaseRuntimeFile_ok)
  let ?d = "releaseRuntimeFile l x d"
  have z: "fl_capacity g = 0 \<and> fl_written g = 0" if "g \<in> set (h_files ?d)" "\<not> P g" for g
    using that ok by (fastforce simp: P_def file_ok_def file_signs_def)
  have "sum_rows fl_capacity (filter P (h_files ?d)) = sum_rows fl_capacity (h_files ?d)"
    "sum_rows fl_written (filter P (h_files ?d)) = sum_rows fl_written (h_files ?d)"
    unfolding sum_rows_filter using z by (auto intro!: sum_rows_cong)
  then show "file_ok l d'"
    using ok unfolding d' by (auto simp: file_ok_defs distinct_map_filter)
qed

lemma other_tables_host:
  assumes "host_inv l h d"
  shows "setFence ph now run asg ep d = Inr d' \<Longrightarrow> host_inv l h d'"
    "registerSessionProcess h' pc ph now i d = Inr d' \<Longrightarrow> host_inv l h d'"
    "releaseSessionProcess pc ph cmd t d = Inr d' \<Longrightarrow> host_inv l h d'"
    "releaseSessionProcessesFromPriorBoot pc ph now d = Inr (n, d') \<Longrightarrow> host_inv l h d'"
    "noteUnsettledCreate ph x body d = Inr d' \<Longrightarrow> host_inv l h d'"
  by (rule quiet_events[OF assms same_eventsI];
      auto simp: noteUnsettledCreate_def setFence_def registerSessionProcess_def releaseSessionProcess_def same_files_def Let_def
        releaseSessionProcessesFromPriorBoot_def storage_write_Inr split: if_splits option.splits)+

lemma progress_host:
  assumes "host_inv l h d" "recordProducerFileBytes_op ph x n d = Inr d'"
  shows "host_inv l h d'"
proof -
  have r: "recordProducerFileBytes x n d = Inr d'"
    using assms(2) by (auto simp: recordProducerFileBytes_op_def split: if_splits)
  have c0: "core_inv l h d" using assms(1) by (simp add: host_inv_def)
  have c: "core_inv l h d'"
    by (rule file_step_core[OF c0 file_row_events(2)[OF r] recordProducerFileBytes_ok[OF files_core[OF c0] r]])
  have "settled l d'"
    using assms(1) r by (auto simp: recordProducerFileBytes_def rbind_Inr_iff host_inv_def settled_def next_pressure_alt
        reservedRegularUsage_def outboxBudgetSnapshot_def split: if_splits)
  with c show ?thesis by (simp add: host_inv_def)
qed

lemma host_exec_inv:
  assumes lo: "limits_ok l" and inv: "host_inv l h d" and ex: "host_exec l h op d = Inr d'"
  shows "host_inv l h d'"
proof (cases op)
  case (Op_append ph now fresh inputs)
  then show ?thesis using ex append_host[OF lo inv] by (auto simp: rbind_Inr_iff)
next
  case (Op_ack ph now stream through)
  then show ?thesis using ex ack_host[OF lo inv] by (auto simp: rbind_Inr_iff)
next
  case (Op_prune ph now fresh mode older)
  then show ?thesis using ex prune_host[OF lo inv] by (auto simp: rbind_Inr_iff)
next
  case (Op_put_receipt ph now row adm)
  then show ?thesis using ex putReceipt_host[OF lo inv] by simp
next
  case (Op_put_receipt_event ph now fresh row input adm)
  then show ?thesis using ex putReceiptWithRuntimeEvent_host[OF lo inv] by (auto simp: rbind_Inr_iff)
next
  case (Op_retire ph now fresh cmd rq)
  then show ?thesis using ex retireReceipt_host[OF inv] by (auto simp: rbind_Inr_iff)
next
  case (Op_bind ph w s)
  then show ?thesis using ex bind_host[OF inv] by simp
next
  case (Op_close_wallet ph now w)
  have "core_inv l h (closeProducerWallet w d)"
    using inv closeProducerWallet_core by (simp add: host_inv_def)
  then show ?thesis
    using Op_close_wallet ex observe_host[OF lo] by (auto simp: closeProducerWallet_op_def storage_write_Inr)
next
  case (Op_reserve_frame ph now rid w n)
  then show ?thesis using ex reserve_frame_host[OF lo inv] by (auto simp: rbind_Inr_iff)
next
  case (Op_release_frame ph now rid)
  have "core_inv l h d" using inv by (simp add: host_inv_def)
  then show ?thesis
    using Op_release_frame ex observe_host[OF lo drop_frames_core]
    by (auto simp: releaseRuntimeFrame_def Let_def split: if_splits)
next
  case (Op_reserve_file ph now free f funding)
  then show ?thesis
    using ex file_write_host[OF lo inv] reserveRuntimeFile_events reserveRuntimeFile_ok by fastforce
next
  case (Op_grow_file ph now free x n funding)
  then show ?thesis using ex file_write_host[OF lo inv] growRuntimeFile_events growRuntimeFile_ok by fastforce
next
  case (Op_record_file ph now x n)
  then show ?thesis using ex file_write_host[OF lo inv] file_row_events(1) recordRuntimeFileBytes_ok by fastforce
next
  case (Op_seal_file ph now x n)
  then show ?thesis using ex file_write_host[OF lo inv] file_row_events(3) sealRuntimeFile_ok by fastforce
next
  case (Op_release_file ph now x)
  then show ?thesis using ex file_write_host[OF lo inv] file_row_events(4) releaseRuntimeFile_ok by fastforce
next
  case (Op_release_spool ph now x)
  then show ?thesis using ex file_write_host[OF lo inv] releaseRuntimeSpool_step by fastforce
next
  case (Op_claim_writer ph now x t)
  then show ?thesis using ex file_write_host[OF lo inv] file_row_events(5) claimRuntimeFileWriter_ok by fastforce
next
  case (Op_release_writer ph now x t)
  then show ?thesis using ex file_write_host[OF lo inv] file_row_events(6) releaseRuntimeFileWriter_ok by fastforce
next
  case (Op_note_unsettled ph x body)
  then show ?thesis using ex other_tables_host(5)[OF inv] by simp
next
  case (Op_position fresh)
  then show ?thesis using ex ensure_host[OF inv] by (auto simp: nextRuntimeEventPosition_def rbind_Inr_iff)
next
  case (Op_restart pc now)
  have "core_inv l h d" using inv by (simp add: host_inv_def)
  then show ?thesis using Op_restart ex open_host[OF lo] by simp
next
  case (Op_fence ph now run asg ep)
  then show ?thesis using ex other_tables_host(1)[OF inv] by simp
next
  case (Op_register_process pc ph now i)
  then show ?thesis using ex other_tables_host(2)[OF inv] by simp
next
  case (Op_release_process pc ph cmd t)
  then show ?thesis using ex other_tables_host(3)[OF inv] by simp
next
  case (Op_release_prior pc ph now)
  then show ?thesis using ex other_tables_host(4)[OF inv] by (auto simp: rbind_Inr_iff)
next
  case (Op_record_progress ph x n)
  then show ?thesis using ex progress_host[OF inv] by simp
qed

text \<open>The boot id of a process is no part of what it stores as an invariant.\<close>

lemma host_inv_boot [simp]: "host_inv l (h\<lparr>hi_boot := b\<rparr>) d = host_inv l h d"
  by (simp add: host_inv_def core_inv_def outbox_inv_def row_content_def)

lemma host_step_inv:
  assumes "limits_ok l" "host_inv l h d" "host_step l h bop d = Inr d'"
  shows "host_inv l h d'"
  using host_exec_inv[of l "h\<lparr>hi_boot := fst bop\<rparr>" d "snd bop" d'] assms by (simp add: host_step_def)

lemma empty_host:
  assumes "limits_ok l"
  shows "host_inv l h empty_host_db"
proof -
  have "outbox_inv h empty_host_db"
    by (simp add: outbox_inv_def empty_host_db_def stored_usage_def no_usage_def)
  then show ?thesis
    using limits_okD[OF assms]
    by (simp add: host_inv_def core_inv_def fund_defs file_ok_defs pressure_row_ok_def settled_def next_pressure_alt
        reservedRegularUsage_def outboxBudgetSnapshot_def unacknowledgedAtThreshold_def control_rows_reserved_def
        empty_host_db_def no_usage_def EMERGENCY_EVENT_ROWS_def EMERGENCY_EVENT_BYTES_def CONTROL_EVENT_MAX_BYTES_def)
qed

end
