(* ===== verification/Transactions.thy ===== *)
theory Transactions
  imports Main
begin

text \<open>
  The interface of a store whose operations are transactions: an operation either throws and leaves the
  state as it was, or commits.  The laws a provider promises are that a committed operation keeps the
  invariant and relates the old state to the new one by a preorder; what a client may rely on after any
  sequence of operations follows once, here.
\<close>

locale transactional =
  fixes exec :: "'op \<Rightarrow> 's \<Rightarrow> 'e + 's"
    and run :: "'op list \<Rightarrow> 's \<Rightarrow> 's"
    and ok :: "'s \<Rightarrow> bool"
    and later :: "'s \<Rightarrow> 's \<Rightarrow> bool"
  assumes run_Nil: "run [] s = s"
    and run_Cons: "run (op # ops) s = run ops (case exec op s of Inl _ \<Rightarrow> s | Inr s' \<Rightarrow> s')"
    and exec_ok: "ok s \<Longrightarrow> exec op s = Inr s' \<Longrightarrow> ok s'"
    and exec_later: "ok s \<Longrightarrow> exec op s = Inr s' \<Longrightarrow> later s s'"
    and later_refl: "later s s"
    and later_trans: "later s s' \<Longrightarrow> later s' s'' \<Longrightarrow> later s s''"
begin

lemma run_guarantee: "ok s \<Longrightarrow> ok (run ops s) \<and> later s (run ops s)"
proof (induction ops arbitrary: s)
  case Nil
  then show ?case by (simp add: run_Nil later_refl)
next
  case (Cons op ops)
  show ?case
  proof (cases "exec op s")
    case (Inl e)
    then show ?thesis using Cons by (simp add: run_Cons)
  next
    case (Inr s')
    then have "ok s'" "later s s'" using Cons.prems exec_ok exec_later by blast+
    then show ?thesis using Cons.IH[of s'] Inr later_trans by (auto simp: run_Cons)
  qed
qed

lemma run_ok: "ok s \<Longrightarrow> ok (run ops s)"
  using run_guarantee by blast

lemma run_later: "ok s \<Longrightarrow> later s (run ops s)"
  using run_guarantee by blast

lemma run_append: "run (xs @ ys) s = run ys (run xs s)"
  by (induction xs arbitrary: s) (simp_all add: run_Nil run_Cons)

text \<open>Along every interleaving the states only move forward.\<close>

lemma run_prefix_later: "ok s \<Longrightarrow> later (run xs s) (run (xs @ ys) s)"
  by (simp add: run_append run_later run_ok)

end

end
