(* ===== verification/HostHistory.thy ===== *)
theory HostHistory
  imports HostInvariant Transactions
begin

text \<open>
  How the outbox of an execution host evolves: every operation but an acknowledgement keeps the watermark
  and every event above it, an acknowledgement only raises the watermark.  The host is an instance of the
  interface of transactional stores, with its invariant and this order as the laws.
\<close>

section \<open>History\<close>

text \<open>
  What every operation but an acknowledgement keeps: the watermark, the stream once created, and every
  stored event that the watermark does not cover.
\<close>

definition outbox_kept :: "host_db \<Rightarrow> host_db \<Rightarrow> bool" where
  "outbox_kept d d' \<longleftrightarrow>
     (\<forall>s. stream_ack_key d' s = stream_ack_key d s)
     \<and> (h_streams d = [] \<or> map st_id (h_streams d') = map st_id (h_streams d))
     \<and> (\<forall>r \<in> set (h_outbox d). r \<in> set (h_outbox d') \<or> \<not> row_pending d' r)"

lemma outbox_kept_refl [simp]: "outbox_kept d d"
  by (simp add: outbox_kept_def)

lemma outbox_kept_trans:
  assumes "outbox_kept d d'" "outbox_kept d' d''"
  shows "outbox_kept d d''"
proof -
  have k: "stream_ack_key d' = stream_ack_key d" "stream_ack_key d'' = stream_ack_key d"
    using assms by (auto simp: outbox_kept_def)
  then have p: "row_pending d' r = row_pending d r" "row_pending d'' r = row_pending d r" for r
    by (simp_all add: row_pending_def)
  have ids: "h_streams d = [] \<or> map st_id (h_streams d'') = map st_id (h_streams d)"
    using assms unfolding outbox_kept_def by (metis map_is_Nil_conv)
  have "r \<in> set (h_outbox d'') \<or> \<not> row_pending d'' r" if "r \<in> set (h_outbox d)" for r
    using assms that p by (auto simp: outbox_kept_def)
  then show ?thesis using ids k by (simp add: outbox_kept_def)
qed

lemma same_kept: "same_outbox d d' \<Longrightarrow> outbox_kept d d'"
  by (simp add: outbox_kept_def same_outbox_def stream_ack_key_def)

lemma ensure_kept:
  assumes "outbox_inv h d" "ensureRuntimeEventStream fresh d = Inr (st, d')"
  shows "outbox_kept d d'"
proof (cases "h_streams d = []")
  case True
  then have "h_outbox d = []" using assms(1) by (auto simp: outbox_inv_def view_def)
  then show ?thesis
    using True ensure_stream(1,4)[OF assms(2)] by (auto simp: outbox_kept_def stream_ack_key_def)
next
  case False
  then show ?thesis using ensure_stream(2)[OF assms(2)] by simp
qed

lemma stream_ack_update:
  assumes "\<And>s. st_id (g s) = st_id s" "\<And>s. st_acknowledged_sort_key (g s) = st_acknowledged_sort_key s"
  shows "stream_ack_key (update_stream x g d) s = stream_ack_key d s"
proof -
  have "(case find (\<lambda>r. st_id r = s) (sql_update (\<lambda>r. st_id r = x) g ss) of None \<Rightarrow> None
           | Some r \<Rightarrow> Some (st_acknowledged_sort_key r))
      = (case find (\<lambda>r. st_id r = s) ss of None \<Rightarrow> None | Some r \<Rightarrow> Some (st_acknowledged_sort_key r))" for ss
    using assms by (induction ss) (auto simp: sql_update_def)
  from this[of "h_streams d"] show ?thesis
    by (auto simp: stream_ack_key_def update_stream_def split: option.splits)
qed

lemma append_kept:
  assumes inv: "outbox_inv h d" and ap: "appendRuntimeEventInTransaction l h now fresh input d = Inr (row, d')"
  shows "outbox_kept d d'"
proof -
  from ap obtain st d1 n e part d2 d3 where
    en: "ensureRuntimeEventStream fresh d = Inr (st, d1)" and
    sp: "spendEventCapacity l (case ai_funding input of None \<Rightarrow> Fund_regular None False | Some f \<Rightarrow> f)
        (utf8_length (envelope_text e)) (draft_identity (ai_draft input)) d1 = Inr (part, d2)" and
    d3: "d3 = update_stream (st_id st) (\<lambda>s. s\<lparr>st_next_sequence := bigint_string (n + 1)\<rparr>) (insert_outbox row d2)" and
    last: "case ends_session input of None \<Rightarrow> d' = d3 | Some (wid, sid) \<Rightarrow> markProducerEnded wid sid d3 = Inr d'"
    by (rule appendE)
  have "stream_ack_key d3 s = stream_ack_key (insert_outbox row d2) s" for s
    unfolding d3 by (rule stream_ack_update) simp_all
  then have k: "stream_ack_key d3 s = stream_ack_key d2 s" for s
    by (simp add: stream_ack_key_def insert_outbox_def)
  have "outbox_kept d2 d3"
    unfolding outbox_kept_def k by (simp add: d3 update_stream_def insert_outbox_def map_sql_update_key)
  then have "outbox_kept d d3"
    using ensure_kept[OF inv en] same_kept[OF spend_same[OF sp]] outbox_kept_trans by blast
  moreover have "same_outbox d3 d'" using last markProducerEnded_same by (auto split: option.splits)
  ultimately show ?thesis using same_kept outbox_kept_trans by blast
qed

lemma append_all_kept:
  "outbox_inv h d \<Longrightarrow> append_all l h now fresh is d = Inr (rows, d') \<Longrightarrow> outbox_kept d d'"
proof (induction "is" arbitrary: d rows)
  case (Cons i "is")
  then obtain r d1 rs where a: "appendRuntimeEventInTransaction l h now fresh i d = Inr (r, d1)"
    and b: "append_all l h now fresh is d1 = Inr (rs, d')" by (auto simp: rbind_Inr_iff)
  show ?case
    using outbox_kept_trans[OF append_kept[OF Cons.prems(1) a] Cons.IH[OF append_inv[OF Cons.prems(1) a] b]] .
qed simp

lemma prune_kept:
  assumes o: "outbox_inv h d" and pr: "pruneAcknowledgedRuntimeEvents l ph now fresh mode older d = Inr (k, d')"
  shows "outbox_kept d d'"
proof (cases "h_streams d = []")
  case True
  then have e: "h_outbox d = []" using o by (auto simp: outbox_inv_def view_def)
  obtain st d1 where en: "ensureRuntimeEventStream fresh d = Inr (st, d1)" and d': "d' = d1"
    using pr e ensure_stream(3)
    by (fastforce simp: pruneAcknowledgedRuntimeEvents_def storage_write_Inr rbind_Inr_iff Let_def split: if_splits)
  show ?thesis unfolding d' by (rule ensure_kept[OF o en])
next
  case False
  then obtain st nxt acked flr where v: "view d st nxt acked flr" using outbox_inv_view[OF o] by blast
  from v pr show ?thesis
  proof (cases rule: pruneE)
    case 1
    then show ?thesis by simp
  next
    case (2 d1)
    have k: "0 < k" "k \<le> length (h_outbox d)" using 2(1) by (auto simp: pruned_def)
    have le: "flr + int k \<le> acked" by (rule pruned_acked[OF v k 2(3)])
    note p = pruned_view[OF v 2(1) le]
    obtain st' where v': "view d1 st' nxt acked (flr + int k)" and id: "st_id st' = st_id st" using p(1) by blast
    have key: "stream_ack_key d1 x = stream_ack_key d x" for x
      using ack_key_view[OF v] ack_key_view[OF v'] id viewD(1)[OF v] viewD(1)[OF v']
      by (cases "x = st_id st") (simp_all add: stream_ack_key_def)
    have "r \<in> set (h_outbox d1) \<or> \<not> row_pending d1 r" if "r \<in> set (h_outbox d)" for r
    proof (cases "r \<in> set (take k (h_outbox d))")
      case True
      then have "row_no r \<le> acked" using 2(3) stamp_iff[OF v that] by blast
      then have "\<not> row_pending d r" using pending_iff[OF v that] by simp
      then show ?thesis by (simp add: row_pending_def key)
    next
      case False
      then show ?thesis using that p(2) by (metis append_take_drop_id Un_iff set_append)
    qed
    then have "outbox_kept d d1"
      using key viewD(1)[OF v] viewD(1)[OF v'] id by (simp add: outbox_kept_def)
    then show ?thesis unfolding 2(2) using same_kept[OF observe_same] outbox_kept_trans by blast
  qed
qed

text \<open>The rest of the operations leave the outbox as it is, or append to it.\<close>

lemma files_kept: "same_events d d' \<Longrightarrow> outbox_kept d d'"
  by (rule same_kept) (simp add: same_events_def)

lemma admitRuntimeReceipt_same:
  assumes "admitRuntimeReceipt l ph now row adm d = Inr d'"
  shows "same_outbox d d'"
proof (cases "rc_phase row = Accepted")
  case False
  then show ?thesis using assms by (simp add: admitRuntimeReceipt_def)
next
  case True
  then obtain a where a: "adm = Some a" using assms by (cases adm) (simp_all add: admitRuntimeReceipt_def)
  have f: "same_outbox d (snd (refreshRuntimeFileBudget l d))"
    by (simp add: refreshRuntimeFileBudget_def same_outbox_def)
  obtain d1 d2 where d1: "d1 = d \<or> d1 = snd (refreshRuntimeFileBudget l d)"
    and adm: "admitReceipt l row a now d1 = Inr d2"
    and d': "(case a of Producer n \<Rightarrow> reserveProducerFileWallet l (rc_command row) n (ph_free ph) d2
                   | _ \<Rightarrow> Inr d2) = Inr d'"
    using assms True a
    by (simp add: admitRuntimeReceipt_def case_prod_beta Let_def rbind_Inr_iff split: if_splits) blast+
  have "same_outbox d2 d'"
    using d' reserveProducerFileWallet_events by (cases a) (auto simp: same_events_def)
  then show ?thesis
    using d1 f admitReceipt_admits[OF adm] same_outbox_trans unfolding admits_def by blast
qed

lemma writeReceiptRow_same: "writeReceiptRow row d = Inr d' \<Longrightarrow> same_outbox d d'"
  by (auto simp: writeReceiptRow_def same_outbox_def split: if_splits)

lemma settleReceiptBudget_same: "same_outbox d (settleReceiptBudget r d)"
  by (simp add: settleReceiptBudget_def releaseEndedWallets_def close_wallets_def update_file_wallets_def
        Let_def same_outbox_def split: option.splits)

lemma settled_receipt_kept:
  assumes "outbox_kept d d2" "writeReceiptRow row d2 = Inr d3"
  shows "outbox_kept d (observeCapacity l now (settleReceiptBudget r d3))"
proof -
  have "same_outbox d2 (observeCapacity l now (settleReceiptBudget r d3))"
    by (rule same_outbox_trans[OF writeReceiptRow_same[OF assms(2)]
          same_outbox_trans[OF settleReceiptBudget_same observe_same]])
  then show ?thesis by (rule outbox_kept_trans[OF assms(1) same_kept])
qed

lemma putReceipt_kept:
  assumes "putReceipt l ph now row adm d = Inr d'"
  shows "outbox_kept d d'"
proof -
  obtain d1 d2 where a: "admitRuntimeReceipt l ph now row adm d = Inr d1" and w: "writeReceiptRow row d1 = Inr d2"
    and d': "d' = observeCapacity l now (settleReceiptBudget row d2)"
    using assms by (auto simp: putReceipt_def storage_write_Inr rbind_Inr_iff)
  show ?thesis unfolding d' by (rule settled_receipt_kept[OF same_kept[OF admitRuntimeReceipt_same[OF a]] w])
qed

lemma putReceiptWithRuntimeEvent_kept:
  assumes o: "outbox_inv h d" and "putReceiptWithRuntimeEvent l h ph now fresh row input adm d = Inr (ev, d')"
  shows "outbox_kept d d'"
proof -
  obtain d1 d2 d3 where a: "admitRuntimeReceipt l ph now row adm d = Inr d1"
    and ap: "appendRuntimeEventInTransaction l h now fresh input d1 = Inr (ev, d2)"
    and w: "writeReceiptRow (receipt_with_event row ev) d2 = Inr d3"
    and d': "d' = observeCapacity l now (settleReceiptBudget row d3)"
    using assms(2) by (auto simp: putReceiptWithRuntimeEvent_def storage_write_Inr rbind_Inr_iff)
  have s: "same_outbox d d1" by (rule admitRuntimeReceipt_same[OF a])
  then have "outbox_inv h d1" using o outbox_inv_cong by blast
  from outbox_kept_trans[OF same_kept[OF s] append_kept[OF this ap]]
  show ?thesis unfolding d' by (rule settled_receipt_kept[OF _ w])
qed

lemma retireReceipt_kept:
  assumes o: "outbox_inv h d" and "retireReceipt ph now fresh cmd rq d = Inr (out, d')"
  shows "outbox_kept d d'"
proof -
  have c: "compact_receipt now row d1 = (o1, d2) \<Longrightarrow> outbox_kept d1 d2" for row d1 o1 d2
    using files_kept[OF compact_quiet(1)] by (metis snd_conv)
  have c': "ensureRuntimeEventStream fresh d = Inr (st, d1) \<Longrightarrow> compact_receipt now row d1 = (o1, d2) \<Longrightarrow> outbox_kept d d2"
    for row st d1 o1 d2 by (rule outbox_kept_trans[OF ensure_kept[OF o] c])
  show ?thesis
    using assms(2) ensure_kept[OF o] c c'
    by (auto simp: retireReceipt_def storage_write_Inr rbind_Inr_iff split: option.splits if_splits)
qed

lemma reserve_frame_kept:
  assumes "tryReserveRuntimeFrame l h ph now rid w n d = Inr (out, d')"
  shows "outbox_kept d d'"
proof (cases "d' = d")
  case False
  have "\<exists>b d1 d2. reserveFrameCapacity l rid (hi_boot h) w now d = Inr (b, d1)
     \<and> (d2 = d1 \<or> reserveRuntimeFrameFiles l rid w n (ph_free ph) d1 = Inr d2) \<and> d' = observeCapacity l now d2"
    using assms False
    by (auto simp: tryReserveRuntimeFrame_def rbind_Inr_iff Let_def split: if_splits sum.splits; blast)
  then obtain b d1 d2 where r: "reserveFrameCapacity l rid (hi_boot h) w now d = Inr (b, d1)"
    and d2: "d2 = d1 \<or> reserveRuntimeFrameFiles l rid w n (ph_free ph) d1 = Inr d2"
    and d': "d' = observeCapacity l now d2"
    by blast
  have "same_outbox d d1"
    using r refresh_same[of d l now]
    by (auto simp: reserveFrameCapacity_def case_prod_beta same_outbox_def split: if_splits)
  moreover have "same_outbox d1 d2"
    using d2 reserveRuntimeFrameFiles_events by (auto simp: same_events_def)
  ultimately show ?thesis
    unfolding d' using same_kept[OF same_outbox_trans[OF same_outbox_trans observe_same]] by blast
qed simp

lemma file_write_kept:
  assumes "withRuntimeFileWrite l ph now r = Inr d'" and "\<And>d1. r = Inr d1 \<Longrightarrow> same_events d d1"
  shows "outbox_kept d d'"
  using assms same_kept[OF same_outbox_trans[OF _ observe_same]]
  by (auto simp: withRuntimeFileWrite_def storage_write_Inr rbind_Inr_iff same_events_def)

lemma bind_kept: "bindProducerSession ph w s d = Inr d' \<Longrightarrow> outbox_kept d d'"
  by (rule same_kept) (auto simp: bindProducerSession_def storage_write_Inr Let_def same_outbox_def split: if_splits)

lemma other_tables_kept:
  "setFence ph now run asg ep d = Inr d' \<Longrightarrow> outbox_kept d d'"
  "registerSessionProcess h' pc ph now i d = Inr d' \<Longrightarrow> outbox_kept d d'"
  "releaseSessionProcess pc ph cmd t d = Inr d' \<Longrightarrow> outbox_kept d d'"
  "releaseSessionProcessesFromPriorBoot pc ph now d = Inr (n, d') \<Longrightarrow> outbox_kept d d'"
  "noteUnsettledCreate ph x body d = Inr d' \<Longrightarrow> outbox_kept d d'"
  by (rule same_kept;
      auto simp: noteUnsettledCreate_def setFence_def registerSessionProcess_def releaseSessionProcess_def same_outbox_def Let_def
        releaseSessionProcessesFromPriorBoot_def storage_write_Inr split: if_splits option.splits)+

lemma observed_kept: "same_outbox d d1 \<Longrightarrow> outbox_kept d (observeCapacity l now d1)"
  by (rule same_kept[OF same_outbox_trans[OF _ observe_same]])

definition is_ack :: "host_op \<Rightarrow> bool" where
  "is_ack op = (case op of Op_ack _ _ _ _ \<Rightarrow> True | _ \<Rightarrow> False)"

lemma exec_kept:
  assumes o: "outbox_inv h d" and ex: "host_exec l h op d = Inr d'" and na: "\<not> is_ack op"
  shows "outbox_kept d d'"
proof (cases op)
  case (Op_append ph now fresh inputs)
  then obtain rows d1 where "append_all l h now fresh inputs d = Inr (rows, d1)" and d': "d' = observeCapacity l now d1"
    using ex by (auto simp: appendRuntimeEvents_def storage_write_Inr rbind_Inr_iff split: if_splits)
  from append_all_kept[OF o this(1)] show ?thesis
    unfolding d' by (rule outbox_kept_trans[OF _ same_kept[OF observe_same]])
next
  case (Op_prune ph now fresh mode older)
  then show ?thesis using ex prune_kept[OF o] by (auto simp: rbind_Inr_iff)
next
  case (Op_put_receipt ph now row adm)
  then show ?thesis using ex putReceipt_kept by simp
next
  case (Op_put_receipt_event ph now fresh row input adm)
  then show ?thesis using ex putReceiptWithRuntimeEvent_kept[OF o] by (auto simp: rbind_Inr_iff)
next
  case (Op_retire ph now fresh cmd rq)
  then show ?thesis using ex retireReceipt_kept[OF o] by (auto simp: rbind_Inr_iff)
next
  case (Op_bind ph w s)
  then show ?thesis using ex bind_kept by simp
next
  case (Op_close_wallet ph now w)
  then show ?thesis
    using ex by (auto simp: closeProducerWallet_op_def storage_write_Inr closeProducerWallet_def intro: observed_kept)
next
  case (Op_reserve_frame ph now rid w n)
  then show ?thesis using ex reserve_frame_kept by (auto simp: rbind_Inr_iff)
next
  case (Op_release_frame ph now rid)
  then show ?thesis
    using ex by (auto simp: releaseRuntimeFrame_def Let_def same_outbox_def intro!: observed_kept split: if_splits)
next
  case (Op_reserve_file ph now free f funding)
  then show ?thesis using ex file_write_kept reserveRuntimeFile_events by fastforce
next
  case (Op_grow_file ph now free x n funding)
  then show ?thesis using ex file_write_kept growRuntimeFile_events by fastforce
next
  case (Op_record_file ph now x n)
  then show ?thesis using ex file_write_kept file_row_events(1) by fastforce
next
  case (Op_seal_file ph now x n)
  then show ?thesis using ex file_write_kept file_row_events(3) by fastforce
next
  case (Op_release_file ph now x)
  then show ?thesis using ex file_write_kept file_row_events(4) by fastforce
next
  case (Op_release_spool ph now x)
  then show ?thesis using ex file_write_kept releaseRuntimeSpool_step(1) by fastforce
next
  case (Op_claim_writer ph now x t)
  then show ?thesis using ex file_write_kept file_row_events(5) by fastforce
next
  case (Op_release_writer ph now x t)
  then show ?thesis using ex file_write_kept file_row_events(6) by fastforce
next
  case (Op_record_progress ph x n)
  then show ?thesis
    using ex files_kept[OF file_row_events(2)] by (auto simp: recordProducerFileBytes_op_def split: if_splits)
next
  case (Op_note_unsettled ph x body)
  then show ?thesis using ex other_tables_kept(5) by simp
next
  case (Op_position fresh)
  then show ?thesis using ex ensure_kept[OF o] by (auto simp: nextRuntimeEventPosition_def rbind_Inr_iff)
next
  case (Op_restart pc now)
  then obtain d1 where s: "seedMissingSessionProcesses h pc now d = Inr d1"
    and d': "d' = observeCapacity l now (drop_temporary d1)"
    using ex by (auto simp: openHostState_def rbind_Inr_iff Let_def)
  show ?thesis unfolding d' by (rule observed_kept) (simp add: seed_processes[OF s] drop_temporary_def same_outbox_def)
next
  case (Op_fence ph now run asg ep)
  then show ?thesis using ex other_tables_kept(1) by simp
next
  case (Op_register_process pc ph now i)
  then show ?thesis using ex other_tables_kept(2) by simp
next
  case (Op_release_process pc ph cmd t)
  then show ?thesis using ex other_tables_kept(3) by simp
next
  case (Op_release_prior pc ph now)
  then show ?thesis using ex other_tables_kept(4) by (auto simp: rbind_Inr_iff)
next
  case (Op_ack ph now s t)
  then show ?thesis using na by (simp add: is_ack_def)
qed

text \<open>
  The order between two states of one host: the watermark only rises, the stream once created stays, and
  a stored event is still stored unless the later watermark covers it.
\<close>

definition outbox_later :: "host_db \<Rightarrow> host_db \<Rightarrow> bool" where
  "outbox_later d d' \<longleftrightarrow>
     (\<forall>s. stream_ack_key d s \<le> stream_ack_key d' s)
     \<and> (h_streams d = [] \<or> map st_id (h_streams d') = map st_id (h_streams d))
     \<and> (\<forall>r \<in> set (h_outbox d). r \<in> set (h_outbox d') \<or> \<not> row_pending d' r)"

lemma outbox_later_refl [simp]: "outbox_later d d"
  by (simp add: outbox_later_def)

lemma outbox_later_trans:
  assumes "outbox_later d d'" "outbox_later d' d''"
  shows "outbox_later d d''"
proof -
  have "stream_ack_key d s \<le> stream_ack_key d'' s" for s
    using assms by (meson order_trans outbox_later_def)
  moreover have "r \<in> set (h_outbox d'') \<or> \<not> row_pending d'' r" if "r \<in> set (h_outbox d)" for r
  proof (cases "r \<in> set (h_outbox d')")
    case True
    then show ?thesis using assms(2) by (simp add: outbox_later_def)
  next
    case False
    then have "\<not> row_pending d' r" using assms(1) that by (auto simp: outbox_later_def)
    then have "\<not> row_pending d'' r"
      using assms(2) unfolding row_pending_def outbox_later_def by (meson le_less_trans not_le)
    then show ?thesis by simp
  qed
  moreover have "h_streams d = [] \<or> map st_id (h_streams d'') = map st_id (h_streams d)"
    using assms unfolding outbox_later_def by (metis map_is_Nil_conv)
  ultimately show ?thesis by (simp add: outbox_later_def)
qed

lemma kept_later: "outbox_kept d d' \<Longrightarrow> outbox_later d d'"
  by (simp add: outbox_kept_def outbox_later_def)

lemma ack_later:
  assumes o: "outbox_inv h d" and a: "ackRuntimeEvents l ph now s t d = Inr (u, d')"
  shows "outbox_later d d'"
proof -
  have "h_streams d \<noteq> []"
    using a by (auto simp: ackRuntimeEvents_def storage_write_Inr rbind_Inr_iff getRuntimeEventStream_def)
  then obtain st nxt acked flr where v: "view d st nxt acked flr" using outbox_inv_view[OF o] by blast
  from v a show ?thesis
  proof (cases rule: ackE)
    case 1
    then show ?thesis by simp
  next
    case (2 through d1)
    have st: "storable through" by (rule parse_storable[OF 2(1)])
    note v' = ack_moved_view[OF v 2(2,3) st 2(4)]
    have o1: "h_outbox d1 = h_outbox d"
      using 2(4) by (auto simp: ack_moved_def recordRuntimeEventAck_def Let_def update_stream_def split: if_splits)
    have "stream_ack_key d (st_id st) \<le> stream_ack_key d1 (st_id st)"
    proof (cases "acked = -1")
      case True
      then show ?thesis using ack_key_view[OF v] by simp
    next
      case False
      then have "storable acked" using viewD(3,4,9)[OF v] viewD(5)[OF v] 2(2,3) st by (auto simp: storable_def)
      then have "sort_key_of acked \<le> sort_key_of through" using st 2(2) by (simp add: sort_key_le)
      then show ?thesis using ack_key_view[OF v] ack_key_view[OF v'] False 2(2) viewD(3,4)[OF v] by simp
    qed
    moreover have "stream_ack_key d x = []" if "x \<noteq> st_id st" for x
      using that viewD(1)[OF v] by (simp add: stream_ack_key_def)
    ultimately have k: "stream_ack_key d x \<le> stream_ack_key d1 x" for x
      by (cases "x = st_id st") simp_all
    have "outbox_later d d1"
      using k o1 viewD(1)[OF v] viewD(1)[OF v'] by (simp add: outbox_later_def)
    then show ?thesis unfolding 2(5) using kept_later[OF same_kept[OF observe_same]] outbox_later_trans by blast
  qed
qed

lemma host_exec_later:
  assumes "outbox_inv h d" "host_exec l h op d = Inr d'"
  shows "outbox_later d d'"
proof (cases "is_ack op")
  case True
  then obtain ph now s t where "op = Op_ack ph now s t" by (auto simp: is_ack_def split: host_op.splits)
  then show ?thesis using assms ack_later by (auto simp: rbind_Inr_iff)
next
  case False
  then show ?thesis using kept_later exec_kept[OF assms] by blast
qed

lemma host_step_later:
  assumes "host_inv l h d" "host_step l h bop d = Inr d'"
  shows "outbox_later d d'"
proof -
  have "host_inv l (h\<lparr>hi_boot := fst bop\<rparr>) d" using assms(1) by simp
  then have "outbox_inv (h\<lparr>hi_boot := fst bop\<rparr>) d" unfolding host_inv_def core_inv_def by blast
  then show ?thesis using assms(2) by (auto simp: host_step_def intro: host_exec_later)
qed

interpretation host: transactional "host_step l h" "host_run l h" "\<lambda>d. limits_ok l \<and> host_inv l h d" outbox_later
  for l h
proof unfold_locales
  show "limits_ok l \<and> host_inv l h d'" if "limits_ok l \<and> host_inv l h d" "host_step l h op d = Inr d'" for d op d'
    using that host_step_inv by blast
  show "outbox_later d d'" if "limits_ok l \<and> host_inv l h d" "host_step l h op d = Inr d'" for d op d'
    using that host_step_later by blast
  show "outbox_later s s'' " if "outbox_later s s'" "outbox_later s' s''" for s s' s''
    using that by (rule outbox_later_trans)
qed simp_all

text \<open>Every state a host reaches from an empty file satisfies the invariant.\<close>

lemma reachable_inv: "limits_ok l \<Longrightarrow> host_inv l h (host_run l h ops empty_host_db)"
  using host.run_ok[of l h empty_host_db ops] empty_host by blast

end
