(* ===== verification/HostExample.thy ===== *)
theory HostExample
  imports HostHistory
begin

text \<open>
  A concrete execution host on which the guarantees are evaluated: the schema of envelopes knows one
  envelope, the disk is large, and the operations store one event.
\<close>

lemma pow10_above_one: "(1 < (10 :: rat) powi (int k - 324)) \<longleftrightarrow> 325 \<le> k"
proof (cases "k \<le> 324")
  case True
  then have e: "int k - 324 = - int (324 - k)" by simp
  have "(1 :: rat) \<le> 10 ^ (324 - k)" by simp
  then show ?thesis unfolding e power_int_minus using True by (simp add: field_simps not_less)
next
  case False
  then have e: "int k - 324 = int (k - 324)" by simp
  show ?thesis unfolding e power_int_of_nat using False by simp
qed

lemma decimal_exponent_one: "decimal_exponent 1 = 1"
proof -
  have "find (\<lambda>k. 1 < pow10 (int k - 324)) [0..<650] = Some 325"
    unfolding pow10_def pow10_above_one by (auto simp: find_Some_iff intro!: exI[of _ 325])
  then show ?thesis by (simp add: decimal_exponent_def)
qed

lemma bitlen_small: "bitlen 1 = 1" "bitlen 2 = 2" "bitlen 10 = 4"
  by code_simp+

lemma round_small: "round_double 1 = Fin 1" "round_double 2 = Fin 2" "round_double 10 = Fin 10"
  by (simp_all add: round_double_def binary_exponent_def bitlen_small round_half_even_def power_int_def Let_def power_divide)

lemma print_one: "js_number_string (Fin 1) = ''1''"
proof -
  have "nearest 1 (digit_candidates 1 1 1 @ digit_candidates 1 1 2) = Some (1, 1, 1)"
    by (simp add: digit_candidates_def Let_def round_small pow10_def)
  moreover have "[1..<18] = 1 # [2..<18 :: nat]" by (simp add: upt_conv_Cons)
  ultimately have "shortest_digits 1 = (1, 1, 1)"
    by (simp add: shortest_digits_def decimal_exponent_one)
  moreover have "layout_digits (1, 1, 1) = ''1''" by code_simp
  ultimately show ?thesis by (simp add: js_number_string_def)
qed

definition w_draft :: event_draft where
  "w_draft = \<lparr>dr_run = ''r'', dr_assignment = ''a'', dr_epoch = 1, dr_session = None,
     dr_type = ''session.line'', dr_occurred_at = ''t'', dr_payload = JObj [(''x'', JStr ''y'')]\<rparr>"

definition w_envelope :: event_envelope where
  "w_envelope = \<lparr>en_event_id = ''e'', en_host_key = ''h'', en_boot = ''b'', en_stream = ''s'',
     en_sequence = ''0'', en_run = ''r'', en_assignment = ''a'', en_epoch = 1, en_session = None,
     en_type = ''session.line'', en_occurred_at = ''t'', en_schema = ''maister.session.line.v1'',
     en_payload = JObj [(''x'', JStr ''y'')]\<rparr>"

definition w_host :: host_identity where
  "w_host = \<lparr>hi_key = ''h'', hi_boot = ''b'', hi_accepts = (\<lambda>e. e = w_envelope),
     hi_parse = (\<lambda>t. if t = envelope_text w_envelope then Some w_envelope else None),
     hi_event_id = (\<lambda>_ _ _. ''e'')\<rparr>"

definition w_disk :: host_physical where
  "w_disk = \<lparr>ph_available = True, ph_write_fits = True, ph_can_admit = (\<lambda>_. True), ph_free = None\<rparr>"

definition w_ops :: "(ident \<times> host_op) list" where
  "w_ops = [(''b'', Op_append w_disk 1000 ''s'' [\<lparr>ai_draft = w_draft, ai_funding = None\<rparr>])]"

lemma w_boot [simp]: "w_host\<lparr>hi_boot := ''b''\<rparr> = w_host"
  by (simp add: w_host_def)

lemma w_codec: "codec_ok w_host"
  by (simp add: codec_ok_def w_host_def)

lemma w_length: "utf8_length (envelope_text w_envelope) \<le> 1000"
  by (simp add: envelope_text_def w_envelope_def json_int_def json_opt_def print_one quote_json_def escape_char_def
      utf8_length_def Let_def)

lemma w_built: "buildRuntimeEventEnvelope w_host ''s'' ''0'' w_draft = Inr w_envelope"
proof -
  have "redactRuntimeEventPayload (JObj [(''x'', JStr ''y'')]) = Inr (JObj [(''x'', JStr ''y'')])" by code_simp
  moreover have "envelope_schema ''session.line'' (JObj [(''x'', JStr ''y'')]) = Inr ''maister.session.line.v1''" by code_simp
  ultimately show ?thesis
    using w_length by (simp add: buildRuntimeEventEnvelope_def w_draft_def w_host_def w_envelope_def[symmetric] MAX_RUNTIME_EVENT_BYTES_def)
qed

definition w_row :: outbox_row where
  "w_row = \<lparr>ob_stream = ''s'', ob_sequence = ''0'', ob_sort_key = sort_key_of 0, ob_event_id = ''e'',
     ob_envelope_json = envelope_text w_envelope, ob_encoded_bytes = utf8_length (envelope_text w_envelope),
     ob_occurred_at = ''t'', ob_acknowledged_at = None, ob_created_at = 1000, ob_partition = Regular\<rparr>"

lemma w_run:
  "h_streams (host_run DEFAULT_RUNTIME_LIMITS w_host w_ops empty_host_db) =
     [\<lparr>st_id = ''s'', st_next_sequence = ''1'', st_acknowledged_through = None, st_acknowledged_sort_key = None,
       st_replay_floor_sequence = None, st_replay_floor_sort_key = None\<rparr>]"
  "h_outbox (host_run DEFAULT_RUNTIME_LIMITS w_host w_ops empty_host_db) = [w_row]"
  "h_wallets (host_run DEFAULT_RUNTIME_LIMITS w_host w_ops empty_host_db) = []"
proof -
  have b: "bigint_string 1 = ''1''" by code_simp
  have p0: "parseHostEventSequence ''0'' = Inr 0" by code_simp
  have st: "storable 0" by (simp add: storable_def MAX_HOST_EVENT_SEQUENCE_def)
  let ?d = "empty_host_db\<lparr>h_streams := [\<lparr>st_id = ''s'', st_next_sequence = ''0'', st_acknowledged_through = None,
     st_acknowledged_sort_key = None, st_replay_floor_sequence = None, st_replay_floor_sort_key = None\<rparr>]\<rparr>"
  have spend: "spendEventCapacity DEFAULT_RUNTIME_LIMITS (Fund_regular None False) (utf8_length (envelope_text w_envelope))
      (draft_identity w_draft) ?d = Inr (Regular, ?d)"
    using w_length
    by (simp add: spendEventCapacity_def over_hard_def reservedRegularUsage_def outboxBudgetSnapshot_def Let_def
        empty_host_db_def no_usage_def DEFAULT_RUNTIME_LIMITS_def)
  have ev: "en_event_id w_envelope = ''e''" "en_occurred_at w_envelope = ''t''" by (simp_all add: w_envelope_def)
  have "append_all DEFAULT_RUNTIME_LIMITS w_host 1000 ''s'' [\<lparr>ai_draft = w_draft, ai_funding = None\<rparr>] empty_host_db
     = Inr ([w_row], update_stream ''s'' (\<lambda>s. s\<lparr>st_next_sequence := ''1''\<rparr>) (insert_outbox w_row ?d))"
    using spend
    by (simp add: appendRuntimeEventInTransaction_def ensureRuntimeEventStream_def getRuntimeEventStream_def p0 w_built
        Let_def sort_key_ok st b ev w_row_def outbox_insertable_def ends_session_def MAX_HOST_EVENT_SEQUENCE_def
        empty_host_db_def)
  moreover have "assertPhysicalAdmission DEFAULT_RUNTIME_LIMITS w_disk empty_host_db = Inr ()"
    by (simp add: assertPhysicalAdmission_def canAdmitPhysical_def w_disk_def)
  ultimately have run: "host_run DEFAULT_RUNTIME_LIMITS w_host w_ops empty_host_db =
     observeCapacity DEFAULT_RUNTIME_LIMITS 1000
       (update_stream ''s'' (\<lambda>s. s\<lparr>st_next_sequence := ''1''\<rparr>) (insert_outbox w_row ?d))"
    by (simp add: w_ops_def host_step_def appendRuntimeEvents_def storage_write_def w_disk_def)
  show "h_streams (host_run DEFAULT_RUNTIME_LIMITS w_host w_ops empty_host_db) =
     [\<lparr>st_id = ''s'', st_next_sequence = ''1'', st_acknowledged_through = None, st_acknowledged_sort_key = None,
       st_replay_floor_sequence = None, st_replay_floor_sort_key = None\<rparr>]"
    "h_outbox (host_run DEFAULT_RUNTIME_LIMITS w_host w_ops empty_host_db) = [w_row]"
    "h_wallets (host_run DEFAULT_RUNTIME_LIMITS w_host w_ops empty_host_db) = []"
    unfolding run using observe_fund[of "update_stream ''s'' (\<lambda>s. s\<lparr>st_next_sequence := ''1''\<rparr>) (insert_outbox w_row ?d)"
        DEFAULT_RUNTIME_LIMITS 1000] observe_same[of "update_stream ''s'' (\<lambda>s. s\<lparr>st_next_sequence := ''1''\<rparr>) (insert_outbox w_row ?d)"]
    by (simp_all add: same_fund_def same_outbox_def update_stream_def insert_outbox_def sql_update_def empty_host_db_def)
qed

lemma w_pending: "row_pending (host_run DEFAULT_RUNTIME_LIMITS w_host w_ops empty_host_db) w_row"
  using sort_key_bounds(1)[of 0]
  by (simp add: row_pending_def stream_ack_key_def w_run w_row_def storable_def MAX_HOST_EVENT_SEQUENCE_def)

text \<open>A session that was created with no output bindings and granted one output frame.\<close>

definition w_receipt :: receipt_row where
  "w_receipt = \<lparr>rc_command = ''c'', rc_run = ''r'', rc_kind = ''session.create'', rc_assignment = Some ''a'',
     rc_epoch = 1, rc_session = None, rc_digest = None, rc_schema = None, rc_version = 2, rc_host_key = None,
     rc_accepted_sequence = None, rc_terminal_stream = None, rc_terminal_sequence = None, rc_event = None,
     rc_phase = Accepted, rc_status = 202, rc_body = JNull, rc_received_at = 0, rc_completed_at = None,
     rc_retired_at = None\<rparr>"

definition w_session_ops :: "(ident \<times> host_op) list" where
  "w_session_ops = [(''b'', Op_put_receipt w_disk 0 w_receipt (Some (Producer 0))),
     (''b'', Op_reserve_frame w_disk 1 ''f'' ''c'' 100)]"

definition w_wallet :: wallet_row where
  "w_wallet = \<lparr>wl_id = ''c'', wl_run = ''r'', wl_assignment = ''a'', wl_epoch = 1, wl_bindings = 0,
     wl_remaining = PRODUCER_BASE_CONTROL_ROWS, wl_session = None, wl_ended = False, wl_closed = False\<rparr>"

lemmas host_eval = refreshOutboxBudget_def next_pressure_def unacknowledgedAtThreshold_def retainedAtThreshold_def
  reservedRegularUsage_def outboxBudgetSnapshot_def control_rows_reserved_def controlFundsProducerWallet_def
  runtimeFileBudgetSnapshot_def active_written_delta_def refreshRuntimeFileBudget_def updateRuntimeFilePressure_def
  empty_host_db_def no_usage_def DEFAULT_RUNTIME_LIMITS_def PRODUCER_BASE_CONTROL_ROWS_def EMERGENCY_EVENT_ROWS_def
  EMERGENCY_EVENT_BYTES_def CONTROL_EVENT_MAX_BYTES_def PRODUCER_FILE_RESERVE_BYTES_def OUTPUT_FILE_RESERVE_BYTES_def
  w_wallet_def w_receipt_def Let_def

definition w_created :: host_db where
  "w_created = empty_host_db\<lparr>h_wallets := [w_wallet], h_receipts := [w_receipt],
     h_file_wallets := [\<lparr>fw_id = ''c'', fw_remaining = 8388608\<rparr>],
     h_file_budget := \<lparr>fb_charged = 8388608, fb_written = 0, fb_pressured = False\<rparr>\<rparr>"

lemma w_admitted:
  "admitReceipt DEFAULT_RUNTIME_LIMITS w_receipt (Producer 0) 0 empty_host_db =
     Inr (empty_host_db\<lparr>h_wallets := [w_wallet]\<rparr>)"
  by (simp add: admitReceipt_def receipt_known_def reserveProducerWallet_def producerWalletRows_def safe_integer_def
      MAX_DECLARED_OUTPUT_BINDINGS_def assertOutboxAdmission_def assertRetainedBelowHard_def host_eval)

lemma w_file_wallet:
  "reserveProducerFileWallet DEFAULT_RUNTIME_LIMITS ''c'' 0 None (empty_host_db\<lparr>h_wallets := [w_wallet]\<rparr>) =
     Inr (w_created\<lparr>h_receipts := []\<rparr>)"
  by (simp add: reserveProducerFileWallet_def assertFileHeadroom_def fundFileCapacity_def assertFileBytes_def safe_integer_def
      insert_file_wallet_def w_created_def host_eval)

lemma w_put:
  "putReceipt DEFAULT_RUNTIME_LIMITS w_disk 0 w_receipt (Some (Producer 0)) empty_host_db = Inr w_created"
proof -
  have "admitRuntimeReceipt DEFAULT_RUNTIME_LIMITS w_disk 0 w_receipt (Some (Producer 0)) empty_host_db
     = Inr (w_created\<lparr>h_receipts := []\<rparr>)"
  proof -
    have "refreshRuntimeFileBudget DEFAULT_RUNTIME_LIMITS empty_host_db = (runtimeFileBudgetSnapshot empty_host_db, empty_host_db)"
      "\<not> fs_pressured (runtimeFileBudgetSnapshot empty_host_db)"
      by (simp_all add: host_eval)
    moreover have "starts_with ''session.'' ''session.create''" "rc_kind w_receipt = ''session.create''"
      "rc_phase w_receipt = Accepted" "rc_command w_receipt = ''c''" "ph_free w_disk = None"
      by (simp_all add: starts_with_def w_receipt_def w_disk_def)
    ultimately show ?thesis
      by (simp add: admitRuntimeReceipt_def is_teardown_def w_admitted w_file_wallet Let_def)
  qed
  moreover have "encodedByteLength JNull = 4" by code_simp
  then have "writeReceiptRow w_receipt (w_created\<lparr>h_receipts := []\<rparr>) = Inr w_created"
    by (simp add: writeReceiptRow_def receipt_known_def w_receipt_def MAX_RECEIPT_BODY_BYTES_def w_created_def)
  moreover have "observeCapacity DEFAULT_RUNTIME_LIMITS 0 w_created = w_created"
    by (simp add: observeCapacity_def w_created_def host_eval)
  moreover have "settleReceiptBudget w_receipt w_created = w_created"
    by (simp add: settleReceiptBudget_def w_receipt_def)
  ultimately show ?thesis
    by (simp add: putReceipt_def storage_write_def w_disk_def assertPhysicalAdmission_def canAdmitPhysical_def)
qed

lemma w_reserve:
  "\<exists>d'. tryReserveRuntimeFrame DEFAULT_RUNTIME_LIMITS w_host w_disk 1 ''f'' ''c'' 100 w_created = Inr (Some ''f'', d')
     \<and> h_wallets d' = [w_wallet]
     \<and> h_frames d' = [\<lparr>fr_id = ''f'', fr_boot = ''b'', fr_wallet = ''c'', fr_rows = 4, fr_bytes = 4194304\<rparr>]"
proof -
  let ?f = "\<lparr>fr_id = ''f'', fr_boot = ''b'', fr_wallet = ''c'', fr_rows = 4, fr_bytes = 4194304\<rparr>"
  have a: "reserveFrameCapacity DEFAULT_RUNTIME_LIMITS ''f'' ''b'' ''c'' 1 w_created = Inr (True, w_created\<lparr>h_frames := [?f]\<rparr>)"
    by (simp add: reserveFrameCapacity_def frameFitsUnderHard_def wallet_open_def w_created_def host_eval
        FRAME_EVENT_ROWS_def FRAME_EVENT_BYTES_def)
  have b: "\<exists>d2. reserveRuntimeFrameFiles DEFAULT_RUNTIME_LIMITS ''f'' ''c'' 100 None (w_created\<lparr>h_frames := [?f]\<rparr>) = Inr d2
     \<and> h_wallets d2 = [w_wallet] \<and> h_frames d2 = [?f]"
    by (simp add: reserveRuntimeFrameFiles_def assertFileHeadroom_def fundFileCapacity_def assertFileBytes_def safe_integer_def
        producerIsStarting_def w_created_def host_eval)
  then obtain d2 where d2: "reserveRuntimeFrameFiles DEFAULT_RUNTIME_LIMITS ''f'' ''c'' 100 None (w_created\<lparr>h_frames := [?f]\<rparr>) = Inr d2"
     "h_wallets d2 = [w_wallet]" "h_frames d2 = [?f]" by blast
  show ?thesis
    using a d2 observe_fund[of d2 DEFAULT_RUNTIME_LIMITS 1]
    by (simp add: tryReserveRuntimeFrame_def w_disk_def w_host_def same_fund_def)
qed

lemma w_session:
  "h_wallets (host_run DEFAULT_RUNTIME_LIMITS w_host w_session_ops empty_host_db) = [w_wallet]"
  "h_frames (host_run DEFAULT_RUNTIME_LIMITS w_host w_session_ops empty_host_db) =
     [\<lparr>fr_id = ''f'', fr_boot = ''b'', fr_wallet = ''c'', fr_rows = 4, fr_bytes = 4194304\<rparr>]"
  using w_reserve by (auto simp: w_session_ops_def host_step_def w_put)

end
