(* ===== verification/HostLedger.thy ===== *)
theory HostLedger
  imports HostInvariant
begin

text \<open>
  The ledger of an execution host: command receipts, fences, obligations for session processes and the
  identity of producer wallets.  Every operation of the store keeps the keys of the ledger unique, backs a
  wallet by its accepted create, and moves the ledger forward only: a receipt keeps its identity, a fence
  rises or stays, and a process that becomes registered has at least the epoch of the fence.
\<close>

section \<open>The ledger tables\<close>

text \<open>
  The operations on events and files leave receipts, fences, process obligations and the identity columns of
  wallets alone.
\<close>

definition wallet_identity :: "wallet_row \<Rightarrow> ident \<times> ident \<times> ident \<times> int" where
  "wallet_identity w = (wl_id w, wl_run w, wl_assignment w, wl_epoch w)"

definition wallet_ids :: "host_db \<Rightarrow> (ident \<times> ident \<times> ident \<times> int) list" where
  "wallet_ids d = map wallet_identity (h_wallets d)"

definition same_ledger :: "host_db \<Rightarrow> host_db \<Rightarrow> bool" where
  "same_ledger d d' \<longleftrightarrow>
     h_receipts d' = h_receipts d \<and> h_fences d' = h_fences d \<and> h_processes d' = h_processes d
     \<and> wallet_ids d' = wallet_ids d"

lemma map_update_key: "(\<And>r. f (g r) = f r) \<Longrightarrow> map f (sql_update P g rows) = map f rows"
  by (simp add: sql_update_def)

lemma wallet_identity_upd [simp]:
  "wallet_identity (w\<lparr>wl_remaining := n\<rparr>) = wallet_identity w" "wallet_identity (w\<lparr>wl_session := s\<rparr>) = wallet_identity w"
  "wallet_identity (w\<lparr>wl_ended := b\<rparr>) = wallet_identity w" "wallet_identity (w\<lparr>wl_closed := b\<rparr>) = wallet_identity w"
  by (simp_all add: wallet_identity_def)

lemma wallet_ids_update [simp]:
  "(\<And>w. wallet_identity (g w) = wallet_identity w) \<Longrightarrow>
     map wallet_identity (sql_update P g rows) = map wallet_identity rows"
  by (rule map_update_key)

lemmas same_ledger_defs = same_ledger_def wallet_ids_def

lemma same_ledger_refl [simp]: "same_ledger d d"
  by (simp add: same_ledger_defs)

lemma same_ledger_trans: "same_ledger d d' \<Longrightarrow> same_ledger d' d'' \<Longrightarrow> same_ledger d d''"
  by (simp add: same_ledger_defs)

lemma refresh_ledger [simp]:
  "same_ledger d (snd (refreshOutboxBudget l now d))" "same_ledger d (snd (refreshRuntimeFileBudget l d))"
  by (simp_all add: same_ledger_defs refreshOutboxBudget_def refreshRuntimeFileBudget_def Let_def)

lemma observe_ledger [simp]: "same_ledger d (observeCapacity l now d)"
  unfolding observeCapacity_def by (rule same_ledger_trans[OF refresh_ledger(1) refresh_ledger(2)])

lemma observe_ledger_fields [simp]:
  "h_receipts (observeCapacity l now d) = h_receipts d" "h_fences (observeCapacity l now d) = h_fences d"
  "h_processes (observeCapacity l now d) = h_processes d"
  "map wallet_identity (h_wallets (observeCapacity l now d)) = map wallet_identity (h_wallets d)"
  using observe_ledger[of d l now] by (simp_all add: same_ledger_defs)

lemma close_wallets_ledger [simp]: "same_ledger d (close_wallets P d)"
  by (simp add: same_ledger_defs)

lemma markProducerEnded_ledger: "markProducerEnded w s d = Inr d' \<Longrightarrow> same_ledger d d'"
  by (auto simp: markProducerEnded_def releaseEndedWallets_def same_ledger_defs split: if_splits)

lemma spend_ledger: "spendEventCapacity l f n i d = Inr (p, d') \<Longrightarrow> same_ledger d d'"
  by (auto simp: spendEventCapacity_def rbind_Inr_iff spend_frame_def spend_control_def same_ledger_defs
      split: event_funding.splits option.splits if_splits)

lemma ensure_ledger: "ensureRuntimeEventStream fresh d = Inr (st, d') \<Longrightarrow> same_ledger d d'"
  using ensure_stream(3)[of fresh d st d'] by (simp add: same_ledger_defs)

lemma append_ledger:
  assumes "appendRuntimeEventInTransaction l h now fresh input d = Inr (row, d')"
  shows "same_ledger d d'"
proof -
  from assms obtain st d1 n e part d2 d3 where
    en: "ensureRuntimeEventStream fresh d = Inr (st, d1)" and
    sp: "spendEventCapacity l (case ai_funding input of None \<Rightarrow> Fund_regular None False | Some f \<Rightarrow> f)
        (utf8_length (envelope_text e)) (draft_identity (ai_draft input)) d1 = Inr (part, d2)" and
    d3: "d3 = update_stream (st_id st) (\<lambda>s. s\<lparr>st_next_sequence := bigint_string (n + 1)\<rparr>) (insert_outbox row d2)" and
    last: "case ends_session input of None \<Rightarrow> d' = d3 | Some (wid, sid) \<Rightarrow> markProducerEnded wid sid d3 = Inr d'"
    by (rule appendE)
  have "same_ledger d2 d3" by (simp add: d3 same_ledger_defs update_stream_def insert_outbox_def)
  then have "same_ledger d d3" by (rule same_ledger_trans[OF same_ledger_trans[OF ensure_ledger[OF en] spend_ledger[OF sp]]])
  moreover have "same_ledger d3 d'" using last markProducerEnded_ledger by (auto split: option.splits)
  ultimately show ?thesis by (rule same_ledger_trans)
qed

lemma append_all_ledger: "append_all l h now fresh is d = Inr (rows, d') \<Longrightarrow> same_ledger d d'"
proof (induction "is" arbitrary: d rows)
  case (Cons i "is")
  then show ?case using append_ledger same_ledger_trans by (fastforce simp: rbind_Inr_iff)
qed simp

lemma admission_ledger: "assertOutboxAdmission l now d = Inr d' \<Longrightarrow> same_ledger d d'"
  using admission_fields[of l now d d'] by simp

text \<open>Admission adds at most the wallet of a create that was not known before.\<close>

definition admits_wallet :: "receipt_row \<Rightarrow> host_db \<Rightarrow> host_db \<Rightarrow> bool" where
  "admits_wallet row d d' \<longleftrightarrow>
     h_receipts d' = h_receipts d \<and> h_fences d' = h_fences d \<and> h_processes d' = h_processes d
     \<and> (wallet_ids d' = wallet_ids d
        \<or> (rc_kind row = ''session.create'' \<and> \<not> receipt_known d (rc_command row)
           \<and> (\<exists>a. rc_assignment row = Some a
                \<and> wallet_ids d' = wallet_ids d @ [(rc_command row, rc_run row, a, rc_epoch row)])))"

lemma same_admits: "same_ledger d d' \<Longrightarrow> admits_wallet row d d'"
  by (simp add: same_ledger_def admits_wallet_def)

lemma admits_then: "admits_wallet row d d1 \<Longrightarrow> same_ledger d1 d2 \<Longrightarrow> admits_wallet row d d2"
  by (simp add: same_ledger_def admits_wallet_def)

lemma then_admits: "same_ledger d d1 \<Longrightarrow> admits_wallet row d1 d2 \<Longrightarrow> admits_wallet row d d2"
  by (simp add: same_ledger_def admits_wallet_def receipt_known_def)

lemma reserveProducerWallet_ledger:
  assumes "reserveProducerWallet l b now d = Inr d'"
  shows "same_ledger d d'
    \<or> (h_receipts d' = h_receipts d \<and> h_fences d' = h_fences d \<and> h_processes d' = h_processes d
       \<and> wallet_ids d' = wallet_ids d @ [(wb_wallet b, wb_run b, wb_assignment b, wb_epoch b)])"
  using assms
  by (cases "find (\<lambda>w. wl_id w = wb_wallet b) (h_wallets d)")
    (auto simp: reserveProducerWallet_def rbind_Inr_iff same_ledger_defs wallet_identity_def dest!: admission_ledger
      split: if_splits)

lemma admitReceipt_ledger:
  assumes "admitReceipt l r a now d = Inr d'"
  shows "admits_wallet r d d'"
proof (cases "rc_phase r \<noteq> Accepted \<or> receipt_known d (rc_command r)")
  case True
  then show ?thesis using assms same_admits by (auto simp: admitReceipt_def)
next
  case False
  have t: "admitTeardown l r wo now d = Inr d' \<Longrightarrow> same_ledger d d'" for wo
    using refresh_ledger(1)[of d l now]
    by (auto simp: admitTeardown_def case_prod_beta Let_def same_ledger_defs split: option.splits if_splits)
  show ?thesis
  proof (cases a)
    case (Producer n)
    then obtain asg where r: "rc_assignment r = Some asg" "rc_kind r = ''session.create''"
      "reserveProducerWallet l \<lparr>wb_wallet = rc_command r, wb_run = rc_run r, wb_assignment = asg,
                      wb_epoch = rc_epoch r, wb_bindings = n\<rparr> now d = Inr d'"
      using assms False by (auto simp: admitReceipt_def split: option.splits if_splits)
    then show ?thesis
      using False reserveProducerWallet_ledger[OF r(3)] same_admits[of d d' r] by (auto simp: admits_wallet_def)
  next
    case New_work
    then show ?thesis
      using assms False by (auto simp: admitReceipt_def rbind_Inr_iff dest!: admission_ledger intro: same_admits split: if_splits)
  next
    case Resolve
    then show ?thesis
      using assms False by (auto simp: admitReceipt_def assertRetainedBelowHard_def intro: same_admits split: if_splits)
  next
    case (Teardown wo)
    then show ?thesis using assms False t by (auto simp: admitReceipt_def intro: same_admits)
  qed
qed

lemma fund_ledger:
  assumes "fundFileCapacity l bytes funding s d = Inr d'"
  shows "same_ledger d d'"
  using assms
  by (auto simp: fundFileCapacity_def rbind_Inr_iff update_file_wallets_def Let_def case_prod_beta same_ledger_defs
       split: if_splits file_funding.splits)

lemma fund_then_ledger:
  assumes "fundFileCapacity l bytes funding s d = Inr d1" "same_ledger d1 d2"
  shows "same_ledger d d2"
  using same_ledger_trans[OF fund_ledger[OF assms(1)] assms(2)] .

lemma file_ledger:
  "reserveProducerFileWallet l w n free d = Inr d' \<Longrightarrow> same_ledger d d'"
  "reserveRuntimeFrameFiles l rid w n free d = Inr d' \<Longrightarrow> same_ledger d d'"
  "reserveRuntimeFile l free f funding d = Inr d' \<Longrightarrow> same_ledger d d'"
  "growRuntimeFile l free x n funding d = Inr d' \<Longrightarrow> same_ledger d d'"
  by (auto simp: reserveProducerFileWallet_def reserveRuntimeFrameFiles_def reserveRuntimeFile_def growRuntimeFile_def
      rbind_Inr_iff Let_def file_frame_defs same_ledger_defs split: if_splits option.splits
      dest!: fund_ledger)

lemma file_row_ledger:
  "recordRuntimeFileBytes x n d = Inr d' \<Longrightarrow> same_ledger d d'"
  "recordProducerFileBytes x n d = Inr d' \<Longrightarrow> same_ledger d d'"
  "sealRuntimeFile l x n d = Inr d' \<Longrightarrow> same_ledger d d'"
  "same_ledger d (releaseRuntimeFile l x d)"
  "claimRuntimeFileWriter x b t d = Inr d' \<Longrightarrow> same_ledger d d'"
  "releaseRuntimeFileWriter x b t d = Inr d' \<Longrightarrow> same_ledger d d'"
  "releaseRuntimeSpool l x d = Inr d' \<Longrightarrow> same_ledger d d'"
  by (auto simp: recordRuntimeFileBytes_def recordProducerFileBytes_def sealRuntimeFile_def releaseRuntimeSpool_def
      releaseRuntimeFile_def claimRuntimeFileWriter_def releaseRuntimeFileWriter_def rbind_Inr_iff Let_def
      file_frame_defs same_ledger_defs split: if_splits option.splits)

lemma admitRuntimeReceipt_ledger:
  assumes "admitRuntimeReceipt l ph now row adm d = Inr d'"
  shows "admits_wallet row d d'"
proof (cases "rc_phase row = Accepted")
  case False
  then show ?thesis using assms same_admits by (simp add: admitRuntimeReceipt_def)
next
  case True
  then obtain a where a: "adm = Some a" using assms by (cases adm) (simp_all add: admitRuntimeReceipt_def)
  obtain d1 d2 where d1: "d1 = d \<or> d1 = snd (refreshRuntimeFileBudget l d)"
    and adm: "admitReceipt l row a now d1 = Inr d2"
    and d': "(case a of Producer n \<Rightarrow> reserveProducerFileWallet l (rc_command row) n (ph_free ph) d2
                   | _ \<Rightarrow> Inr d2) = Inr d'"
    using assms True a
    by (simp add: admitRuntimeReceipt_def case_prod_beta Let_def rbind_Inr_iff split: if_splits) blast+
  have "same_ledger d d1" using d1 by auto
  moreover have "same_ledger d2 d'" using d' file_ledger(1) by (cases a) auto
  ultimately show ?thesis using then_admits admits_then admitReceipt_ledger[OF adm] by blast
qed

lemma settleReceiptBudget_ledger [simp]: "same_ledger d (settleReceiptBudget r d)"
  by (simp add: settleReceiptBudget_def releaseEndedWallets_def Let_def same_ledger_defs split: option.splits)

section \<open>How the ledger evolves\<close>

definition receipt_identity :: "receipt_row \<Rightarrow> ident \<times> string \<times> ident \<times> int" where
  "receipt_identity r = (rc_command r, rc_kind r, rc_run r, rc_epoch r)"

definition receipt_keys :: "host_db \<Rightarrow> (ident \<times> string \<times> ident \<times> int) list" where
  "receipt_keys d = map receipt_identity (h_receipts d)"

text \<open>A wallet is backed by the create that was accepted for it.\<close>

definition backs :: "receipt_row \<Rightarrow> ident \<times> ident \<times> ident \<times> int \<Rightarrow> bool" where
  "backs r k \<longleftrightarrow>
     rc_kind r = ''session.create'' \<and> (\<exists>a. rc_assignment r = Some a \<and> k = (rc_command r, rc_run r, a, rc_epoch r))"

definition wallets_backed :: "host_db \<Rightarrow> bool" where
  "wallets_backed d \<longleftrightarrow> (\<forall>k \<in> set (wallet_ids d). \<exists>r \<in> set (h_receipts d). backs r k)"

definition ledger_ok :: "host_db \<Rightarrow> bool" where
  "ledger_ok d \<longleftrightarrow>
     distinct (map rc_command (h_receipts d)) \<and> distinct (map fn_run (h_fences d)) \<and> wallets_backed d"

text \<open>A fence moves to a higher epoch or stays with its assignment.\<close>

definition fence_later :: "fence_row \<Rightarrow> fence_row \<Rightarrow> bool" where
  "fence_later f f' \<longleftrightarrow> fn_epoch f < fn_epoch f' \<or> (fn_epoch f = fn_epoch f' \<and> fn_assignment f = fn_assignment f')"

definition fences_later :: "host_db \<Rightarrow> host_db \<Rightarrow> bool" where
  "fences_later d d' \<longleftrightarrow>
     (\<forall>run f. getFence run d = Some f \<longrightarrow> (\<exists>f'. getFence run d' = Some f' \<and> fence_later f f'))"

text \<open>A registered process was registered before, or has at least the epoch that the fence lets through.\<close>

definition same_process :: "process_row \<Rightarrow> process_row \<Rightarrow> bool" where
  "same_process q p \<longleftrightarrow>
     ps_command q = ps_command p \<and> ps_run q = ps_run p \<and> ps_epoch q = ps_epoch p \<and> ps_phase q = ps_phase p"

lemma same_process_refl [simp]: "same_process p p"
  by (simp add: same_process_def)

definition processes_later :: "host_db \<Rightarrow> host_db \<Rightarrow> bool" where
  "processes_later d d' \<longleftrightarrow>
     (\<forall>p \<in> set (h_processes d'). ps_phase p = Registered \<longrightarrow>
        (\<exists>q \<in> set (h_processes d). same_process q p)
        \<or> (\<forall>f. getFence (ps_run p) d = Some f \<longrightarrow> fn_epoch f \<le> ps_epoch p))"

text \<open>A receipt that knows the digest of its request keeps it, the form the digest was taken of and the version of the request.\<close>

definition digests_later :: "host_db \<Rightarrow> host_db \<Rightarrow> bool" where
  "digests_later d d' \<longleftrightarrow>
     (\<forall>i r. getReceipt i d = Some r \<and> rc_digest r \<noteq> None \<longrightarrow>
        (\<exists>r'. getReceipt i d' = Some r' \<and> rc_digest r' = rc_digest r \<and> rc_schema r' = rc_schema r
           \<and> rc_version r' = rc_version r))"

definition ledger_later :: "host_db \<Rightarrow> host_db \<Rightarrow> bool" where
  "ledger_later d d' \<longleftrightarrow>
     (\<exists>new. receipt_keys d' = receipt_keys d @ new) \<and> fences_later d d' \<and> processes_later d d' \<and> digests_later d d'"

lemma digests_later_trans: "digests_later d d' \<Longrightarrow> digests_later d' d'' \<Longrightarrow> digests_later d d''"
  unfolding digests_later_def by metis

lemma digests_later_same: "h_receipts d' = h_receipts d \<Longrightarrow> digests_later d d'"
  by (simp add: digests_later_def getReceipt_def)

lemma digests_later_append: "h_receipts d' = h_receipts d @ rs \<Longrightarrow> digests_later d d'"
proof -
  have "find P xs = Some x \<Longrightarrow> find P (xs @ ys) = Some x" for P and xs ys :: "receipt_row list" and x
    by (induction xs) (auto split: if_splits)
  then show "h_receipts d' = h_receipts d @ rs \<Longrightarrow> digests_later d d'" by (simp add: digests_later_def getReceipt_def)
qed

lemma find_update:
  assumes "\<And>r. rc_command (g r) = rc_command r"
  shows "find (\<lambda>r. rc_command r = i) (sql_update P g rs) = map_option (\<lambda>r. if P r then g r else r) (find (\<lambda>r. rc_command r = i) rs)"
  using assms by (induction rs) (auto simp: sql_update_def)

lemma digests_later_update:
  assumes "h_receipts d' = sql_update P g (h_receipts d)" "\<And>r. rc_command (g r) = rc_command r"
    and "\<And>r. rc_digest r \<noteq> None \<Longrightarrow> rc_digest (g r) = rc_digest r \<and> rc_schema (g r) = rc_schema r \<and> rc_version (g r) = rc_version r"
  shows "digests_later d d'"
  using assms(3) by (auto simp: digests_later_def getReceipt_def assms(1) find_update[OF assms(2)])

lemma ledger_later_trans:
  assumes "ledger_later d d'" "ledger_later d' d''"
  shows "ledger_later d d''"
proof -
  have "\<exists>new. receipt_keys d'' = receipt_keys d @ new" using assms by (auto simp: ledger_later_def)
  moreover have "fences_later d d''"
    unfolding fences_later_def
  proof (intro allI impI)
    fix run f assume "getFence run d = Some f"
    then obtain f' where f': "getFence run d' = Some f'" "fence_later f f'"
      using assms(1) by (auto simp: ledger_later_def fences_later_def)
    then obtain f'' where "getFence run d'' = Some f''" "fence_later f' f''"
      using assms(2) by (auto simp: ledger_later_def fences_later_def)
    then show "\<exists>f''. getFence run d'' = Some f'' \<and> fence_later f f''" using f'(2) by (auto simp: fence_later_def)
  qed
  moreover have "processes_later d d''"
    unfolding processes_later_def
  proof (intro ballI impI)
    fix p assume p: "p \<in> set (h_processes d'')" "ps_phase p = Registered"
    then consider q where "q \<in> set (h_processes d')" "same_process q p"
      | "\<forall>f. getFence (ps_run p) d' = Some f \<longrightarrow> fn_epoch f \<le> ps_epoch p"
      using assms(2) unfolding ledger_later_def processes_later_def by blast
    then show "(\<exists>q \<in> set (h_processes d). same_process q p)
        \<or> (\<forall>f. getFence (ps_run p) d = Some f \<longrightarrow> fn_epoch f \<le> ps_epoch p)"
    proof cases
      case 1
      then show ?thesis
        using assms(1) p(2) unfolding ledger_later_def processes_later_def same_process_def by metis
    next
      case 2
      have "fn_epoch f \<le> ps_epoch p" if f: "getFence (ps_run p) d = Some f" for f
      proof -
        obtain f' where "getFence (ps_run p) d' = Some f'" "fence_later f f'"
          using assms(1) f by (auto simp: ledger_later_def fences_later_def)
        then show ?thesis using 2 by (auto simp: fence_later_def)
      qed
      then show ?thesis by blast
    qed
  qed
  moreover have "digests_later d d''" using assms digests_later_trans unfolding ledger_later_def by blast
  ultimately show ?thesis by (simp add: ledger_later_def)
qed

lemma processes_later_same: "h_processes d' = h_processes d \<Longrightarrow> processes_later d d'"
  unfolding processes_later_def using same_process_refl by (metis (no_types))

lemma fences_later_same:
  assumes "h_fences d' = h_fences d"
  shows "fences_later d d'"
proof -
  have "getFence run d' = getFence run d" for run using assms by (simp add: getFence_def)
  then show ?thesis by (simp add: fences_later_def fence_later_def)
qed

lemma ledger_later_refl [simp]: "ledger_later d d"
  using processes_later_same[of d d] fences_later_same[of d d] digests_later_same[of d d] by (simp add: ledger_later_def)

lemma same_ledger_later:
  assumes "same_ledger d d'"
  shows "ledger_later d d'" "ledger_ok d \<Longrightarrow> ledger_ok d'"
  using assms processes_later_same[of d' d] fences_later_same[of d' d] digests_later_same[of d' d]
  by (simp_all add: same_ledger_def ledger_later_def ledger_ok_def receipt_keys_def wallets_backed_def)

lemma receipt_known_iff: "receipt_known d c \<longleftrightarrow> c \<in> set (map rc_command (h_receipts d))"
  unfolding receipt_known_def list_ex_iff set_map image_iff by metis

text \<open>Rewriting receipts so that identity columns and a set assignment stay.\<close>

lemma update_receipts_ledger:
  assumes ok: "ledger_ok d" and d': "d' = d\<lparr>h_receipts := sql_update P g (h_receipts d)\<rparr>"
    and g: "\<And>r. receipt_identity (g r) = receipt_identity r" "\<And>r a. rc_assignment r = Some a \<Longrightarrow> rc_assignment (g r) = Some a"
    and dg: "\<And>r. rc_digest r \<noteq> None \<Longrightarrow> rc_digest (g r) = rc_digest r \<and> rc_schema (g r) = rc_schema r \<and> rc_version (g r) = rc_version r"
  shows "ledger_later d d'" "ledger_ok d'" "receipt_keys d' = receipt_keys d"
proof -
  show k: "receipt_keys d' = receipt_keys d" by (simp add: d' receipt_keys_def map_update_key[of receipt_identity g] g(1))
  have "rc_command (g r) = rc_command r" for r using g(1)[of r] by (simp add: receipt_identity_def)
  then have "digests_later d d'" using dg by (intro digests_later_update[of d' P g]) (simp_all add: d')
  with k show "ledger_later d d'"
    using processes_later_same[of d' d] fences_later_same[of d' d] by (simp add: d' ledger_later_def)
  have "map rc_command (h_receipts d') = map fst (receipt_keys d')" "map rc_command (h_receipts d) = map fst (receipt_keys d)"
    by (simp_all add: receipt_keys_def receipt_identity_def)
  then have m: "map rc_command (h_receipts d') = map rc_command (h_receipts d)" using k by simp
  have "backs r x \<Longrightarrow> backs (g r) x" for r x using g(1)[of r] g(2)[of r] by (auto simp: backs_def receipt_identity_def)
  then have "\<exists>r' \<in> set (h_receipts d'). backs r' x" if "r \<in> set (h_receipts d)" "backs r x" for r x
    using that by (intro bexI[of _ "if P r then g r else r"]) (auto simp: d' set_sql_update)
  moreover have "wallet_ids d' = wallet_ids d" by (simp add: d' wallet_ids_def)
  ultimately have "wallets_backed d'" using ok unfolding ledger_ok_def wallets_backed_def by metis
  then show "ledger_ok d'" using ok m by (simp add: ledger_ok_def d')
qed

text \<open>
  A receipt is written after its admission; the row may by then name the event of the transition.
\<close>

lemma write_receipt_ledger:
  assumes ok: "ledger_ok d" and adm: "admits_wallet row d d1" and w: "writeReceiptRow row' d1 = Inr d2"
    and row': "receipt_identity row' = receipt_identity row" "rc_assignment row' = rc_assignment row"
  shows "ledger_later d d2" "ledger_ok d2"
    "receipt_keys d2 = (if receipt_known d (rc_command row) then receipt_keys d else receipt_keys d @ [receipt_identity row])"
proof -
  have c: "rc_command row' = rc_command row" using row'(1) by (simp add: receipt_identity_def)
  have s: "h_receipts d1 = h_receipts d" "h_fences d1 = h_fences d" "h_processes d1 = h_processes d"
    using adm by (simp_all add: admits_wallet_def)
  have kn: "receipt_known d1 (rc_command row) = receipt_known d (rc_command row)" by (simp add: receipt_known_def s)
  have goal: "ledger_later d d2 \<and> ledger_ok d2
    \<and> receipt_keys d2 = (if receipt_known d (rc_command row) then receipt_keys d else receipt_keys d @ [receipt_identity row])"
  proof (cases "receipt_known d (rc_command row)")
    case True
    then have "same_ledger d d1" using adm by (auto simp: admits_wallet_def same_ledger_def)
    note l1 = same_ledger_later[OF this]
    have d2: "d2 = d1\<lparr>h_receipts := sql_update (\<lambda>r. rc_command r = rc_command row') (merge_receipt row') (h_receipts d1)\<rparr>"
      using w True kn c by (auto simp: writeReceiptRow_def split: if_splits)
    have m: "receipt_identity (merge_receipt row' r) = receipt_identity r"
      "rc_assignment r = Some a \<Longrightarrow> rc_assignment (merge_receipt row' r) = Some a"
      "rc_digest r \<noteq> None \<Longrightarrow> rc_digest (merge_receipt row' r) = rc_digest r \<and> rc_schema (merge_receipt row' r) = rc_schema r
         \<and> rc_version (merge_receipt row' r) = rc_version r"
      for r a by (auto simp: merge_receipt_def receipt_identity_def coalesce_def)
    note l2 = update_receipts_ledger[OF l1(2)[OF ok] d2 m]
    have "receipt_keys d1 = receipt_keys d" by (simp add: receipt_keys_def s)
    then show ?thesis
      using l2 ledger_later_trans[OF l1(1)] True by simp
  next
    case False
    have d2: "d2 = d1\<lparr>h_receipts := h_receipts d @ [row'\<lparr>rc_retired_at := None\<rparr>]\<rparr>"
      using w False kn c by (auto simp: writeReceiptRow_def s split: if_splits)
    have k: "receipt_keys d2 = receipt_keys d @ [receipt_identity row]"
      using row'(1) by (simp add: d2 receipt_keys_def receipt_identity_def)
    have ids: "wallet_ids d2 = wallet_ids d1" by (simp add: d2 wallet_ids_def)
    have "\<exists>r \<in> set (h_receipts d2). backs r x" if x: "x \<in> set (wallet_ids d1)" for x
    proof (cases "x \<in> set (wallet_ids d)")
      case True
      then show ?thesis using ok by (auto simp: ledger_ok_def wallets_backed_def d2)
    next
      case False
      then have "backs (row'\<lparr>rc_retired_at := None\<rparr>) x"
        using x adm row' by (auto simp: admits_wallet_def backs_def receipt_identity_def)
      then show ?thesis by (simp add: d2)
    qed
    then have "wallets_backed d2" by (simp add: wallets_backed_def ids)
    then have "ledger_ok d2" using ok False c by (auto simp: ledger_ok_def d2 s receipt_known_iff)
    then show ?thesis
      using False k processes_later_same[of d2 d] fences_later_same[of d2 d] digests_later_append[of d2 d]
      by (simp add: ledger_later_def d2 s)
  qed
  then show "ledger_later d d2" "ledger_ok d2"
    "receipt_keys d2 = (if receipt_known d (rc_command row) then receipt_keys d else receipt_keys d @ [receipt_identity row])"
    by blast+
qed

lemma compact_ledger:
  assumes "ledger_ok d" "compact_receipt now row d = (o1, d')"
  shows "ledger_later d d'" "ledger_ok d'"
proof -
  have "d' = d \<or> d' = d\<lparr>h_receipts := sql_update (\<lambda>r. rc_command r = rc_command row)
                  (\<lambda>r. r\<lparr>rc_body := RETIRED_RECEIPT_BODY, rc_retired_at := Some now\<rparr>) (h_receipts d)\<rparr>"
    using assms(2) by (auto simp: compact_receipt_def split: option.splits)
  then show "ledger_later d d'" "ledger_ok d'"
    using update_receipts_ledger(1,2)[OF assms(1)] assms(1) by (auto simp: receipt_identity_def)
qed

lemma process_step:
  assumes "same_ledger d (d'\<lparr>h_processes := h_processes d\<rparr>)" "ledger_ok d"
    "\<And>p. p \<in> set (h_processes d') \<Longrightarrow> ps_phase p = Registered \<Longrightarrow>
      (\<exists>q \<in> set (h_processes d). same_process q p) \<or> (\<forall>f. getFence (ps_run p) d = Some f \<longrightarrow> fn_epoch f \<le> ps_epoch p)"
  shows "ledger_later d d'" "ledger_ok d'"
  using assms fences_later_same[of d' d] digests_later_same[of d' d]
  by (simp_all add: ledger_later_def ledger_ok_def processes_later_def receipt_keys_def same_ledger_def wallets_backed_def
      wallet_ids_def)

lemma fence_unique:
  assumes "distinct (map fn_run (h_fences d))" "f \<in> set (h_fences d)" "getFence (fn_run f) d = Some g"
  shows "g = f"
proof -
  have "g \<in> set (h_fences d)" "fn_run g = fn_run f"
    using assms(3) by (auto simp: getFence_def find_Some_iff)
  then show ?thesis using assms(1,2) by (metis distinct_map inj_on_eq_iff)
qed

lemma registerSessionProcess_ledger:
  assumes ok: "ledger_ok d" and r: "registerSessionProcess h pc ph now i d = Inr d'"
  shows "ledger_later d d'" "ledger_ok d'"
proof -
  have adm: "process_admitted h i d" using r by (auto simp: registerSessionProcess_def storage_write_Inr split: if_splits)
  then obtain f where f: "f \<in> set (h_fences d)" "fn_run f = rg_run i" "fn_epoch f = rg_epoch i"
    by (auto simp: process_admitted_def list_ex_iff)
  have cur: "getFence (rg_run i) d = Some g \<Longrightarrow> fn_epoch g \<le> rg_epoch i" for g
    using fence_unique[of d f g] f ok by (auto simp: ledger_ok_def)
  have s: "same_ledger d (d'\<lparr>h_processes := h_processes d\<rparr>)"
    using r by (auto simp: registerSessionProcess_def storage_write_Inr same_ledger_defs split: if_splits option.splits)
  have "p \<in> set (h_processes d) \<or> (ps_run p = rg_run i \<and> ps_epoch p = rg_epoch i)" if "p \<in> set (h_processes d')" for p
    using r that by (auto simp: registerSessionProcess_def storage_write_Inr split: if_splits option.splits)
  then have "(\<exists>q \<in> set (h_processes d). same_process q p)
      \<or> (\<forall>f. getFence (ps_run p) d = Some f \<longrightarrow> fn_epoch f \<le> ps_epoch p)" if "p \<in> set (h_processes d')" for p
    using cur that by (metis same_process_def)
  then show "ledger_later d d'" "ledger_ok d'" using process_step[OF s ok] by blast+
qed

lemma update_processes_ledger:
  assumes "ledger_ok d" "d' = d\<lparr>h_processes := sql_update P g (h_processes d)\<rparr>" "\<And>p. ps_phase (g p) \<noteq> Registered"
  shows "ledger_later d d'" "ledger_ok d'"
proof -
  have "(\<exists>q \<in> set (h_processes d). same_process q p)" if "p \<in> set (h_processes d')" "ps_phase p = Registered" for p
    using assms(2,3) that by (fastforce simp: set_sql_update same_process_def)
  moreover have "same_ledger d (d'\<lparr>h_processes := h_processes d\<rparr>)" by (simp add: assms(2))
  ultimately show "ledger_later d d'" "ledger_ok d'" using process_step[of d d'] assms(1) by blast+
qed

lemma seed_ledger:
  assumes "ledger_ok d" "seedMissingSessionProcesses h pc now d = Inr d'"
  shows "ledger_later d d'" "ledger_ok d'"
proof -
  note d' = seed_processes[OF assms(2)]
  have "(\<exists>q \<in> set (h_processes d). same_process q p)" if "p \<in> set (h_processes d')" "ps_phase p = Registered" for p
    using that by (auto simp: d' unproven_process_def same_process_def)
  moreover have "same_ledger d (d'\<lparr>h_processes := h_processes d\<rparr>)" by (simp add: d')
  ultimately show "ledger_later d d'" "ledger_ok d'" using process_step[of d d'] assms(1) by blast+
qed

section \<open>Every operation\<close>

definition ledger_step :: "host_db \<Rightarrow> host_db \<Rightarrow> bool" where
  "ledger_step d d' \<longleftrightarrow> ledger_ok d' \<and> ledger_later d d'"

lemma ledger_step_trans: "ledger_step d d' \<Longrightarrow> ledger_step d' d'' \<Longrightarrow> ledger_step d d''"
  unfolding ledger_step_def using ledger_later_trans by blast

lemma same_step: "ledger_ok d \<Longrightarrow> same_ledger d d' \<Longrightarrow> ledger_step d d'"
  using same_ledger_later by (simp add: ledger_step_def)

lemma step_same: "ledger_step d d1 \<Longrightarrow> same_ledger d1 d2 \<Longrightarrow> ledger_step d d2"
  using ledger_step_trans same_step unfolding ledger_step_def by blast

lemma putReceipt_step:
  assumes ok: "ledger_ok d" and p: "putReceipt l ph now row adm d = Inr d'"
  shows "ledger_step d d'"
    "receipt_keys d' = (if receipt_known d (rc_command row) then receipt_keys d else receipt_keys d @ [receipt_identity row])"
proof -
  obtain d1 d2 where a: "admitRuntimeReceipt l ph now row adm d = Inr d1" and w: "writeReceiptRow row d1 = Inr d2"
    and d': "d' = observeCapacity l now (settleReceiptBudget row d2)"
    using p by (auto simp: putReceipt_def storage_write_Inr rbind_Inr_iff)
  note ws = write_receipt_ledger[OF ok admitRuntimeReceipt_ledger[OF a] w refl refl]
  have s: "same_ledger d2 d'" unfolding d' by (rule same_ledger_trans[OF settleReceiptBudget_ledger observe_ledger])
  show "ledger_step d d'" using step_same[OF _ s] ws by (simp add: ledger_step_def)
  have "receipt_keys d' = receipt_keys d2" using s by (simp add: same_ledger_def receipt_keys_def)
  then show "receipt_keys d' = (if receipt_known d (rc_command row) then receipt_keys d else receipt_keys d @ [receipt_identity row])"
    using ws(3) by simp
qed

lemma receipt_with_event_identity [simp]:
  "receipt_identity (receipt_with_event row ev) = receipt_identity row"
  "rc_assignment (receipt_with_event row ev) = rc_assignment row"
  by (simp_all add: receipt_with_event_def receipt_identity_def Let_def)

lemma putReceiptWithRuntimeEvent_step:
  assumes ok: "ledger_ok d" and p: "putReceiptWithRuntimeEvent l h ph now fresh row input adm d = Inr (ev, d')"
  shows "ledger_step d d'"
    "receipt_keys d' = (if receipt_known d (rc_command row) then receipt_keys d else receipt_keys d @ [receipt_identity row])"
proof -
  obtain d1 d2 d3 where a: "admitRuntimeReceipt l ph now row adm d = Inr d1"
    and e: "appendRuntimeEventInTransaction l h now fresh input d1 = Inr (ev, d2)"
    and w: "writeReceiptRow (receipt_with_event row ev) d2 = Inr d3"
    and d': "d' = observeCapacity l now (settleReceiptBudget row d3)"
    using p by (auto simp: putReceiptWithRuntimeEvent_def storage_write_Inr rbind_Inr_iff)
  note ws = write_receipt_ledger[OF ok admits_then[OF admitRuntimeReceipt_ledger[OF a] append_ledger[OF e]] w receipt_with_event_identity]
  have s: "same_ledger d3 d'" unfolding d' by (rule same_ledger_trans[OF settleReceiptBudget_ledger observe_ledger])
  show "ledger_step d d'" using step_same[OF _ s] ws by (simp add: ledger_step_def)
  have "receipt_keys d' = receipt_keys d3" using s by (simp add: same_ledger_def receipt_keys_def)
  then show "receipt_keys d' = (if receipt_known d (rc_command row) then receipt_keys d else receipt_keys d @ [receipt_identity row])"
    using ws(3) by simp
qed

lemma retireReceipt_step:
  assumes ok: "ledger_ok d" and r: "retireReceipt ph now fresh cmd rq d = Inr (out, d')"
  shows "ledger_step d d'"
proof -
  have c: "compact_receipt now row d1 = (o1, d2) \<Longrightarrow> ledger_step d d1 \<Longrightarrow> ledger_step d d2" for row d1 o1 d2
    using compact_ledger[of d1 now row o1 d2] ledger_step_trans unfolding ledger_step_def by blast
  have e: "ensureRuntimeEventStream fresh d = Inr (st, d1) \<Longrightarrow> ledger_step d d1" for st d1
    using same_step[OF ok ensure_ledger] .
  have "ledger_step d d" using ok by (simp add: ledger_step_def)
  then show ?thesis
    using r c e by (auto simp: retireReceipt_def storage_write_Inr rbind_Inr_iff split: option.splits if_splits)
qed

lemma frame_ledger:
  "tryReserveRuntimeFrame l h ph now rid w n d = Inr (o1, d') \<Longrightarrow> same_ledger d d'"
  "releaseRuntimeFrame l h ph now rid d = Inr d' \<Longrightarrow> same_ledger d d'"
proof -
  have r: "reserveFrameCapacity l rid b w now d = Inr (x, d1) \<Longrightarrow> same_ledger d d1" for b x d1
    using refresh_ledger(1)[of d l now]
    by (auto simp: reserveFrameCapacity_def case_prod_beta Let_def same_ledger_defs split: if_splits)
  have o: "same_ledger d d1 \<Longrightarrow> same_ledger d (observeCapacity l now d1)" for d1
    using same_ledger_trans observe_ledger by blast
  show "same_ledger d d'" if t: "tryReserveRuntimeFrame l h ph now rid w n d = Inr (o1, d')"
  proof -
    have "d' = d \<or> (\<exists>b d1 d2. reserveFrameCapacity l rid (hi_boot h) w now d = Inr (b, d1)
        \<and> (d2 = d1 \<or> reserveRuntimeFrameFiles l rid w n (ph_free ph) d1 = Inr d2) \<and> d' = observeCapacity l now d2)"
      using t by (auto simp: tryReserveRuntimeFrame_def Let_def rbind_Inr_iff split: if_splits sum.splits)
    then show ?thesis using r o file_ledger(2) same_ledger_trans by (metis same_ledger_refl)
  qed
  show "same_ledger d d'" if "releaseRuntimeFrame l h ph now rid d = Inr d'"
    using that o by (auto simp: releaseRuntimeFrame_def Let_def same_ledger_defs split: if_splits)
qed

lemma ack_prune_ledger:
  "ackRuntimeEvents l ph now s t d = Inr (u, d') \<Longrightarrow> same_ledger d d'"
  "pruneAcknowledgedRuntimeEvents l ph now fresh mode older d = Inr (n, d') \<Longrightarrow> same_ledger d d'"
proof -
  show "same_ledger d d'" if "ackRuntimeEvents l ph now s t d = Inr (u, d')"
    using that observe_ledger
    by (auto simp: ackRuntimeEvents_def storage_write_Inr rbind_Inr_iff recordRuntimeEventAck_def update_stream_def
        Let_def same_ledger_defs split: if_splits)
  show "same_ledger d d'" if "pruneAcknowledgedRuntimeEvents l ph now fresh mode older d = Inr (n, d')"
    using that
    by (auto simp: pruneAcknowledgedRuntimeEvents_def storage_write_Inr rbind_Inr_iff update_stream_def delete_outbox_def
        Let_def same_ledger_defs dest!: ensure_ledger split: if_splits)
qed

lemma fence_op_ok:
  assumes "ledger_ok d" "setFence ph now run asg ep d = Inr d'"
  shows "ledger_ok d'"
proof -
  have r: "h_receipts d' = h_receipts d" "wallet_ids d' = wallet_ids d"
    using assms(2) by (auto simp: setFence_def storage_write_Inr wallet_ids_def)
  have "distinct (map fn_run (h_fences d'))"
  proof (cases "list_ex (\<lambda>f. fn_run f = run) (h_fences d)")
    case True
    then show ?thesis
      using assms by (auto simp: setFence_def storage_write_Inr ledger_ok_def map_update_key)
  next
    case False
    then show ?thesis
      using assms by (auto simp: setFence_def storage_write_Inr ledger_ok_def list_ex_iff)
  qed
  then show ?thesis using assms(1) r by (simp add: ledger_ok_def wallets_backed_def)
qed

lemma open_step:
  assumes ok: "ledger_ok d" and o: "openHostState l h pc now d = Inr d'"
  shows "ledger_step d d'"
proof -
  obtain d1 where s: "seedMissingSessionProcesses h pc now d = Inr d1" and d': "d' = observeCapacity l now (drop_temporary d1)"
    using o by (auto simp: openHostState_def rbind_Inr_iff Let_def)
  have "ledger_step d d1" using seed_ledger[OF ok s] by (simp add: ledger_step_def)
  then show ?thesis
    unfolding d' by (rule step_same) (simp add: drop_temporary_def same_ledger_defs)
qed

lemma file_write_ledger:
  assumes "withRuntimeFileWrite l ph now r = Inr d'" "\<And>d1. r = Inr d1 \<Longrightarrow> same_ledger d d1"
  shows "same_ledger d d'"
  using assms same_ledger_trans[OF _ observe_ledger]
  by (auto simp: withRuntimeFileWrite_def storage_write_Inr rbind_Inr_iff)

lemma other_ledger:
  "bindProducerSession ph w s d = Inr d' \<Longrightarrow> same_ledger d d'"
  "closeProducerWallet_op l ph now w d = Inr d' \<Longrightarrow> same_ledger d d'"
  "appendRuntimeEvents l h ph now fresh inputs d = Inr (rows, d') \<Longrightarrow> same_ledger d d'"
  "recordProducerFileBytes_op ph x n d = Inr d' \<Longrightarrow> same_ledger d d'"
proof -
  show "same_ledger d d'" if "bindProducerSession ph w s d = Inr d'"
    using that by (auto simp: bindProducerSession_def storage_write_Inr Let_def same_ledger_defs split: if_splits)
  show "same_ledger d d'" if "closeProducerWallet_op l ph now w d = Inr d'"
    using that same_ledger_trans[OF close_wallets_ledger observe_ledger]
    by (auto simp: closeProducerWallet_op_def closeProducerWallet_def storage_write_Inr)
  show "same_ledger d d'" if "appendRuntimeEvents l h ph now fresh inputs d = Inr (rows, d')"
    using that same_ledger_trans[OF append_all_ledger observe_ledger]
    by (auto simp: appendRuntimeEvents_def storage_write_Inr rbind_Inr_iff split: if_splits)
  show "same_ledger d d'" if "recordProducerFileBytes_op ph x n d = Inr d'"
    using that file_row_ledger(2) by (auto simp: recordProducerFileBytes_op_def split: if_splits)
qed

lemma host_exec_ledger:
  assumes ok: "ledger_ok d" and ex: "host_exec l h op d = Inr d'"
  shows "ledger_ok d'" "\<not> is_fence_op op \<Longrightarrow> ledger_later d d'"
proof -
  note fw = same_step[OF ok file_write_ledger]
  have "if is_fence_op op then ledger_ok d' else ledger_step d d'"
  proof (cases op)
    case (Op_append ph now fresh inputs)
    then show ?thesis using ex same_step[OF ok] other_ledger(3) by (auto simp: rbind_Inr_iff is_fence_op_def)
  next
    case (Op_ack ph now s t)
    then show ?thesis using ex same_step[OF ok] ack_prune_ledger(1) by (auto simp: rbind_Inr_iff is_fence_op_def)
  next
    case (Op_prune ph now fresh mode older)
    then show ?thesis using ex same_step[OF ok] ack_prune_ledger(2) by (auto simp: rbind_Inr_iff is_fence_op_def)
  next
    case (Op_fence ph now run asg ep)
    then show ?thesis using ex fence_op_ok[OF ok] by (auto simp: is_fence_op_def)
  next
    case (Op_put_receipt ph now row adm)
    then show ?thesis using ex putReceipt_step(1)[OF ok] by (auto simp: is_fence_op_def)
  next
    case (Op_put_receipt_event ph now fresh row input adm)
    then show ?thesis using ex putReceiptWithRuntimeEvent_step(1)[OF ok] by (auto simp: rbind_Inr_iff is_fence_op_def)
  next
    case (Op_retire ph now fresh cmd rq)
    then show ?thesis using ex retireReceipt_step[OF ok] by (auto simp: rbind_Inr_iff is_fence_op_def)
  next
    case (Op_bind ph w s)
    then show ?thesis using ex same_step[OF ok] other_ledger(1) by (auto simp: is_fence_op_def)
  next
    case (Op_close_wallet ph now w)
    then show ?thesis using ex same_step[OF ok] other_ledger(2) by (auto simp: is_fence_op_def)
  next
    case (Op_reserve_frame ph now rid w n)
    then show ?thesis using ex same_step[OF ok] frame_ledger(1) by (auto simp: rbind_Inr_iff is_fence_op_def)
  next
    case (Op_release_frame ph now rid)
    then show ?thesis using ex same_step[OF ok] frame_ledger(2) by (auto simp: is_fence_op_def)
  next
    case (Op_register_process pc ph now i)
    then show ?thesis using ex registerSessionProcess_ledger[OF ok] by (auto simp: is_fence_op_def ledger_step_def)
  next
    case (Op_release_process pc ph cmd t)
    then have "d' = d \<or> d' = d\<lparr>h_processes := sql_update (\<lambda>p. ps_command p = cmd \<and> ps_phase p = Registered)
                          (\<lambda>p. p\<lparr>ps_phase := Released, ps_retired_at := t\<rparr>) (h_processes d)\<rparr>"
      using ex by (auto simp: releaseSessionProcess_def storage_write_Inr split: if_splits option.splits)
    then show ?thesis
      using Op_release_process update_processes_ledger[OF ok] ok by (auto simp: is_fence_op_def ledger_step_def)
  next
    case (Op_release_prior pc ph now)
    then have "\<exists>P. d' = d\<lparr>h_processes := sql_update P (\<lambda>p. p\<lparr>ps_phase := Released, ps_retired_at := Some now,
        ps_retired_boot := Some (pc_boot pc)\<rparr>) (h_processes d)\<rparr>"
      using ex by (auto simp: releaseSessionProcessesFromPriorBoot_def storage_write_Inr rbind_Inr_iff Let_def)
    then show ?thesis
      using Op_release_prior update_processes_ledger[OF ok] by (auto simp: is_fence_op_def ledger_step_def)
  next
    case (Op_note_unsettled ph x body)
    then have "d' = d\<lparr>h_receipts := sql_update (\<lambda>r. rc_command r = x \<and> rc_phase r = Accepted)
                (\<lambda>r. r\<lparr>rc_status := 503, rc_body := body\<rparr>) (h_receipts d)\<rparr>"
      using ex by (auto simp: noteUnsettledCreate_def storage_write_Inr)
    then show ?thesis
      using Op_note_unsettled update_receipts_ledger(1,2)[OF ok]
      by (auto simp: is_fence_op_def ledger_step_def receipt_identity_def)
  next
    case (Op_position fresh)
    then show ?thesis
      using ex same_step[OF ok ensure_ledger] by (auto simp: nextRuntimeEventPosition_def rbind_Inr_iff is_fence_op_def)
  next
    case (Op_restart pc now)
    then show ?thesis using ex open_step[OF ok] by (auto simp: is_fence_op_def)
  next
    case (Op_reserve_file ph now free f funding)
    then show ?thesis using ex fw file_ledger(3) by (fastforce simp: is_fence_op_def)
  next
    case (Op_grow_file ph now free x n funding)
    then show ?thesis using ex fw file_ledger(4) by (fastforce simp: is_fence_op_def)
  next
    case (Op_record_file ph now x n)
    then show ?thesis using ex fw file_row_ledger(1) by (fastforce simp: is_fence_op_def)
  next
    case (Op_record_progress ph x n)
    then show ?thesis using ex same_step[OF ok] other_ledger(4) by (auto simp: is_fence_op_def)
  next
    case (Op_seal_file ph now x n)
    then show ?thesis using ex fw file_row_ledger(3) by (fastforce simp: is_fence_op_def)
  next
    case (Op_release_file ph now x)
    then show ?thesis using ex fw file_row_ledger(4) by (fastforce simp: is_fence_op_def)
  next
    case (Op_release_spool ph now x)
    then show ?thesis using ex fw file_row_ledger(7) by (fastforce simp: is_fence_op_def)
  next
    case (Op_claim_writer ph now x t)
    then show ?thesis using ex fw file_row_ledger(5) by (fastforce simp: is_fence_op_def)
  next
    case (Op_release_writer ph now x t)
    then show ?thesis using ex fw file_row_ledger(6) by (fastforce simp: is_fence_op_def)
  qed
  then show "ledger_ok d'" "\<not> is_fence_op op \<Longrightarrow> ledger_later d d'"
    by (auto simp: ledger_step_def split: if_splits)
qed

lemma empty_ledger: "ledger_ok empty_host_db"
  by (simp add: ledger_ok_def empty_host_db_def wallets_backed_def wallet_ids_def)

text \<open>No wallet of a reachable ledger conflicts with its create, so a start is never refused for it.\<close>

lemma backed_no_conflict:
  assumes "ledger_ok d"
  shows "\<not> list_ex (wallet_conflict d) (h_wallets d)"
proof -
  have "\<not> wallet_conflict d w" if w: "w \<in> set (h_wallets d)" for w
  proof -
    have "wallet_identity w \<in> set (wallet_ids d)" using w by (simp add: wallet_ids_def)
    then obtain r where r: "r \<in> set (h_receipts d)" "backs r (wallet_identity w)"
      using assms by (auto simp: ledger_ok_def wallets_backed_def)
    then have c: "rc_command r = wl_id w" by (auto simp: backs_def wallet_identity_def)
    have "find (\<lambda>r. rc_command r = wl_id w) (h_receipts d) = Some r"
    proof (cases "find (\<lambda>r. rc_command r = wl_id w) (h_receipts d)")
      case None
      then show ?thesis using r(1) c by (auto simp: find_None_iff)
    next
      case (Some q)
      then have "q \<in> set (h_receipts d)" "rc_command q = rc_command r" using c by (auto simp: find_Some_iff)
      then show ?thesis
        using Some r(1) assms unfolding ledger_ok_def by (metis distinct_map inj_on_eq_iff)
    qed
    then show ?thesis using r(2) by (auto simp: wallet_conflict_def getReceipt_def backs_def wallet_identity_def)
  qed
  then show ?thesis by (simp add: list_ex_iff)
qed

end
