(* ===== verification/HostSessions.thy ===== *)
theory HostSessions
  imports HostLedger
begin

text \<open>
  The session ids of an execution host.  A producer wallet and the obligation of a process name the host
  session of the create command they belong to.  Where every session id is drawn for one command, no two
  commands ever share a session in the store, and the obligations that a start adds fit their table.
\<close>

section \<open>What callers promise\<close>

text \<open>
  Session ids are drawn afresh by each create (\<^verbatim>\<open>randomUUID\<close> in \<^verbatim>\<open>session-create-outcome.ts\<close> and its callers), and the
  schema of a fence asks for a positive epoch.  \<open>own\<close> tells which command a session id was drawn for.
\<close>

definition caller_keeps :: "(ident \<Rightarrow> ident) \<Rightarrow> host_op \<Rightarrow> bool" where
  "caller_keeps own op =
     (case op of
        Op_append _ _ _ inputs \<Rightarrow> list_all (\<lambda>i. case ends_session i of None \<Rightarrow> True | Some (w, s) \<Rightarrow> own s = w) inputs
      | Op_put_receipt _ _ row _ \<Rightarrow> 0 < rc_epoch row
      | Op_put_receipt_event _ _ _ row i _ \<Rightarrow>
          0 < rc_epoch row \<and> (case ends_session i of None \<Rightarrow> True | Some (w, s) \<Rightarrow> own s = w)
      | Op_bind _ w s \<Rightarrow> own s = w
      | Op_register_process _ _ _ i \<Rightarrow> own (rg_session i) = rg_command i
      | _ \<Rightarrow> True)"

section \<open>The sessions of the store\<close>

definition wallet_key :: "wallet_row \<Rightarrow> ident \<times> int \<times> ident option" where
  "wallet_key w = (wl_id w, wl_epoch w, wl_session w)"

definition process_key :: "process_row \<Rightarrow> ident \<times> ident option" where
  "process_key p = (ps_command p, ps_session p)"

definition good_wallet :: "(ident \<Rightarrow> ident) \<Rightarrow> ident \<times> int \<times> ident option \<Rightarrow> bool" where
  "good_wallet own k \<longleftrightarrow> 0 < fst (snd k) \<and> (\<forall>s. snd (snd k) = Some s \<longrightarrow> own s = fst k)"

definition good_process :: "(ident \<Rightarrow> ident) \<Rightarrow> ident \<times> ident option \<Rightarrow> bool" where
  "good_process own k \<longleftrightarrow> (\<forall>s. snd k = Some s \<longrightarrow> own s = fst k)"

definition sessions_ok :: "(ident \<Rightarrow> ident) \<Rightarrow> host_db \<Rightarrow> bool" where
  "sessions_ok own d \<longleftrightarrow>
     list_all (good_wallet own) (map wallet_key (h_wallets d)) \<and> list_all (good_process own) (map process_key (h_processes d))"

definition same_sessions :: "host_db \<Rightarrow> host_db \<Rightarrow> bool" where
  "same_sessions d d' \<longleftrightarrow>
     map wallet_key (h_wallets d') = map wallet_key (h_wallets d)
     \<and> map process_key (h_processes d') = map process_key (h_processes d)"

lemma same_sessions_ok: "same_sessions d d' \<Longrightarrow> sessions_ok own d \<Longrightarrow> sessions_ok own d'"
  by (simp add: same_sessions_def sessions_ok_def)

lemma wallet_key_upd [simp]:
  "wallet_key (w\<lparr>wl_remaining := n\<rparr>) = wallet_key w"
  "wallet_key (w\<lparr>wl_ended := b\<rparr>) = wallet_key w" "wallet_key (w\<lparr>wl_closed := b\<rparr>) = wallet_key w"
  by (simp_all add: wallet_key_def)

lemma wallet_keys_update [simp]:
  "(\<And>w. wallet_key (g w) = wallet_key w) \<Longrightarrow> map wallet_key (sql_update P g rows) = map wallet_key rows"
  by (rule map_update_key)

lemma process_keys_update [simp]:
  "(\<And>p. process_key (g p) = process_key p) \<Longrightarrow> map process_key (sql_update P g rows) = map process_key rows"
  by (rule map_update_key)

lemma same_sessions_refl [simp]: "same_sessions d d"
  by (simp add: same_sessions_def)

lemma same_sessions_trans: "same_sessions d d' \<Longrightarrow> same_sessions d' d'' \<Longrightarrow> same_sessions d d''"
  by (simp add: same_sessions_def)

lemma same_ledgerD: "same_ledger d d' \<Longrightarrow> h_wallets d' = h_wallets d \<Longrightarrow> same_sessions d d'"
  by (simp add: same_ledger_def same_sessions_def)

section \<open>Operations that touch no session\<close>

lemma observe_sessions [simp]: "same_sessions d (observeCapacity l now d)"
  by (simp add: same_sessions_def observeCapacity_def refreshOutboxBudget_def refreshRuntimeFileBudget_def Let_def)

lemma observe_session_fields [simp]:
  "map wallet_key (h_wallets (observeCapacity l now d)) = map wallet_key (h_wallets d)"
  "map process_key (h_processes (observeCapacity l now d)) = map process_key (h_processes d)"
  using observe_sessions[of d l now] by (simp_all add: same_sessions_def)

lemma release_ended_sessions [simp]: "same_sessions d (releaseEndedWallets d)"
  by (simp add: same_sessions_def releaseEndedWallets_def)

lemma spend_sessions: "spendEventCapacity l f n i d = Inr (p, d') \<Longrightarrow> same_sessions d d'"
  by (auto simp: spendEventCapacity_def rbind_Inr_iff spend_frame_def spend_control_def same_sessions_def
      split: event_funding.splits option.splits if_splits)

lemma ensure_sessions: "ensureRuntimeEventStream fresh d = Inr (st, d') \<Longrightarrow> same_sessions d d'"
  using ensure_stream(3)[of fresh d st d'] by (simp add: same_sessions_def)

lemma admission_sessions: "assertOutboxAdmission l now d = Inr d' \<Longrightarrow> same_sessions d d'"
  using admission_fields[of l now d d'] by (simp add: same_sessions_def refreshOutboxBudget_def Let_def)

lemma fund_sessions: "fundFileCapacity l bytes funding s d = Inr d' \<Longrightarrow> same_sessions d d'"
  by (auto simp: fundFileCapacity_def rbind_Inr_iff update_file_wallets_def Let_def case_prod_beta same_sessions_def
       split: if_splits file_funding.splits)

lemma file_sessions:
  "reserveProducerFileWallet l w n free d = Inr d' \<Longrightarrow> same_sessions d d'"
  "reserveRuntimeFrameFiles l rid w n free d = Inr d' \<Longrightarrow> same_sessions d d'"
  "reserveRuntimeFile l free f funding d = Inr d' \<Longrightarrow> same_sessions d d'"
  "growRuntimeFile l free x n funding d = Inr d' \<Longrightarrow> same_sessions d d'"
  by (auto simp: reserveProducerFileWallet_def reserveRuntimeFrameFiles_def reserveRuntimeFile_def growRuntimeFile_def
      rbind_Inr_iff Let_def file_frame_defs same_sessions_def split: if_splits option.splits
      dest!: fund_sessions)

lemma file_row_sessions:
  "recordRuntimeFileBytes x n d = Inr d' \<Longrightarrow> same_sessions d d'"
  "recordProducerFileBytes x n d = Inr d' \<Longrightarrow> same_sessions d d'"
  "sealRuntimeFile l x n d = Inr d' \<Longrightarrow> same_sessions d d'"
  "same_sessions d (releaseRuntimeFile l x d)"
  "claimRuntimeFileWriter x b t d = Inr d' \<Longrightarrow> same_sessions d d'"
  "releaseRuntimeFileWriter x b t d = Inr d' \<Longrightarrow> same_sessions d d'"
  "releaseRuntimeSpool l x d = Inr d' \<Longrightarrow> same_sessions d d'"
  by (auto simp: recordRuntimeFileBytes_def recordProducerFileBytes_def sealRuntimeFile_def releaseRuntimeSpool_def
      releaseRuntimeFile_def claimRuntimeFileWriter_def releaseRuntimeFileWriter_def rbind_Inr_iff Let_def
      file_frame_defs same_sessions_def split: if_splits option.splits)

lemma settle_sessions [simp]: "same_sessions d (settleReceiptBudget r d)"
  by (simp add: settleReceiptBudget_def releaseEndedWallets_def Let_def same_sessions_def split: option.splits)

lemma frame_sessions:
  "tryReserveRuntimeFrame l h ph now rid w n d = Inr (o1, d') \<Longrightarrow> same_sessions d d'"
  "releaseRuntimeFrame l h ph now rid d = Inr d' \<Longrightarrow> same_sessions d d'"
proof -
  have r: "reserveFrameCapacity l rid b w now d = Inr (x, d1) \<Longrightarrow> same_sessions d d1" for b x d1
    by (auto simp: reserveFrameCapacity_def case_prod_beta Let_def same_sessions_def refreshOutboxBudget_def split: if_splits)
  have o: "same_sessions d d1 \<Longrightarrow> same_sessions d (observeCapacity l now d1)" for d1
    using same_sessions_trans observe_sessions by blast
  show "same_sessions d d'" if t: "tryReserveRuntimeFrame l h ph now rid w n d = Inr (o1, d')"
  proof -
    have "d' = d \<or> (\<exists>b d1 d2. reserveFrameCapacity l rid (hi_boot h) w now d = Inr (b, d1)
        \<and> (d2 = d1 \<or> reserveRuntimeFrameFiles l rid w n (ph_free ph) d1 = Inr d2) \<and> d' = observeCapacity l now d2)"
      using t by (auto simp: tryReserveRuntimeFrame_def Let_def rbind_Inr_iff split: if_splits sum.splits)
    then show ?thesis using r o file_sessions(2) same_sessions_trans by (metis same_sessions_refl)
  qed
  show "same_sessions d d'" if "releaseRuntimeFrame l h ph now rid d = Inr d'"
    using that o by (auto simp: releaseRuntimeFrame_def Let_def same_sessions_def split: if_splits)
qed

lemma ack_prune_sessions:
  "ackRuntimeEvents l ph now s t d = Inr (u, d') \<Longrightarrow> same_sessions d d'"
  "pruneAcknowledgedRuntimeEvents l ph now fresh mode older d = Inr (n, d') \<Longrightarrow> same_sessions d d'"
proof -
  have o: "same_sessions d d1 \<Longrightarrow> same_sessions d (observeCapacity l now d1)" for d1
    using same_sessions_trans observe_sessions by blast
  show "same_sessions d d'" if "ackRuntimeEvents l ph now s t d = Inr (u, d')"
    using that o
    by (auto simp: ackRuntimeEvents_def storage_write_Inr rbind_Inr_iff recordRuntimeEventAck_def update_stream_def
        Let_def same_sessions_def split: if_splits)
  show "same_sessions d d'" if "pruneAcknowledgedRuntimeEvents l ph now fresh mode older d = Inr (n, d')"
    using that
    by (auto simp: pruneAcknowledgedRuntimeEvents_def storage_write_Inr rbind_Inr_iff update_stream_def delete_outbox_def
        Let_def same_sessions_def dest!: ensure_sessions split: if_splits)
qed

lemma file_write_sessions:
  assumes "withRuntimeFileWrite l ph now r = Inr d'" "\<And>d1. r = Inr d1 \<Longrightarrow> same_sessions d d1"
  shows "same_sessions d d'"
  using assms same_sessions_trans[OF _ observe_sessions]
  by (auto simp: withRuntimeFileWrite_def storage_write_Inr rbind_Inr_iff)

lemma retire_sessions:
  assumes "retireReceipt ph now fresh cmd rq d = Inr (out, d')"
  shows "same_sessions d d'"
proof -
  have c: "compact_receipt now row d1 = (o1, d2) \<Longrightarrow> same_sessions d1 d2" for row d1 o1 d2
    by (auto simp: compact_receipt_def same_sessions_def split: option.splits)
  show ?thesis
    using assms c ensure_sessions same_sessions_trans
    by (fastforce simp: retireReceipt_def storage_write_Inr rbind_Inr_iff split: option.splits if_splits)
qed

section \<open>Operations that name a session\<close>

text \<open>A wallet that is given the session drawn for it stays good.\<close>

lemma set_session_ok:
  assumes "sessions_ok own d" "own s = w" "\<And>x. P x \<Longrightarrow> wl_id x = w"
    and "\<And>x. wallet_key (g x) = (wl_id x, wl_epoch x, Some s)" "h_wallets d' = sql_update P g (h_wallets d)"
    and "h_processes d' = h_processes d"
  shows "sessions_ok own d'"
proof -
  have "good_wallet own (wallet_key x)" if "x \<in> set (h_wallets d')" for x
  proof -
    obtain y where y: "y \<in> set (h_wallets d)" "x = (if P y then g y else y)" using \<open>x \<in> set (h_wallets d')\<close> by (auto simp: assms(5) sql_update_def)
    then have "good_wallet own (wallet_key y)" using assms(1) by (simp add: sessions_ok_def list_all_iff)
    then show ?thesis using y(2) assms(2-4) by (auto simp: good_wallet_def wallet_key_def)
  qed
  then show ?thesis using assms(1,6) by (simp add: sessions_ok_def list_all_iff)
qed

lemma markProducerEnded_sessions:
  assumes "sessions_ok own d" "own s = w" "markProducerEnded w s d = Inr d'"
  shows "sessions_ok own d'"
proof -
  let ?d = "d\<lparr>h_wallets := sql_update (\<lambda>x. wl_id x = w) (\<lambda>x. x\<lparr>wl_ended := True, wl_session := Some s\<rparr>) (h_wallets d)\<rparr>"
  have "sessions_ok own ?d"
    by (rule set_session_ok[OF assms(1,2), where P = "\<lambda>x. wl_id x = w" and g = "\<lambda>x. x\<lparr>wl_ended := True, wl_session := Some s\<rparr>"])
      (simp_all add: wallet_key_def)
  moreover have "d' = releaseEndedWallets ?d" using assms(3) by (auto simp: markProducerEnded_def split: if_splits)
  ultimately show ?thesis using same_sessions_ok release_ended_sessions by blast
qed

lemma append_sessions:
  assumes ok: "sessions_ok own d" and a: "appendRuntimeEventInTransaction l h now fresh input d = Inr (row, d')"
    and own: "case ends_session input of None \<Rightarrow> True | Some (w, s) \<Rightarrow> own s = w"
  shows "sessions_ok own d'"
proof -
  from a obtain st d1 n e part d2 d3 where
    en: "ensureRuntimeEventStream fresh d = Inr (st, d1)" and
    sp: "spendEventCapacity l (case ai_funding input of None \<Rightarrow> Fund_regular None False | Some f \<Rightarrow> f)
        (utf8_length (envelope_text e)) (draft_identity (ai_draft input)) d1 = Inr (part, d2)" and
    d3: "d3 = update_stream (st_id st) (\<lambda>s. s\<lparr>st_next_sequence := bigint_string (n + 1)\<rparr>) (insert_outbox row d2)" and
    last: "case ends_session input of None \<Rightarrow> d' = d3 | Some (wid, sid) \<Rightarrow> markProducerEnded wid sid d3 = Inr d'"
    by (rule appendE)
  have "same_sessions d2 d3" by (simp add: d3 same_sessions_def update_stream_def insert_outbox_def)
  then have "same_sessions d d3"
    by (rule same_sessions_trans[OF same_sessions_trans[OF ensure_sessions[OF en] spend_sessions[OF sp]]])
  then have "sessions_ok own d3" using ok same_sessions_ok by blast
  then show ?thesis using last own markProducerEnded_sessions by (auto split: option.splits)
qed

lemma append_all_sessions:
  assumes "sessions_ok own d" "append_all l h now fresh is d = Inr (rows, d')"
    and "list_all (\<lambda>i. case ends_session i of None \<Rightarrow> True | Some (w, s) \<Rightarrow> own s = w) is"
  shows "sessions_ok own d'"
  using assms
proof (induction "is" arbitrary: d rows)
  case (Cons i "is")
  then show ?case using append_sessions by (fastforce simp: rbind_Inr_iff)
qed simp

lemma reserveProducerWallet_sessions:
  assumes "sessions_ok own d" "reserveProducerWallet l b now d = Inr d'" "0 < wb_epoch b"
  shows "sessions_ok own d'"
proof -
  have "same_sessions d d' \<or> (\<exists>x. map wallet_key (h_wallets d') = map wallet_key (h_wallets d) @ [(x, wb_epoch b, None)]
      \<and> map process_key (h_processes d') = map process_key (h_processes d))"
    using assms(2)
    by (cases "find (\<lambda>w. wl_id w = wb_wallet b) (h_wallets d)")
      (auto simp: reserveProducerWallet_def rbind_Inr_iff same_sessions_def wallet_key_def dest!: admission_sessions split: if_splits)
  then show ?thesis
  proof (elim disjE exE conjE)
    assume "same_sessions d d'"
    then show ?thesis using same_sessions_ok assms(1) by blast
  next
    fix x assume "map wallet_key (h_wallets d') = map wallet_key (h_wallets d) @ [(x, wb_epoch b, None)]"
      "map process_key (h_processes d') = map process_key (h_processes d)"
    then show ?thesis using assms(1,3) by (simp add: sessions_ok_def good_wallet_def)
  qed
qed

lemma admitReceipt_sessions:
  assumes "sessions_ok own d" "admitReceipt l r a now d = Inr d'" "0 < rc_epoch r"
  shows "sessions_ok own d'"
proof -
  have t: "admitTeardown l r wo now d = Inr d' \<Longrightarrow> same_sessions d d'" for wo
    by (auto simp: admitTeardown_def case_prod_beta Let_def same_sessions_def refreshOutboxBudget_def split: option.splits if_splits)
  show ?thesis
  proof (cases a)
    case (Producer n)
    then show ?thesis
      using assms reserveProducerWallet_sessions[OF assms(1)] by (auto simp: admitReceipt_def split: option.splits if_splits)
  next
    case New_work
    then show ?thesis
      using assms same_sessions_ok[OF admission_sessions assms(1)] by (auto simp: admitReceipt_def rbind_Inr_iff split: if_splits)
  next
    case Resolve
    then show ?thesis using assms by (auto simp: admitReceipt_def assertRetainedBelowHard_def split: if_splits)
  next
    case (Teardown wo)
    then show ?thesis using assms same_sessions_ok[OF t assms(1)] by (auto simp: admitReceipt_def split: if_splits)
  qed
qed

lemma admitRuntimeReceipt_sessions:
  assumes ok: "sessions_ok own d" and adm: "admitRuntimeReceipt l ph now row adm d = Inr d'" and e: "0 < rc_epoch row"
  shows "sessions_ok own d'"
proof (cases "rc_phase row = Accepted")
  case False
  then show ?thesis using adm ok by (simp add: admitRuntimeReceipt_def)
next
  case True
  then obtain a where a: "adm = Some a" using adm by (cases adm) (simp_all add: admitRuntimeReceipt_def)
  obtain d1 d2 where d1: "d1 = d \<or> d1 = snd (refreshRuntimeFileBudget l d)"
    and r: "admitReceipt l row a now d1 = Inr d2"
    and d': "(case a of Producer n \<Rightarrow> reserveProducerFileWallet l (rc_command row) n (ph_free ph) d2
                   | _ \<Rightarrow> Inr d2) = Inr d'"
    using adm True a
    by (simp add: admitRuntimeReceipt_def case_prod_beta Let_def rbind_Inr_iff split: if_splits) blast+
  have "same_sessions d d1" using d1 by (auto simp: same_sessions_def refreshRuntimeFileBudget_def Let_def)
  then have "sessions_ok own d2" using admitReceipt_sessions[OF same_sessions_ok[OF _ ok] r e] by blast
  then show ?thesis using d' same_sessions_ok[OF file_sessions(1)] by (cases a) auto
qed

lemma written_sessions: "writeReceiptRow row d = Inr d' \<Longrightarrow> same_sessions d d'"
  by (auto simp: writeReceiptRow_def same_sessions_def split: if_splits)

lemma settled_sessions: "same_sessions d (observeCapacity l now (settleReceiptBudget row d))"
  by (rule same_sessions_trans[OF settle_sessions observe_sessions])

lemma bind_sessions:
  assumes "sessions_ok own d" "bindProducerSession ph w s d = Inr d'" "own s = w"
  shows "sessions_ok own d'"
proof -
  have "h_wallets d' = sql_update (\<lambda>x. wl_id x = w \<and> \<not> wl_closed x \<and> (wl_session x = None \<or> wl_session x = Some s))
      (\<lambda>x. x\<lparr>wl_session := Some s\<rparr>) (h_wallets d)" "h_processes d' = h_processes d"
    using assms(2) by (auto simp: bindProducerSession_def storage_write_Inr Let_def split: if_splits)
  then show ?thesis by (intro set_session_ok[OF assms(1,3)]) (auto simp: wallet_key_def)
qed

lemma register_sessions:
  assumes "sessions_ok own d" "registerSessionProcess h pc ph now i d = Inr d'" "own (rg_session i) = rg_command i"
  shows "sessions_ok own d'"
  using assms
  by (auto simp: registerSessionProcess_def storage_write_Inr sessions_ok_def good_process_def process_key_def
      split: if_splits option.splits)

lemma seed_sessions:
  assumes "sessions_ok own d" "seedMissingSessionProcesses h pc now d = Inr d'"
  shows "sessions_ok own d'"
  using assms
  by (auto simp: seed_processes[OF assms(2)] sessions_ok_def list_all_iff good_process_def good_wallet_def process_key_def
      wallet_key_def unproven_process_def unproven_wallets_def)

lemma open_sessions:
  assumes "sessions_ok own d" "openHostState l h pc now d = Inr d'"
  shows "sessions_ok own d'"
proof -
  obtain d1 where s: "seedMissingSessionProcesses h pc now d = Inr d1" and d': "d' = observeCapacity l now (drop_temporary d1)"
    using assms(2) by (auto simp: openHostState_def rbind_Inr_iff Let_def)
  have "same_sessions d1 d'"
    unfolding d' by (rule same_sessions_trans[OF _ observe_sessions]) (simp add: drop_temporary_def same_sessions_def)
  then show ?thesis using same_sessions_ok seed_sessions[OF assms(1) s] by blast
qed

section \<open>Every operation\<close>

lemma host_exec_sessions:
  assumes ok: "sessions_ok own d" and ex: "host_exec l h op d = Inr d'" and own: "caller_keeps own op"
  shows "sessions_ok own d'"
proof -
  note same = same_sessions_ok[OF _ ok]
  note fw = same[OF file_write_sessions]
  show ?thesis
  proof (cases op)
    case (Op_append ph now fresh inputs)
    then obtain rows d1 where "append_all l h now fresh inputs d = Inr (rows, d1)" "d' = d1 \<or> d' = observeCapacity l now d1"
      using ex by (auto simp: rbind_Inr_iff appendRuntimeEvents_def storage_write_Inr split: if_splits)
    then show ?thesis
      using append_all_sessions[OF ok] own same_sessions_ok[OF observe_sessions] by (auto simp: Op_append caller_keeps_def)
  next
    case (Op_ack ph now s t)
    then show ?thesis using ex same[OF ack_prune_sessions(1)] by (auto simp: rbind_Inr_iff)
  next
    case (Op_prune ph now fresh mode older)
    then show ?thesis using ex same[OF ack_prune_sessions(2)] by (auto simp: rbind_Inr_iff)
  next
    case (Op_fence ph now run asg ep)
    then show ?thesis using ex same[of d'] by (auto simp: setFence_def storage_write_Inr same_sessions_def)
  next
    case (Op_put_receipt ph now row adm)
    then obtain d1 d2 where a: "admitRuntimeReceipt l ph now row adm d = Inr d1" and w: "writeReceiptRow row d1 = Inr d2"
      and d': "d' = observeCapacity l now (settleReceiptBudget row d2)"
      using ex by (auto simp: putReceipt_def storage_write_Inr rbind_Inr_iff)
    have "sessions_ok own d2"
      using admitRuntimeReceipt_sessions[OF ok a] own same_sessions_ok[OF written_sessions[OF w]]
      by (simp add: Op_put_receipt caller_keeps_def)
    then show ?thesis unfolding d' by (rule same_sessions_ok[OF settled_sessions])
  next
    case (Op_put_receipt_event ph now fresh row input adm)
    then obtain ev d1 d2 d3 where a: "admitRuntimeReceipt l ph now row adm d = Inr d1"
      and e: "appendRuntimeEventInTransaction l h now fresh input d1 = Inr (ev, d2)"
      and w: "writeReceiptRow (receipt_with_event row ev) d2 = Inr d3"
      and d': "d' = observeCapacity l now (settleReceiptBudget row d3)"
      using ex by (auto simp: putReceiptWithRuntimeEvent_def storage_write_Inr rbind_Inr_iff)
    have "sessions_ok own d2"
      using append_sessions[OF admitRuntimeReceipt_sessions[OF ok a] e] own by (simp add: Op_put_receipt_event caller_keeps_def)
    then have "sessions_ok own d3" by (rule same_sessions_ok[OF written_sessions[OF w]])
    then show ?thesis unfolding d' by (rule same_sessions_ok[OF settled_sessions])
  next
    case (Op_retire ph now fresh cmd rq)
    then show ?thesis using ex same[OF retire_sessions] by (auto simp: rbind_Inr_iff)
  next
    case (Op_bind ph w s)
    then show ?thesis using ex bind_sessions[OF ok] own by (simp add: caller_keeps_def)
  next
    case (Op_close_wallet ph now w)
    then have "d' = observeCapacity l now (closeProducerWallet w d)"
      using ex by (auto simp: closeProducerWallet_op_def storage_write_Inr)
    then show ?thesis
      using same[OF same_sessions_trans[OF _ observe_sessions]] by (simp add: closeProducerWallet_def same_sessions_def)
  next
    case (Op_reserve_frame ph now rid w n)
    then show ?thesis using ex same[OF frame_sessions(1)] by (auto simp: rbind_Inr_iff)
  next
    case (Op_release_frame ph now rid)
    then show ?thesis using ex same[OF frame_sessions(2)] by auto
  next
    case (Op_register_process pc ph now i)
    then show ?thesis using ex register_sessions[OF ok] own by (simp add: caller_keeps_def)
  next
    case (Op_release_process pc ph cmd t)
    then show ?thesis
      using ex same[of d'] ok
      by (auto simp: releaseSessionProcess_def storage_write_Inr same_sessions_def process_key_def split: if_splits option.splits)
  next
    case (Op_release_prior pc ph now)
    then show ?thesis
      using ex same[of d']
      by (auto simp: releaseSessionProcessesFromPriorBoot_def storage_write_Inr rbind_Inr_iff Let_def same_sessions_def process_key_def)
  next
    case (Op_note_unsettled ph x body)
    then show ?thesis using ex same[of d'] by (auto simp: noteUnsettledCreate_def storage_write_Inr same_sessions_def)
  next
    case (Op_position fresh)
    then show ?thesis using ex same[OF ensure_sessions] by (auto simp: nextRuntimeEventPosition_def rbind_Inr_iff)
  next
    case (Op_restart pc now)
    then show ?thesis using ex open_sessions[OF ok] by simp
  next
    case (Op_record_progress ph x n)
    then show ?thesis using ex same[OF file_row_sessions(2)] by (auto simp: recordProducerFileBytes_op_def split: if_splits)
  qed (use ex fw file_sessions(3,4) file_row_sessions in \<open>fastforce+\<close>)
qed

lemma host_run_sessions:
  assumes "sessions_ok own d" "\<forall>bop \<in> set ops. caller_keeps own (snd bop)"
  shows "sessions_ok own (host_run l h ops d)"
  using assms
proof (induction ops arbitrary: d)
  case (Cons bop ops)
  then show ?case
    using host_exec_sessions[of own d l "h\<lparr>hi_boot := fst bop\<rparr>" "snd bop"] by (auto simp: host_step_def split: sum.split)
qed simp

lemma empty_sessions: "sessions_ok own empty_host_db"
  by (simp add: sessions_ok_def empty_host_db_def)

section \<open>The obligations a start adds\<close>

text \<open>Obligations of distinct commands, each with its own session, fit the table in any order.\<close>

lemma insertable:
  assumes "\<forall>p \<in> set ps. 0 < ps_epoch p" "distinct (map ps_command ps)"
    and "\<forall>p \<in> set ps. \<forall>q \<in> set old. ps_command q \<noteq> ps_command p"
    and "\<forall>p \<in> set ps \<union> set old. good_process own (process_key p)"
  shows "processes_insertable old ps"
  using assms
proof (induction ps arbitrary: old)
  case (Cons p ps)
  have "\<not> sql_eq (ps_session q) (ps_session p)" if "q \<in> set old" for q
    using Cons.prems(3,4) that by (fastforce simp: sql_eq_def good_process_def process_key_def)
  moreover have "processes_insertable (old @ [p]) ps" using Cons.prems by (intro Cons.IH) auto
  ultimately show ?case using Cons.prems by (auto simp: list_ex_iff)
qed simp

lemma seeds_insertable:
  assumes ok: "sessions_ok own d" and w: "distinct (map wl_id (h_wallets d))"
  shows "processes_insertable (h_processes d) (map (unproven_process pc now) (unproven_wallets h d))"
proof (rule insertable)
  let ?seeds = "map (unproven_process pc now) (unproven_wallets h d)"
  have sub: "set (unproven_wallets h d) \<subseteq> set (h_wallets d)" by (auto simp: unproven_wallets_def)
  have g: "good_wallet own (wallet_key x)" if "x \<in> set (unproven_wallets h d)" for x
    using ok that sub by (auto simp: sessions_ok_def list_all_iff)
  then show "\<forall>p \<in> set ?seeds. 0 < ps_epoch p" by (auto simp: unproven_process_def good_wallet_def wallet_key_def)
  have m: "map ps_command ?seeds = map wl_id (unproven_wallets h d)" by (simp add: unproven_process_def)
  have "distinct (map wl_id (unproven_wallets h d))" using w by (simp add: unproven_wallets_def distinct_map_filter)
  then show "distinct (map ps_command ?seeds)" by (simp only: m)
  show "\<forall>p \<in> set ?seeds. \<forall>q \<in> set (h_processes d). ps_command q \<noteq> ps_command p"
    by (auto simp: unproven_wallets_def unproven_process_def list_ex_iff)
  show "\<forall>p \<in> set ?seeds \<union> set (h_processes d). good_process own (process_key p)"
    using g ok by (auto simp: sessions_ok_def list_all_iff unproven_process_def good_process_def good_wallet_def process_key_def wallet_key_def)
qed

end
