(* ===== verification/HostGuarantees.thy ===== *)
theory HostGuarantees
  imports HostExample HostSessions
begin

text \<open>
  What a manager may rely on of an execution host, over every sequence of its operations: it starts again
  on its own file, keeps every event until it is acknowledged, replays without gaps, honours the
  reservations it granted, and reports the limit that admission would answer with.
\<close>

section \<open>Guarantees\<close>

text \<open>The bytes of the control partition follow from its rows: each is at most one control event long.\<close>

lemma control_bytes:
  assumes "outbox_inv h d" "fund_inv l d"
  shows "retained_bytes (h_budget d Control) \<le> retained_count (h_budget d Control) * CONTROL_EVENT_MAX_BYTES"
proof -
  have bound: "sum_rows ob_encoded_bytes rows \<le> int (length rows) * CONTROL_EVENT_MAX_BYTES"
    if "\<And>r. r \<in> set rows \<Longrightarrow> ob_encoded_bytes r \<le> CONTROL_EVENT_MAX_BYTES" for rows
    using that by (induction rows) (auto simp: algebra_simps add_mono)
  have "h_budget d Control = stored_usage d Control" using assms(1) by (simp add: outbox_inv_def)
  moreover have "\<forall>r \<in> set (h_outbox d). ob_partition r \<noteq> Regular \<longrightarrow> ob_encoded_bytes r \<le> CONTROL_EVENT_MAX_BYTES"
    using assms(2) by (simp add: fund_inv_def fund_rows_def)
  ultimately show ?thesis
    using bound[of "filter (\<lambda>r. ob_partition r = Control \<and> list_ex (\<lambda>s. st_id s = ob_stream r) (h_streams d)) (h_outbox d)"]
    by (simp add: stored_usage_def Let_def)
qed

lemma stored_fits:
  assumes "outbox_inv h d" "fund_inv l d" "limits_ok l"
  shows "assertStoredOutboxFits d l = Inr ()"
proof -
  have f: "retained_count (h_budget d Control) + control_rows_reserved d \<le> eventControlRows l - EMERGENCY_EVENT_ROWS"
    using assms(2) by (simp add: fund_inv_def fits_control_def)
  have "(retained_count (h_budget d Control) + control_rows_reserved d) * CONTROL_EVENT_MAX_BYTES
      \<le> (eventControlRows l - EMERGENCY_EVENT_ROWS) * CONTROL_EVENT_MAX_BYTES"
    using f by (rule mult_right_mono) (simp add: CONTROL_EVENT_MAX_BYTES_def)
  then have "retained_bytes (h_budget d Control) + control_rows_reserved d * CONTROL_EVENT_MAX_BYTES
      \<le> eventControlBytes l - EMERGENCY_EVENT_BYTES"
    using control_bytes[OF assms(1,2)] limits_okD(8)[OF assms(3)]
    by (simp add: EMERGENCY_EVENT_BYTES_def algebra_simps)
  moreover have "0 \<le> sum_rows fr_rows (h_frames d)" "0 \<le> sum_rows fr_bytes (h_frames d)"
    using assms(2) frames_nonneg by (simp_all add: fund_inv_def)
  ultimately show ?thesis
    using f assms(2) by (simp add: assertStoredOutboxFits_def outboxBudgetSnapshot_def Let_def fund_inv_def fits_regular_def)
qed

lemma run_ledger: "ledger_ok d \<Longrightarrow> ledger_ok (host_run l h ops d)"
proof (induction ops arbitrary: d)
  case (Cons bop ops)
  show ?case
  proof (cases "host_step l h bop d")
    case (Inr d')
    then have "ledger_ok d'" using Cons.prems host_exec_ledger(1) by (simp add: host_step_def)
    then show ?thesis using Cons.IH Inr by simp
  qed (use Cons in simp)
qed simp


text \<open>A session that was created and bound, whose process the host never came to know.\<close>

definition w_lost_ops :: "(ident \<times> host_op) list" where
  "w_lost_ops = [(''b'', Op_put_receipt w_disk 0 w_receipt (Some (Producer 0))), (''b'', Op_bind w_disk ''c'' ''u''),
     (''b'', Op_position ''s'')]"

definition w_lost_db :: host_db where
  "w_lost_db = w_created\<lparr>h_wallets := [w_wallet\<lparr>wl_session := Some ''u''\<rparr>],
     h_streams := [\<lparr>st_id = ''s'', st_next_sequence = ''0'', st_acknowledged_through = None,
       st_acknowledged_sort_key = None, st_replay_floor_sequence = None, st_replay_floor_sort_key = None\<rparr>]\<rparr>"

lemma w_lost: "host_run DEFAULT_RUNTIME_LIMITS w_host w_lost_ops empty_host_db = w_lost_db"
proof -
  let ?bound = "w_created\<lparr>h_wallets := [w_wallet\<lparr>wl_session := Some ''u''\<rparr>]\<rparr>"
  have b: "bindProducerSession w_disk ''c'' ''u'' w_created = Inr ?bound"
    by (simp add: bindProducerSession_def storage_write_def w_disk_def w_created_def w_wallet_def sql_update_def)
  have "h_streams ?bound = []" by (simp add: w_created_def empty_host_db_def)
  then have "\<exists>x. nextRuntimeEventPosition ''s'' ?bound = Inr (x, w_lost_db)"
    by (simp add: nextRuntimeEventPosition_def ensureRuntimeEventStream_def getRuntimeEventStream_def Let_def w_lost_db_def)
  then show ?thesis by (auto simp: w_lost_ops_def host_step_def w_put b)
qed

lemma w_lost_fields:
  "h_streams w_lost_db = [\<lparr>st_id = ''s'', st_next_sequence = ''0'', st_acknowledged_through = None,
       st_acknowledged_sort_key = None, st_replay_floor_sequence = None, st_replay_floor_sort_key = None\<rparr>]"
  "h_processes w_lost_db = []" "h_receipts w_lost_db = [w_receipt]"
  "unproven_wallets h w_lost_db = [w_wallet\<lparr>wl_session := Some ''u''\<rparr>]"
proof -
  show f: "h_processes w_lost_db = []" "h_receipts w_lost_db = [w_receipt]"
    "h_streams w_lost_db = [\<lparr>st_id = ''s'', st_next_sequence = ''0'', st_acknowledged_through = None,
       st_acknowledged_sort_key = None, st_replay_floor_sequence = None, st_replay_floor_sort_key = None\<rparr>]"
    by (simp_all add: w_lost_db_def w_created_def empty_host_db_def)
  have "h_wallets w_lost_db = [w_wallet\<lparr>wl_session := Some ''u''\<rparr>]" by (simp add: w_lost_db_def)
  moreover have "rc_phase w_receipt = Accepted" by (simp add: w_receipt_def)
  ultimately show "unproven_wallets h w_lost_db = [w_wallet\<lparr>wl_session := Some ''u''\<rparr>]"
    using f by (simp add: unproven_wallets_def getReceipt_def never_started_def)
qed


text \<open>An acknowledgement that a caller sends covers an event when it names its sequence or a later one.\<close>

definition acknowledges :: "host_op \<Rightarrow> outbox_row \<Rightarrow> bool" where
  "acknowledges op r =
     (case op of
        Op_ack _ _ _ t \<Rightarrow> (case parseHostEventSequence t of Inr n \<Rightarrow> row_no r \<le> n | Inl _ \<Rightarrow> False)
      | _ \<Rightarrow> False)"

lemma exec_pending:
  assumes o: "outbox_inv h d" and ex: "host_exec l h op d = Inr d'" and na: "\<not> acknowledges op r"
    and r: "r \<in> set (h_outbox d)" "row_pending d r"
  shows "r \<in> set (h_outbox d') \<and> row_pending d' r"
proof (cases "is_ack op")
  case False
  then have "outbox_kept d d'" by (rule exec_kept[OF o ex])
  then show ?thesis using r by (auto simp: outbox_kept_def row_pending_def)
next
  case True
  then obtain ph now s t where op: "op = Op_ack ph now s t" by (auto simp: is_ack_def split: host_op.splits)
  then obtain u where a: "ackRuntimeEvents l ph now s t d = Inr (u, d')" using ex by (auto simp: rbind_Inr_iff)
  have "h_streams d \<noteq> []"
    using a by (auto simp: ackRuntimeEvents_def storage_write_Inr rbind_Inr_iff getRuntimeEventStream_def)
  then obtain st nxt acked flr where v: "view d st nxt acked flr" using outbox_inv_view[OF o] by blast
  from v a show ?thesis
  proof (cases rule: ackE)
    case 1
    then show ?thesis using r by simp
  next
    case (2 through d1)
    note v' = ack_moved_view[OF v 2(2,3) parse_storable[OF 2(1)] 2(4)]
    have o1: "h_outbox d1 = h_outbox d"
      using 2(4) by (auto simp: ack_moved_def recordRuntimeEventAck_def Let_def update_stream_def split: if_splits)
    have "through < row_no r" using na 2(1) by (simp add: op acknowledges_def)
    then have "row_pending d1 r" using pending_iff[OF v', of r] o1 r(1) by simp
    moreover have "same_outbox d1 d'" by (simp add: 2(5))
    ultimately show ?thesis using o1 r(1) by (simp add: same_outbox_def row_pending_def stream_ack_key_def)
  qed
qed

lemma run_pending:
  assumes "limits_ok l" "host_inv l h d" "r \<in> set (h_outbox d)" "row_pending d r"
    "\<forall>bop \<in> set ops. \<not> acknowledges (snd bop) r"
  shows "r \<in> set (h_outbox (host_run l h ops d)) \<and> row_pending (host_run l h ops d) r"
  using assms(2-)
proof (induction ops arbitrary: d)
  case (Cons bop ops)
  show ?case
  proof (cases "host_step l h bop d")
    case (Inl e)
    then show ?thesis using Cons by simp
  next
    case (Inr d')
    then have ex: "host_exec l (h\<lparr>hi_boot := fst bop\<rparr>) (snd bop) d = Inr d'" by (simp add: host_step_def)
    have "host_inv l (h\<lparr>hi_boot := fst bop\<rparr>) d" using Cons.prems(1) by simp
    then have "outbox_inv (h\<lparr>hi_boot := fst bop\<rparr>) d" unfolding host_inv_def core_inv_def by blast
    then show ?thesis
      using Cons.IH[of d'] host_step_inv[OF assms(1) Cons.prems(1) Inr] exec_pending[OF _ ex] Cons.prems Inr by simp
  qed
qed simp

text \<open>
  C4: An event that the manager has not acknowledged is never lost.  Take any history of the host and any
  event it stores above the watermark; after any further operations (appends, prunes in either mode,
  receipts, restarts, acknowledgements of earlier events) none of which acknowledges it, the event is
  still stored, unchanged, and still pending.
\<close>

theorem unacknowledged_event_kept:
  assumes "limits_ok l"
    and "r \<in> set (h_outbox (host_run l h before empty_host_db))" "row_pending (host_run l h before empty_host_db) r"
    and "\<forall>bop \<in> set later. \<not> acknowledges (snd bop) r"
  shows "r \<in> set (h_outbox (host_run l h (before @ later) empty_host_db))
    \<and> row_pending (host_run l h (before @ later) empty_host_db) r"
  using run_pending[OF assms(1) reachable_inv[OF assms(1)] assms(2-4)] by (simp add: host.run_append)

theorem unacknowledged_event_kept_witness:
  "w_row \<in> set (h_outbox (host_run DEFAULT_RUNTIME_LIMITS w_host (w_ops @ [(''b2'', Op_prune w_disk 9999999 ''s'' Retained_pressure 0)]) empty_host_db))"
  using unacknowledged_event_kept[OF default_limits_ok, of w_row w_host w_ops "[(''b2'', Op_prune w_disk 9999999 ''s'' Retained_pressure 0)]"]
    w_pending by (simp add: w_run acknowledges_def)

section \<open>Replay\<close>

lemma page_walk_take:
  assumes "\<And>r. r \<in> set rows \<Longrightarrow> 1 \<le> ob_encoded_bytes r \<and> ob_encoded_bytes r \<le> MAX_RUNTIME_EVENT_BYTES"
  shows "\<exists>k \<le> length rows. page_walk b rows = Inr (take k rows) \<and> (b = 0 \<and> rows \<noteq> [] \<longrightarrow> 0 < k)"
  using assms
proof (induction rows arbitrary: b)
  case (Cons r rows)
  have r: "1 \<le> ob_encoded_bytes r" "ob_encoded_bytes r \<le> MAX_RUNTIME_EVENT_BYTES" using Cons.prems[of r] by auto
  show ?case
  proof (cases "b + ob_encoded_bytes r > MAX_RUNTIME_EVENT_BYTES")
    case True
    then have "page_walk b (r # rows) = Inr (take 0 (r # rows))" "b \<noteq> 0" using r by auto
    then show ?thesis by blast
  next
    case False
    obtain k where "k \<le> length rows" "page_walk (b + ob_encoded_bytes r) rows = Inr (take k rows)"
      using Cons.IH[of "b + ob_encoded_bytes r"] Cons.prems by auto
    then have "page_walk b (r # rows) = Inr (take (Suc k) (r # rows))" "Suc k \<le> length (r # rows)"
      using r False by auto
    then show ?thesis by blast
  qed
qed simp

text \<open>A page is a contiguous run that starts right after the cursor and is empty only at the end.\<close>

lemma page_rows:
  assumes v: "view d st nxt acked flr" and f: "fund_inv l d" and c: "\<forall>r \<in> set (h_outbox d). row_content h r"
    and a: "flr \<le> a" "storable a" and limit: "1 \<le> limit"
    and key: "\<And>r. r \<in> set (h_outbox d) \<Longrightarrow> ob_sort_key r \<le> upper \<longleftrightarrow> row_no r \<le> hi"
    and hi: "hi < nxt" "storable hi \<or> hi = -1" and th: "upper = (case tk of None \<Rightarrow> ''~'' | Some k \<Rightarrow> k)"
  shows "\<exists>page m. runtimeEventPage d (st_id st) (Some (sort_key_of a)) limit tk = Inr page
     \<and> set page \<subseteq> set (h_outbox d) \<and> map row_no page = [a + 1..m] \<and> m \<le> max a hi \<and> (a < hi \<longrightarrow> a < m)"
proof -
  let ?P = "keys_between (st_id st) (sort_key_of a)"
  define rows where "rows = filter (?P (sort_key_of hi)) (h_outbox d)"
  have nos: "map row_no rows = [a + 1..hi]"
    unfolding rows_def by (rule range_rows[OF v a(1) hi(1)]) (use a hi in auto)
  have same: "filter (?P upper) (h_outbox d) = rows"
    unfolding rows_def using key view_rows[OF v] hi(2)
    by (intro filter_cong refl) (simp add: keys_between_def)
  define cand where "cand = take (nat (min limit 500)) rows"
  have "\<And>r. r \<in> set cand \<Longrightarrow> 1 \<le> ob_encoded_bytes r \<and> ob_encoded_bytes r \<le> MAX_RUNTIME_EVENT_BYTES"
    using f c by (auto simp: cand_def rows_def fund_inv_def fund_rows_def row_content_def dest!: in_set_takeD)
  then obtain k where k: "k \<le> length cand" "page_walk 0 cand = Inr (take k cand)" "cand \<noteq> [] \<longrightarrow> 0 < k"
    using page_walk_take[of cand 0] by auto
  have "k \<le> nat (min limit 500)" and kl: "k \<le> length rows" using k(1) by (simp_all add: cand_def)
  then have kr: "take k cand = take k rows" "k \<le> length rows" by (simp_all only: cand_def take_take min_absorb1)
  have sorted: "sort_key ob_sort_key (filter P (h_outbox d)) = filter P (h_outbox d)" for P
    by (rule view_sort_filter[OF v])
  have page: "runtimeEventPage d (st_id st) (Some (sort_key_of a)) limit tk =
      (if k = 0 \<or> rows = [] then Inr [] else Inr (filter (?P (ob_sort_key (last (take k rows)))) (h_outbox d)))"
    by (simp add: runtimeEventPage_def Let_def same sorted k(2) kr(1) flip: th cand_def)
  show ?thesis
  proof (cases "rows = []")
    case True
    then have "hi \<le> a" using nos by simp
    then show ?thesis using page True by (intro exI[of _ "[]"] exI[of _ a]) simp
  next
    case False
    then have "cand \<noteq> []" using limit by (simp add: cand_def)
    then have k0: "0 < k" using k(3) by simp
    define m where "m = a + int k"
    have last: "row_no (last (take k rows)) = m" using last_take_no[OF nos k0 kr(2)] by (simp add: m_def)
    have "last (take k rows) \<in> set (take k rows)" using k0 False by (intro last_in_set) simp
    then have "last (take k rows) \<in> set rows" by (rule in_set_takeD)
    then have mem: "last (take k rows) \<in> set (h_outbox d)" by (simp add: rows_def)
    have "length rows = nat (hi - a)" using arg_cong[OF nos, of length] by simp
    then have "int (length rows) = hi - a" using False by (cases "a \<le> hi") auto
    then have m: "m \<le> hi" using kr(2) by (simp add: m_def)
    have "ob_sort_key (last (take k rows)) = sort_key_of m" using view_rows(6)[OF v mem] last by simp
    moreover have "map row_no (filter (?P (sort_key_of m)) (h_outbox d)) = [a + 1..m]"
      using m hi view_rows(3)[OF v mem] last a by (intro range_rows[OF v]) auto
    ultimately show ?thesis
      using page False k0 m by (intro exI[of _ "filter (?P (sort_key_of m)) (h_outbox d)"] exI[of _ m])
        (auto simp: m_def)
  qed
qed

text \<open>
  C12: Replay has no gaps.  A manager that asks a host for the events after sequence \<open>n\<close> gets the events
  \<open>n+1, n+2, ...\<close> in order, none left out, and gets an empty page only when the host holds no later
  event.  The only refusal is the one that says the host has already pruned event \<open>n+1\<close>, and pruned
  events were acknowledged.
\<close>

theorem replay_gapless:
  assumes "limits_ok l" and "h_streams (host_run l h ops empty_host_db) = [st]"
    and "parseHostEventSequence t = Inr n" "1 \<le> limit" "limit \<le> 50000"
  shows "case runtimeEventsAfter (host_run l h ops empty_host_db) (st_id st) (Some t) limit of
     Inr page \<Rightarrow> set page \<subseteq> set (h_outbox (host_run l h ops empty_host_db))
       \<and> (\<exists>m. map ob_sequence page = map bigint_string [n + 1..m])
       \<and> (page = [] \<longrightarrow> (\<forall>r \<in> set (h_outbox (host_run l h ops empty_host_db)). row_no r \<le> n))
   | Inl e \<Rightarrow> e = HostRuntimeEventError Replay_floor_exceeded
       \<and> (\<forall>r \<in> set (h_outbox (host_run l h ops empty_host_db)). n + 1 < row_no r)"
proof -
  define d where "d = host_run l h ops empty_host_db"
  have inv: "host_inv l h d" unfolding d_def by (rule reachable_inv[OF assms(1)])
  then have o: "outbox_inv h d" and f: "fund_inv l d" by (simp_all add: host_inv_def core_inv_def)
  have ss: "h_streams d = [st]" using assms(2) by (simp add: d_def)
  then have ne: "h_streams d \<noteq> []" by simp
  obtain st' nxt acked flr where v': "view d st' nxt acked flr" by (rule outbox_inv_view[OF o ne])
  then have v: "view d st nxt acked flr" using viewD(1)[OF v'] ss by simp
  note w = viewD[OF v]
  have c: "\<forall>r \<in> set (h_outbox d). row_content h r" using o by (simp add: outbox_inv_def)
  have n: "storable n" by (rule parse_storable[OF assms(3)])
  have fl: "(case st_replay_floor_sequence st of Some x \<Rightarrow> parseHostEventSequence x = Inr flr | None \<Rightarrow> flr = -1)"
    using v by (auto simp: view_def watermark_def parse_print)
  have reads: "if n < flr then runtimeEventsAfter d (st_id st) (Some t) limit = Inl (HostRuntimeEventError Replay_floor_exceeded)
     else runtimeEventsAfter d (st_id st) (Some t) limit = runtimeEventPage d (st_id st) (Some (sort_key_of n)) limit None"
    using assms(3-5) n ss fl
    by (auto simp: runtimeEventsAfter_def getRuntimeEventStream_def sort_key_ok validateRuntimeEventLimit_def storable_def
        split: option.splits)
  show ?thesis
  proof (cases "n < flr")
    case True
    then show ?thesis unfolding d_def[symmetric] using reads view_rows(1)[OF v] by fastforce
  next
    case False
    have "\<exists>page m. runtimeEventPage d (st_id st) (Some (sort_key_of n)) limit None = Inr page
       \<and> set page \<subseteq> set (h_outbox d) \<and> map row_no page = [n + 1..m] \<and> m \<le> max n (nxt - 1) \<and> (n < nxt - 1 \<longrightarrow> n < m)"
      using False n assms(4) w(6) w(11) view_rows(2,3,6)[OF v] sort_key_bounds(2)
      by (intro page_rows[OF v f c, where upper = "''~''" and hi = "nxt - 1"]) (fastforce simp: storable_def)+
    then obtain page m where p: "runtimeEventPage d (st_id st) (Some (sort_key_of n)) limit None = Inr page"
      "set page \<subseteq> set (h_outbox d)" "map row_no page = [n + 1..m]" "n < nxt - 1 \<longrightarrow> n < m" by blast
    have "map ob_sequence page = map bigint_string (map row_no page)"
      using p(2) view_rows(5)[OF v] by auto
    then have "map ob_sequence page = map bigint_string [n + 1..m]" by (simp only: p(3))
    moreover have "row_no r \<le> n" if "page = []" "r \<in> set (h_outbox d)" for r
      using that p(3,4) view_rows(2)[OF v that(2)] by auto
    ultimately show ?thesis
      unfolding d_def[symmetric] using reads False p(1,2) by auto
  qed
qed

theorem replay_gapless_witness:
  "case runtimeEventsAfter (host_run DEFAULT_RUNTIME_LIMITS w_host w_ops empty_host_db) ''s'' (Some ''0'') 10 of
     Inr page \<Rightarrow> page = [] \<longrightarrow> (\<forall>r \<in> {w_row}. row_no r \<le> 0) | Inl e \<Rightarrow> e = HostRuntimeEventError Replay_floor_exceeded"
proof -
  have "parseHostEventSequence ''0'' = Inr 0" by code_simp
  then show ?thesis
    using replay_gapless[OF default_limits_ok w_run(1), of "''0''" 0 10] by (auto simp: w_run split: sum.splits)
qed

section \<open>Promises\<close>

lemma one_row:
  assumes "distinct (map k rows)" "r \<in> set rows" "P r" "\<And>x. P x \<Longrightarrow> k x = k r"
  shows "length (filter P rows) = 1"
proof -
  have "filter P rows = filter P (filter (\<lambda>s. k s = k r) rows)"
    using assms(4) by (simp add: filter_filter conj_absorb cong: conj_cong) (metis (mono_tags, lifting))
  then show ?thesis using key_filter_one[OF assms(1,2)] assms(3) by simp
qed

text \<open>
  C14: A promise of room is kept.  In every reachable state, whatever else the host has stored since and
  however high the pressure, an event that spends an output frame with rows and bytes left on it is
  accepted into the regular partition, and an event of at most one control size that spends an open
  wallet of its run, assignment and epoch is accepted into the control partition.
\<close>

theorem promised_event_accepted:
  assumes "limits_ok l" and "0 \<le> bytes" and "d = host_run l h ops empty_host_db"
  shows "(\<forall>f \<in> set (h_frames d). \<forall>w \<in> set (h_wallets d).
            0 < fr_rows f \<and> bytes \<le> fr_bytes f \<and> wl_id w = fr_wallet f \<and> wallet_matches i w \<longrightarrow>
            (\<exists>d'. spendEventCapacity l (Fund_regular (Some (fr_id f)) False) bytes i d = Inr (Regular, d')))
       \<and> (\<forall>w \<in> set (h_wallets d).
            \<not> wl_closed w \<and> 0 < wl_remaining w \<and> wallet_matches i w \<and> bytes \<le> CONTROL_EVENT_MAX_BYTES \<longrightarrow>
            (\<exists>d'. spendEventCapacity l (Fund_control (wl_id w) None) bytes i d = Inr (Control, d')))"
proof -
  have inv: "host_inv l h d" unfolding assms(3) by (rule reachable_inv[OF assms(1)])
  then have o: "outbox_inv h d" and f: "fund_inv l d" by (simp_all add: host_inv_def core_inv_def)
  have keys: "distinct (map fr_id (h_frames d))" "distinct (map wl_id (h_wallets d))"
    using f by (simp_all add: fund_inv_def fund_keys_def)
  have "\<exists>d'. spendEventCapacity l (Fund_regular (Some (fr_id fr)) False) bytes i d = Inr (Regular, d')"
    if fr: "fr \<in> set (h_frames d)" "0 < fr_rows fr" "bytes \<le> fr_bytes fr"
      and w: "w \<in> set (h_wallets d)" "wl_id w = fr_wallet fr" "wallet_matches i w" for fr w
  proof -
    let ?P = "frame_spendable d i (fr_id fr) bytes"
    have "length (filter ?P (h_frames d)) = 1"
      using fr w by (intro one_row[OF keys(1) fr(1)]) (auto simp: frame_spendable_def list_ex_iff)
    then obtain d1 where s: "spend_frame i (fr_id fr) bytes d = Inr d1" by (simp add: spend_frame_def)
    note ok = spend_frame_fund[OF f assms(2) s]
    have same: "same_outbox d d1" using s by (auto simp: spend_frame_def same_outbox_def split: if_splits)
    then have "outbox_inv h d1" using o outbox_inv_cong by blast
    then have "\<not> over_hard l bytes d1"
      using ok usage_nonneg(3,4)[of h d1 l Regular]
      by (simp add: over_hard_def fits_regular_def reservedRegularUsage_def outboxBudgetSnapshot_def Let_def)
    then show ?thesis using s by (simp add: spendEventCapacity_def)
  qed
  moreover have "\<exists>d'. spendEventCapacity l (Fund_control (wl_id w) None) bytes i d = Inr (Control, d')"
    if w: "w \<in> set (h_wallets d)" "\<not> wl_closed w" "0 < wl_remaining w" "wallet_matches i w" and b: "bytes \<le> CONTROL_EVENT_MAX_BYTES" for w
  proof -
    have "length (filter (wallet_spendable i (wl_id w)) (h_wallets d)) = 1"
      using w by (intro one_row[OF keys(2) w(1)]) (auto simp: wallet_spendable_def)
    then show ?thesis using b by (simp add: spendEventCapacity_def spend_control_def)
  qed
  ultimately show ?thesis by blast
qed

theorem promised_event_accepted_witness:
  "\<exists>d'. spendEventCapacity DEFAULT_RUNTIME_LIMITS (Fund_regular (Some ''f'') False) 1000
      \<lparr>ei_run = ''r'', ei_assignment = ''a'', ei_epoch = 1\<rparr>
      (host_run DEFAULT_RUNTIME_LIMITS w_host w_session_ops empty_host_db) = Inr (Regular, d')"
  using promised_event_accepted[OF default_limits_ok, of 1000 _ w_host w_session_ops "\<lparr>ei_run = ''r'', ei_assignment = ''a'', ei_epoch = 1\<rparr>"]
  by (simp add: w_session) (simp add: w_wallet_def wallet_matches_def)


section \<open>The health signal\<close>



text \<open>
  C15: Nothing secret leaves the host through the outbox.  In every reachable state each stored event is the
  text of an envelope whose payload has no key that names a secret, no absolute path and no file address at
  any depth, and is no longer than an event may be.
\<close>

theorem stored_events_redacted:
  assumes "limits_ok l" and "r \<in> set (h_outbox (host_run l h ops empty_host_db))"
  shows "\<exists>e. ob_envelope_json r = envelope_text e \<and> assertRuntimeEventPayloadSafe (en_payload e)
    \<and> ob_encoded_bytes r = utf8_length (envelope_text e) \<and> ob_encoded_bytes r \<le> MAX_RUNTIME_EVENT_BYTES"
  using reachable_inv[OF assms(1), of h ops] assms(2)
  unfolding host_inv_def core_inv_def outbox_inv_def row_content_def by blast

theorem stored_events_redacted_witness:
  "w_row \<in> set (h_outbox (host_run DEFAULT_RUNTIME_LIMITS w_host w_ops empty_host_db))
   \<and> (\<exists>e. ob_envelope_json w_row = envelope_text e \<and> assertRuntimeEventPayloadSafe (en_payload e))"
  using stored_events_redacted[OF default_limits_ok, of w_row w_host w_ops] by (auto simp: w_run)

end
