(* ===== verification/CommandJson.thy ===== *)
theory CommandJson
  imports RuntimeEvents "HOL-Library.Multiset"
begin

text \<open>
  The canonical text of a command (\<^verbatim>\<open>runtime/command-json.ts\<close>), over which a host and its manager take the digest
  of a request: keys sorted by code unit, arrays in order, no space.  The text is that of the value with its
  keys sorted, and two values have one text exactly when they agree up to the order of keys.  Code units are
  below 256, so the check for unpaired surrogates never fires; JSON values are finite, plain and without
  symbols or accessors, so of the errors two are left.
\<close>

section \<open>Encoding\<close>

datatype json_fault = Non_finite_number | Nesting_exceeds_64_levels

fun each_result :: "('a \<Rightarrow> 'e + 'b) \<Rightarrow> 'a list \<Rightarrow> 'e + 'b list" where
  "each_result f [] = Inr []"
| "each_result f (x # xs) = rbind (f x) (\<lambda>y. rbind (each_result f xs) (\<lambda>ys. Inr (y # ys)))"

lemma each_result_cong [fundef_cong]:
  "xs = ys \<Longrightarrow> (\<And>x. x \<in> set ys \<Longrightarrow> f x = g x) \<Longrightarrow> each_result f xs = each_result g ys"
  by (induction xs arbitrary: ys) auto

lemma each_result_Inr: "each_result f xs = Inr ys \<longleftrightarrow> list_all2 (\<lambda>x y. f x = Inr y) xs ys"
  by (induction xs arbitrary: ys) (auto simp: rbind_Inr_iff list_all2_Cons1)

lemma json_entry_size: "(k, v) \<in> set kvs \<Longrightarrow> size v < size (JObj kvs)"
  by (induction kvs) auto

lemma json_item_size: "v \<in> set vs \<Longrightarrow> size v < size (JArr vs)"
  by (induction vs) auto

function encode :: "json \<Rightarrow> nat \<Rightarrow> json_fault + string" where
  "encode JNull ancestors = Inr ''null''"
| "encode (JBool b) ancestors = Inr (if b then ''true'' else ''false'')"
| "encode (JStr s) ancestors = Inr (quote_json s)"
| "encode (JNum x) ancestors = (if is_finite_num x then Inr (js_number_string x) else Inl Non_finite_number)"
| "encode (JArr vs) ancestors =
     (if 64 \<le> ancestors then Inl Nesting_exceeds_64_levels
      else rbind (each_result (\<lambda>v. encode v (Suc ancestors)) vs) (\<lambda>ts. Inr (''['' @ js_join '','' ts @ '']'')))"
| "encode (JObj kvs) ancestors =
     (if 64 \<le> ancestors then Inl Nesting_exceeds_64_levels
      else rbind (each_result (\<lambda>(k, v). rbind (encode v (Suc ancestors)) (\<lambda>t. Inr (quote_json k @ '':'' @ t)))
                    (sort_key fst kvs))
             (\<lambda>ts. Inr (''{'' @ js_join '','' ts @ ''}'')))"
  by pat_completeness auto
termination
  by (relation "measure (\<lambda>(v, n). size v)") (auto simp: json_item_size dest: json_entry_size simp del: json.size)

definition canonicalCommandJson :: "json \<Rightarrow> json_fault + string" where
  "canonicalCommandJson v = encode v 0"

section \<open>The canonical text is the text of the value with sorted keys\<close>

fun sort_keys :: "json \<Rightarrow> json" where
  "sort_keys (JArr vs) = JArr (map sort_keys vs)"
| "sort_keys (JObj kvs) = JObj (sort_key fst (map (\<lambda>(k, v). (k, sort_keys v)) kvs))"
| "sort_keys v = v"

fun encodable :: "json \<Rightarrow> nat \<Rightarrow> bool" where
  "encodable (JNum x) n = is_finite_num x"
| "encodable (JArr vs) n = (n < 64 \<and> list_all (\<lambda>v. encodable v (Suc n)) vs)"
| "encodable (JObj kvs) n = (n < 64 \<and> list_all (\<lambda>(k, v). encodable v (Suc n)) kvs)"
| "encodable v n = True"

lemma insort_map: "insort_key f (g x) (map g xs) = map g (insort_key (\<lambda>y. f (g y)) x xs)"
  by (induction xs) simp_all

lemma sort_map: "sort_key f (map g xs) = map g (sort_key (\<lambda>y. f (g y)) xs)"
  by (induction xs) (simp_all add: insort_map)

lemma list_all2_function: "list_all2 (\<lambda>x y. P x \<and> y = f x) xs ys \<longleftrightarrow> list_all P xs \<and> ys = map f xs"
  by (induction xs arbitrary: ys) (auto simp: list_all2_Cons1)

lemma list_all2_on: "(\<And>x y. x \<in> set xs \<Longrightarrow> P x y = Q x y) \<Longrightarrow> list_all2 P xs ys = list_all2 Q xs ys"
  by (induction xs arbitrary: ys) (auto simp: list_all2_Cons1)

lemma encode_arr:
  assumes "\<And>v s. v \<in> set vs \<Longrightarrow> encode v (Suc n) = Inr s \<longleftrightarrow> encodable v (Suc n) \<and> s = json_stringify (sort_keys v)"
  shows "each_result (\<lambda>v. encode v (Suc n)) vs = Inr ts \<longleftrightarrow>
    list_all (\<lambda>v. encodable v (Suc n)) vs \<and> ts = map (\<lambda>v. json_stringify (sort_keys v)) vs"
  unfolding each_result_Inr list_all2_function[symmetric] by (rule list_all2_on) (simp add: assms)

lemma encode_obj:
  assumes "\<And>k v s. (k, v) \<in> set kvs \<Longrightarrow> encode v (Suc n) = Inr s \<longleftrightarrow> encodable v (Suc n) \<and> s = json_stringify (sort_keys v)"
  shows "each_result (\<lambda>(k, v). rbind (encode v (Suc n)) (\<lambda>t. Inr (quote_json k @ '':'' @ t))) (sort_key fst kvs) = Inr ts \<longleftrightarrow>
    list_all (\<lambda>(k, v). encodable v (Suc n)) kvs
    \<and> ts = map (\<lambda>(k, v). quote_json k @ '':'' @ json_stringify v) (sort_key fst (map (\<lambda>(k, v). (k, sort_keys v)) kvs))"
proof -
  let ?P = "\<lambda>(k, v). encodable v (Suc n)" and ?f = "\<lambda>(k, v). quote_json k @ '':'' @ json_stringify (sort_keys v)"
  have "each_result (\<lambda>(k, v). rbind (encode v (Suc n)) (\<lambda>t. Inr (quote_json k @ '':'' @ t))) (sort_key fst kvs) = Inr ts
      \<longleftrightarrow> list_all2 (\<lambda>x y. ?P x \<and> y = ?f x) (sort_key fst kvs) ts"
    unfolding each_result_Inr by (rule list_all2_on) (auto simp: rbind_Inr_iff assms)
  also have "\<dots> \<longleftrightarrow> list_all ?P kvs \<and> ts = map ?f (sort_key fst kvs)"
    unfolding list_all2_function by (simp add: list_all_iff)
  finally show ?thesis by (simp add: sort_map case_prod_beta' comp_def)
qed

lemma encode_iff: "encode v n = Inr s \<longleftrightarrow> encodable v n \<and> s = json_stringify (sort_keys v)"
proof (induction v n arbitrary: s rule: encode.induct)
  case (5 vs n)
  show ?case
  proof (cases "64 \<le> n")
    case False
    then show ?thesis using encode_arr[of vs n, OF 5[OF False]] by (auto simp: rbind_Inr_iff comp_def)
  qed simp
next
  case (6 kvs n)
  show ?case
  proof (cases "64 \<le> n")
    case False
    have ih: "encode v (Suc n) = Inr s \<longleftrightarrow> encodable v (Suc n) \<and> s = json_stringify (sort_keys v)" if "(k, v) \<in> set kvs" for k v s
      using 6[OF False, of "(k, v)" k v] that by simp
    show ?thesis using False encode_obj[of kvs n, OF ih] by (auto simp: rbind_Inr_iff)
  qed simp
qed auto

section \<open>JSON text determines the value\<close>

text \<open>Two numbers are the same when they print alike.\<close>

inductive same_json :: "json \<Rightarrow> json \<Rightarrow> bool" where
  same_null: "same_json JNull JNull"
| same_bool: "same_json (JBool b) (JBool b)"
| same_str: "same_json (JStr s) (JStr s)"
| same_num: "js_number_string x = js_number_string y \<Longrightarrow> same_json (JNum x) (JNum y)"
| same_arr: "list_all2 same_json vs ws \<Longrightarrow> same_json (JArr vs) (JArr ws)"
| same_obj: "list_all2 (\<lambda>p q. fst p = fst q \<and> same_json (snd p) (snd q)) kvs kws \<Longrightarrow> same_json (JObj kvs) (JObj kws)"

inductive_simps same_json_simps:
  "same_json JNull w" "same_json (JBool b) w" "same_json (JStr s) w" "same_json (JNum x) w"
  "same_json (JArr vs) w" "same_json (JObj kvs) w"

fun finite_json :: "json \<Rightarrow> bool" where
  "finite_json (JNum x) = is_finite_num x"
| "finite_json (JArr vs) = list_all finite_json vs"
| "finite_json (JObj kvs) = list_all (\<lambda>(k, v). finite_json v) kvs"
| "finite_json v = True"

lemma encodable_finite: "encodable v n \<Longrightarrow> finite_json v"
  by (induction v n rule: encodable.induct) (auto simp: list_all_iff)

lemma finite_sort_keys [simp]: "finite_json (sort_keys v) = finite_json v"
  by (induction v rule: sort_keys.induct) (auto simp: list_all_iff)

definition number_char :: "char \<Rightarrow> bool" where
  "number_char c \<longleftrightarrow> is_digit c \<or> c \<in> set ''.e+-''"

definition stops :: "string \<Rightarrow> bool" where
  "stops s \<longleftrightarrow> s = [] \<or> hd s \<in> set '',]}''"

lemma digits_number_chars: "list_all number_char (nat_digits n)"
  using nat_digits_all[of n] by (simp add: list_all_iff number_char_def)

lemma hd_digits: "is_digit (hd (nat_digits n))"
  using nat_digits_all[of n] by (simp add: list_all_iff)

lemma number_char_literals [simp]:
  "number_char (CHR ''0'')" "number_char (CHR ''.'')" "number_char (CHR ''e'')" "number_char (CHR ''+'')" "number_char (CHR ''-'')"
  by (simp_all add: number_char_def is_digit_def)

lemma layout_text: "list_all number_char (layout_digits c) \<and> layout_digits c \<noteq> [] \<and> is_digit (hd (layout_digits c))"
proof -
  obtain s k n where c: "c = (s, k, n)" by (cases c)
  have d: "list_all number_char (take m (nat_digits i))" "list_all number_char (drop m (nat_digits i))" for m i
    using digits_number_chars[of i] by (auto simp: list_all_iff dest: in_set_takeD in_set_dropD)
  have t: "0 < m \<Longrightarrow> take m (nat_digits s) \<noteq> [] \<and> hd (take m (nat_digits s)) = hd (nat_digits s)" for m by simp
  show ?thesis
    using digits_number_chars[of s] digits_number_chars d t hd_digits[of s]
    by (auto simp: c layout_digits_def Let_def list_all_iff is_digit_def)
qed

lemma number_text:
  assumes "is_finite_num x"
  shows "list_all number_char (js_number_string x)" "js_number_string x \<noteq> []"
    "is_digit (hd (js_number_string x)) \<or> hd (js_number_string x) = CHR ''-''"
proof -
  obtain q where "x = Fin q" using assms by (cases x) (simp_all add: is_finite_num_def)
  then show "list_all number_char (js_number_string x)" "js_number_string x \<noteq> []"
    "is_digit (hd (js_number_string x)) \<or> hd (js_number_string x) = CHR ''-''"
    using layout_text[of "shortest_digits q"] layout_text[of "shortest_digits (- q)"]
    by (simp_all add: js_number_string_def is_digit_def)
qed

lemma stops_number: "stops s \<Longrightarrow> s = [] \<or> \<not> number_char (hd s)"
  by (auto simp: stops_def number_char_def is_digit_def)

lemma number_prefix:
  assumes "is_finite_num x" "is_finite_num y" "js_number_string x @ s = js_number_string y @ t" "stops s" "stops t"
  shows "js_number_string x = js_number_string y \<and> s = t"
proof -
  note x = span_stop[OF number_text(1)[OF assms(1)] stops_number[OF assms(4)]]
  note y = span_stop[OF number_text(1)[OF assms(2)] stops_number[OF assms(5)]]
  show ?thesis using x y unfolding assms(3) by metis
qed

text \<open>Reading one character back from a quoted text.\<close>

definition unhex :: "char \<Rightarrow> nat" where
  "unhex c = (if (of_char c :: nat) < 58 then of_char c - 48 else of_char c - 87)"

definition unescape :: "string \<Rightarrow> char \<times> string" where
  "unescape s =
     (if (of_char (hd s) :: nat) \<noteq> 92 then (hd s, tl s)
      else let e = s ! 1
           in if e = CHR ''b'' then (char_of (8 :: nat), drop 2 s) else if e = CHR ''f'' then (char_of (12 :: nat), drop 2 s)
              else if e = CHR ''n'' then (char_of (10 :: nat), drop 2 s) else if e = CHR ''r'' then (char_of (13 :: nat), drop 2 s)
              else if e = CHR ''t'' then (char_of (9 :: nat), drop 2 s)
              else if e = CHR ''u'' then (char_of (16 * unhex (s ! 4) + unhex (s ! 5)), drop 6 s)
              else (e, drop 2 s))"

lemma unhex_hex: "i < 16 \<Longrightarrow> unhex (hex_digit i) = i"
  by (auto simp: unhex_def hex_digit_def take_bit_eq_mod)

lemma escape_special:
  "escape_char (CHR 0x22) = [CHR 0x5C, CHR 0x22]" "escape_char (CHR 0x5C) = [CHR 0x5C, CHR 0x5C]"
  "escape_char (CHR 0x08) = [CHR 0x5C, CHR ''b'']" "escape_char (CHR 0x0C) = [CHR 0x5C, CHR ''f'']"
  "escape_char (CHR 0x0A) = [CHR 0x5C, CHR ''n'']" "escape_char (CHR 0x0D) = [CHR 0x5C, CHR ''r'']"
  "escape_char (CHR 0x09) = [CHR 0x5C, CHR ''t'']"
  by code_simp+

lemma unescape_special:
  "unescape (CHR 0x5C # CHR 0x22 # s) = (CHR 0x22, s)" "unescape (CHR 0x5C # CHR 0x5C # s) = (CHR 0x5C, s)"
  "unescape (CHR 0x5C # CHR ''b'' # s) = (CHR 0x08, s)" "unescape (CHR 0x5C # CHR ''f'' # s) = (CHR 0x0C, s)"
  "unescape (CHR 0x5C # CHR ''n'' # s) = (CHR 0x0A, s)" "unescape (CHR 0x5C # CHR ''r'' # s) = (CHR 0x0D, s)"
  "unescape (CHR 0x5C # CHR ''t'' # s) = (CHR 0x09, s)"
proof -
  have "char_of (8 :: nat) = CHR 0x08" "char_of (12 :: nat) = CHR 0x0C" "char_of (10 :: nat) = CHR 0x0A"
    "char_of (13 :: nat) = CHR 0x0D" "char_of (9 :: nat) = CHR 0x09" by code_simp+
  then show "unescape (CHR 0x5C # CHR 0x22 # s) = (CHR 0x22, s)" "unescape (CHR 0x5C # CHR 0x5C # s) = (CHR 0x5C, s)"
    "unescape (CHR 0x5C # CHR ''b'' # s) = (CHR 0x08, s)" "unescape (CHR 0x5C # CHR ''f'' # s) = (CHR 0x0C, s)"
    "unescape (CHR 0x5C # CHR ''n'' # s) = (CHR 0x0A, s)" "unescape (CHR 0x5C # CHR ''r'' # s) = (CHR 0x0D, s)"
    "unescape (CHR 0x5C # CHR ''t'' # s) = (CHR 0x09, s)"
    by (simp_all add: unescape_def Let_def)
qed

definition special_chars :: string where
  "special_chars = [CHR 0x22, CHR 0x5C, CHR 0x08, CHR 0x0C, CHR 0x0A, CHR 0x0D, CHR 0x09]"

lemma special_code: "c \<in> set special_chars \<longleftrightarrow> (of_char c :: nat) \<in> {34, 92, 8, 12, 10, 13, 9}"
proof -
  have e: "(of_char c :: nat) = of_char d \<longleftrightarrow> c = d" for d by simp
  show ?thesis
    using e[of "CHR 0x22"] e[of "CHR 0x5C"] e[of "CHR 0x08"] e[of "CHR 0x0C"] e[of "CHR 0x0A"] e[of "CHR 0x0D"] e[of "CHR 0x09"]
    by (simp add: special_chars_def)
qed

lemma unescape_escape: "unescape (escape_char c @ s) = (c, s)"
proof (cases "c \<in> set special_chars")
  case True
  then show ?thesis unfolding special_chars_def by (auto simp: escape_special unescape_special)
next
  case False
  define n where "n = (of_char c :: nat)"
  have c: "char_of n = c" by (simp add: n_def)
  have n: "n \<notin> {34, 92, 8, 12, 10, 13, 9}" using False special_code by (simp add: n_def)
  show ?thesis
  proof (cases "n < 32")
    case True
    then have h: "unhex (hex_digit (n div 16)) = n div 16" "unhex (hex_digit (n mod 16)) = n mod 16" by (simp_all add: unhex_hex)
    have "escape_char c = [char_of (92 :: nat), CHR ''u'', CHR ''0'', CHR ''0'', hex_digit (n div 16), hex_digit (n mod 16)]"
      using True n by (simp add: escape_char_def Let_def n_def[symmetric])
    then show ?thesis by (simp add: unescape_def Let_def h c)
  next
    case plain: False
    then have "escape_char c = [c]" using n by (simp add: escape_char_def Let_def n_def[symmetric])
    then show ?thesis using n by (simp add: unescape_def n_def)
  qed
qed

lemma escape_prefix: "escape_char c @ s = escape_char d @ t \<Longrightarrow> c = d \<and> s = t"
  using unescape_escape by (metis prod.inject)

lemma escape_head: "escape_char c \<noteq> [] \<and> hd (escape_char c) \<noteq> char_of (34 :: nat)"
  by (auto simp: escape_char_def Let_def)

lemma quote_char: "char_of (34 :: nat) = CHR 0x22"
  by code_simp

lemma escapes_prefix:
  assumes "concat (map escape_char u) @ char_of (34 :: nat) # s = concat (map escape_char w) @ char_of (34 :: nat) # t"
  shows "u = w \<and> s = t"
  using assms
proof (induction u arbitrary: w)
  case Nil
  show ?case
  proof (cases w)
    case (Cons d w')
    then have "hd (escape_char d @ concat (map escape_char w') @ char_of (34 :: nat) # t) = char_of (34 :: nat)"
      using Nil by (metis append_Nil concat.simps(1,2) append_assoc list.map(1,2) list.sel(1))
    then show ?thesis using escape_head[of d] by simp
  qed (use Nil in simp)
next
  case (Cons c u)
  have "w \<noteq> []"
  proof
    assume "w = []"
    then have "hd (escape_char c @ concat (map escape_char u) @ char_of (34 :: nat) # s) = char_of (34 :: nat)"
      using Cons.prems by (metis append_Nil concat.simps(1,2) append_assoc list.map(1,2) list.sel(1))
    then show False using escape_head[of c] by simp
  qed
  then obtain d w' where w: "w = d # w'" by (cases w) auto
  with Cons.prems have "c = d \<and> concat (map escape_char u) @ char_of (34 :: nat) # s = concat (map escape_char w') @ char_of (34 :: nat) # t"
    by (intro escape_prefix) simp
  then show ?case using Cons.IH w by blast
qed

lemma quote_prefix: "quote_json u @ s = quote_json w @ t \<Longrightarrow> u = w \<and> s = t"
  using escapes_prefix[of u s w t] by (simp add: quote_json_def Let_def)

text \<open>The first character tells the kind of a value, and no value starts like the end of a list.\<close>

lemma number_head: "is_finite_num x \<Longrightarrow> hd (js_number_string x) \<notin> set (CHR 0x22 # ''ntf[{,]}'')"
  using number_text(3)[of x] by (auto simp: is_digit_def)

lemma text_nonempty: "finite_json v \<Longrightarrow> json_stringify v \<noteq> []"
  using number_text(2) by (cases v) (simp_all add: quote_json_def Let_def)

lemma text_kind:
  assumes "finite_json v" "finite_json w" "hd (json_stringify v) = hd (json_stringify w)"
  shows "v = JNull \<and> w = JNull \<or> (\<exists>b. v = JBool b \<and> w = JBool b) \<or> (\<exists>x y. v = JNum x \<and> w = JNum y)
    \<or> (\<exists>x y. v = JStr x \<and> w = JStr y) \<or> (\<exists>x y. v = JArr x \<and> w = JArr y) \<or> (\<exists>x y. v = JObj x \<and> w = JObj y)"
  using assms number_head
  by (cases v; cases w) (auto simp: quote_json_def Let_def quote_char split: if_splits)

lemma text_not_closing: "finite_json v \<Longrightarrow> hd (json_stringify v) \<notin> set '',]}''"
  using number_head by (cases v) (auto simp: quote_json_def Let_def quote_char)

lemma join_step: "js_join '','' (x # xs) @ c # s = x @ (if xs = [] then c # s else CHR '','' # js_join '','' xs @ c # s)"
  by (cases xs) simp_all

lemma join_prefix:
  assumes item: "\<And>x y s t. x \<in> set xs \<Longrightarrow> y \<in> set ys \<Longrightarrow> p x @ s = p y @ t \<Longrightarrow> stops s \<Longrightarrow> stops t \<Longrightarrow> R x y \<and> s = t"
    and head: "\<And>x. x \<in> set xs \<union> set ys \<Longrightarrow> p x \<noteq> [] \<and> hd (p x) \<notin> set '',]}''"
    and c: "c \<in> set '']}''"
    and eq: "js_join '','' (map p xs) @ c # s = js_join '','' (map p ys) @ c # t"
  shows "list_all2 R xs ys \<and> s = t"
  using item head eq
proof (induction xs arbitrary: ys)
  case Nil
  show ?case
  proof (cases ys)
    case (Cons y ys')
    then have "hd (p y) = c" using Nil(2)[of y] Nil(3) c by (auto simp: join_step hd_append dest: arg_cong[of _ _ hd] split: if_splits)
    then show ?thesis using Nil(2)[of y] Cons c by auto
  qed (use Nil(3) in simp)
next
  case (Cons x xs)
  show ?case
  proof (cases ys)
    case Nil
    then have "hd (p x) = c" using Cons.prems(2)[of x] Cons.prems(3) c
      by (auto simp: join_step hd_append dest: arg_cong[of _ _ hd] split: if_splits)
    then show ?thesis using Cons.prems(2)[of x] c by auto
  next
    case ys: (Cons y ys')
    let ?s = "if xs = [] then c # s else CHR '','' # js_join '','' (map p xs) @ c # s"
    let ?t = "if ys' = [] then c # t else CHR '','' # js_join '','' (map p ys') @ c # t"
    have "p x @ ?s = p y @ ?t" using Cons.prems(3) by (simp add: ys join_step)
    moreover have "stops ?s" "stops ?t" using c by (auto simp: stops_def)
    ultimately have r: "R x y" "?s = ?t" using Cons.prems(1)[of x y ?s ?t] ys by auto
    have "list_all2 R xs ys' \<and> s = t"
    proof (cases "xs = [] \<or> ys' = []")
      case True
      then show ?thesis using r(2) c by (auto split: if_splits)
    next
      case False
      then have "js_join '','' (map p xs) @ c # s = js_join '','' (map p ys') @ c # t" using r(2) by simp
      with Cons.IH[of ys'] Cons.prems(1,2) ys show ?thesis by auto
    qed
    then show ?thesis using r(1) ys by simp
  qed
qed

lemma text_same_kind:
  assumes "finite_json v" "finite_json w" "json_stringify v @ s = json_stringify w @ t"
  shows "v = JNull \<and> w = JNull \<or> (\<exists>b. v = JBool b \<and> w = JBool b) \<or> (\<exists>x y. v = JNum x \<and> w = JNum y)
    \<or> (\<exists>x y. v = JStr x \<and> w = JStr y) \<or> (\<exists>x y. v = JArr x \<and> w = JArr y) \<or> (\<exists>x y. v = JObj x \<and> w = JObj y)"
proof (rule text_kind[OF assms(1,2)])
  show "hd (json_stringify v) = hd (json_stringify w)"
    using assms(3) text_nonempty[OF assms(1)] text_nonempty[OF assms(2)] by (metis hd_append2)
qed

lemma text_prefix:
  assumes "finite_json v" "finite_json w" "json_stringify v @ s = json_stringify w @ t" "stops s" "stops t"
  shows "same_json v w \<and> s = t"
  using assms
proof (induction v arbitrary: w s t rule: json_stringify.induct)
  case (3 x)
  obtain y where w: "w = JNum y" using text_same_kind[OF 3(1-3)] by auto
  have f: "is_finite_num x" "is_finite_num y" using 3(1,2) by (simp_all add: w)
  have "js_number_string x @ s = js_number_string y @ t" using 3(3) f by (simp add: w)
  from number_prefix[OF f this 3(4,5)] show ?case by (simp add: w same_json_simps)
next
  case (4 u)
  obtain y where w: "w = JStr y" using text_same_kind[OF 4(1-3)] by auto
  have "u = y \<and> s = t" by (rule quote_prefix) (use 4(3) in \<open>simp add: w\<close>)
  then show ?case by (simp add: w same_json_simps)
next
  case (5 vs)
  obtain ws where w: "w = JArr ws" using text_same_kind[OF 5(2-4)] by auto
  have f: "list_all finite_json vs" "list_all finite_json ws" using 5(2,3) by (simp_all add: w)
  have "list_all2 same_json vs ws \<and> s = t"
  proof (rule join_prefix[of vs ws json_stringify])
    show "same_json x y \<and> s' = t'" if "x \<in> set vs" "y \<in> set ws" "json_stringify x @ s' = json_stringify y @ t'" "stops s'" "stops t'"
      for x y s' t' using 5(1)[OF that(1) _ _ that(3-5)] f that(1,2) by (simp add: list_all_iff)
    show "json_stringify x \<noteq> [] \<and> hd (json_stringify x) \<notin> set '',]}''" if "x \<in> set vs \<union> set ws" for x
    proof -
      have "finite_json x" using f that by (auto simp: list_all_iff)
      then show ?thesis using text_nonempty text_not_closing by blast
    qed
  qed (use 5(4) w in simp_all)
  then show ?case by (simp add: w same_json_simps)
next
  case (6 kvs)
  obtain kws where w: "w = JObj kws" using text_same_kind[OF 6(2-4)] by auto
  let ?p = "\<lambda>(k, v). quote_json k @ '':'' @ json_stringify v"
  have f: "list_all (\<lambda>(k, v). finite_json v) kvs" "list_all (\<lambda>(k, v). finite_json v) kws" using 6(2,3) by (simp_all add: w)
  have "list_all2 (\<lambda>p q. fst p = fst q \<and> same_json (snd p) (snd q)) kvs kws \<and> s = t"
  proof (rule join_prefix[of kvs kws ?p])
    show "(fst x = fst y \<and> same_json (snd x) (snd y)) \<and> s' = t'"
      if "x \<in> set kvs" "y \<in> set kws" "?p x @ s' = ?p y @ t'" "stops s'" "stops t'" for x y s' t'
    proof -
      obtain k v k' v' where xy: "x = (k, v)" "y = (k', v')" by (cases x, cases y)
      have "k = k' \<and> '':'' @ json_stringify v @ s' = '':'' @ json_stringify v' @ t'"
        using that(3) by (intro quote_prefix) (simp add: xy)
      then have k: "k = k'" and v: "json_stringify v @ s' = json_stringify v' @ t'" by simp_all
      have "finite_json v" "finite_json v'" using f that(1,2) by (auto simp: list_all_iff xy)
      from 6(1)[OF that(1)[unfolded xy] refl this v that(4,5)] k show ?thesis unfolding xy by simp
    qed
  qed (use 6(4) w in \<open>auto simp: quote_json_def Let_def quote_char\<close>)
  then show ?case by (simp add: w same_json_simps)
next
  case 1
  then have "w = JNull" using text_same_kind by blast
  then show ?case using 1(3) by (simp add: same_json_simps)
next
  case (2 b)
  then have "w = JBool b" using text_same_kind by blast
  then show ?case using 2(3) by (simp add: same_json_simps)
qed

section \<open>What the canonical text stands for\<close>

text \<open>The order of the keys of an object, at any depth, does not matter.\<close>

inductive reordered :: "json \<Rightarrow> json \<Rightarrow> bool" where
  reordered_leaf: "(\<forall>vs. v \<noteq> JArr vs) \<Longrightarrow> (\<forall>kvs. v \<noteq> JObj kvs) \<Longrightarrow> reordered v v"
| reordered_arr: "list_all2 reordered vs ws \<Longrightarrow> reordered (JArr vs) (JArr ws)"
| reordered_obj: "list_all2 (\<lambda>p q. fst p = fst q \<and> reordered (snd p) (snd q)) kvs kxs \<Longrightarrow> mset kxs = mset kws
     \<Longrightarrow> distinct (map fst kvs) \<Longrightarrow> reordered (JObj kvs) (JObj kws)"

lemma sort_unique:
  assumes "mset xs = mset ys" "distinct (map f xs)"
  shows "sort_key f xs = sort_key f ys"
proof (rule sort_key_inj_key_eq)
  show "mset xs = mset (sort_key f ys)" using assms(1) by simp
  show "inj_on f (set xs)" using assms(2) by (simp add: distinct_map)
  show "sorted (map f (sort_key f ys))" by simp
qed

lemma reordered_sort: "reordered v w \<Longrightarrow> sort_keys v = sort_keys w \<and> (\<forall>n. encodable v n = encodable w n)"
proof (induction rule: reordered.induct)
  case (reordered_leaf v)
  then show ?case by simp
next
  case (reordered_arr vs ws)
  then have "map sort_keys vs = map sort_keys ws" "list_all (\<lambda>v. encodable v n) vs = list_all (\<lambda>v. encodable v n) ws" for n
    by (induction rule: list_all2_induct) auto
  then show ?case by simp
next
  case (reordered_obj kvs kxs kws)
  let ?g = "\<lambda>(k, v). (k, sort_keys v)"
  have m: "map ?g kvs = map ?g kxs"
    and e: "list_all (\<lambda>(k, v). encodable v n) kvs = list_all (\<lambda>(k, v). encodable v n) kxs" for n
    using reordered_obj(1) by (induction rule: list_all2_induct) (auto simp: case_prod_beta')
  have k: "map fst (map ?g xs) = map fst xs" for xs by (simp add: case_prod_beta' comp_def)
  have "distinct (map fst (map ?g kxs))" using reordered_obj(3) k[of kvs] unfolding m by simp
  moreover have "mset (map ?g kxs) = mset (map ?g kws)" using reordered_obj(2) by (metis mset_map)
  ultimately have "sort_key fst (map ?g kxs) = sort_key fst (map ?g kws)" by (intro sort_unique)
  moreover have "set kxs = set kws" using reordered_obj(2) by (metis set_mset_mset)
  ultimately show ?case using m e by (simp add: list_all_iff)
qed

lemma same_json_text: "same_json v w \<Longrightarrow> finite_json v \<Longrightarrow> finite_json w \<Longrightarrow> json_stringify v = json_stringify w"
proof (induction rule: same_json.induct)
  case (same_arr vs ws)
  then have "map json_stringify vs = map json_stringify ws" by (induction rule: list_all2_induct) auto
  then show ?case by simp
next
  case (same_obj kvs kws)
  let ?p = "\<lambda>(k, v). quote_json k @ '':'' @ json_stringify v"
  have "map ?p kvs = map ?p kws" using same_obj by (induction rule: list_all2_induct) (auto simp: case_prod_beta')
  then show ?case by simp
qed simp_all

lemma canonical_iff:
  assumes "canonicalCommandJson v = Inr s" "canonicalCommandJson w = Inr t"
  shows "s = t \<longleftrightarrow> same_json (sort_keys v) (sort_keys w)"
proof -
  have v: "finite_json (sort_keys v)" "s = json_stringify (sort_keys v)"
    and w: "finite_json (sort_keys w)" "t = json_stringify (sort_keys w)"
    using assms encodable_finite by (auto simp: canonicalCommandJson_def encode_iff)
  show ?thesis
    using same_json_text[OF _ v(1) w(1)] text_prefix[OF v(1) w(1), of "[]" "[]"] by (auto simp: v(2) w(2) stops_def)
qed

lemma canonical_reordered: "reordered v w \<Longrightarrow> canonicalCommandJson v = Inr s \<longleftrightarrow> canonicalCommandJson w = Inr s"
  using reordered_sort by (simp add: canonicalCommandJson_def encode_iff)

end
