(* ===== verification/CommandEvidence.thy ===== *)
theory CommandEvidence
  imports CommandJson HostExample
begin

text \<open>
  The evidence a host gives of a command (\<^verbatim>\<open>runtime/command-evidence.ts\<close>, \<^verbatim>\<open>supervisor/src/command-event.ts\<close> and
  \<^verbatim>\<open>receiptToResponse\<close> of \<^verbatim>\<open>supervisor/src/command-receipts.ts\<close>): receipts, terminal outcomes, output references
  and the events that carry them, as JSON that every reader validates.  A validator returns the value or the
  reason of its \<^verbatim>\<open>CommandEvidenceError\<close>.  Of \<^verbatim>\<open>Date.parse\<close>, which outside ISO texts is up to the engine, only whether
  it gives a number is used, and that is the argument \<open>dated\<close>.
\<close>

section \<open>Checks of values\<close>

definition requireValue :: "bool \<Rightarrow> string \<Rightarrow> string + unit" where
  "requireValue b reason = (if b then Inr () else Inl reason)"

definition object_of :: "json option \<Rightarrow> string \<Rightarrow> string + json" where
  "object_of v reason = (case v of Some (JObj kvs) \<Rightarrow> Inr (JObj kvs) | _ \<Rightarrow> Inl reason)"

definition keys_of :: "json \<Rightarrow> string list" where
  "keys_of v = (case v of JObj kvs \<Rightarrow> map fst kvs | _ \<Rightarrow> [])"

definition exactKeys :: "json \<Rightarrow> string list \<Rightarrow> string \<Rightarrow> string + unit" where
  "exactKeys v ks reason =
     requireValue (length (keys_of v) = length ks \<and> list_all (\<lambda>k. own_prop v k \<noteq> None) ks) reason"

definition text_ok :: "json option \<Rightarrow> nat \<Rightarrow> bool" where
  "text_ok v maximum = (case v of Some (JStr s) \<Rightarrow> s \<noteq> [] \<and> length s \<le> maximum | _ \<Rightarrow> False)"

definition integer_in :: "json option \<Rightarrow> int \<Rightarrow> int \<Rightarrow> bool" where
  "integer_in v lo hi =
     (case v of Some (JNum (Fin q)) \<Rightarrow> q = of_int \<lfloor>q\<rfloor> \<and> \<bar>\<lfloor>q\<rfloor>\<bar> \<le> 9007199254740991 \<and> lo \<le> \<lfloor>q\<rfloor> \<and> \<lfloor>q\<rfloor> \<le> hi | _ \<Rightarrow> False)"

definition hex_lower :: "char \<Rightarrow> bool" where
  "hex_lower c \<longleftrightarrow> is_digit c \<or> c \<in> set ''abcdef''"

definition hex_any :: "char \<Rightarrow> bool" where
  "hex_any c \<longleftrightarrow> is_digit c \<or> c \<in> set ''abcdefABCDEF''"

definition UUID :: "string \<Rightarrow> bool" where
  "UUID s \<longleftrightarrow> map length (js_split (CHR ''-'') s) = [8, 4, 4, 4, 12] \<and> list_all (list_all hex_any) (js_split (CHR ''-'') s)"

definition uuid_ok :: "json option \<Rightarrow> bool" where
  "uuid_ok v = (case v of Some (JStr s) \<Rightarrow> UUID s | _ \<Rightarrow> False)"

definition digest_ok :: "json option \<Rightarrow> bool" where
  "digest_ok v = (case v of Some (JStr s) \<Rightarrow> length s = 64 \<and> list_all hex_lower s | _ \<Rightarrow> False)"

text \<open>A decimal without leading zero, of at most 19 digits and at most \<^verbatim>\<open>2^63 - 1\<close>.\<close>

definition sequence_text :: "string \<Rightarrow> bool" where
  "sequence_text s \<longleftrightarrow>
     s \<noteq> [] \<and> list_all is_digit s \<and> length s \<le> 19 \<and> (hd s = CHR ''0'' \<longrightarrow> s = ''0'') \<and> int (digits_val s) \<le> MAX_HOST_EVENT_SEQUENCE"

definition sequence_ok :: "json option \<Rightarrow> bool" where
  "sequence_ok v = (case v of Some (JStr s) \<Rightarrow> sequence_text s | _ \<Rightarrow> False)"

definition sequence_less :: "json option \<Rightarrow> json option \<Rightarrow> bool" where
  "sequence_less v w =
     (case (v, w) of (Some (JStr s), Some (JStr t)) \<Rightarrow> digits_val s < digits_val t | _ \<Rightarrow> False)"

definition HOST_KEY :: "json option \<Rightarrow> bool" where
  "HOST_KEY v =
     (case v of Some (JStr s) \<Rightarrow> 8 \<le> length s \<and> length s \<le> 64
        \<and> list_all (\<lambda>c. is_digit c \<or> is_upper_ascii c \<or> is_lower_ascii c \<or> c \<in> set ''_-'') s | _ \<Rightarrow> False)"

definition str_in :: "json option \<Rightarrow> string list \<Rightarrow> bool" where
  "str_in v ts = (case v of Some (JStr s) \<Rightarrow> s \<in> set ts | _ \<Rightarrow> False)"

text \<open>\<^verbatim>\<open>\d{4}-\d{2}-\d{2}T\d{2}:\d{2}:\d{2}(\.\d+)?(Z|[+-]\d{2}:\d{2})\<close>\<close>

definition zone_text :: "string \<Rightarrow> bool" where
  "zone_text s \<longleftrightarrow> s = ''Z'' \<or>
     (length s = 6 \<and> hd s \<in> set ''+-'' \<and> list_all is_digit [s ! 1, s ! 2, s ! 4, s ! 5] \<and> s ! 3 = CHR '':'')"

definition timestamp_text :: "string \<Rightarrow> bool" where
  "timestamp_text s \<longleftrightarrow>
     20 \<le> length s
     \<and> list_all (\<lambda>i. is_digit (s ! i)) [0, 1, 2, 3, 5, 6, 8, 9, 11, 12, 14, 15, 17, 18]
     \<and> s ! 4 = CHR ''-'' \<and> s ! 7 = CHR ''-'' \<and> s ! 10 = CHR ''T'' \<and> s ! 13 = CHR '':'' \<and> s ! 16 = CHR '':''
     \<and> (let r = drop 19 s
        in if hd r = CHR ''.'' then takeWhile is_digit (tl r) \<noteq> [] \<and> zone_text (dropWhile is_digit (tl r)) else zone_text r)"

definition date_ok :: "(string \<Rightarrow> bool) \<Rightarrow> json option \<Rightarrow> bool" where
  "date_ok dated v = (case v of Some (JStr s) \<Rightarrow> dated s | _ \<Rightarrow> False)"

definition timestamp_ok :: "(string \<Rightarrow> bool) \<Rightarrow> json option \<Rightarrow> bool" where
  "timestamp_ok dated v = (case v of Some (JStr s) \<Rightarrow> timestamp_text s \<and> dated s | _ \<Rightarrow> False)"

text \<open>Checks in order; the first that fails gives the reason.\<close>

fun checks :: "(bool \<times> string) list \<Rightarrow> string + unit" where
  "checks [] = Inr ()"
| "checks ((b, reason) # cs) = rbind (requireValue b reason) (\<lambda>_. checks cs)"

section \<open>References to objects and output\<close>

definition OBJECT_KEYS :: "string list" where
  "OBJECT_KEYS = [''objectId'', ''generation'', ''sizeBytes'', ''sha256'']"

definition OUTPUT_KEYS :: "string list" where
  "OUTPUT_KEYS = OBJECT_KEYS @ [''commandId'', ''hostSessionId'', ''acceptedSequence'', ''terminalSequence'']"

definition validateObjectReference :: "json \<Rightarrow> string + unit" where
  "validateObjectReference v = checks
     [(uuid_ok (own_prop v ''objectId'') \<and> integer_in (own_prop v ''generation'') 1 2147483647
       \<and> integer_in (own_prop v ''sizeBytes'') 0 9007199254740991 \<and> digest_ok (own_prop v ''sha256''), ''object_reference'')]"

definition PROMPT_OBJECT_KEYS :: "string list" where
  "PROMPT_OBJECT_KEYS = OBJECT_KEYS @
     [''kind'', ''logicalName'', ''mimeType'', ''retentionClass'', ''state'', ''createdAt'', ''sealedAt'', ''expiresAt'', ''deletedAt'']"

definition validatePromptObject :: "(string \<Rightarrow> bool) \<Rightarrow> json \<Rightarrow> string + unit" where
  "validatePromptObject dated entry =
     rbind (object_of (Some entry) ''prompt_object'') (\<lambda>m.
     rbind (exactKeys m PROMPT_OBJECT_KEYS ''prompt_object_keys'') (\<lambda>_.
     rbind (validateObjectReference m) (\<lambda>_.
       checks [(text_ok (own_prop m ''kind'') 128 \<and> text_ok (own_prop m ''logicalName'') 255 \<and> text_ok (own_prop m ''mimeType'') 255
         \<and> text_ok (own_prop m ''retentionClass'') 128 \<and> own_prop m ''state'' = Some (JStr ''available'')
         \<and> own_prop m ''deletedAt'' = Some JNull
         \<and> text_ok (own_prop m ''createdAt'') 64 \<and> date_ok dated (own_prop m ''createdAt'')
         \<and> text_ok (own_prop m ''sealedAt'') 64 \<and> date_ok dated (own_prop m ''sealedAt'')
         \<and> (own_prop m ''expiresAt'' = Some JNull \<or> text_ok (own_prop m ''expiresAt'') 64 \<and> date_ok dated (own_prop m ''expiresAt'')),
         ''prompt_object_metadata'')])))"

definition validatePromptObjects :: "(string \<Rightarrow> bool) \<Rightarrow> json option \<Rightarrow> string + unit" where
  "validatePromptObjects dated v =
     (case v of
        Some (JArr entries) \<Rightarrow>
          (if length entries \<le> 32 then rbind (each_result (validatePromptObject dated) entries) (\<lambda>_. Inr ())
           else Inl ''prompt_objects'')
      | _ \<Rightarrow> Inl ''prompt_objects'')"

definition MAX_EVIDENCE_BYTES :: nat where "MAX_EVIDENCE_BYTES = 2097152"

definition validateJson :: "json \<Rightarrow> string + unit" where
  "validateJson v =
     (case canonicalCommandJson v of
        Inl _ \<Rightarrow> Inl ''evidence_json''
      | Inr encoded \<Rightarrow> checks [(length encoded \<le> MAX_EVIDENCE_BYTES \<and> utf8_length encoded \<le> int MAX_EVIDENCE_BYTES, ''evidence_size'')])"

text \<open>A missing property reads as \<^verbatim>\<open>undefined\<close>, which is no JSON value.\<close>

definition parseCommandOutputReferenceV2 :: "json option \<Rightarrow> string + json" where
  "parseCommandOutputReferenceV2 v =
     (case v of
        None \<Rightarrow> Inl ''evidence_json''
      | Some v \<Rightarrow>
          rbind (validateJson v) (\<lambda>_.
          rbind (object_of (Some v) ''output_reference'') (\<lambda>r.
          rbind (exactKeys r OUTPUT_KEYS ''output_reference_keys'') (\<lambda>_.
          rbind (validateObjectReference r) (\<lambda>_.
          rbind (checks
            [(uuid_ok (own_prop r ''commandId'') \<and> text_ok (own_prop r ''hostSessionId'') 128, ''output_binding''),
             (sequence_ok (own_prop r ''acceptedSequence'') \<and> sequence_ok (own_prop r ''terminalSequence'')
              \<and> sequence_less (own_prop r ''acceptedSequence'') (own_prop r ''terminalSequence''), ''output_sequence'')]) (\<lambda>_.
          Inr r))))))"

definition MANIFEST_KEYS :: "string list" where
  "MANIFEST_KEYS = [''schema'', ''commandId'', ''hostKey'', ''runId'', ''assignmentId'', ''assignmentEpoch'', ''hostSessionId'',
     ''requestSha256'', ''streamId'', ''acceptedSequence'', ''terminalSequence'', ''response'']"

definition parseCommandOutputManifestV2 :: "json \<Rightarrow> string + json" where
  "parseCommandOutputManifestV2 v =
     rbind (validateJson v) (\<lambda>_.
     rbind (object_of (Some v) ''output_manifest'') (\<lambda>m.
     rbind (exactKeys m MANIFEST_KEYS ''manifest_keys'') (\<lambda>_.
     rbind (checks
       [(own_prop m ''schema'' = Some (JStr ''maister.command-output.v2'') \<and> uuid_ok (own_prop m ''commandId'')
         \<and> uuid_ok (own_prop m ''assignmentId'') \<and> uuid_ok (own_prop m ''streamId''), ''manifest_identity''),
        (text_ok (own_prop m ''hostKey'') 64 \<and> HOST_KEY (own_prop m ''hostKey'') \<and> text_ok (own_prop m ''runId'') 128
         \<and> text_ok (own_prop m ''hostSessionId'') 128 \<and> integer_in (own_prop m ''assignmentEpoch'') 1 2147483647
         \<and> digest_ok (own_prop m ''requestSha256''), ''manifest_fence''),
        (sequence_ok (own_prop m ''acceptedSequence'') \<and> sequence_ok (own_prop m ''terminalSequence'')
         \<and> sequence_less (own_prop m ''acceptedSequence'') (own_prop m ''terminalSequence''), ''manifest_sequence'')]) (\<lambda>_.
     rbind (object_of (own_prop m ''response'') ''manifest_response'') (\<lambda>response.
     rbind (exactKeys response OBJECT_KEYS ''manifest_response_keys'') (\<lambda>_.
     rbind (validateObjectReference response) (\<lambda>_.
     Inr m)))))))"

section \<open>Terminal outcomes\<close>

definition TERMINAL_KEYS :: "string list" where
  "TERMINAL_KEYS = [''outcomeVersion'', ''status'', ''eventId'', ''streamId'', ''sequence'', ''result'', ''error'']"

definition STOP_REASONS :: "string list" where
  "STOP_REASONS = [''end_turn'', ''max_tokens'', ''max_turn_requests'', ''refusal'', ''cancelled'']"

definition validatePromptResult :: "(string \<Rightarrow> bool) \<Rightarrow> json \<Rightarrow> json \<Rightarrow> json \<Rightarrow> string + unit" where
  "validatePromptResult dated receipt terminal result =
     rbind (checks
       [(str_in (own_prop result ''stopReason'') STOP_REASONS, ''prompt_stop_reason''),
        (list_all (\<lambda>k. k \<in> {''stopReason'', ''output'', ''runtimeObjects''}) (keys_of result), ''prompt_result_keys'')]) (\<lambda>_.
     rbind (if own_prop result ''runtimeObjects'' \<noteq> None
            then validatePromptObjects dated (own_prop result ''runtimeObjects'') else Inr ()) (\<lambda>_.
     rbind (parseCommandOutputReferenceV2 (own_prop result ''output'')) (\<lambda>reference.
       checks [(own_prop reference ''commandId'' = own_prop receipt ''commandId''
         \<and> own_prop reference ''hostSessionId'' = own_prop receipt ''hostSessionId''
         \<and> own_prop reference ''terminalSequence'' = own_prop terminal ''sequence'', ''prompt_output_binding'')])))"

definition validateFailure :: "json \<Rightarrow> string + unit" where
  "validateFailure terminal =
     rbind (checks [(str_in (own_prop terminal ''status'') [''failed'', ''fenced''] \<and> own_prop terminal ''result'' = Some JNull,
       ''terminal_failure'')]) (\<lambda>_.
     rbind (object_of (own_prop terminal ''error'') ''terminal_error'') (\<lambda>failure.
     rbind (checks [(list_all (\<lambda>k. k \<in> {''code'', ''message'', ''details''}) (keys_of failure)
       \<and> text_ok (own_prop failure ''code'') 128 \<and> text_ok (own_prop failure ''message'') 2097152, ''terminal_error_shape'')]) (\<lambda>_.
     rbind (if own_prop failure ''details'' \<noteq> None
            then rbind (object_of (own_prop failure ''details'') ''terminal_error_details'') (\<lambda>_. Inr ()) else Inr ()) (\<lambda>_.
       checks [((own_prop terminal ''status'' = Some (JStr ''fenced'')) = (own_prop failure ''code'' = Some (JStr ''FENCED'')),
         ''terminal_error_status'')]))))"

definition validateTerminal :: "(string \<Rightarrow> bool) \<Rightarrow> json \<Rightarrow> string + unit" where
  "validateTerminal dated receipt =
     (if own_prop receipt ''phase'' = Some (JStr ''accepted'')
      then checks [(own_prop receipt ''terminal'' = Some JNull, ''accepted_receipt'')]
      else
        rbind (checks [(str_in (own_prop receipt ''phase'') [''completed'', ''rejected''], ''receipt_phase'')]) (\<lambda>_.
        rbind (object_of (own_prop receipt ''terminal'') ''terminal'') (\<lambda>terminal.
        rbind (exactKeys terminal TERMINAL_KEYS ''terminal_keys'') (\<lambda>_.
        rbind (checks [(own_prop terminal ''outcomeVersion'' = Some (json_int 2) \<and> uuid_ok (own_prop terminal ''eventId'')
          \<and> uuid_ok (own_prop terminal ''streamId'') \<and> sequence_ok (own_prop terminal ''sequence''), ''terminal_identity'')]) (\<lambda>_.
          if own_prop receipt ''phase'' = Some (JStr ''completed'')
          then rbind (checks [(own_prop terminal ''status'' = Some (JStr ''succeeded'') \<and> own_prop terminal ''error'' = Some JNull,
                 ''terminal_success'')]) (\<lambda>_.
               rbind (object_of (own_prop terminal ''result'') ''terminal_result'') (\<lambda>result.
                 if own_prop receipt ''kind'' = Some (JStr ''session.prompt'')
                 then validatePromptResult dated receipt terminal result else Inr ()))
          else validateFailure terminal)))))"

section \<open>Receipts and events\<close>

definition COMMAND_KINDS :: "string list" where
  "COMMAND_KINDS = [''workspace.adopt'', ''workspace.release'', ''session.create'', ''session.prompt'', ''session.input'',
     ''session.steer'', ''session.cancel'', ''session.checkpoint'', ''session.delete'', ''runtime_object.reserve'',
     ''runtime_object.upload'', ''runtime_object.delete'']"

definition RECEIPT_KEYS :: "string list" where
  "RECEIPT_KEYS = [''receiptVersion'', ''commandId'', ''kind'', ''hostKey'', ''runId'', ''assignmentId'', ''assignmentEpoch'',
     ''hostSessionId'', ''requestSchema'', ''requestSha256'', ''phase'', ''httpStatus'', ''receivedAt'', ''terminal'']"

definition REQUEST_SCHEMA :: string where "REQUEST_SCHEMA = ''maister.command.request.v2''"

definition phase_status_ok :: "json \<Rightarrow> bool" where
  "phase_status_ok r =
     (if own_prop r ''phase'' = Some (JStr ''accepted'') then integer_in (own_prop r ''httpStatus'') 202 202
      else if own_prop r ''phase'' = Some (JStr ''completed'') then integer_in (own_prop r ''httpStatus'') 200 299
      else integer_in (own_prop r ''httpStatus'') 400 599)"

definition parseCommandReceiptV2 :: "(string \<Rightarrow> bool) \<Rightarrow> json \<Rightarrow> string + json" where
  "parseCommandReceiptV2 dated v =
     rbind (validateJson v) (\<lambda>_.
     rbind (object_of (Some v) ''receipt'') (\<lambda>r.
     rbind (exactKeys r RECEIPT_KEYS ''receipt_keys'') (\<lambda>_.
     rbind (checks
       [(own_prop r ''receiptVersion'' = Some (json_int 2) \<and> own_prop r ''requestSchema'' = Some (JStr REQUEST_SCHEMA), ''receipt_version''),
        (uuid_ok (own_prop r ''commandId'') \<and> uuid_ok (own_prop r ''assignmentId'') \<and> text_ok (own_prop r ''kind'') 64
         \<and> text_ok (own_prop r ''runId'') 128 \<and> integer_in (own_prop r ''assignmentEpoch'') 1 2147483647, ''receipt_identity''),
        (str_in (own_prop r ''kind'') COMMAND_KINDS, ''receipt_kind''),
        (text_ok (own_prop r ''hostKey'') 64 \<and> HOST_KEY (own_prop r ''hostKey'') \<and> digest_ok (own_prop r ''requestSha256'')
         \<and> (own_prop r ''hostSessionId'' = Some JNull \<or> text_ok (own_prop r ''hostSessionId'') 128), ''receipt_fence''),
        (text_ok (own_prop r ''receivedAt'') 64 \<and> timestamp_ok dated (own_prop r ''receivedAt'')
         \<and> integer_in (own_prop r ''httpStatus'') 100 599, ''receipt_transport''),
        (own_prop r ''kind'' \<noteq> Some (JStr ''session.prompt'') \<or> own_prop r ''hostSessionId'' \<noteq> Some JNull, ''prompt_target''),
        (phase_status_ok r, ''receipt_phase_status'')]) (\<lambda>_.
     rbind (validateTerminal dated r) (\<lambda>_.
     Inr r)))))"

record event_position =
  ep_event :: ident
  ep_stream :: ident
  ep_sequence :: string
  ep_session :: "ident option"

definition EVENT_REQUIRED_KEYS :: "string list" where
  "EVENT_REQUIRED_KEYS = [''commandId'', ''kind'', ''phase'', ''sourceCommandId'', ''requestSchema'', ''requestSha256'', ''terminal'']"

definition EVENT_OPTIONAL_KEYS :: "string list" where
  "EVENT_OPTIONAL_KEYS = [''sourceMonotonicId'', ''sessionName'', ''nodeAttemptId'']"

definition with_key :: "string \<Rightarrow> json \<Rightarrow> json \<Rightarrow> json" where
  "with_key k v o1 = (case o1 of JObj kvs \<Rightarrow> JObj (filter (\<lambda>e. fst e \<noteq> k) kvs @ [(k, v)]) | _ \<Rightarrow> o1)"

definition parseCommandEventPayloadV2 :: "(string \<Rightarrow> bool) \<Rightarrow> json \<Rightarrow> event_position \<Rightarrow> string + json" where
  "parseCommandEventPayloadV2 dated v pos =
     rbind (validateJson v) (\<lambda>_.
     rbind (object_of (Some v) ''command_event'') (\<lambda>p.
     rbind (checks
       [(list_all (\<lambda>k. own_prop p k \<noteq> None) EVENT_REQUIRED_KEYS
         \<and> list_all (\<lambda>k. k \<in> set EVENT_REQUIRED_KEYS \<or> k \<in> set EVENT_OPTIONAL_KEYS) (keys_of p), ''command_event_keys''),
        (uuid_ok (own_prop p ''commandId'') \<and> own_prop p ''sourceCommandId'' = own_prop p ''commandId''
         \<and> own_prop p ''kind'' = Some (JStr ''session.prompt'') \<and> own_prop p ''requestSchema'' = Some (JStr REQUEST_SCHEMA)
         \<and> digest_ok (own_prop p ''requestSha256'') \<and> text_ok (map_option JStr (ep_session pos)) 128, ''command_event_identity''),
        (own_prop p ''sourceMonotonicId'' = None \<or> integer_in (own_prop p ''sourceMonotonicId'') 0 9007199254740991, ''command_event_frame''),
        (own_prop p ''sessionName'' = None \<or> text_ok (own_prop p ''sessionName'') 128, ''command_event_session''),
        (own_prop p ''nodeAttemptId'' = None \<or> uuid_ok (own_prop p ''nodeAttemptId''), ''command_event_attempt'')]) (\<lambda>_.
     rbind (validateTerminal dated (with_key ''hostSessionId'' (json_opt (ep_session pos)) p)) (\<lambda>_.
     rbind (case own_prop p ''terminal'' of
              Some (JObj t) \<Rightarrow>
                checks [(own_prop (JObj t) ''eventId'' = Some (JStr (ep_event pos))
                  \<and> own_prop (JObj t) ''streamId'' = Some (JStr (ep_stream pos))
                  \<and> own_prop (JObj t) ''sequence'' = Some (JStr (ep_sequence pos)), ''command_event_position'')]
            | _ \<Rightarrow> Inr ()) (\<lambda>_.
     Inr p)))))"

section \<open>What the host writes\<close>

definition isErrorBody :: "json \<Rightarrow> bool" where
  "isErrorBody body \<longleftrightarrow>
     (\<exists>c \<in> set_option (own_prop body ''code''). case c of JStr _ \<Rightarrow> True | _ \<Rightarrow> False)
     \<and> (\<exists>m \<in> set_option (own_prop body ''message''). case m of JStr _ \<Rightarrow> True | _ \<Rightarrow> False)"

fun phase_text :: "receipt_phase \<Rightarrow> string" where
  "phase_text Accepted = ''accepted''" | "phase_text Completed = ''completed''" | "phase_text Rejected = ''rejected''"

definition terminal_json :: "receipt_row \<Rightarrow> json" where
  "terminal_json row =
     (let failed = rc_phase row = Rejected;
          err = (if failed \<and> isErrorBody (rc_body row) then rc_body row else JNull)
      in if rc_phase row = Accepted then JNull
         else JObj [(''outcomeVersion'', json_int 2),
           (''status'', JStr (if failed then (if own_prop err ''code'' = Some (JStr ''FENCED'') then ''fenced'' else ''failed'') else ''succeeded'')),
           (''eventId'', json_opt (rc_event row)), (''streamId'', json_opt (rc_terminal_stream row)),
           (''sequence'', json_opt (rc_terminal_sequence row)),
           (''result'', if failed then JNull else rc_body row), (''error'', err)])"

definition receiptToResponseV2 :: "(string \<Rightarrow> bool) \<Rightarrow> receipt_row \<Rightarrow> string + json" where
  "receiptToResponseV2 dated row = parseCommandReceiptV2 dated (JObj
     [(''receiptVersion'', json_int 2), (''commandId'', JStr (rc_command row)), (''kind'', JStr (rc_kind row)),
      (''hostKey'', json_opt (rc_host_key row)), (''runId'', JStr (rc_run row)), (''assignmentId'', json_opt (rc_assignment row)),
      (''assignmentEpoch'', json_int (rc_epoch row)), (''hostSessionId'', json_opt (rc_session row)),
      (''requestSchema'', json_opt (rc_schema row)), (''requestSha256'', json_opt (rc_digest row)),
      (''phase'', JStr (phase_text (rc_phase row))), (''httpStatus'', json_int (rc_status row)),
      (''receivedAt'', JStr (js_toISOString (rc_received_at row))), (''terminal'', terminal_json row)])"

text \<open>
  The payload of the event of a version-2 receipt.  Asking for the position may create the stream, and that
  stays when a check fails afterwards.  A receipt of another version has no native form.
\<close>

record event_metadata =
  em_monotonic :: "int option"
  em_session_name :: "string option"
  em_attempt :: "ident option"

definition no_metadata :: event_metadata where
  "no_metadata = \<lparr>em_monotonic = None, em_session_name = None, em_attempt = None\<rparr>"

definition metadata_json :: "event_metadata \<Rightarrow> (string \<times> json) list" where
  "metadata_json m =
     (case em_monotonic m of Some n \<Rightarrow> [(''sourceMonotonicId'', json_int n)] | None \<Rightarrow> [])
     @ (case em_session_name m of Some s \<Rightarrow> [(''sessionName'', JStr s)] | None \<Rightarrow> [])
     @ (case em_attempt m of Some a \<Rightarrow> [(''nodeAttemptId'', JStr a)] | None \<Rightarrow> [])"

definition native_payload ::
  "(string \<Rightarrow> bool) \<Rightarrow> event_position \<Rightarrow> event_metadata \<Rightarrow> receipt_row \<Rightarrow> string + json" where
  "native_payload dated pos metadata row =
     rbind (receiptToResponseV2 dated (row\<lparr>rc_event := Some (ep_event pos), rc_terminal_stream := Some (ep_stream pos),
              rc_terminal_sequence := Some (ep_sequence pos)\<rparr>)) (\<lambda>receipt.
       parseCommandEventPayloadV2 dated (JObj (metadata_json metadata @
         [(''commandId'', JStr (rc_command row)), (''kind'', JStr (rc_kind row)), (''phase'', JStr (phase_text (rc_phase row))),
          (''sourceCommandId'', JStr (rc_command row)),
          (''requestSchema'', case own_prop receipt ''requestSchema'' of Some v \<Rightarrow> v | None \<Rightarrow> JNull),
          (''requestSha256'', case own_prop receipt ''requestSha256'' of Some v \<Rightarrow> v | None \<Rightarrow> JNull),
          (''terminal'', case own_prop receipt ''terminal'' of Some v \<Rightarrow> v | None \<Rightarrow> JNull)])) pos)"

definition commandReceiptPayloadV2 ::
  "(string \<Rightarrow> bool) \<Rightarrow> host_identity \<Rightarrow> ident \<Rightarrow> event_metadata \<Rightarrow> receipt_row \<Rightarrow> host_db
     \<Rightarrow> host_db \<times> (host_error + json)" where
  "commandReceiptPayloadV2 dated h fresh metadata row d =
     (case nextRuntimeEventPosition fresh d of
        Inl e \<Rightarrow> (d, Inl e)
      | Inr ((stream, seq), d') \<Rightarrow>
          (if rc_version row \<noteq> 2 then (d', Inl PlainError)
           else case native_payload dated \<lparr>ep_event = hi_event_id h (hi_key h) stream seq, ep_stream = stream, ep_sequence = seq,
                    ep_session = rc_session row\<rparr> metadata row of
                  Inl _ \<Rightarrow> (d', Inl PlainError) | Inr p \<Rightarrow> (d', Inr p)))"

section \<open>Evidence is bound to its place\<close>

lemma requireValue_Inr [simp]: "requireValue b reason = Inr u \<longleftrightarrow> b"
  by (simp add: requireValue_def)

lemma checks_Inr [simp]: "checks cs = Inr u \<longleftrightarrow> list_all fst cs"
  by (induction cs) (auto simp: rbind_Inr_iff)

lemma exactKeys_Inr [simp]: "exactKeys v ks reason = Inr u \<longleftrightarrow> length (keys_of v) = length ks \<and> list_all (\<lambda>k. own_prop v k \<noteq> None) ks"
  by (simp add: exactKeys_def)

lemma object_of_Inr: "object_of v reason = Inr w \<longleftrightarrow> v = Some w \<and> (\<exists>kvs. w = JObj kvs)"
  by (auto simp: object_of_def split: option.splits json.splits)

lemma with_key_other: "k \<noteq> j \<Longrightarrow> own_prop (with_key j v (JObj kvs)) k = own_prop (JObj kvs) k"
proof -
  assume "k \<noteq> j"
  then have "map_of (filter (\<lambda>e. fst e \<noteq> j) kvs @ [(j, v)]) k = map_of kvs k" by (induction kvs) auto
  then show ?thesis by (simp add: with_key_def own_prop_def)
qed

lemma with_key_same: "own_prop (with_key j v (JObj kvs)) j = Some v"
proof -
  have "map_of (filter (\<lambda>e. fst e \<noteq> j) kvs @ [(j, v)]) j = Some v" by (induction kvs) auto
  then show ?thesis by (simp add: with_key_def own_prop_def)
qed

lemma event_parse:
  assumes "parseCommandEventPayloadV2 dated v pos = Inr p"
  shows "p = v" "\<exists>kvs. v = JObj kvs" "validateTerminal dated (with_key ''hostSessionId'' (json_opt (ep_session pos)) v) = Inr ()"
    "own_prop v ''terminal'' = Some (JObj t) \<Longrightarrow> own_prop (JObj t) ''eventId'' = Some (JStr (ep_event pos))
       \<and> own_prop (JObj t) ''streamId'' = Some (JStr (ep_stream pos)) \<and> own_prop (JObj t) ''sequence'' = Some (JStr (ep_sequence pos))"
  using assms by (auto simp: parseCommandEventPayloadV2_def rbind_Inr_iff object_of_Inr)

lemma receipt_parse: "parseCommandReceiptV2 dated v = Inr r \<Longrightarrow> r = v \<and> validateTerminal dated v = Inr ()"
  by (auto simp: parseCommandReceiptV2_def rbind_Inr_iff object_of_Inr)

lemma terminal_parse:
  assumes "validateTerminal dated r = Inr ()" "own_prop r ''phase'' \<noteq> Some (JStr ''accepted'')"
  shows "\<exists>t. own_prop r ''terminal'' = Some (JObj t)"
  using assms by (auto simp: validateTerminal_def rbind_Inr_iff object_of_Inr)

lemma reference_parse: "parseCommandOutputReferenceV2 v = Inr r \<Longrightarrow> v = Some r"
  by (auto simp: parseCommandOutputReferenceV2_def rbind_Inr_iff object_of_Inr split: option.splits)

lemma completed_output:
  assumes "validateTerminal dated r = Inr ()" "own_prop r ''phase'' = Some (JStr ''completed'')"
    "own_prop r ''kind'' = Some (JStr ''session.prompt'')" "own_prop r ''terminal'' = Some t"
  shows "\<exists>result out. own_prop t ''result'' = Some result \<and> own_prop result ''output'' = Some out
     \<and> own_prop out ''commandId'' = own_prop r ''commandId'' \<and> own_prop out ''terminalSequence'' = own_prop t ''sequence''"
proof -
  obtain result where r: "own_prop t ''result'' = Some result" and v: "validatePromptResult dated r t result = Inr ()"
    using assms by (auto simp: validateTerminal_def rbind_Inr_iff object_of_Inr)
  obtain out where "parseCommandOutputReferenceV2 (own_prop result ''output'') = Inr out"
    "own_prop out ''commandId'' = own_prop r ''commandId''" "own_prop out ''terminalSequence'' = own_prop t ''sequence''"
    using v by (auto simp: validatePromptResult_def rbind_Inr_iff)
  then show ?thesis using r reference_parse by blast
qed

lemma own_prop_Cons: "own_prop (JObj ((j, v) # kvs)) k = (if k = j then Some v else own_prop (JObj kvs) k)"
  by (simp add: own_prop_def)

lemma metadata_other: "k \<notin> set EVENT_OPTIONAL_KEYS \<Longrightarrow> own_prop (JObj (metadata_json m @ xs)) k = own_prop (JObj xs) k"
  by (auto simp: own_prop_def metadata_json_def EVENT_OPTIONAL_KEYS_def split: option.splits)

lemma native_fields:
  assumes "native_payload dated pos metadata row = Inr p"
  shows "parseCommandEventPayloadV2 dated p pos = Inr p"
    "own_prop p ''commandId'' = Some (JStr (rc_command row))" "own_prop p ''kind'' = Some (JStr (rc_kind row))"
    "own_prop p ''phase'' = Some (JStr (phase_text (rc_phase row)))"
    "own_prop p ''terminal'' = Some (terminal_json (row\<lparr>rc_event := Some (ep_event pos),
        rc_terminal_stream := Some (ep_stream pos), rc_terminal_sequence := Some (ep_sequence pos)\<rparr>))"
proof -
  obtain receipt v where r: "receiptToResponseV2 dated (row\<lparr>rc_event := Some (ep_event pos), rc_terminal_stream := Some (ep_stream pos),
              rc_terminal_sequence := Some (ep_sequence pos)\<rparr>) = Inr receipt"
    and v: "v = JObj (metadata_json metadata @
         [(''commandId'', JStr (rc_command row)), (''kind'', JStr (rc_kind row)), (''phase'', JStr (phase_text (rc_phase row))),
          (''sourceCommandId'', JStr (rc_command row)),
          (''requestSchema'', case own_prop receipt ''requestSchema'' of Some v \<Rightarrow> v | None \<Rightarrow> JNull),
          (''requestSha256'', case own_prop receipt ''requestSha256'' of Some v \<Rightarrow> v | None \<Rightarrow> JNull),
          (''terminal'', case own_prop receipt ''terminal'' of Some v \<Rightarrow> v | None \<Rightarrow> JNull)])"
    and p: "parseCommandEventPayloadV2 dated v pos = Inr p"
    using assms by (auto simp: native_payload_def rbind_Inr_iff)
  have "own_prop receipt ''terminal'' = Some (terminal_json (row\<lparr>rc_event := Some (ep_event pos),
        rc_terminal_stream := Some (ep_stream pos), rc_terminal_sequence := Some (ep_sequence pos)\<rparr>))"
    using receipt_parse r unfolding receiptToResponseV2_def by (fastforce simp: own_prop_def)
  moreover have "p = v" using event_parse(1)[OF p] .
  ultimately show "parseCommandEventPayloadV2 dated p pos = Inr p"
    "own_prop p ''commandId'' = Some (JStr (rc_command row))" "own_prop p ''kind'' = Some (JStr (rc_kind row))"
    "own_prop p ''phase'' = Some (JStr (phase_text (rc_phase row)))"
    "own_prop p ''terminal'' = Some (terminal_json (row\<lparr>rc_event := Some (ep_event pos),
        rc_terminal_stream := Some (ep_stream pos), rc_terminal_sequence := Some (ep_sequence pos)\<rparr>))"
    using p by (simp_all add: v metadata_other own_prop_Cons EVENT_OPTIONAL_KEYS_def)
qed

lemma native_kind: "parseCommandEventPayloadV2 dated p pos = Inr q \<Longrightarrow> own_prop p ''kind'' = Some (JStr ''session.prompt'')"
  by (auto simp: parseCommandEventPayloadV2_def rbind_Inr_iff object_of_Inr)

text \<open>
  C11: The evidence of a settled command is bound to its place in the stream.  The payload that the host writes for
  a settled receipt validates at the position the host takes for it and at no other stream, sequence or event id,
  and the output that a completed prompt refers to is that of the same command, up to the same sequence.
\<close>

theorem event_bound_to_its_place:
  assumes "commandReceiptPayloadV2 dated h fresh metadata row d = (d', Inr p)" and "rc_phase row \<noteq> Accepted"
  shows "\<exists>stream seq. nextRuntimeEventPosition fresh d = Inr ((stream, seq), d')
    \<and> parseCommandEventPayloadV2 dated p \<lparr>ep_event = hi_event_id h (hi_key h) stream seq, ep_stream = stream,
         ep_sequence = seq, ep_session = rc_session row\<rparr> = Inr p
    \<and> (\<forall>pos q. parseCommandEventPayloadV2 dated p pos = Inr q \<longrightarrow>
          ep_stream pos = stream \<and> ep_sequence pos = seq \<and> ep_event pos = hi_event_id h (hi_key h) stream seq)
    \<and> (rc_phase row = Completed \<longrightarrow> (\<exists>t result out. own_prop p ''terminal'' = Some t \<and> own_prop t ''result'' = Some result
          \<and> own_prop result ''output'' = Some out \<and> own_prop out ''commandId'' = Some (JStr (rc_command row))
          \<and> own_prop out ''terminalSequence'' = Some (JStr seq)))"
proof -
  obtain stream seq where n: "nextRuntimeEventPosition fresh d = Inr ((stream, seq), d')"
    and p: "native_payload dated \<lparr>ep_event = hi_event_id h (hi_key h) stream seq, ep_stream = stream, ep_sequence = seq,
                    ep_session = rc_session row\<rparr> metadata row = Inr p"
    using assms(1) by (auto simp: commandReceiptPayloadV2_def split: sum.split_asm if_splits)
  let ?pos = "\<lparr>ep_event = hi_event_id h (hi_key h) stream seq, ep_stream = stream, ep_sequence = seq, ep_session = rc_session row\<rparr>"
  note f = native_fields[OF p]
  obtain t where t: "own_prop p ''terminal'' = Some (JObj t)" "own_prop (JObj t) ''eventId'' = Some (JStr (ep_event ?pos))"
    "own_prop (JObj t) ''streamId'' = Some (JStr stream)" "own_prop (JObj t) ''sequence'' = Some (JStr seq)"
    using f(5) assms(2) by (simp add: terminal_json_def Let_def own_prop_def json_opt_def)
  have moved: "ep_stream pos = stream \<and> ep_sequence pos = seq \<and> ep_event pos = ep_event ?pos"
    if "parseCommandEventPayloadV2 dated p pos = Inr q" for pos q
    using event_parse(4)[OF that t(1)] t(2-4) by auto
  have "\<exists>result out. own_prop (JObj t) ''result'' = Some result \<and> own_prop result ''output'' = Some out
      \<and> own_prop out ''commandId'' = Some (JStr (rc_command row)) \<and> own_prop out ''terminalSequence'' = Some (JStr seq)"
    if "rc_phase row = Completed"
  proof -
    obtain kvs where kvs: "p = JObj kvs" using event_parse(2)[OF f(1)] by blast
    let ?r = "with_key ''hostSessionId'' (json_opt (rc_session row)) p"
    have o: "k \<noteq> ''hostSessionId'' \<Longrightarrow> own_prop ?r k = own_prop p k" for k unfolding kvs by (rule with_key_other)
    have "validateTerminal dated ?r = Inr ()" using event_parse(3)[OF f(1)] by simp
    moreover have "own_prop ?r ''phase'' = Some (JStr ''completed'')" using f(4) that by (simp add: o)
    moreover have "own_prop ?r ''kind'' = Some (JStr ''session.prompt'')" using native_kind[OF f(1)] by (simp add: o)
    moreover have "own_prop ?r ''terminal'' = Some (JObj t)" using t(1) by (simp add: o)
    ultimately show ?thesis using completed_output[of dated ?r "JObj t"] f(2) t(4) by (simp add: o)
  qed
  then show ?thesis using n f(1) moved t(1) by auto
qed

section \<open>The evidence of a rejected prompt\<close>

definition w_uuid :: ident where "w_uuid = ''00000000-0000-4000-8000-000000000000''"

definition w_native :: receipt_row where
  "w_native = w_receipt\<lparr>rc_command := w_uuid, rc_kind := ''session.prompt'', rc_assignment := Some w_uuid,
     rc_session := Some ''u'', rc_digest := Some (replicate 64 (CHR ''a'')), rc_schema := Some REQUEST_SCHEMA,
     rc_host_key := Some ''hostkey1'', rc_phase := Rejected, rc_status := 400,
     rc_body := JObj [(''code'', JStr ''PRECONDITION''), (''message'', JStr ''lost'')]\<rparr>"

definition ev_host :: host_identity where
  "ev_host = w_host\<lparr>hi_event_id := (\<lambda>_ _ _. w_uuid)\<rparr>"

definition w_position :: event_position where
  "w_position = \<lparr>ep_event = w_uuid, ep_stream = w_uuid, ep_sequence = ''0'', ep_session = Some ''u''\<rparr>"

lemma pow10_above: "0 < q \<Longrightarrow> q < 1000 \<Longrightarrow> 100 \<le> q \<Longrightarrow> (q < (10 :: rat) powi (int k - 324)) \<longleftrightarrow> 327 \<le> k"
proof (cases "k \<le> 326")
  case True
  assume q: "100 \<le> q"
  have "(10 :: rat) powi (int k - 324) \<le> 10 powi 2" using True by (intro power_int_increasing) simp_all
  then show ?thesis using True q by (simp add: not_less)
next
  case False
  assume q: "q < 1000"
  have "(10 :: rat) powi 3 \<le> 10 powi (int k - 324)" using False by (intro power_int_increasing) simp_all
  then show ?thesis using False q by simp
qed

lemma decimal_exponents: "decimal_exponent 2 = 1" "decimal_exponent 400 = 3"
proof -
  have p2: "(2 < (10 :: rat) powi (int k - 324)) \<longleftrightarrow> 325 \<le> k" for k
  proof (cases "k \<le> 324")
    case True
    have "(10 :: rat) powi (int k - 324) \<le> 10 powi 0" using True by (intro power_int_increasing) simp_all
    then show ?thesis using True by (simp add: not_less)
  next
    case False
    have "(10 :: rat) powi 1 \<le> 10 powi (int k - 324)" using False by (intro power_int_increasing) simp_all
    then show ?thesis using False by simp
  qed
  have "find (\<lambda>k. 2 < pow10 (int k - 324)) [0..<650] = Some 325"
    unfolding pow10_def p2 by (auto simp: find_Some_iff intro!: exI[of _ 325])
  then show "decimal_exponent 2 = 1" by (simp add: decimal_exponent_def)
  have "find (\<lambda>k. 400 < pow10 (int k - 324)) [0..<650] = Some 327"
    unfolding pow10_def pow10_above[of 400, simplified] by (auto simp: find_Some_iff intro!: exI[of _ 327])
  then show "decimal_exponent 400 = 3" by (simp add: decimal_exponent_def)
qed

lemma bitlens: "bitlen 3 = 2" "bitlen 400 = 9" "bitlen 500 = 9"
  by code_simp+

lemma rounds: "round_double 3 = Fin 3" "round_double 400 = Fin 400" "round_double 500 = Fin 500"
  by (simp_all add: round_double_def binary_exponent_def bitlens bitlen_small round_half_even_def power_int_def Let_def power_divide)

lemma print_two: "js_number_string (Fin 2) = ''2''"
proof -
  have "nearest 2 (digit_candidates 2 1 1 @ digit_candidates 2 1 2) = Some (2, 1, 1)"
    by (simp add: digit_candidates_def Let_def round_small rounds pow10_def)
  moreover have "[1..<18] = 1 # [2..<18 :: nat]" by (simp add: upt_conv_Cons)
  ultimately have "shortest_digits 2 = (2, 1, 1)" by (simp add: shortest_digits_def decimal_exponents)
  moreover have "layout_digits (2, 1, 1) = ''2''" by code_simp
  ultimately show ?thesis by (simp add: js_number_string_def)
qed

lemma print_400: "js_number_string (Fin 400) = ''400''"
proof -
  have "nearest 400 (digit_candidates 400 1 3 @ digit_candidates 400 1 4) = Some (4, 1, 3)"
    by (simp add: digit_candidates_def Let_def rounds pow10_def)
  moreover have "[1..<18] = 1 # [2..<18 :: nat]" by (simp add: upt_conv_Cons)
  ultimately have "shortest_digits 400 = (4, 1, 3)" by (simp add: shortest_digits_def decimal_exponents)
  moreover have "layout_digits (4, 1, 3) = ''400''" by code_simp
  ultimately show ?thesis by (simp add: js_number_string_def)
qed

definition w_receipt_json :: json where
  "w_receipt_json = JObj
     [(''receiptVersion'', json_int 2), (''commandId'', JStr w_uuid), (''kind'', JStr ''session.prompt''),
      (''hostKey'', JStr ''hostkey1''), (''runId'', JStr ''r''), (''assignmentId'', JStr w_uuid),
      (''assignmentEpoch'', json_int 1), (''hostSessionId'', JStr ''u''),
      (''requestSchema'', JStr REQUEST_SCHEMA), (''requestSha256'', JStr (replicate 64 (CHR ''a''))),
      (''phase'', JStr ''rejected''), (''httpStatus'', json_int 400),
      (''receivedAt'', JStr ''1970-01-01T00:00:00.000Z''),
      (''terminal'', JObj [(''outcomeVersion'', json_int 2), (''status'', JStr ''failed''), (''eventId'', JStr w_uuid),
         (''streamId'', JStr w_uuid), (''sequence'', JStr ''0''), (''result'', JNull),
         (''error'', JObj [(''code'', JStr ''PRECONDITION''), (''message'', JStr ''lost'')])])]"

definition w_payload_json :: json where
  "w_payload_json = JObj
     [(''commandId'', JStr w_uuid), (''kind'', JStr ''session.prompt''), (''phase'', JStr ''rejected''),
      (''sourceCommandId'', JStr w_uuid), (''requestSchema'', JStr REQUEST_SCHEMA), (''requestSha256'', JStr (replicate 64 (CHR ''a''))),
      (''terminal'', JObj [(''outcomeVersion'', json_int 2), (''status'', JStr ''failed''), (''eventId'', JStr w_uuid),
         (''streamId'', JStr w_uuid), (''sequence'', JStr ''0''), (''result'', JNull),
         (''error'', JObj [(''code'', JStr ''PRECONDITION''), (''message'', JStr ''lost'')])])]"

lemma utf8_twice: "utf8_length s \<le> 2 * int (length s)"
  by (induction s) (simp_all add: utf8_length_def)

lemma small_text_valid:
  assumes "encodable v 0" "length (json_stringify (sort_keys v)) \<le> 1000"
  shows "validateJson v = Inr ()"
proof -
  have "canonicalCommandJson v = Inr (json_stringify (sort_keys v))" using assms(1) by (simp add: canonicalCommandJson_def encode_iff)
  then show ?thesis
    using assms(2) utf8_twice[of "json_stringify (sort_keys v)"] by (simp add: validateJson_def MAX_EVIDENCE_BYTES_def requireValue_def)
qed

lemma w_texts: "validateJson w_receipt_json = Inr ()" "validateJson w_payload_json = Inr ()"
  by (rule small_text_valid;
      simp add: w_receipt_json_def w_payload_json_def json_int_def is_finite_num_def print_one print_two print_400 quote_json_def
        w_uuid_def REQUEST_SCHEMA_def escape_char_def Let_def)+

lemma w_uuid_ok: "UUID w_uuid" 
  by code_simp

lemma w_stamp: "timestamp_text ''1970-01-01T00:00:00.000Z''" "js_toISOString 0 = ''1970-01-01T00:00:00.000Z''" "sequence_text ''0''"
  by code_simp+

lemma w_digest_ok: "list_all hex_lower (replicate 64 (CHR ''a''))"
  by (simp add: list_all_iff hex_lower_def)

lemma own_prop_empty: "own_prop (JObj []) k = None"
  by (simp add: own_prop_def)

lemmas evidence_eval = own_prop_Cons own_prop_empty keys_of_def RECEIPT_KEYS_def TERMINAL_KEYS_def EVENT_REQUIRED_KEYS_def
  EVENT_OPTIONAL_KEYS_def uuid_ok_def w_uuid_ok text_ok_def integer_in_def json_int_def COMMAND_KINDS_def str_in_def HOST_KEY_def
  digest_ok_def w_digest_ok is_digit_def is_lower_ascii_def timestamp_ok_def w_stamp phase_status_ok_def validateTerminal_def
  object_of_def sequence_ok_def validateFailure_def REQUEST_SCHEMA_def requireValue_def exactKeys_def

lemma w_uuid_text: "w_uuid \<noteq> []" "length w_uuid = 36"
  by (simp_all add: w_uuid_def)

lemma w_receipt_parse: "parseCommandReceiptV2 (\<lambda>_. True) w_receipt_json = Inr w_receipt_json"
proof -
  have o: "object_of (Some w_receipt_json) ''receipt'' = Inr w_receipt_json" by (simp add: object_of_def w_receipt_json_def)
  show ?thesis
    by (simp add: parseCommandReceiptV2_def w_texts o) (simp add: w_receipt_json_def evidence_eval w_uuid_text)
qed

lemma w_event_parse: "parseCommandEventPayloadV2 (\<lambda>_. True) w_payload_json w_position = Inr w_payload_json"
proof -
  have o: "object_of (Some w_payload_json) ''command_event'' = Inr w_payload_json" by (simp add: object_of_def w_payload_json_def)
  show ?thesis
    by (simp add: parseCommandEventPayloadV2_def w_texts o)
      (simp add: w_payload_json_def w_position_def with_key_def json_opt_def evidence_eval w_uuid_text)
qed

lemma w_native_payload: "native_payload (\<lambda>_. True) w_position no_metadata w_native = Inr w_payload_json"
proof -
  have t: "terminal_json (w_native\<lparr>rc_event := Some (ep_event w_position), rc_terminal_stream := Some (ep_stream w_position),
        rc_terminal_sequence := Some (ep_sequence w_position)\<rparr>)
     = JObj [(''outcomeVersion'', json_int 2), (''status'', JStr ''failed''), (''eventId'', JStr w_uuid),
         (''streamId'', JStr w_uuid), (''sequence'', JStr ''0''), (''result'', JNull),
         (''error'', JObj [(''code'', JStr ''PRECONDITION''), (''message'', JStr ''lost'')])]"
    by (simp add: terminal_json_def w_native_def w_receipt_def w_position_def isErrorBody_def own_prop_Cons json_opt_def Let_def)
  have "receiptToResponseV2 (\<lambda>_. True) (w_native\<lparr>rc_event := Some (ep_event w_position), rc_terminal_stream := Some (ep_stream w_position),
        rc_terminal_sequence := Some (ep_sequence w_position)\<rparr>) = Inr w_receipt_json"
    unfolding receiptToResponseV2_def t w_receipt_parse[symmetric]
    by (rule arg_cong[of _ _ "parseCommandReceiptV2 (\<lambda>_. True)"])
      (simp add: w_receipt_json_def w_native_def w_receipt_def json_opt_def w_stamp)
  then show ?thesis
    unfolding native_payload_def using w_event_parse
    by (simp add: w_receipt_json_def own_prop_Cons no_metadata_def metadata_json_def w_payload_json_def w_native_def w_receipt_def REQUEST_SCHEMA_def)
qed

theorem event_bound_to_its_place_witness:
  "parseCommandEventPayloadV2 (\<lambda>_. True) w_payload_json w_position = Inr w_payload_json
   \<and> \<not> (\<exists>q. parseCommandEventPayloadV2 (\<lambda>_. True) w_payload_json (w_position\<lparr>ep_sequence := ''1''\<rparr>) = Inr q)"
proof -
  obtain d' where n: "nextRuntimeEventPosition w_uuid empty_host_db = Inr ((w_uuid, ''0''), d')"
    by (simp add: nextRuntimeEventPosition_def ensureRuntimeEventStream_def getRuntimeEventStream_def empty_host_db_def Let_def)
  have s: "rc_session w_native = Some ''u''" by (simp add: w_native_def)
  have c: "commandReceiptPayloadV2 (\<lambda>_. True) ev_host w_uuid no_metadata w_native empty_host_db = (d', Inr w_payload_json)"
    using w_native_payload
    by (simp add: commandReceiptPayloadV2_def n s w_position_def ev_host_def) (simp add: w_native_def w_receipt_def)
  have "ep_sequence (w_position\<lparr>ep_sequence := ''1''\<rparr>) = ''0''"
    if "parseCommandEventPayloadV2 (\<lambda>_. True) w_payload_json (w_position\<lparr>ep_sequence := ''1''\<rparr>) = Inr q" for q
    using event_bound_to_its_place[OF c] n that by (auto simp: w_native_def)
  then show ?thesis using w_event_parse by auto
qed

end
