(* ===== verification/HostRecovery.thy ===== *)
theory HostRecovery
  imports HostGuarantees CommandEvidence
begin

text \<open>
  What a starting host does with the turns its predecessor left behind (\<^verbatim>\<open>recoverAcceptedPromptReceipts\<close> and
  \<^verbatim>\<open>recoverReleasedSessionProcess\<close> of \<^verbatim>\<open>supervisor/src/host-state.ts\<close>): an accepted command whose session
  process is gone is rejected with its terminal event, a create whose process may still live is marked, and
  the wallets of ended sessions are released.  Each repair is a transaction of its own, so an error keeps the
  repairs before it: the result is the file as it then is, with the error or the number of repairs.
\<close>

section \<open>Lost turns\<close>

fun js_truthy :: "json \<Rightarrow> bool" where
  "js_truthy JNull = False"
| "js_truthy (JBool b) = b"
| "js_truthy (JNum n) = (n \<noteq> Fin 0 \<and> n \<noteq> NaN)"
| "js_truthy (JStr s) = (s \<noteq> [])"
| "js_truthy _ = True"

text \<open>
  The surroundings of each repair, a transaction of its own: the disk, the clock and a fresh stream id;
  \<open>re_dated\<close> is the test for dates of the evidence.
\<close>

datatype repair = Repair_note ident | Repair_receipt ident | Repair_wallet ident

record recovery_env =
  re_disk :: "repair \<Rightarrow> host_physical"
  re_now :: "repair \<Rightarrow> time"
  re_fresh :: "repair \<Rightarrow> ident"
  re_dated :: "string \<Rightarrow> bool"

definition lostWalletFor :: "ident \<Rightarrow> ident option \<Rightarrow> host_db \<Rightarrow> wallet_row option" where
  "lostWalletFor commandId session d =
     find (\<lambda>w. \<not> wl_closed w \<and> (wl_id w = commandId \<or> sql_eq (wl_session w) session)) (h_wallets d)"

definition create_failure :: "json \<Rightarrow> (string \<times> json) list" where
  "create_failure body =
     (case Option.bind (own_prop body ''details'') (\<lambda>details. own_prop details ''sessionCreateFailure'') of
        Some v \<Rightarrow> if js_truthy v then [(''sessionCreateFailure'', v)] else []
      | None \<Rightarrow> [])"

definition process_released :: "receipt_row \<Rightarrow> host_db \<Rightarrow> bool" where
  "process_released row d \<longleftrightarrow>
     list_ex (\<lambda>p. ps_command p = rc_command row \<and> ps_run p = rc_run row \<and> Some (ps_assignment p) = rc_assignment row
        \<and> ps_epoch p = rc_epoch row \<and> ps_phase p = Released) (h_processes d)"

definition lost_body :: "receipt_row \<Rightarrow> host_db \<Rightarrow> json" where
  "lost_body row d = JObj
     [(''code'', JStr ''PRECONDITION''),
      (''message'', JStr ''the turn for this command id was lost in a host restart''),
      (''details'', JObj ([(''reason'', JStr ''turn_lost''), (''runId'', JStr (rc_run row))]
         @ (if process_released row d \<and> rc_kind row = ''session.create''
            then (''sessionCreateQuiescence'', JObj [(''version'', json_int 1), (''process'', JStr ''terminated'')])
                 # (case getReceipt (rc_command row) d of Some r \<Rightarrow> create_failure (rc_body r) | None \<Rightarrow> [])
            else [])))]"

definition lost_receipt_row :: "time \<Rightarrow> receipt_row \<Rightarrow> wallet_row option \<Rightarrow> json \<Rightarrow> receipt_row" where
  "lost_receipt_row now row wallet body =
     row\<lparr>rc_session := (case rc_session row of Some s \<Rightarrow> Some s | None \<Rightarrow> Option.bind wallet wl_session),
         rc_terminal_stream := None, rc_terminal_sequence := None, rc_event := None, rc_phase := Rejected,
         rc_status := 409, rc_body := body, rc_completed_at := Some now, rc_retired_at := None\<rparr>"

definition wallet_mismatch :: "receipt_row \<Rightarrow> wallet_row option \<Rightarrow> bool" where
  "wallet_mismatch row wallet =
     (case wallet of
        None \<Rightarrow> False
      | Some w \<Rightarrow> rc_kind row \<in> {''session.prompt'', ''session.create''}
          \<and> (wl_run w \<noteq> rc_run row \<or> Some (wl_assignment w) \<noteq> rc_assignment row \<or> wl_epoch w \<noteq> rc_epoch row))"

definition lost_payload ::
  "host_identity \<Rightarrow> recovery_env \<Rightarrow> repair \<Rightarrow> receipt_row \<Rightarrow> json \<Rightarrow> host_db \<Rightarrow> host_db \<times> (host_error + json)" where
  "lost_payload h en c receipt body d =
     (if rc_version receipt = 2 then commandReceiptPayloadV2 (re_dated en) h (re_fresh en c) no_metadata receipt d
      else (d, Inr (JObj [(''commandId'', JStr (rc_command receipt)), (''kind'', JStr (rc_kind receipt)),
                          (''phase'', JStr ''completed''), (''status'', JStr ''failed''), (''error'', body)])))"

definition lost_event :: "time \<Rightarrow> receipt_row \<Rightarrow> wallet_row option \<Rightarrow> json \<Rightarrow> append_input" where
  "lost_event now receipt wallet payload =
     \<lparr>ai_draft = \<lparr>dr_run = rc_run receipt,
        dr_assignment = (case wallet of Some w \<Rightarrow> wl_assignment w
                         | None \<Rightarrow> (case rc_assignment receipt of Some a \<Rightarrow> a | None \<Rightarrow> [])),
        dr_epoch = (case wallet of Some w \<Rightarrow> wl_epoch w | None \<Rightarrow> rc_epoch receipt),
        dr_session = rc_session receipt, dr_type = ''session.command'',
        dr_occurred_at = js_toISOString now, dr_payload = payload\<rparr>,
      ai_funding = map_option (\<lambda>w. Fund_control (wl_id w) (Some (rc_command receipt))) wallet\<rparr>"

definition commit :: "host_db \<Rightarrow> host_error + host_db \<Rightarrow> host_db \<times> host_error option" where
  "commit d result = (case result of Inl e \<Rightarrow> (d, Some e) | Inr d' \<Rightarrow> (d', None))"

definition settleLostSessionReceipt ::
  "runtime_limits \<Rightarrow> host_identity \<Rightarrow> recovery_env \<Rightarrow> receipt_row \<Rightarrow> wallet_row option \<Rightarrow> host_db
     \<Rightarrow> host_db \<times> host_error option" where
  "settleLostSessionReceipt l h en row wallet d =
     (let c = Repair_receipt (rc_command row); now = re_now en c; body = lost_body row d;
          receipt = lost_receipt_row now row wallet body
      in if wallet_mismatch row wallet then (d, Some (HostRuntimeEventError Stream_corrupt))
         else case lost_payload h en c receipt body d of
                (d1, Inl e) \<Rightarrow> (d1, Some e)
              | (d1, Inr payload) \<Rightarrow>
                  commit d1 (rbind (putReceiptWithRuntimeEvent l h (re_disk en c) now (re_fresh en c) receipt
                                     (lost_event now receipt wallet payload) None d1) (\<lambda>(_, d'). Inr d')))"

definition crash_event :: "time \<Rightarrow> wallet_row \<Rightarrow> ident \<Rightarrow> append_input" where
  "crash_event now w session =
     \<lparr>ai_draft = \<lparr>dr_run = wl_run w, dr_assignment = wl_assignment w, dr_epoch = wl_epoch w, dr_session = Some session,
        dr_type = ''session.crashed'', dr_occurred_at = js_toISOString now,
        dr_payload = JObj [(''exitCode'', JNull), (''signal'', JNull), (''reason'', JStr ''host_restart'')]\<rparr>,
      ai_funding = Some (Fund_control (wl_id w) None)\<rparr>"

definition settleLostSessionWallet ::
  "runtime_limits \<Rightarrow> host_identity \<Rightarrow> recovery_env \<Rightarrow> wallet_row \<Rightarrow> host_db \<Rightarrow> host_error + host_db" where
  "settleLostSessionWallet l h en w d =
     (let i = Repair_wallet (wl_id w); now = re_now en i
      in case wl_session w of
           None \<Rightarrow> closeProducerWallet_op l (re_disk en i) now (wl_id w) d
         | Some session \<Rightarrow>
             rbind (appendRuntimeEvents l h (re_disk en i) now (re_fresh en i) [crash_event now w session] d)
               (\<lambda>(_, d'). Inr d'))"

section \<open>Passes\<close>

text \<open>A repair per row, stopping at the first error.\<close>

fun each_row :: "('r \<Rightarrow> host_db \<Rightarrow> host_db \<times> host_error option) \<Rightarrow> 'r list \<Rightarrow> host_db \<Rightarrow> host_db \<times> host_error option" where
  "each_row f [] d = (d, None)"
| "each_row f (r # rs) d = (case f r d of (d', Some e) \<Rightarrow> (d', Some e) | (d', None) \<Rightarrow> each_row f rs d')"

definition settle_row ::
  "runtime_limits \<Rightarrow> host_identity \<Rightarrow> recovery_env \<Rightarrow> receipt_row \<Rightarrow> host_db \<Rightarrow> host_db \<times> host_error option" where
  "settle_row l h en row d = settleLostSessionReceipt l h en row (lostWalletFor (rc_command row) (rc_session row) d) d"

definition by_arrival :: "receipt_row list \<Rightarrow> receipt_row list" where
  "by_arrival rows = sort_key rc_received_at (sort_key rc_command rows)"

definition recoverReleasedSessionProcess ::
  "runtime_limits \<Rightarrow> host_identity \<Rightarrow> recovery_env \<Rightarrow> ident \<Rightarrow> host_db \<Rightarrow> host_db \<times> (host_error + nat)" where
  "recoverReleasedSessionProcess l h en commandId d =
     (case find (\<lambda>p. ps_command p = commandId \<and> ps_phase p = Released) (h_processes d) of
        None \<Rightarrow> (d, Inr 0)
      | Some p \<Rightarrow>
          (let rows = by_arrival (filter (\<lambda>r. rc_phase r = Accepted \<and> rc_run r = ps_run p
                        \<and> rc_assignment r = Some (ps_assignment p) \<and> rc_epoch r = ps_epoch p
                        \<and> (rc_kind r = ''session.create'' \<and> rc_command r = commandId
                           \<or> rc_kind r = ''session.prompt'' \<and> sql_eq (rc_session r) (ps_session p))) (h_receipts d))
           in case each_row (settle_row l h en) rows d of
                (d1, Some e) \<Rightarrow> (d1, Inl e)
              | (d1, None) \<Rightarrow>
                  (case find (\<lambda>w. wl_id w = commandId \<and> wl_run w = ps_run p \<and> wl_assignment w = ps_assignment p
                           \<and> wl_epoch w = ps_epoch p \<and> \<not> wl_closed w \<and> \<not> wl_ended w) (h_wallets d1) of
                     None \<Rightarrow> (d1, Inr (length rows))
                   | Some w \<Rightarrow> (case settleLostSessionWallet l h en w d1 of
                                  Inl e \<Rightarrow> (d1, Inl e) | Inr d2 \<Rightarrow> (d2, Inr (length rows))))))"

definition pendingSessionProcesses :: "host_db \<Rightarrow> process_row list" where
  "pendingSessionProcesses d =
     sort_key ps_registered_at (sort_key ps_command (filter (\<lambda>p. ps_phase p \<noteq> Released) (h_processes d)))"

definition unsettled_body :: "process_row \<Rightarrow> receipt_row \<Rightarrow> json" where
  "unsettled_body p r = JObj
     [(''code'', JStr ''EXECUTOR_UNAVAILABLE''),
      (''message'', JStr ''Session creation still owns an unconfirmed process; reconcile its physical retirement before retrying''),
      (''details'', JObj ([(''reason'', JStr ''session_create_exit_unconfirmed''), (''runId'', JStr (ps_run p))]
         @ (case ps_session p of Some s \<Rightarrow> if s = [] then [] else [(''sessionId'', JStr s)] | None \<Rightarrow> [])
         @ [(''stage'', JStr ''process_exit'')] @ create_failure (rc_body r)))]"

definition note_unsettled :: "recovery_env \<Rightarrow> process_row \<Rightarrow> host_db \<Rightarrow> host_db \<times> host_error option" where
  "note_unsettled en p d =
     (case getReceipt (ps_command p) d of
        Some r \<Rightarrow> if rc_kind r \<noteq> ''session.create'' \<or> rc_phase r \<noteq> Accepted then (d, None)
                  else commit d (noteUnsettledCreate (re_disk en (Repair_note (ps_command p))) (ps_command p) (unsettled_body p r) d)
      | None \<Rightarrow> (d, None))"

definition process_pending :: "host_db \<Rightarrow> receipt_row \<Rightarrow> bool" where
  "process_pending d r \<longleftrightarrow>
     list_ex (\<lambda>p. ps_phase p \<noteq> Released \<and> ps_run p = rc_run r \<and> Some (ps_assignment p) = rc_assignment r
        \<and> ps_epoch p = rc_epoch r \<and> (ps_command p = rc_command r \<or> sql_eq (ps_session p) (rc_session r))) (h_processes d)"

definition lost_turn :: "host_db \<Rightarrow> receipt_row \<Rightarrow> bool" where
  "lost_turn d r \<longleftrightarrow>
     rc_phase r = Accepted \<and> rc_assignment r \<noteq> None
     \<and> (rc_kind r = ''session.prompt'' \<and> rc_session r \<noteq> None
        \<or> list_ex (\<lambda>w. \<not> wl_closed w \<and> (wl_id w = rc_command r \<or> sql_eq (wl_session w) (rc_session r))) (h_wallets d))
     \<and> \<not> process_pending d r"

definition lost_page :: "host_db \<Rightarrow> receipt_row list" where
  "lost_page d = take 100 (by_arrival (filter (lost_turn d) (h_receipts d)))"

section \<open>What a repair does to the receipts\<close>

definition accepted :: "host_db \<Rightarrow> receipt_row list" where
  "accepted d = filter (\<lambda>r. rc_phase r = Accepted) (h_receipts d)"

text \<open>A turn reported as lost: rejected with conflict status, with the position of its terminal event.\<close>

definition reported_lost :: "receipt_row \<Rightarrow> bool" where
  "reported_lost r \<longleftrightarrow>
     rc_phase r = Rejected \<and> rc_status r = 409 \<and> rc_event r \<noteq> None \<and> rc_terminal_sequence r \<noteq> None \<and> rc_completed_at r \<noteq> None"

lemma lost_receipt_row_fields:
  "rc_command (lost_receipt_row now row w body) = rc_command row" "rc_phase (lost_receipt_row now row w body) = Rejected"
  "rc_status (lost_receipt_row now row w body) = 409" "rc_completed_at (lost_receipt_row now row w body) = Some now"
  by (simp_all add: lost_receipt_row_def)

lemma commit_None [simp]: "commit d r = (d', None) \<longleftrightarrow> r = Inr d'"
  by (auto simp: commit_def split: sum.splits)

lemma commit_cases: "commit d r = (d', o1) \<Longrightarrow> r = Inr d' \<or> d' = d"
  by (auto simp: commit_def split: sum.splits)

lemma lost_payload_step:
  assumes "lost_payload h en c receipt body d = (d1, p)"
  shows "d1 = d \<or> (\<exists>pos fresh. nextRuntimeEventPosition fresh d = Inr (pos, d1))"
  using assms by (auto simp: lost_payload_def commandReceiptPayloadV2_def split: if_splits sum.splits)

text \<open>A repair asks for a position, or does not, and then writes the rejection, or stops.\<close>

lemma settle_cases:
  assumes "settle_row l h en row d = (d', o1)"
  obtains (stopped) "d' = d \<or> (\<exists>pos fresh. nextRuntimeEventPosition fresh d = Inr (pos, d'))" "o1 \<noteq> None"
  | (written) d1 ph now fresh receipt input ev where
    "d1 = d \<or> (\<exists>pos fresh. nextRuntimeEventPosition fresh d = Inr (pos, d1))"
    "rc_command receipt = rc_command row" "rc_phase receipt = Rejected" "rc_status receipt = 409" "rc_completed_at receipt \<noteq> None"
    "putReceiptWithRuntimeEvent l h ph now fresh receipt input None d1 = Inr (ev, d')"
proof -
  let ?c = "Repair_receipt (rc_command row)" and ?w = "lostWalletFor (rc_command row) (rc_session row) d"
  let ?r = "lost_receipt_row (re_now en ?c) row ?w (lost_body row d)"
  obtain d1 p where p: "lost_payload h en ?c ?r (lost_body row d) d = (d1, p)" by fastforce
  note st = lost_payload_step[OF p]
  show thesis
  proof (cases "wallet_mismatch row ?w \<or> (\<exists>e. p = Inl e)")
    case True
    then have "(d' = d \<or> d' = d1) \<and> o1 \<noteq> None"
      using assms unfolding settle_row_def settleLostSessionReceipt_def Let_def p by (auto split: if_splits)
    then show thesis using stopped st by blast
  next
    case False
    then obtain payload where payload: "p = Inr payload" by (cases p) auto
    let ?put = "putReceiptWithRuntimeEvent l h (re_disk en ?c) (re_now en ?c) (re_fresh en ?c) ?r (lost_event (re_now en ?c) ?r ?w payload) None d1"
    have s: "commit d1 (rbind ?put (\<lambda>(_, d'). Inr d')) = (d', o1)"
      using assms False payload unfolding settle_row_def settleLostSessionReceipt_def Let_def p by (auto split: if_splits)
    show thesis
    proof (cases ?put)
      case (Inl e)
      then show thesis using stopped s st by (auto simp: commit_def)
    next
      case (Inr q)
      obtain ev d2 where q: "q = (ev, d2)" by (cases q)
      then have "?put = Inr (ev, d')" using s Inr by (simp add: commit_def)
      with written[OF st lost_receipt_row_fields(1-3)] show thesis by (simp add: lost_receipt_row_fields)
    qed
  qed
qed

lemma position_ledger: "nextRuntimeEventPosition fresh d = Inr (pos, d') \<Longrightarrow> same_ledger d d'"
  using ensure_ledger by (auto simp: nextRuntimeEventPosition_def rbind_Inr_iff)

lemma settle_effect:
  assumes "settle_row l h en row d = (d', None)"
  shows "h_processes d' = h_processes d"
    and "\<exists>new. reported_lost new
     \<and> h_receipts d' = (if receipt_known d (rc_command row)
          then sql_update (\<lambda>r. rc_command r = rc_command row) (merge_receipt new) (h_receipts d)
          else h_receipts d @ [new\<lparr>rc_retired_at := None\<rparr>])"
proof -
  obtain d1 ph now fresh receipt input ev where
    d1: "d1 = d \<or> (\<exists>pos fresh. nextRuntimeEventPosition fresh d = Inr (pos, d1))"
    and r: "rc_command receipt = rc_command row" "rc_phase receipt = Rejected" "rc_status receipt = 409" "rc_completed_at receipt \<noteq> None"
    and p: "putReceiptWithRuntimeEvent l h ph now fresh receipt input None d1 = Inr (ev, d')"
    using assms by (cases rule: settle_cases) auto
  from p r(2) obtain d2 d3 where
    a: "appendRuntimeEventInTransaction l h now fresh input d1 = Inr (ev, d2)"
    and w: "writeReceiptRow (receipt_with_event receipt ev) d2 = Inr d3"
    and d': "d' = observeCapacity l now (settleReceiptBudget receipt d3)"
    by (auto simp: putReceiptWithRuntimeEvent_def storage_write_Inr rbind_Inr_iff admitRuntimeReceipt_def)
  have a: "h_receipts d2 = h_receipts d" "h_processes d2 = h_processes d"
    using append_ledger[OF a] position_ledger d1 by (auto simp: same_ledger_def)
  have s: "h_receipts d' = h_receipts d3" "h_processes d' = h_processes d3"
    using settleReceiptBudget_ledger[of d3 receipt] by (simp_all add: d' same_ledger_def)
  show "h_processes d' = h_processes d"
    using w a s by (auto simp: writeReceiptRow_def split: if_splits)
  have c: "rc_command (receipt_with_event receipt ev) = rc_command row" "reported_lost (receipt_with_event receipt ev)"
    using r by (simp_all add: receipt_with_event_def reported_lost_def Let_def)
  have k: "receipt_known d2 (rc_command row) = receipt_known d (rc_command row)" by (simp add: receipt_known_def a)
  have "h_receipts d3 = (if receipt_known d (rc_command row)
          then sql_update (\<lambda>r. rc_command r = rc_command row) (merge_receipt (receipt_with_event receipt ev)) (h_receipts d)
          else h_receipts d @ [(receipt_with_event receipt ev)\<lparr>rc_retired_at := None\<rparr>])"
    using w a(1) k unfolding writeReceiptRow_def c(1) by (auto split: if_splits)
  then show "\<exists>new. reported_lost new
     \<and> h_receipts d' = (if receipt_known d (rc_command row)
          then sql_update (\<lambda>r. rc_command r = rc_command row) (merge_receipt new) (h_receipts d)
          else h_receipts d @ [new\<lparr>rc_retired_at := None\<rparr>])"
    using c(2) s(1) by auto
qed

lemma reported_lost_merge: "reported_lost new \<Longrightarrow> reported_lost (merge_receipt new old)"
  by (auto simp: reported_lost_def merge_receipt_def coalesce_def split: option.splits)

lemma merge_command [simp]: "rc_command (merge_receipt new old) = rc_command old"
  by (simp add: merge_receipt_def)

lemma settle_accepted:
  assumes "settle_row l h en row d = (d', None)"
  shows "accepted d' = filter (\<lambda>r. rc_command r \<noteq> rc_command row) (accepted d)"
proof -
  obtain new where n: "reported_lost new" and r: "h_receipts d' = (if receipt_known d (rc_command row)
          then sql_update (\<lambda>r. rc_command r = rc_command row) (merge_receipt new) (h_receipts d)
          else h_receipts d @ [new\<lparr>rc_retired_at := None\<rparr>])"
    using settle_effect(2)[OF assms] by blast
  have m: "rc_phase (merge_receipt new old) = Rejected" for old
    using reported_lost_merge[OF n] by (simp add: reported_lost_def)
  have u: "filter (\<lambda>r. rc_phase r = Accepted) (sql_update (\<lambda>r. rc_command r = c) (merge_receipt new) rs)
      = filter (\<lambda>r. rc_command r \<noteq> c) (filter (\<lambda>r. rc_phase r = Accepted) rs)" for c rs
    by (induction rs) (simp_all add: sql_update_def m)
  show ?thesis
  proof (cases "receipt_known d (rc_command row)")
    case True
    then show ?thesis using r u by (simp add: accepted_def)
  next
    case False
    then have "\<forall>r \<in> set (h_receipts d). rc_command r \<noteq> rc_command row" by (simp add: receipt_known_def list_ex_iff)
    then show ?thesis using r False n by (auto simp: accepted_def reported_lost_def intro!: filter_cong)
  qed
qed

lemma settle_changes:
  assumes "settle_row l h en row d = (d', None)" "r \<in> set (h_receipts d')"
  shows "r \<in> set (h_receipts d) \<or> reported_lost r"
proof -
  obtain new where n: "reported_lost new" and h: "h_receipts d' = (if receipt_known d (rc_command row)
          then sql_update (\<lambda>r. rc_command r = rc_command row) (merge_receipt new) (h_receipts d)
          else h_receipts d @ [new\<lparr>rc_retired_at := None\<rparr>])"
    using settle_effect(2)[OF assms(1)] by blast
  show ?thesis
    using assms(2) reported_lost_merge[OF n] n
    by (auto simp: h sql_update_def reported_lost_def split: if_splits)
qed

text \<open>A pass takes exactly the commands of its rows out of the accepted ones.\<close>

lemma pass_accepted:
  assumes "each_row (settle_row l h en) rows d = (d', None)"
  shows "accepted d' = filter (\<lambda>r. rc_command r \<notin> rc_command ` set rows) (accepted d)"
  using assms
proof (induction rows arbitrary: d)
  case (Cons row rows)
  then obtain d1 where s: "settle_row l h en row d = (d1, None)" and e: "each_row (settle_row l h en) rows d1 = (d', None)"
    by (auto split: prod.splits option.splits)
  show ?case
    unfolding Cons.IH[OF e] settle_accepted[OF s] by (auto intro: filter_cong)
qed simp

lemma lost_page_accepted: "set (lost_page d) \<subseteq> set (accepted d)"
  using set_take_subset by (fastforce simp: lost_page_def by_arrival_def accepted_def lost_turn_def)

lemma page_shrinks:
  assumes "lost_page d \<noteq> []" "each_row (settle_row l h en) (lost_page d) d = (d', None)"
  shows "length (accepted d') < length (accepted d)"
proof -
  obtain r where "r \<in> set (lost_page d)" using assms(1) by (cases "lost_page d") auto
  then have "r \<in> set (accepted d)" "rc_command r \<in> rc_command ` set (lost_page d)"
    using lost_page_accepted by blast+
  then show ?thesis unfolding pass_accepted[OF assms(2)] by (intro length_filter_less) simp_all
qed

section \<open>The recovery of a starting host\<close>

text \<open>
  The loop over pages of at most a hundred lost turns.  It ends, because every page takes at least one command
  out of the accepted ones.
\<close>

function recover_pages ::
  "runtime_limits \<Rightarrow> host_identity \<Rightarrow> recovery_env \<Rightarrow> nat \<Rightarrow> host_db \<Rightarrow> host_db \<times> (host_error + nat)" where
  "recover_pages l h en n d =
     (if lost_page d = [] then (d, Inr n)
      else case each_row (settle_row l h en) (lost_page d) d of
             (d1, Some e) \<Rightarrow> (d1, Inl e)
           | (d1, None) \<Rightarrow> recover_pages l h en (n + length (lost_page d)) d1)"
  by pat_completeness auto
termination
  by (relation "measure (\<lambda>(l, h, en, n, d). length (accepted d))") (simp_all add: page_shrinks)

declare recover_pages.simps [simp del]

definition settle_wallet ::
  "runtime_limits \<Rightarrow> host_identity \<Rightarrow> recovery_env \<Rightarrow> wallet_row \<Rightarrow> host_db \<Rightarrow> host_db \<times> host_error option" where
  "settle_wallet l h en w d =
     (if list_ex (\<lambda>p. ps_command p = wl_id w \<and> ps_phase p \<noteq> Released) (h_processes d) then (d, None)
      else commit d (settleLostSessionWallet l h en w d))"

definition recoverAcceptedPromptReceipts ::
  "runtime_limits \<Rightarrow> host_identity \<Rightarrow> recovery_env \<Rightarrow> host_db \<Rightarrow> host_db \<times> (host_error + nat)" where
  "recoverAcceptedPromptReceipts l h en d =
     (case each_row (note_unsettled en) (pendingSessionProcesses d) d of
        (d1, Some e) \<Rightarrow> (d1, Inl e)
      | (d1, None) \<Rightarrow>
          (case recover_pages l h en 0 d1 of
             (d2, Inl e) \<Rightarrow> (d2, Inl e)
           | (d2, Inr n) \<Rightarrow>
               (case each_row (settle_wallet l h en) (filter (\<lambda>w. \<not> wl_closed w \<and> \<not> wl_ended w) (h_wallets d2)) d2 of
                  (d3, Some e) \<Rightarrow> (d3, Inl e)
                | (d3, None) \<Rightarrow> (d3, Inr n))))"

section \<open>Recovery is a sequence of transactions\<close>

definition host_reaches :: "runtime_limits \<Rightarrow> host_identity \<Rightarrow> host_db \<Rightarrow> host_db \<Rightarrow> bool" where
  "host_reaches l h d d' \<longleftrightarrow> (\<exists>ops. d' = host_run l h (map (Pair (hi_boot h)) ops) d)"

lemma reaches_refl [simp]: "host_reaches l h d d"
  unfolding host_reaches_def by (rule exI[of _ "[]"]) simp

lemma reaches_trans: "host_reaches l h d d' \<Longrightarrow> host_reaches l h d' d'' \<Longrightarrow> host_reaches l h d d''"
  unfolding host_reaches_def by (metis host.run_append map_append)

lemma reaches_step: "host_step l h (hi_boot h, op) d = Inr d' \<Longrightarrow> host_reaches l h d d'"
  unfolding host_reaches_def by (rule exI[of _ "[op]"]) simp

lemma reaches_exec: "host_exec l h op d = Inr d' \<Longrightarrow> host_reaches l h d d'"
  by (rule reaches_step[of _ _ op]) (simp add: host_step_def)

lemma each_row_reaches:
  assumes "\<And>r d. host_reaches l h d (fst (f r d))"
  shows "host_reaches l h d (fst (each_row f rows d))"
proof (induction rows arbitrary: d)
  case (Cons r rows)
  obtain d1 o1 where f: "f r d = (d1, o1)" by fastforce
  then have "host_reaches l h d d1" using assms[of d r] by simp
  then show ?case using f Cons[of d1] reaches_trans by (auto split: option.splits)
qed simp

lemma position_reaches: "nextRuntimeEventPosition fresh d = Inr (pos, d') \<Longrightarrow> host_reaches l h d d'"
  by (rule reaches_exec[of l h "Op_position fresh"]) simp

lemma put_reaches:
  assumes "putReceiptWithRuntimeEvent l h ph now fresh receipt input adm d = Inr (ev, d')"
  shows "host_reaches l h d d'"
  by (rule reaches_exec[of l h "Op_put_receipt_event ph now fresh receipt input adm"]) (simp add: assms)

lemma settle_reaches: "host_reaches l h d (fst (settle_row l h en r d))"
proof -
  obtain d' o1 where s: "settle_row l h en r d = (d', o1)" by fastforce
  then have "host_reaches l h d d'"
  proof (cases rule: settle_cases)
    case stopped
    then show ?thesis using position_reaches by auto
  next
    case (written d1 ph now fresh receipt input ev)
    have "host_reaches l h d d1" using written(1) position_reaches by auto
    then show ?thesis using put_reaches[OF written(6)] reaches_trans by blast
  qed
  then show ?thesis using s by simp
qed

lemma commit_reaches: "(\<And>d'. r = Inr d' \<Longrightarrow> host_reaches l h d d') \<Longrightarrow> host_reaches l h d (fst (commit d r))"
  by (cases r) (simp_all add: commit_def)

lemma note_reaches: "host_reaches l h d (fst (note_unsettled en p d))"
proof -
  have "noteUnsettledCreate ph x body d = Inr d' \<Longrightarrow> host_reaches l h d d'" for ph x body d'
    by (rule reaches_exec[of l h "Op_note_unsettled ph x body"]) simp
  then show ?thesis by (auto simp: note_unsettled_def intro!: commit_reaches split: option.splits)
qed

lemma lost_wallet_reaches:
  assumes "settleLostSessionWallet l h en w d = Inr d'"
  shows "host_reaches l h d d'"
proof (cases "wl_session w")
  case None
  then have "host_exec l h (Op_close_wallet (re_disk en (Repair_wallet (wl_id w))) (re_now en (Repair_wallet (wl_id w))) (wl_id w)) d = Inr d'"
    using assms by (simp add: settleLostSessionWallet_def Let_def)
  then show ?thesis by (rule reaches_exec)
next
  case (Some x)
  then have "host_exec l h (Op_append (re_disk en (Repair_wallet (wl_id w))) (re_now en (Repair_wallet (wl_id w)))
      (re_fresh en (Repair_wallet (wl_id w))) [crash_event (re_now en (Repair_wallet (wl_id w))) w x]) d = Inr d'"
    using assms by (simp add: settleLostSessionWallet_def Let_def)
  then show ?thesis by (rule reaches_exec)
qed

lemma wallet_reaches: "host_reaches l h d (fst (settle_wallet l h en w d))"
  by (auto simp: settle_wallet_def intro: commit_reaches lost_wallet_reaches)

lemma settle_lost_wallet_same: "settleLostSessionWallet l h en w d = Inr d' \<Longrightarrow> same_ledger d d'"
  using other_ledger(2,3)
  by (fastforce simp: settleLostSessionWallet_def Let_def rbind_Inr_iff split: option.splits if_splits)

lemma wallet_same: "settle_wallet l h en w d = (d', None) \<Longrightarrow> same_ledger d d'"
  using settle_lost_wallet_same by (auto simp: settle_wallet_def split: if_splits)

lemma pages_reach: "host_reaches l h d (fst (recover_pages l h en n d))"
proof (induction l h en n d rule: recover_pages.induct)
  case (1 l h en n d)
  obtain d1 o1 where e: "each_row (settle_row l h en) (lost_page d) d = (d1, o1)" by fastforce
  have r: "host_reaches l h d d1" using each_row_reaches[of l h "settle_row l h en", OF settle_reaches, of d "lost_page d"] e by simp
  show ?case
  proof (cases "lost_page d = [] \<or> o1 \<noteq> None")
    case True
    then show ?thesis using e r by (auto simp: recover_pages.simps[of l h en n d])
  next
    case False
    then have "host_reaches l h d1 (fst (recover_pages l h en (n + length (lost_page d)) d1))"
      using 1[OF _ e[symmetric]] by simp
    then show ?thesis using False e reaches_trans[OF r] by (simp add: recover_pages.simps[of l h en n d])
  qed
qed

lemma recovery_reaches: "host_reaches l h d (fst (recoverAcceptedPromptReceipts l h en d))"
proof -
  obtain d1 o1 where n: "each_row (note_unsettled en) (pendingSessionProcesses d) d = (d1, o1)" by fastforce
  obtain d2 o2 where p: "recover_pages l h en 0 d1 = (d2, o2)" by fastforce
  obtain d3 o3 where w: "each_row (settle_wallet l h en) (filter (\<lambda>w. \<not> wl_closed w \<and> \<not> wl_ended w) (h_wallets d2)) d2 = (d3, o3)"
    by fastforce
  have r1: "host_reaches l h d d1"
    using each_row_reaches[of l h "note_unsettled en", OF note_reaches, of d "pendingSessionProcesses d"] n by simp
  have r2: "host_reaches l h d d2" using pages_reach[of l h d1 en 0] p reaches_trans[OF r1] by simp
  have "host_reaches l h d2 (fst (each_row (settle_wallet l h en) (filter (\<lambda>w. \<not> wl_closed w \<and> \<not> wl_ended w) (h_wallets d2)) d2))"
    by (rule each_row_reaches[OF wallet_reaches])
  then have r3: "host_reaches l h d d3" using w reaches_trans[OF r2] by simp
  show ?thesis
    using r1 r2 r3 n p w by (auto simp: recoverAcceptedPromptReceipts_def split: option.splits sum.splits)
qed

section \<open>What recovery settles\<close>

text \<open>What a pass may do to the receipts: commands leave the accepted ones only by being reported as lost.\<close>

definition only_lost :: "host_db \<Rightarrow> host_db \<Rightarrow> bool" where
  "only_lost d d' \<longleftrightarrow>
     h_processes d' = h_processes d
     \<and> (\<forall>r \<in> set (h_receipts d'). rc_phase r = Accepted \<or> r \<in> set (h_receipts d) \<or> reported_lost r)"

lemma only_lost_refl [simp]: "only_lost d d"
  by (simp add: only_lost_def)

lemma only_lost_trans: "only_lost d d' \<Longrightarrow> only_lost d' d'' \<Longrightarrow> only_lost d d''"
  unfolding only_lost_def by metis

lemma each_row_preorder:
  assumes e: "each_row f rows d = (d', None)" and refl: "\<And>x. P x x" and trans: "\<And>x y z. P x y \<Longrightarrow> P y z \<Longrightarrow> P x z"
    and step: "\<And>r x y. f r x = (y, None) \<Longrightarrow> P x y"
  shows "P d d'"
  using e
proof (induction rows arbitrary: d)
  case Nil
  then show ?case using refl by simp
next
  case (Cons r rows)
  then obtain d1 where d1: "f r d = (d1, None)" "each_row f rows d1 = (d', None)" by (auto split: prod.splits option.splits)
  show ?case by (rule trans[OF step[OF d1(1)] Cons.IH[OF d1(2)]])
qed

lemma settle_only_lost: "settle_row l h en r d = (d', None) \<Longrightarrow> only_lost d d'"
  using settle_changes settle_effect(1) unfolding only_lost_def by blast

lemma note_effect:
  assumes "note_unsettled en p d = (d', None)"
  shows "only_lost d d'" "length (accepted d') = length (accepted d)"
proof -
  have l: "length (filter (\<lambda>r. rc_phase r = Accepted) (sql_update P (\<lambda>r. r\<lparr>rc_status := s, rc_body := b\<rparr>) rs))
      = length (filter (\<lambda>r. rc_phase r = Accepted) rs)" for P s b and rs :: "receipt_row list"
    by (induction rs) (simp_all add: sql_update_def)
  show "only_lost d d'" "length (accepted d') = length (accepted d)"
    using assms l
    by (auto simp: note_unsettled_def noteUnsettledCreate_def storage_write_Inr only_lost_def accepted_def sql_update_def
        split: option.splits if_splits)
qed

lemma page_counts:
  assumes ok: "ledger_ok d" and e: "each_row (settle_row l h en) (lost_page d) d = (d', None)"
  shows "length (accepted d') + length (lost_page d) = length (accepted d)"
proof -
  let ?mine = "\<lambda>r. rc_command r \<in> rc_command ` set (lost_page d)"
  have inj: "inj_on rc_command (set (h_receipts d))" and dist: "distinct (h_receipts d)"
    using ok by (simp_all add: ledger_ok_def distinct_map)
  have "distinct (lost_page d)" using dist by (simp add: lost_page_def by_arrival_def)
  moreover have "set (filter ?mine (accepted d)) = set (lost_page d)"
    using lost_page_accepted[of d] inj by (auto simp: accepted_def inj_on_def)
  moreover have "distinct (filter ?mine (accepted d))" using dist by (simp add: accepted_def)
  ultimately have "length (filter ?mine (accepted d)) = length (lost_page d)" by (metis distinct_card)
  then show ?thesis
    using sum_length_filter_compl[of ?mine "accepted d"] by (simp add: pass_accepted[OF e])
qed

lemma reaches_ledger: "ledger_ok d \<Longrightarrow> host_reaches l h d d' \<Longrightarrow> ledger_ok d'"
  unfolding host_reaches_def using run_ledger by blast

lemma pages_settle:
  assumes "recover_pages l h en n d = (d', Inr m)" "ledger_ok d"
  shows "lost_page d' = [] \<and> only_lost d d' \<and> length (accepted d') + m = length (accepted d) + n"
  using assms
proof (induction l h en n d rule: recover_pages.induct)
  case (1 l h en n d)
  show ?case
  proof (cases "lost_page d = []")
    case True
    then show ?thesis using 1(2) by (simp add: recover_pages.simps[of l h en n d])
  next
    case False
    then obtain d1 where e: "each_row (settle_row l h en) (lost_page d) d = (d1, None)"
      and r: "recover_pages l h en (n + length (lost_page d)) d1 = (d', Inr m)"
      using 1(2) by (auto simp: recover_pages.simps[of l h en n d] split: prod.splits option.splits)
    have "host_reaches l h d d1"
      using each_row_reaches[of l h "settle_row l h en", OF settle_reaches, of d "lost_page d"] e by simp
    then have "ledger_ok d1" by (rule reaches_ledger[OF 1(3)])
    note ih = 1(1)[OF False e[symmetric] refl r this]
    have "only_lost d d1" using e only_lost_refl only_lost_trans settle_only_lost by (rule each_row_preorder)
    then show ?thesis using ih page_counts[OF 1(3) e] only_lost_trans by fastforce
  qed
qed

lemma no_lost_page: "lost_page d = [] \<Longrightarrow> r \<in> set (h_receipts d) \<Longrightarrow> \<not> lost_turn d r"
  using set_sort[of rc_received_at "sort_key rc_command (filter (lost_turn d) (h_receipts d))"]
  by (auto simp: lost_page_def by_arrival_def filter_empty_conv)

lemma same_ledger_only_lost: "same_ledger d d' \<Longrightarrow> only_lost d d' \<and> accepted d' = accepted d"
  by (simp add: same_ledger_def only_lost_def accepted_def)

text \<open>A prompt that waits for a session although no process of its fence may still serve it.\<close>

definition orphaned :: "host_db \<Rightarrow> receipt_row \<Rightarrow> bool" where
  "orphaned d r \<longleftrightarrow>
     rc_kind r = ''session.prompt'' \<and> rc_phase r = Accepted \<and> rc_session r \<noteq> None \<and> rc_assignment r \<noteq> None
     \<and> \<not> process_pending d r"

lemma orphaned_lost: "orphaned d r \<Longrightarrow> lost_turn d r"
  by (simp add: orphaned_def lost_turn_def)

lemma recovery_settles:
  assumes ok: "ledger_ok d" and r: "recoverAcceptedPromptReceipts l h en d = (d', Inr n)"
  shows "\<forall>r \<in> set (h_receipts d'). \<not> orphaned d' r" "only_lost d d'" "length (accepted d') + n = length (accepted d)"
proof -
  obtain d1 d2 where
    n: "each_row (note_unsettled en) (pendingSessionProcesses d) d = (d1, None)"
    and p: "recover_pages l h en 0 d1 = (d2, Inr n)"
    and w: "each_row (settle_wallet l h en) (filter (\<lambda>w. \<not> wl_closed w \<and> \<not> wl_ended w) (h_wallets d2)) d2 = (d', None)"
    using r by (auto simp: recoverAcceptedPromptReceipts_def split: prod.splits option.splits sum.splits)
  have "host_reaches l h d d1"
    using each_row_reaches[of l h "note_unsettled en", OF note_reaches, of d "pendingSessionProcesses d"] n by simp
  then have "ledger_ok d1" by (rule reaches_ledger[OF ok])
  note s = pages_settle[OF p this]
  have o1: "only_lost d d1" using n only_lost_refl only_lost_trans note_effect(1) by (rule each_row_preorder)
  have a1: "length (accepted d1) = length (accepted d)"
    by (rule each_row_preorder[OF n, where P = "\<lambda>x y. length (accepted y) = length (accepted x)"]) (simp_all add: note_effect(2))
  have sl: "same_ledger d2 d'" using w same_ledger_refl same_ledger_trans wallet_same by (rule each_row_preorder)
  note l2 = same_ledger_only_lost[OF sl]
  show "only_lost d d'" using o1 s l2 only_lost_trans by blast
  show "length (accepted d') + n = length (accepted d)" using a1 s l2 by simp
  have "orphaned d' r = orphaned d2 r" for r using sl by (simp add: orphaned_def process_pending_def same_ledger_def)
  moreover have "h_receipts d' = h_receipts d2" using sl by (simp add: same_ledger_def)
  ultimately show "\<forall>r \<in> set (h_receipts d'). \<not> orphaned d' r"
    using no_lost_page[of d2] orphaned_lost s by simp blast
qed

lemma run_reaches: "host_reaches l h (host_run l h ops d) d' \<Longrightarrow> \<exists>more. d' = host_run l h (ops @ more) d"
  unfolding host_reaches_def by (auto simp: host.run_append)

text \<open>
  When the exit of one session process is confirmed, no create or prompt that this process served stays
  accepted, and the repair is again a sequence of transactions.
\<close>

lemma released_process_settles:
  assumes "recoverReleasedSessionProcess l h en c d = (d', Inr n)"
    and p: "find (\<lambda>p. ps_command p = c \<and> ps_phase p = Released) (h_processes d) = Some p"
    and r: "r \<in> set (accepted d')"
  shows "\<not> (rc_run r = ps_run p \<and> rc_assignment r = Some (ps_assignment p) \<and> rc_epoch r = ps_epoch p
     \<and> (rc_kind r = ''session.create'' \<and> rc_command r = c \<or> rc_kind r = ''session.prompt'' \<and> sql_eq (rc_session r) (ps_session p)))"
proof -
  let ?P = "\<lambda>r. rc_phase r = Accepted \<and> rc_run r = ps_run p \<and> rc_assignment r = Some (ps_assignment p) \<and> rc_epoch r = ps_epoch p
     \<and> (rc_kind r = ''session.create'' \<and> rc_command r = c \<or> rc_kind r = ''session.prompt'' \<and> sql_eq (rc_session r) (ps_session p))"
  let ?rows = "by_arrival (filter ?P (h_receipts d))"
  obtain d1 where e: "each_row (settle_row l h en) ?rows d = (d1, None)"
    and w: "d' = d1 \<or> (\<exists>w. settleLostSessionWallet l h en w d1 = Inr d')"
    using assms(1) p
    by (auto simp: recoverReleasedSessionProcess_def Let_def split: prod.splits option.splits sum.splits)
  have "accepted d' = accepted d1" using w settle_lost_wallet_same same_ledger_only_lost by blast
  then have m: "r \<in> set (accepted d)" "rc_command r \<notin> rc_command ` set ?rows" using r pass_accepted[OF e] by auto
  then have "r \<notin> set ?rows" by blast
  then show ?thesis using m(1) by (simp add: by_arrival_def accepted_def)
qed

section \<open>A host restarted with a prompt in flight\<close>

definition rw_host :: host_identity where
  "rw_host = w_host\<lparr>hi_accepts := (\<lambda>_. True)\<rparr>"

definition rw_env :: recovery_env where
  "rw_env = \<lparr>re_disk = (\<lambda>_. w_disk), re_now = (\<lambda>_. 0), re_fresh = (\<lambda>_. ''s''),
     re_dated = (\<lambda>_. True)\<rparr>"

definition rw_prompt :: receipt_row where
  "rw_prompt = w_receipt\<lparr>rc_kind := ''session.prompt'', rc_session := Some ''u'', rc_version := 1\<rparr>"

definition rw_ops :: "(ident \<times> host_op) list" where
  "rw_ops = [(''b'', Op_put_receipt w_disk 0 rw_prompt (Some New_work))]"

definition rw_db :: host_db where
  "rw_db = empty_host_db\<lparr>h_receipts := [rw_prompt]\<rparr>"

lemma rw_put: "putReceipt DEFAULT_RUNTIME_LIMITS w_disk 0 rw_prompt (Some New_work) empty_host_db = Inr rw_db"
proof -
  have f: "refreshRuntimeFileBudget DEFAULT_RUNTIME_LIMITS empty_host_db = (runtimeFileBudgetSnapshot empty_host_db, empty_host_db)"
      "\<not> fs_pressured (runtimeFileBudgetSnapshot empty_host_db)"
    by (simp_all add: host_eval)
  have a: "admitReceipt DEFAULT_RUNTIME_LIMITS rw_prompt New_work 0 empty_host_db = Inr empty_host_db"
    by (simp add: admitReceipt_def receipt_known_def assertOutboxAdmission_def assertRetainedBelowHard_def rw_prompt_def host_eval)
  have "admitRuntimeReceipt DEFAULT_RUNTIME_LIMITS w_disk 0 rw_prompt (Some New_work) empty_host_db = Inr empty_host_db"
    using f a by (simp add: admitRuntimeReceipt_def is_teardown_def Let_def rw_prompt_def)
  moreover have "encodedByteLength JNull = 4" by code_simp
  then have "writeReceiptRow rw_prompt empty_host_db = Inr rw_db"
    by (simp add: writeReceiptRow_def receipt_known_def rw_prompt_def w_receipt_def MAX_RECEIPT_BODY_BYTES_def rw_db_def empty_host_db_def)
  moreover have "observeCapacity DEFAULT_RUNTIME_LIMITS 0 rw_db = rw_db"
    by (simp add: observeCapacity_def rw_db_def host_eval)
  moreover have "settleReceiptBudget rw_prompt rw_db = rw_db"
    by (simp add: settleReceiptBudget_def rw_prompt_def w_receipt_def)
  ultimately show ?thesis
    by (simp add: putReceipt_def storage_write_def w_disk_def assertPhysicalAdmission_def canAdmitPhysical_def)
qed

lemma rw_run: "host_run DEFAULT_RUNTIME_LIMITS rw_host rw_ops empty_host_db = rw_db"
  by (simp add: rw_ops_def host_step_def rw_put)

definition rw_body :: json where
  "rw_body = JObj [(''code'', JStr ''PRECONDITION''), (''message'', JStr ''the turn for this command id was lost in a host restart''),
     (''details'', JObj [(''reason'', JStr ''turn_lost''), (''runId'', JStr ''r'')])]"

definition rw_payload :: json where
  "rw_payload = JObj [(''commandId'', JStr ''c''), (''kind'', JStr ''session.prompt''), (''phase'', JStr ''completed''),
     (''status'', JStr ''failed''), (''error'', rw_body)]"

lemma rw_lost_body: "lost_body rw_prompt rw_db = rw_body"
  by (simp add: lost_body_def rw_body_def process_released_def rw_db_def empty_host_db_def rw_prompt_def w_receipt_def)

definition rw_envelope :: event_envelope where
  "rw_envelope = w_envelope\<lparr>en_session := Some ''u'', en_type := ''session.command'', en_occurred_at := js_toISOString 0,
     en_schema := ''maister.session.command.v1'', en_payload := rw_payload\<rparr>"

definition rw_event :: outbox_row where
  "rw_event = \<lparr>ob_stream = ''s'', ob_sequence = ''0'', ob_sort_key = sort_key_of 0, ob_event_id = ''e'',
     ob_envelope_json = envelope_text rw_envelope, ob_encoded_bytes = utf8_length (envelope_text rw_envelope),
     ob_occurred_at = js_toISOString 0, ob_acknowledged_at = None, ob_created_at = 0, ob_partition = Regular\<rparr>"

lemma rw_length: "utf8_length (envelope_text rw_envelope) \<le> 1000"
proof -
  have "js_toISOString 0 = ''1970-01-01T00:00:00.000Z''" by code_simp
  then show ?thesis
    by (simp add: envelope_text_def rw_envelope_def rw_payload_def rw_body_def w_envelope_def json_int_def json_opt_def print_one quote_json_def
        escape_char_def utf8_length_def Let_def)
qed

abbreviation rw_lost :: receipt_row where
  "rw_lost \<equiv> lost_receipt_row 0 rw_prompt None rw_body"

lemma rw_append:
  "\<exists>d'. appendRuntimeEventInTransaction DEFAULT_RUNTIME_LIMITS rw_host 0 ''s''
     (lost_event 0 rw_lost None rw_payload) rw_db = Inr (rw_event, d')"
proof -
  let ?payload = "rw_payload"
  let ?draft = "ai_draft (lost_event 0 rw_lost None ?payload)"
  let ?d = "rw_db\<lparr>h_streams := [\<lparr>st_id = ''s'', st_next_sequence = ''0'', st_acknowledged_through = None,
     st_acknowledged_sort_key = None, st_replay_floor_sequence = None, st_replay_floor_sort_key = None\<rparr>]\<rparr>"
  have b: "bigint_string 1 = ''1''" by code_simp
  have p0: "parseHostEventSequence ''0'' = Inr 0" by code_simp
  have st: "storable 0" by (simp add: storable_def MAX_HOST_EVENT_SEQUENCE_def)
  have "redactRuntimeEventPayload ?payload = Inr ?payload" by code_simp
  moreover have "envelope_schema ''session.command'' ?payload = Inr ''maister.session.command.v1''" by code_simp
  ultimately have built: "buildRuntimeEventEnvelope rw_host ''s'' ''0'' ?draft = Inr rw_envelope"
    using rw_length
    by (simp add: buildRuntimeEventEnvelope_def lost_event_def lost_receipt_row_def rw_prompt_def w_receipt_def rw_host_def
        w_host_def rw_envelope_def w_envelope_def MAX_RUNTIME_EVENT_BYTES_def)
  have spend: "spendEventCapacity DEFAULT_RUNTIME_LIMITS (Fund_regular None False) (utf8_length (envelope_text rw_envelope)) i ?d
      = Inr (Regular, ?d)" for i
    using rw_length
    by (simp add: spendEventCapacity_def over_hard_def reservedRegularUsage_def outboxBudgetSnapshot_def Let_def rw_db_def
        empty_host_db_def no_usage_def DEFAULT_RUNTIME_LIMITS_def)
  have ev: "en_event_id rw_envelope = ''e''" "en_occurred_at rw_envelope = js_toISOString 0"
    by (simp_all add: rw_envelope_def w_envelope_def)
  have f: "ai_funding (lost_event 0 rw_lost None ?payload) = None" by (simp add: lost_event_def)
  have empty: "h_streams rw_db = []" "h_outbox rw_db = []" by (simp_all add: rw_db_def empty_host_db_def)
  show ?thesis
    using spend
    by (simp add: appendRuntimeEventInTransaction_def ensureRuntimeEventStream_def getRuntimeEventStream_def p0 built f empty
        Let_def sort_key_ok st b ev rw_event_def outbox_insertable_def ends_session_def MAX_HOST_EVENT_SEQUENCE_def
        update_stream_def insert_outbox_def sql_update_def)
qed

lemma rw_settle: "\<exists>d'. settle_row DEFAULT_RUNTIME_LIMITS rw_host rw_env rw_prompt rw_db = (d', None) \<and> h_wallets d' = []"
proof -
  obtain d2 where a: "appendRuntimeEventInTransaction DEFAULT_RUNTIME_LIMITS rw_host 0 ''s''
     (lost_event 0 rw_lost None rw_payload) rw_db = Inr (rw_event, d2)"
    using rw_append by blast
  have no: "lostWalletFor c s rw_db = None" for c s by (simp add: lostWalletFor_def rw_db_def empty_host_db_def)
  have "encodedByteLength rw_body \<le> MAX_RECEIPT_BODY_BYTES" by code_simp
  then obtain d3 where w: "writeReceiptRow (receipt_with_event rw_lost rw_event) d2 = Inr d3" "h_wallets d3 = h_wallets d2"
    by (simp add: writeReceiptRow_def receipt_with_event_def lost_receipt_row_def Let_def)
  have "wallet_ids d2 = []" using append_ledger[OF a] by (simp add: same_ledger_def wallet_ids_def rw_db_def empty_host_db_def)
  then have e: "h_wallets d3 = []" using w(2) by (simp add: wallet_ids_def)
  let ?d = "observeCapacity DEFAULT_RUNTIME_LIMITS 0 (settleReceiptBudget rw_lost d3)"
  have pay: "lost_payload rw_host rw_env c rw_lost rw_body rw_db = (rw_db, Inr rw_payload)" for c
    by (simp add: lost_payload_def lost_receipt_row_def rw_prompt_def w_receipt_def rw_payload_def)
  have put: "putReceiptWithRuntimeEvent DEFAULT_RUNTIME_LIMITS rw_host w_disk 0 ''s'' rw_lost (lost_event 0 rw_lost None rw_payload)
      None rw_db = Inr (rw_event, ?d)"
    using a w(1) by (simp add: putReceiptWithRuntimeEvent_def storage_write_def admitRuntimeReceipt_def lost_receipt_row_fields w_disk_def)
  have en: "re_now rw_env c = 0" "re_fresh rw_env c = ''s''" "re_disk rw_env c = w_disk" for c by (simp_all add: rw_env_def)
  have "settle_row DEFAULT_RUNTIME_LIMITS rw_host rw_env rw_prompt rw_db = (?d, None)"
    by (simp add: settle_row_def settleLostSessionReceipt_def no wallet_mismatch_def rw_lost_body pay put en Let_def)
  moreover have "map wallet_identity (h_wallets ?d) = []"
    using settleReceiptBudget_ledger[of d3 rw_lost] e by (simp add: same_ledger_defs)
  ultimately show ?thesis by blast
qed

lemma rw_recovers:
  "\<exists>d'. recoverAcceptedPromptReceipts DEFAULT_RUNTIME_LIMITS rw_host rw_env rw_db = (d', Inr 1)"
proof -
  obtain d1 where s: "settle_row DEFAULT_RUNTIME_LIMITS rw_host rw_env rw_prompt rw_db = (d1, None)" and w: "h_wallets d1 = []"
    using rw_settle by blast
  have p: "pendingSessionProcesses rw_db = []" by (simp add: pendingSessionProcesses_def rw_db_def empty_host_db_def)
  have page: "lost_page rw_db = [rw_prompt]"
    by (simp add: lost_page_def by_arrival_def lost_turn_def process_pending_def rw_db_def empty_host_db_def rw_prompt_def w_receipt_def)
  have "accepted d1 = []"
    using settle_accepted[OF s] by (simp add: accepted_def rw_db_def)
  then have page1: "lost_page d1 = []" using lost_page_accepted[of d1] by simp
  have "recover_pages DEFAULT_RUNTIME_LIMITS rw_host rw_env 0 rw_db = (d1, Inr 1)"
    by (subst recover_pages.simps, subst recover_pages.simps) (simp add: page page1 s)
  then show ?thesis by (simp add: recoverAcceptedPromptReceipts_def p w)
qed

text \<open>
  C10: A restart leaves no turn hanging.  Whatever its outcome, the recovery of a starting host is a sequence of
  transactions of the host, so every guarantee of a host history holds after it.  When it ends without an
  error it leaves no accepted prompt without a process that may still serve it, the number it returns is
  exactly the number of accepted commands it settled, each of them is rejected with status 409 and the position of
  its terminal event, and no other settled receipt and no process obligation changes.
\<close>

theorem restart_settles_lost_turns:
  assumes "recoverAcceptedPromptReceipts l h en (host_run l h ops empty_host_db) = (d', outcome)"
  shows "(\<exists>more. d' = host_run l h (ops @ more) empty_host_db)
    \<and> (\<forall>n. outcome = Inr n \<longrightarrow>
         (\<forall>r \<in> set (h_receipts d'). \<not> orphaned d' r)
         \<and> length (accepted d') + n = length (accepted (host_run l h ops empty_host_db))
         \<and> h_processes d' = h_processes (host_run l h ops empty_host_db)
         \<and> (\<forall>r \<in> set (h_receipts d'). rc_phase r = Accepted \<or> r \<in> set (h_receipts (host_run l h ops empty_host_db))
               \<or> reported_lost r))"
proof -
  let ?d = "host_run l h ops empty_host_db"
  have "\<exists>more. d' = host_run l h (ops @ more) empty_host_db"
    using recovery_reaches[of l h ?d en] assms by (intro run_reaches) simp
  moreover note s = recovery_settles[OF run_ledger[OF empty_ledger], of l h en l h ops d']
  ultimately show ?thesis using s assms by (auto simp: only_lost_def)
qed

theorem restart_settles_lost_turns_witness:
  "\<exists>d' more. recoverAcceptedPromptReceipts DEFAULT_RUNTIME_LIMITS rw_host rw_env
       (host_run DEFAULT_RUNTIME_LIMITS rw_host rw_ops empty_host_db) = (d', Inr 1)
     \<and> d' = host_run DEFAULT_RUNTIME_LIMITS rw_host (rw_ops @ more) empty_host_db
     \<and> length (accepted d') + 1 = length (accepted rw_db)"
proof -
  obtain d' where r: "recoverAcceptedPromptReceipts DEFAULT_RUNTIME_LIMITS rw_host rw_env
       (host_run DEFAULT_RUNTIME_LIMITS rw_host rw_ops empty_host_db) = (d', Inr 1)"
    using rw_recovers by (auto simp: rw_run)
  show ?thesis using restart_settles_lost_turns[OF r] r by (auto simp: rw_run)
qed

end
