(* ===== verification/HostCommands.thy ===== *)
theory HostCommands
  imports HostState Transactions
begin

text \<open>
  Commands of the manager at the execution boundary of a host: the fence that refuses a superseded
  assignment (\<^verbatim>\<open>supervisor/src/execution-fence.ts\<close>), the admission table and the retirement of older
  owners (\<^verbatim>\<open>http-api.ts\<close>), and the receipts that make a command id execute at most once
  (\<^verbatim>\<open>command-receipts.ts\<close>).  Code between two \<^verbatim>\<open>await\<close>s is one step; the effect of a command, a promise of
  the code, begins in one step and settles in a later one, with any other steps in between, or never when
  the process dies.
\<close>

section \<open>Errors and envelopes\<close>

datatype supervisor_code =
    Sup_PRECONDITION | Sup_SPAWN | Sup_EXECUTOR_UNAVAILABLE | Sup_ACP_PROTOCOL | Sup_CHECKPOINT | Sup_CRASH
  | Sup_HITL_TIMEOUT | Sup_FENCED | Sup_CONFLICT

fun supervisor_code_text :: "supervisor_code \<Rightarrow> string" where
  "supervisor_code_text Sup_PRECONDITION = ''PRECONDITION''"
| "supervisor_code_text Sup_SPAWN = ''SPAWN''"
| "supervisor_code_text Sup_EXECUTOR_UNAVAILABLE = ''EXECUTOR_UNAVAILABLE''"
| "supervisor_code_text Sup_ACP_PROTOCOL = ''ACP_PROTOCOL''"
| "supervisor_code_text Sup_CHECKPOINT = ''CHECKPOINT''"
| "supervisor_code_text Sup_CRASH = ''CRASH''"
| "supervisor_code_text Sup_HITL_TIMEOUT = ''HITL_TIMEOUT''"
| "supervisor_code_text Sup_FENCED = ''FENCED''"
| "supervisor_code_text Sup_CONFLICT = ''CONFLICT''"

fun httpStatusForCode :: "supervisor_code \<Rightarrow> int" where
  "httpStatusForCode Sup_PRECONDITION = 409"
| "httpStatusForCode Sup_FENCED = 409"
| "httpStatusForCode Sup_CONFLICT = 409"
| "httpStatusForCode Sup_EXECUTOR_UNAVAILABLE = 503"
| "httpStatusForCode Sup_HITL_TIMEOUT = 410"
| "httpStatusForCode Sup_SPAWN = 500"
| "httpStatusForCode Sup_ACP_PROTOCOL = 500"
| "httpStatusForCode Sup_CHECKPOINT = 500"
| "httpStatusForCode Sup_CRASH = 500"

text \<open>A thrown \<^verbatim>\<open>SupervisorError\<close>, by its code and the token of its details; its message is not compared.\<close>

datatype command_error =
    SupervisorError supervisor_code string
  | HostFailure host_error
  | Unexpected

definition errorBody :: "supervisor_code \<Rightarrow> string \<Rightarrow> (string \<times> json) list \<Rightarrow> json" where
  "errorBody code message details =
     JObj ([(''code'', JStr (supervisor_code_text code)), (''message'', JStr message)]
           @ (if details = [] then [] else [(''details'', JObj details)]))"

record command_fence =
  cf_host_key :: ident
  cf_assignment :: ident
  cf_epoch :: int
  cf_run :: ident

record command_envelope =
  ce_version :: "int option"
  ce_target :: "ident option"
  ce_id :: ident
  ce_kind :: string
  ce_issued_at :: string
  ce_fence :: command_fence
  ce_payload :: json

text \<open>
  The SHA-256 digests of a request in canonical JSON are arguments: of the version-2 form, which binds the
  target session, and of the older form.  \<open>None\<close> is a request that has no canonical form.
\<close>

record command_digests =
  dg_v2 :: "command_envelope \<Rightarrow> ident option \<Rightarrow> string option"
  dg_legacy :: "command_envelope \<Rightarrow> string option"

definition invariant_conflict :: command_error where
  "invariant_conflict = SupervisorError Sup_PRECONDITION ''command_invariant_conflict''"

section \<open>The fence\<close>

record fence_outcome =
  fo_advanced :: bool
  fo_previous :: "int option"

definition applyFence ::
  "host_identity \<Rightarrow> host_physical \<Rightarrow> time \<Rightarrow> command_fence \<Rightarrow> ident option \<Rightarrow> host_db
     \<Rightarrow> command_error + (fence_outcome \<times> host_db)" where
  "applyFence h ph now f expectedRunId d =
     (if cf_host_key f \<noteq> hi_key h then Inl (SupervisorError Sup_PRECONDITION ''host_mismatch'')
      else if (\<exists>r \<in> set_option expectedRunId. cf_run f \<noteq> r)
      then Inl (SupervisorError Sup_PRECONDITION ''run_mismatch'')
      else case getFence (cf_run f) d of
        Some stored \<Rightarrow>
          (if cf_epoch f < fn_epoch stored then Inl (SupervisorError Sup_FENCED ''assignment_fenced'')
           else if cf_epoch f = fn_epoch stored \<and> cf_assignment f \<noteq> fn_assignment stored
           then Inl (SupervisorError Sup_PRECONDITION ''assignment_mismatch'')
           else if cf_epoch f > fn_epoch stored
           then (case setFence ph now (cf_run f) (cf_assignment f) (cf_epoch f) d of
                   Inl e \<Rightarrow> Inl (HostFailure e)
                 | Inr d' \<Rightarrow> Inr (\<lparr>fo_advanced = True, fo_previous = Some (fn_epoch stored)\<rparr>, d'))
           else Inr (\<lparr>fo_advanced = False, fo_previous = Some (fn_epoch stored)\<rparr>, d))
      | None \<Rightarrow>
          (case setFence ph now (cf_run f) (cf_assignment f) (cf_epoch f) d of
             Inl e \<Rightarrow> Inl (HostFailure e)
           | Inr d' \<Rightarrow> Inr (\<lparr>fo_advanced = True, fo_previous = None\<rparr>, d')))"

section \<open>Retiring older owners\<close>

record session_entry =
  se_id :: ident
  se_run :: ident
  se_epoch :: int
  se_live :: bool
  se_exited :: bool
  se_terminal_published :: bool
  se_fenced_by :: "int option"

datatype retirement_evidence = Confirmed | Process_exit | Terminal_output

definition evictable :: "ident \<Rightarrow> int \<Rightarrow> session_entry \<Rightarrow> bool" where
  "evictable runId epoch e \<longleftrightarrow>
     se_run e = runId \<and> \<not> (\<not> se_live e \<and> se_exited e \<and> se_terminal_published e) \<and> se_epoch e < epoch"

text \<open>
  \<^verbatim>\<open>terminateSessionProcess\<close> is an argument: it signals and waits, and answers with the entry as the process
  left it.  The loop stops at the first session whose end it cannot confirm.
\<close>

fun evict_each ::
  "(session_entry \<Rightarrow> retirement_evidence \<times> session_entry) \<Rightarrow> int \<Rightarrow> session_entry list \<Rightarrow> session_entry list
     \<Rightarrow> session_entry list \<times> command_error option" where
  "evict_each terminate epoch registry [] = (registry, None)"
| "evict_each terminate epoch registry (v # vs) =
     (let (result, v') = terminate (v\<lparr>se_fenced_by := Some epoch\<rparr>);
          registry' = sql_update (\<lambda>e. se_id e = se_id v) (\<lambda>_. v') registry
      in if result \<noteq> Confirmed
         then (registry', Some (SupervisorError Sup_EXECUTOR_UNAVAILABLE ''session_eviction_exit_unconfirmed''))
         else evict_each terminate epoch registry' vs)"

definition evictLowerEpochSessions ::
  "(session_entry \<Rightarrow> retirement_evidence \<times> session_entry) \<Rightarrow> ident \<Rightarrow> int \<Rightarrow> session_entry list
     \<Rightarrow> session_entry list \<times> command_error option" where
  "evictLowerEpochSessions terminate runId epoch registry =
     evict_each terminate epoch registry (filter (evictable runId epoch) registry)"

section \<open>The admission table\<close>

definition receiptAdmission :: "string \<Rightarrow> nat option \<Rightarrow> ident option \<Rightarrow> receipt_admission option" where
  "receiptAdmission kind outputObjects createdBy =
     (if kind = ''session.create''
      then Some (Producer (case outputObjects of None \<Rightarrow> 0 | Some n \<Rightarrow> int n))
      else if kind \<in> {''session.prompt'', ''workspace.adopt'', ''runtime_object.reserve'', ''runtime_object.upload''}
      then Some New_work
      else if kind \<in> {''session.input'', ''session.steer''} then Some Resolve
      else if kind \<in> {''session.cancel'', ''session.checkpoint'', ''session.delete''} then Some (Teardown createdBy)
      else if kind \<in> {''workspace.release'', ''runtime_object.delete''} then Some (Teardown None)
      else None)"

section \<open>Receipts\<close>

definition RESTARTABLE_OBJECT_KINDS :: "string list" where
  "RESTARTABLE_OBJECT_KINDS = [''runtime_object.reserve'', ''runtime_object.delete'']"

definition request_version :: "command_envelope \<Rightarrow> int" where
  "request_version env = (case ce_version env of None \<Rightarrow> 1 | Some v \<Rightarrow> v)"

definition assertRequestTarget :: "command_envelope \<Rightarrow> ident option \<Rightarrow> command_error + unit" where
  "assertRequestTarget env session =
     (if ce_version env = Some 2
         \<and> (ce_kind env \<noteq> ''session.prompt'' \<or> session = None \<or> session = Some [] \<or> ce_target env \<noteq> session)
      then Inl invariant_conflict else Inr ())"

definition receipt_mismatch :: "receipt_row \<Rightarrow> command_envelope \<Rightarrow> ident option \<Rightarrow> string \<Rightarrow> bool" where
  "receipt_mismatch e env session digest \<longleftrightarrow>
     rc_version e \<noteq> request_version env \<or> rc_run e \<noteq> cf_run (ce_fence env) \<or> rc_kind e \<noteq> ce_kind env
     \<or> rc_epoch e \<noteq> cf_epoch (ce_fence env)
     \<or> (rc_host_key e \<noteq> None \<and> rc_host_key e \<noteq> Some (cf_host_key (ce_fence env)))
     \<or> (rc_assignment e \<noteq> None \<and> rc_assignment e \<noteq> Some (cf_assignment (ce_fence env)))
     \<or> rc_session e \<noteq> session \<or> (rc_digest e \<noteq> None \<and> rc_digest e \<noteq> Some digest)"

definition assertReceiptInvariant ::
  "command_digests \<Rightarrow> receipt_row \<Rightarrow> command_envelope \<Rightarrow> ident option \<Rightarrow> command_error + unit" where
  "assertReceiptInvariant dg e env session =
     (case (if rc_schema e = Some ''maister.command.request.v2'' then dg_v2 dg env session else dg_legacy dg env) of
        None \<Rightarrow> Inl invariant_conflict
      | Some digest \<Rightarrow> if receipt_mismatch e env session digest then Inl invariant_conflict else Inr ())"

definition isUnsettledSessionCreateReceipt :: "receipt_row \<Rightarrow> bool" where
  "isUnsettledSessionCreateReceipt r \<longleftrightarrow>
     rc_kind r = ''session.create'' \<and> rc_phase r = Accepted
     \<and> (\<exists>details \<in> set_option (own_prop (rc_body r) ''details'').
          own_prop details ''reason'' = Some (JStr ''session_create_exit_unconfirmed''))"

record command_outcome =
  co_status :: int
  co_body :: json

record command_call =
  cc_disk :: host_physical
  cc_now :: time
  cc_fresh :: ident
  cc_event :: "append_input option"
  cc_admission :: receipt_admission
  cc_env :: command_envelope
  cc_session :: "ident option"

text \<open>
  \<^verbatim>\<open>writeReceipt\<close>: the row keeps what an earlier receipt of the id fixed.  \<^verbatim>\<open>persistReceipt\<close> stores the row alone,
  or with the runtime event of the transition when the route gives one.
\<close>

definition receipt_of ::
  "host_identity \<Rightarrow> command_digests \<Rightarrow> command_call \<Rightarrow> receipt_phase \<Rightarrow> command_outcome \<Rightarrow> time \<Rightarrow> host_db
     \<Rightarrow> command_error + receipt_row" where
  "receipt_of h dg c phase outcome receivedAt d =
     (let env = cc_env c; prior = getReceipt (ce_id env) d
      in rbind (case prior of
                  Some p \<Rightarrow> Inr (rc_digest p)
                | None \<Rightarrow> (case dg_v2 dg env (cc_session c) of None \<Rightarrow> Inl invariant_conflict | Some x \<Rightarrow> Inr (Some x)))
           (\<lambda>digest. Inr \<lparr>
             rc_command = ce_id env, rc_run = cf_run (ce_fence env), rc_kind = ce_kind env,
             rc_assignment = Some (cf_assignment (ce_fence env)), rc_epoch = cf_epoch (ce_fence env),
             rc_session = cc_session c, rc_digest = digest,
             rc_schema = (case prior of Some p \<Rightarrow> rc_schema p | None \<Rightarrow> Some ''maister.command.request.v2''),
             rc_version = (case prior of Some p \<Rightarrow> rc_version p | None \<Rightarrow> request_version env),
             rc_host_key = (case prior of Some p \<Rightarrow> rc_host_key p | None \<Rightarrow> Some (hi_key h)),
             rc_accepted_sequence = None, rc_terminal_stream = None, rc_terminal_sequence = None, rc_event = None,
             rc_phase = phase, rc_status = co_status outcome, rc_body = co_body outcome,
             rc_received_at = receivedAt,
             rc_completed_at = (if phase = Accepted then None else Some (cc_now c)), rc_retired_at = None\<rparr>))"

definition receipt_write_error :: "host_error \<Rightarrow> command_error" where
  "receipt_write_error e =
     (case e of HostRuntimeEventError r \<Rightarrow> HostFailure e | _ \<Rightarrow> SupervisorError Sup_ACP_PROTOCOL [])"

definition writeReceipt ::
  "runtime_limits \<Rightarrow> host_identity \<Rightarrow> command_digests \<Rightarrow> command_call \<Rightarrow> receipt_phase \<Rightarrow> command_outcome \<Rightarrow> time
     \<Rightarrow> host_db \<Rightarrow> command_error + host_db" where
  "writeReceipt l h dg c phase outcome receivedAt d =
     rbind (receipt_of h dg c phase outcome receivedAt d) (\<lambda>row.
       case (case cc_event c of
               Some ev \<Rightarrow> rbind (putReceiptWithRuntimeEvent l h (cc_disk c) (cc_now c) (cc_fresh c) row ev
                                  (Some (cc_admission c)) d) (\<lambda>(_, d'). Inr d')
             | None \<Rightarrow> putReceipt l (cc_disk c) (cc_now c) row (Some (cc_admission c)) d) of
         Inl e \<Rightarrow> Inl (receipt_write_error e) | Inr d' \<Rightarrow> Inr d')"

section \<open>Execution\<close>

text \<open>
  The live requests of the process (\<^verbatim>\<open>inflight\<close>) and, as the observable of the model, the log of effects
  that were begun: one entry for each call of a command's \<^verbatim>\<open>run\<close>.
\<close>

record live_command =
  lc_call :: command_call
  lc_received :: time
  lc_async :: bool

definition lc_id :: "live_command \<Rightarrow> ident" where
  "lc_id c = ce_id (cc_env (lc_call c))"

record command_host =
  ch_db :: host_db
  ch_inflight :: "live_command list"
  ch_begun :: "(ident \<times> string) list"

datatype command_answer =
    Answered int json bool
  | Joined
  | Begun

definition live :: "ident \<Rightarrow> command_host \<Rightarrow> bool" where
  "live i s \<longleftrightarrow> list_ex (\<lambda>c. lc_id c = i) (ch_inflight s)"

definition begin_effect ::
  "runtime_limits \<Rightarrow> host_identity \<Rightarrow> command_digests \<Rightarrow> command_call \<Rightarrow> bool \<Rightarrow> command_outcome \<Rightarrow> time
     \<Rightarrow> command_host \<Rightarrow> command_error + command_host" where
  "begin_effect l h dg c async accepted receivedAt s =
     rbind (writeReceipt l h dg c Accepted accepted receivedAt (ch_db s)) (\<lambda>d.
       Inr (s\<lparr>ch_db := d,
              ch_inflight := ch_inflight s @ [\<lparr>lc_call = c, lc_received = receivedAt, lc_async = async\<rparr>],
              ch_begun := ch_begun s @ [(ce_id (cc_env c), ce_kind (cc_env c))]\<rparr>))"

definition turn_lost :: "command_envelope \<Rightarrow> command_outcome" where
  "turn_lost env = \<lparr>co_status = httpStatusForCode Sup_PRECONDITION,
     co_body = errorBody Sup_PRECONDITION ''the turn for this command id was lost in a host restart''
       [(''reason'', JStr ''turn_lost''), (''runId'', JStr (cf_run (ce_fence env)))]\<rparr>"

definition reject_lost ::
  "runtime_limits \<Rightarrow> host_identity \<Rightarrow> command_digests \<Rightarrow> command_call \<Rightarrow> receipt_row \<Rightarrow> command_host
     \<Rightarrow> command_error + (command_answer \<times> command_host)" where
  "reject_lost l h dg c existing s =
     (let rejected = turn_lost (cc_env c)
      in rbind (writeReceipt l h dg c Rejected rejected (rc_received_at existing) (ch_db s)) (\<lambda>d.
           Inr (Answered (co_status rejected) (co_body rejected) False, s\<lparr>ch_db := d\<rparr>)))"

definition checked_receipt ::
  "command_digests \<Rightarrow> command_call \<Rightarrow> host_db \<Rightarrow> command_error + receipt_row option" where
  "checked_receipt dg c d =
     rbind (assertRequestTarget (cc_env c) (cc_session c)) (\<lambda>_.
       case getReceipt (ce_id (cc_env c)) d of
         None \<Rightarrow> Inr None
       | Some e \<Rightarrow> rbind (assertReceiptInvariant dg e (cc_env c) (cc_session c)) (\<lambda>_. Inr (Some e)))"

definition fresh_outcome :: command_outcome where
  "fresh_outcome = \<lparr>co_status = 202, co_body = JObj []\<rparr>"

definition execute ::
  "runtime_limits \<Rightarrow> host_identity \<Rightarrow> command_digests \<Rightarrow> command_call \<Rightarrow> command_host
     \<Rightarrow> command_error + (command_answer \<times> command_host)" where
  "execute l h dg c s =
     rbind (checked_receipt dg c (ch_db s)) (\<lambda>existing.
       case existing of
         Some e \<Rightarrow>
           (if rc_phase e \<noteq> Accepted then Inr (Answered (rc_status e) (rc_body e) True, s)
            else if live (ce_id (cc_env c)) s then Inr (Joined, s)
            else if ce_kind (cc_env c) \<in> set RESTARTABLE_OBJECT_KINDS
            then rbind (begin_effect l h dg c False fresh_outcome (rc_received_at e) s) (\<lambda>s'. Inr (Begun, s'))
            else if isUnsettledSessionCreateReceipt e then Inr (Answered (rc_status e) (rc_body e) True, s)
            else reject_lost l h dg c e s)
       | None \<Rightarrow>
           (if live (ce_id (cc_env c)) s then Inr (Joined, s)
            else rbind (begin_effect l h dg c False fresh_outcome (cc_now c) s) (\<lambda>s'. Inr (Begun, s'))))"

definition command_in_progress_body :: json where
  "command_in_progress_body = errorBody Sup_PRECONDITION
     ''runtime object upload with this command id is already in progress'' [(''reason'', JStr ''command_in_progress'')]"

definition executeRestartableUpload ::
  "runtime_limits \<Rightarrow> host_identity \<Rightarrow> command_digests \<Rightarrow> command_call \<Rightarrow> command_host
     \<Rightarrow> command_error + (command_answer \<times> command_host)" where
  "executeRestartableUpload l h dg c s =
     rbind (checked_receipt dg c (ch_db s)) (\<lambda>existing.
       if (\<exists>e \<in> set_option existing. rc_phase e \<noteq> Accepted)
       then Inr (Answered (rc_status (the existing)) (rc_body (the existing)) True, s)
       else if live (ce_id (cc_env c)) s
       then Inr (Answered (httpStatusForCode Sup_PRECONDITION) command_in_progress_body True, s)
       else rbind (begin_effect l h dg c False fresh_outcome
                    (case existing of Some e \<Rightarrow> rc_received_at e | None \<Rightarrow> cc_now c) s) (\<lambda>s'. Inr (Begun, s')))"

definition accepted_outcome :: "command_envelope \<Rightarrow> command_outcome" where
  "accepted_outcome env = \<lparr>co_status = 202,
     co_body = JObj [(''commandId'', JStr (ce_id env)), (''state'', JStr ''accepted'')]\<rparr>"

definition executeAsync ::
  "runtime_limits \<Rightarrow> host_identity \<Rightarrow> command_digests \<Rightarrow> command_call \<Rightarrow> command_host
     \<Rightarrow> command_error + (command_answer \<times> command_host)" where
  "executeAsync l h dg c s =
     (let accepted = accepted_outcome (cc_env c)
      in rbind (checked_receipt dg c (ch_db s)) (\<lambda>existing.
           if (\<exists>e \<in> set_option existing. rc_phase e \<noteq> Accepted) \<or> live (ce_id (cc_env c)) s
           then Inr (Answered (co_status accepted) (co_body accepted) True, s)
           else case existing of
             Some e \<Rightarrow> reject_lost l h dg c e s
           | None \<Rightarrow> rbind (begin_effect l h dg c True accepted (cc_now c) s)
                       (\<lambda>s'. Inr (Answered (co_status accepted) (co_body accepted) False, s'))))"

text \<open>
  How the effect of a command settles: it returns an outcome, fails before a process existed, fails with a
  process whose end is unknown, fails with another \<^verbatim>\<open>SupervisorError\<close>, or with anything else.
\<close>

datatype effect_result =
    Effect_done command_outcome
  | Effect_unstarted command_outcome
  | Effect_unsettled command_outcome
  | Effect_refused command_outcome
  | Effect_threw command_outcome

text \<open>
  \<^verbatim>\<open>runFresh\<close> and \<^verbatim>\<open>completeAsync\<close> after the effect: the phase of the receipt they write, or nothing.  The
  asynchronous form turns every failure into a rejection.
\<close>

fun settled_phase :: "bool \<Rightarrow> effect_result \<Rightarrow> (receipt_phase \<times> command_outcome) option" where
  "settled_phase async (Effect_done o1) = Some (Completed, o1)"
| "settled_phase async (Effect_unstarted o1) = Some (Rejected, o1)"
| "settled_phase async (Effect_unsettled o1) = Some (if async then Rejected else Accepted, o1)"
| "settled_phase async (Effect_refused o1) = Some (Rejected, o1)"
| "settled_phase async (Effect_threw o1) = (if async then Some (Rejected, o1) else None)"

definition settle_effect ::
  "runtime_limits \<Rightarrow> host_identity \<Rightarrow> command_digests \<Rightarrow> host_physical \<Rightarrow> time \<Rightarrow> ident \<Rightarrow> append_input option
     \<Rightarrow> ident \<Rightarrow> effect_result \<Rightarrow> command_host \<Rightarrow> command_host" where
  "settle_effect l h dg ph now fresh ev i result s =
     (case find (\<lambda>c. lc_id c = i) (ch_inflight s) of
        None \<Rightarrow> s
      | Some c \<Rightarrow>
          (let rest = filter (\<lambda>x. lc_id x \<noteq> i) (ch_inflight s);
               call = (lc_call c)\<lparr>cc_disk := ph, cc_now := now, cc_fresh := fresh, cc_event := ev\<rparr>;
               d = (case settled_phase (lc_async c) result of
                      None \<Rightarrow> ch_db s
                    | Some (phase, outcome) \<Rightarrow>
                        (case writeReceipt l h dg call phase outcome (lc_received c) (ch_db s) of
                           Inl _ \<Rightarrow> ch_db s | Inr d' \<Rightarrow> d'))
           in s\<lparr>ch_db := d, ch_inflight := rest\<rparr>))"

section \<open>Errors of the store on the wire\<close>

definition runtimeEventSupervisorError :: "host_error \<Rightarrow> supervisor_code \<times> string option \<times> outbox_limit option" where
  "runtimeEventSupervisorError e =
     (case e of
        HostRuntimeEventError r \<Rightarrow>
          (if r = Runtime_storage_unavailable
           then (Sup_EXECUTOR_UNAVAILABLE, Some ''runtime_storage_unavailable'', None)
           else if r = Runtime_storage_pressure
           then (Sup_EXECUTOR_UNAVAILABLE, Some ''runtime_storage_pressure'', None)
           else case outboxLimitOf r of
             Some limit \<Rightarrow> (Sup_PRECONDITION, Some ''event_outbox_backpressure'', Some limit)
           | None \<Rightarrow>
               (case r of
                  Replay_floor_exceeded \<Rightarrow> (Sup_PRECONDITION, Some ''replay_floor_lost'', None)
                | Command_in_progress \<Rightarrow> (Sup_PRECONDITION, Some ''command_in_progress'', None)
                | Command_invariant_conflict \<Rightarrow> (Sup_PRECONDITION, Some ''command_invariant_conflict'', None)
                | Stream_identity_conflict \<Rightarrow> (Sup_PRECONDITION, Some ''stream_identity_conflict'', None)
                | Ack_not_contiguous \<Rightarrow> (Sup_PRECONDITION, Some ''ack_not_contiguous'', None)
                | Ack_beyond_emitted \<Rightarrow> (Sup_PRECONDITION, Some ''ack_beyond_emitted'', None)
                | _ \<Rightarrow> (Sup_ACP_PROTOCOL, None, None)))
      | _ \<Rightarrow> (Sup_ACP_PROTOCOL, None, None))"

section \<open>The host under commands\<close>

text \<open>
  The steps of a host that serves commands.  A route checks the kind of its envelope before anything else
  (\<^verbatim>\<open>parseCommandBody\<close>).  \<open>C_host\<close> stands for every other operation on the store; the fence table is written by
  \<^verbatim>\<open>applyFence\<close> only.  A process that dies loses the live requests and starts again on the file.
\<close>

datatype command_op =
    C_fence host_physical time command_fence "ident option"
  | C_execute string command_call
  | C_upload command_call
  | C_async command_call
  | C_settle host_physical time ident "append_input option" ident effect_result
  | C_host host_op
  | C_restart process_context time

definition on_route ::
  "string \<Rightarrow> command_call \<Rightarrow> command_error + (command_answer \<times> command_host) \<Rightarrow> command_error + command_host" where
  "on_route kind c r =
     (if ce_kind (cc_env c) \<noteq> kind then Inl (SupervisorError Sup_PRECONDITION []) else rbind r (\<lambda>(_, s). Inr s))"

fun command_exec ::
  "runtime_limits \<Rightarrow> host_identity \<Rightarrow> command_digests \<Rightarrow> command_op \<Rightarrow> command_host \<Rightarrow> command_error + command_host" where
  "command_exec l h dg (C_fence ph now f expected) s =
     rbind (applyFence h ph now f expected (ch_db s)) (\<lambda>(_, d). Inr (s\<lparr>ch_db := d\<rparr>))"
| "command_exec l h dg (C_execute kind c) s = on_route kind c (execute l h dg c s)"
| "command_exec l h dg (C_upload c) s = on_route ''runtime_object.upload'' c (executeRestartableUpload l h dg c s)"
| "command_exec l h dg (C_async c) s = on_route ''session.prompt'' c (executeAsync l h dg c s)"
| "command_exec l h dg (C_settle ph now fresh ev i result) s = Inr (settle_effect l h dg ph now fresh ev i result s)"
| "command_exec l h dg (C_host op) s =
     (if is_fence_op op then Inl Unexpected
      else case host_exec l h op (ch_db s) of Inl e \<Rightarrow> Inl (HostFailure e) | Inr d \<Rightarrow> Inr (s\<lparr>ch_db := d\<rparr>))"
| "command_exec l h dg (C_restart pc now) s =
     (case openHostState l h pc now (ch_db s) of
        Inl e \<Rightarrow> Inl (HostFailure e) | Inr d \<Rightarrow> Inr (s\<lparr>ch_db := d, ch_inflight := []\<rparr>))"

text \<open>As for the store, each step names the boot id of the process that makes it.\<close>

definition command_step ::
  "runtime_limits \<Rightarrow> host_identity \<Rightarrow> command_digests \<Rightarrow> ident \<times> command_op \<Rightarrow> command_host
     \<Rightarrow> command_error + command_host" where
  "command_step l h dg bop s = command_exec l (h\<lparr>hi_boot := fst bop\<rparr>) dg (snd bop) s"

fun command_run ::
  "runtime_limits \<Rightarrow> host_identity \<Rightarrow> command_digests \<Rightarrow> (ident \<times> command_op) list \<Rightarrow> command_host \<Rightarrow> command_host" where
  "command_run l h dg [] s = s"
| "command_run l h dg (bop # ops) s =
     command_run l h dg ops (case command_step l h dg bop s of Inl _ \<Rightarrow> s | Inr s' \<Rightarrow> s')"

definition new_command_host :: command_host where
  "new_command_host = \<lparr>ch_db = empty_host_db, ch_inflight = [], ch_begun = []\<rparr>"

end
