(* ===== verification/HostCommandProps.thy ===== *)
theory HostCommandProps
  imports HostCommands HostLedger
begin

text \<open>
  A command executes at most once, a superseded assignment stays fenced, and no session process of an older
  assignment comes to life, along every interleaving of commands, settlements, other operations of the
  store and restarts.
\<close>

section \<open>Steps on the ledger\<close>

lemma setFence_get:
  assumes "setFence ph now run asg ep d = Inr d'"
  shows "getFence x d' = (if x = run then Some \<lparr>fn_run = run, fn_assignment = asg, fn_epoch = ep, fn_updated_at = now\<rparr>
                          else getFence x d)"
proof -
  have upd: "find (\<lambda>f. fn_run f = x) (sql_update (\<lambda>f. fn_run f = run)
       (\<lambda>f. f\<lparr>fn_assignment := asg, fn_epoch := ep, fn_updated_at := now\<rparr>) rows)
     = (if x = run then map_option (\<lambda>f. f\<lparr>fn_assignment := asg, fn_epoch := ep, fn_updated_at := now\<rparr>)
                          (find (\<lambda>f. fn_run f = x) rows)
        else find (\<lambda>f. fn_run f = x) rows)" for rows
    by (induction rows) (auto simp: sql_update_def)
  have app: "find (\<lambda>f. fn_run f = x) (rows @ [f])
      = (case find (\<lambda>f. fn_run f = x) rows of Some g \<Rightarrow> Some g | None \<Rightarrow> if fn_run f = x then Some f else None)" for rows f
    by (induction rows) auto
  show ?thesis
  proof (cases "list_ex (\<lambda>f. fn_run f = run) (h_fences d)")
    case True
    then have "find (\<lambda>f. fn_run f = run) (h_fences d) \<noteq> None" by (auto simp: find_None_iff list_ex_iff)
    then obtain f where "find (\<lambda>f. fn_run f = run) (h_fences d) = Some f" by blast
    moreover from this have "fn_run f = run" by (auto simp: find_Some_iff)
    then have "f\<lparr>fn_assignment := asg, fn_epoch := ep, fn_updated_at := now\<rparr>
        = \<lparr>fn_run = run, fn_assignment = asg, fn_epoch = ep, fn_updated_at = now\<rparr>" by (cases f) simp
    moreover have "h_fences d' = sql_update (\<lambda>f. fn_run f = run)
        (\<lambda>f. f\<lparr>fn_assignment := asg, fn_epoch := ep, fn_updated_at := now\<rparr>) (h_fences d)"
      using assms True by (auto simp: setFence_def storage_write_Inr)
    ultimately show ?thesis by (simp add: getFence_def upd)
  next
    case False
    then have "find (\<lambda>f. fn_run f = run) (h_fences d) = None" by (auto simp: find_None_iff list_ex_iff)
    moreover have "h_fences d' = h_fences d @ [\<lparr>fn_run = run, fn_assignment = asg, fn_epoch = ep, fn_updated_at = now\<rparr>]"
      using assms False by (auto simp: setFence_def storage_write_Inr)
    ultimately show ?thesis by (auto simp: getFence_def app split: option.splits)
  qed
qed

lemma applyFence_step:
  assumes ok: "ledger_ok d" and a: "applyFence h ph now f expected d = Inr (out, d')"
  shows "ledger_step d d'"
proof (cases "d' = d")
  case True
  then show ?thesis using ok by (simp add: ledger_step_def)
next
  case False
  have s: "setFence ph now (cf_run f) (cf_assignment f) (cf_epoch f) d = Inr d'"
    and up: "\<And>g. getFence (cf_run f) d = Some g \<Longrightarrow> fn_epoch g < cf_epoch f"
    using a False by (auto simp: applyFence_def split: if_splits option.splits sum.splits)
  have "h_receipts d' = h_receipts d" "h_processes d' = h_processes d"
    using s by (auto simp: setFence_def storage_write_Inr)
  moreover have "fences_later d d'"
    using up by (auto simp: fences_later_def setFence_get[OF s] fence_later_def)
  ultimately have "ledger_later d d'" by (simp add: ledger_later_def processes_later_same digests_later_same receipt_keys_def)
  then show ?thesis using fence_op_ok[OF ok s] by (simp add: ledger_step_def)
qed

lemma case_Inr_iff: "(case r of Inl e \<Rightarrow> Inl (f e) | Inr x \<Rightarrow> Inr x) = Inr y \<longleftrightarrow> r = Inr y"
  by (cases r) simp_all

lemma writeReceipt_step:
  assumes ok: "ledger_ok d" and w: "writeReceipt l h dg c phase outcome t d = Inr d'"
  shows "ledger_step d d'"
    "receipt_keys d' = (if receipt_known d (ce_id (cc_env c)) then receipt_keys d
       else receipt_keys d @ [(ce_id (cc_env c), ce_kind (cc_env c), cf_run (ce_fence (cc_env c)), cf_epoch (ce_fence (cc_env c)))])"
proof -
  obtain row where r: "receipt_of h dg c phase outcome t d = Inr row"
    and p: "(\<exists>ev input. putReceiptWithRuntimeEvent l h (cc_disk c) (cc_now c) (cc_fresh c) row input (Some (cc_admission c)) d = Inr (ev, d'))
      \<or> putReceipt l (cc_disk c) (cc_now c) row (Some (cc_admission c)) d = Inr d'"
    using w by (cases "cc_event c") (auto simp: writeReceipt_def rbind_Inr_iff case_Inr_iff)
  have i: "receipt_identity row = (ce_id (cc_env c), ce_kind (cc_env c), cf_run (ce_fence (cc_env c)), cf_epoch (ce_fence (cc_env c)))"
    "rc_command row = ce_id (cc_env c)"
    using r by (auto simp: receipt_of_def Let_def rbind_Inr_iff receipt_identity_def)
  show "ledger_step d d'" "receipt_keys d' = (if receipt_known d (ce_id (cc_env c)) then receipt_keys d
       else receipt_keys d @ [(ce_id (cc_env c), ce_kind (cc_env c), cf_run (ce_fence (cc_env c)), cf_epoch (ce_fence (cc_env c)))])"
    using p putReceipt_step[OF ok] putReceiptWithRuntimeEvent_step[OF ok] i by metis+
qed

section \<open>Each command once\<close>

text \<open>The kinds whose effect may be started again from its durable row.\<close>

definition restartable :: "string \<Rightarrow> bool" where
  "restartable k \<longleftrightarrow> k \<in> set RESTARTABLE_OBJECT_KINDS \<or> k = ''runtime_object.upload''"

definition has_receipt :: "ident \<times> string \<Rightarrow> host_db \<Rightarrow> bool" where
  "has_receipt e d \<longleftrightarrow> (\<exists>run ep. (fst e, snd e, run, ep) \<in> set (receipt_keys d))"

definition starts :: "ident \<Rightarrow> command_host \<Rightarrow> (ident \<times> string) list" where
  "starts i s = filter (\<lambda>e. fst e = i \<and> \<not> restartable (snd e)) (ch_begun s)"

definition command_ok :: "command_host \<Rightarrow> bool" where
  "command_ok s \<longleftrightarrow>
     ledger_ok (ch_db s) \<and> distinct (map lc_id (ch_inflight s))
     \<and> (\<forall>e \<in> set (ch_begun s). has_receipt e (ch_db s)) \<and> (\<forall>i. length (starts i s) \<le> 1)"

definition command_later :: "command_host \<Rightarrow> command_host \<Rightarrow> bool" where
  "command_later s s' \<longleftrightarrow> ledger_later (ch_db s) (ch_db s') \<and> (\<exists>new. ch_begun s' = ch_begun s @ new)"

lemma command_later_refl: "command_later s s"
  by (simp add: command_later_def)

lemma command_later_trans: "command_later s s' \<Longrightarrow> command_later s' s'' \<Longrightarrow> command_later s s''"
  unfolding command_later_def using ledger_later_trans by (metis append.assoc)

lemma has_receipt_later: "ledger_later d d' \<Longrightarrow> has_receipt e d \<Longrightarrow> has_receipt e d'"
  unfolding ledger_later_def has_receipt_def by (metis Un_iff set_append)

lemma has_receipt_known: "has_receipt e d \<Longrightarrow> receipt_known d (fst e)"
  by (force simp: has_receipt_def receipt_keys_def receipt_identity_def receipt_known_iff)

lemma has_receipt_kind:
  assumes "ledger_ok d" "has_receipt (i, k) d" "has_receipt (i, k') d"
  shows "k = k'"
proof -
  obtain r r' where r: "r \<in> set (h_receipts d)" "r' \<in> set (h_receipts d)" "rc_command r = i" "rc_command r' = i"
    "rc_kind r = k" "rc_kind r' = k'"
    using assms(2,3) by (auto simp: has_receipt_def receipt_keys_def receipt_identity_def)
  have "inj_on rc_command (set (h_receipts d))" using assms(1) by (simp add: ledger_ok_def distinct_map)
  then have "r = r'" using r by (metis inj_onD)
  then show ?thesis using r by simp
qed

lemma getReceipt_has: "getReceipt i d = Some r \<Longrightarrow> has_receipt (i, rc_kind r) d"
proof -
  assume "getReceipt i d = Some r"
  then have "r \<in> set (h_receipts d)" "rc_command r = i" by (auto simp: getReceipt_def find_Some_iff)
  then have "(i, rc_kind r, rc_run r, rc_epoch r) \<in> set (receipt_keys d)"
    by (force simp: receipt_keys_def receipt_identity_def)
  then show ?thesis by (auto simp: has_receipt_def)
qed

text \<open>A step that changes the store only.\<close>

lemma store_step:
  assumes "command_ok s" "ledger_step (ch_db s) d" "inflight = ch_inflight s \<or> distinct (map lc_id inflight)"
  shows "command_ok (s\<lparr>ch_db := d, ch_inflight := inflight\<rparr>)" "command_later s (s\<lparr>ch_db := d, ch_inflight := inflight\<rparr>)"
  using assms has_receipt_later by (auto simp: command_ok_def command_later_def ledger_step_def starts_def)

lemma live_iff: "live i s \<longleftrightarrow> i \<in> set (map lc_id (ch_inflight s))"
  by (auto simp: live_def list_ex_iff)

lemma begin_effect_step:
  assumes ok: "command_ok s" and b: "begin_effect l h dg c async accepted t s = Inr s'"
    and free: "\<not> live (ce_id (cc_env c)) s"
    and once: "\<not> receipt_known (ch_db s) (ce_id (cc_env c))
      \<or> (has_receipt (ce_id (cc_env c), ce_kind (cc_env c)) (ch_db s) \<and> restartable (ce_kind (cc_env c)))"
  shows "command_ok s'" "command_later s s'"
proof -
  let ?i = "ce_id (cc_env c)" and ?k = "ce_kind (cc_env c)"
  obtain d where w: "writeReceipt l h dg c Accepted accepted t (ch_db s) = Inr d"
    and s': "s' = s\<lparr>ch_db := d, ch_inflight := ch_inflight s @ [\<lparr>lc_call = c, lc_received = t, lc_async = async\<rparr>],
              ch_begun := ch_begun s @ [(?i, ?k)]\<rparr>"
    using b by (auto simp: begin_effect_def rbind_Inr_iff)
  have lok: "ledger_ok (ch_db s)" using ok by (simp add: command_ok_def)
  note ws = writeReceipt_step[OF lok w]
  have has: "has_receipt (?i, ?k) d"
    using once ws by (auto simp: has_receipt_def ledger_step_def ledger_later_def split: if_splits)
  show "command_later s s'" using ws(1) by (simp add: command_later_def s' ledger_step_def)
  have "has_receipt e d" if "e \<in> set (ch_begun s)" for e
    using that ok ws(1) has_receipt_later[of "ch_db s" d e] by (simp add: command_ok_def ledger_step_def)
  moreover have "distinct (map lc_id (ch_inflight s'))"
    using ok free by (auto simp: command_ok_def s' live_iff lc_id_def)
  moreover have "length (starts j s') \<le> 1" for j
  proof (cases "j = ?i \<and> \<not> restartable ?k")
    case True
    then have "\<not> receipt_known (ch_db s) ?i" using once by blast
    then have "starts ?i s = []" using ok has_receipt_known by (fastforce simp: starts_def filter_empty_conv command_ok_def)
    then show ?thesis using True by (simp add: starts_def s')
  next
    case False
    then have "starts j s' = starts j s" by (auto simp: starts_def s')
    then show ?thesis using ok by (simp add: command_ok_def)
  qed
  ultimately show "command_ok s'" using has ws(1) by (auto simp: command_ok_def s' ledger_step_def)
qed

lemma checked_receipt_cases:
  assumes "checked_receipt dg c d = Inr e"
  shows "e = None \<Longrightarrow> \<not> receipt_known d (ce_id (cc_env c))"
    "e = Some r \<Longrightarrow> has_receipt (ce_id (cc_env c), ce_kind (cc_env c)) d"
proof -
  have g: "e = getReceipt (ce_id (cc_env c)) d"
    using assms by (auto simp: checked_receipt_def rbind_Inr_iff split: option.splits)
  show "e = None \<Longrightarrow> \<not> receipt_known d (ce_id (cc_env c))"
    using g by (auto simp: getReceipt_def find_None_iff receipt_known_iff)
  assume r: "e = Some r"
  then have "rc_kind r = ce_kind (cc_env c)"
    using assms g
    by (auto simp: checked_receipt_def rbind_Inr_iff assertReceiptInvariant_def receipt_mismatch_def split: option.splits if_splits)
  then show "has_receipt (ce_id (cc_env c), ce_kind (cc_env c)) d"
    using getReceipt_has[of "ce_id (cc_env c)" d r] g r by simp
qed

definition command_good :: "command_host \<Rightarrow> command_host \<Rightarrow> bool" where
  "command_good s s' \<longleftrightarrow> command_ok s' \<and> command_later s s'"

lemma command_good_refl: "command_ok s \<Longrightarrow> command_good s s"
  by (simp add: command_good_def command_later_refl)

lemma begin_effect_good:
  assumes "command_ok s" "begin_effect l h dg c async accepted t s = Inr s'" "\<not> live (ce_id (cc_env c)) s"
    "\<not> receipt_known (ch_db s) (ce_id (cc_env c))
      \<or> (has_receipt (ce_id (cc_env c), ce_kind (cc_env c)) (ch_db s) \<and> restartable (ce_kind (cc_env c)))"
  shows "command_good s s'"
  using begin_effect_step[OF assms] by (simp add: command_good_def)

lemma store_good:
  assumes "command_ok s" "ledger_step (ch_db s) d"
  shows "command_good s (s\<lparr>ch_db := d\<rparr>)"
  using store_step[OF assms, of "ch_inflight s"] by (simp add: command_good_def)

lemma reject_lost_good:
  assumes ok: "command_ok s" and r: "reject_lost l h dg c e s = Inr (ans, s')"
  shows "command_good s s'"
proof -
  have "ledger_ok (ch_db s)" using ok by (simp add: command_ok_def)
  then show ?thesis
    using r writeReceipt_step(1) store_good[OF ok] by (fastforce simp: reject_lost_def Let_def rbind_Inr_iff)
qed

lemma execute_good:
  assumes ok: "command_ok s" and e: "execute l h dg c s = Inr (ans, s')"
  shows "command_good s s'"
proof -
  obtain x where x: "checked_receipt dg c (ch_db s) = Inr x" using e by (auto simp: execute_def rbind_Inr_iff)
  show ?thesis
  proof (cases x)
    case None
    then show ?thesis
      using e x begin_effect_good[OF ok] checked_receipt_cases(1)[OF x] command_good_refl[OF ok]
      by (auto simp: execute_def rbind_Inr_iff split: if_splits)
  next
    case (Some r)
    then show ?thesis
      using e x begin_effect_good[OF ok] checked_receipt_cases(2)[OF x Some] command_good_refl[OF ok]
        reject_lost_good[OF ok]
      by (auto simp: execute_def rbind_Inr_iff restartable_def split: if_splits)
  qed
qed

lemma executeRestartableUpload_good:
  assumes ok: "command_ok s" and e: "executeRestartableUpload l h dg c s = Inr (ans, s')"
    and k: "ce_kind (cc_env c) = ''runtime_object.upload''"
  shows "command_good s s'"
proof -
  obtain x where x: "checked_receipt dg c (ch_db s) = Inr x"
    using e by (auto simp: executeRestartableUpload_def rbind_Inr_iff)
  have "\<not> receipt_known (ch_db s) (ce_id (cc_env c))
      \<or> (has_receipt (ce_id (cc_env c), ce_kind (cc_env c)) (ch_db s) \<and> restartable (ce_kind (cc_env c)))"
    using checked_receipt_cases[OF x] k by (cases x) (auto simp: restartable_def)
  then show ?thesis
    using e x begin_effect_good[OF ok] command_good_refl[OF ok]
    by (auto simp: executeRestartableUpload_def rbind_Inr_iff split: if_splits)
qed

lemma executeAsync_good:
  assumes ok: "command_ok s" and e: "executeAsync l h dg c s = Inr (ans, s')"
  shows "command_good s s'"
proof -
  obtain x where x: "checked_receipt dg c (ch_db s) = Inr x" using e by (auto simp: executeAsync_def rbind_Inr_iff Let_def)
  show ?thesis
  proof (cases x)
    case None
    then show ?thesis
      using e x begin_effect_good[OF ok] checked_receipt_cases(1)[OF x] command_good_refl[OF ok]
      by (auto simp: executeAsync_def rbind_Inr_iff Let_def split: if_splits)
  next
    case (Some r)
    then show ?thesis
      using e x command_good_refl[OF ok] reject_lost_good[OF ok]
      by (auto simp: executeAsync_def rbind_Inr_iff Let_def split: if_splits)
  qed
qed

lemma settle_effect_good:
  assumes ok: "command_ok s"
  shows "command_good s (settle_effect l h dg ph now fresh ev i result s)"
proof -
  have lok: "ledger_ok (ch_db s)" using ok by (simp add: command_ok_def)
  then have self: "ledger_step (ch_db s) (ch_db s)" by (simp add: ledger_step_def)
  have dist: "distinct (map lc_id (filter P (ch_inflight s)))" for P
    using ok by (simp add: command_ok_def distinct_map_filter)
  have "ledger_step (ch_db s) (case x of None \<Rightarrow> ch_db s | Some (phase, outcome) \<Rightarrow>
      (case writeReceipt l h dg call phase outcome t (ch_db s) of Inl _ \<Rightarrow> ch_db s | Inr d' \<Rightarrow> d'))" for x call t
    using self writeReceipt_step(1)[OF lok] by (auto split: option.splits sum.splits)
  then show ?thesis
    using command_good_refl[OF ok] store_step[OF ok] dist
    by (auto simp: settle_effect_def Let_def command_good_def split: option.splits)
qed

lemma command_exec_good:
  assumes ok: "command_ok s" and ex: "command_exec l h dg op s = Inr s'"
  shows "command_good s s'"
proof -
  have lok: "ledger_ok (ch_db s)" using ok by (simp add: command_ok_def)
  show ?thesis
  proof (cases op)
    case (C_fence ph now f expected)
    then show ?thesis using ex applyFence_step[OF lok] store_good[OF ok] by (auto simp: rbind_Inr_iff)
  next
    case (C_execute kind c)
    then show ?thesis using ex execute_good[OF ok] by (auto simp: on_route_def rbind_Inr_iff split: if_splits)
  next
    case (C_upload c)
    then show ?thesis
      using ex executeRestartableUpload_good[OF ok] by (auto simp: on_route_def rbind_Inr_iff split: if_splits)
  next
    case (C_async c)
    then show ?thesis using ex executeAsync_good[OF ok] by (auto simp: on_route_def rbind_Inr_iff split: if_splits)
  next
    case (C_settle ph now fresh ev i result)
    then show ?thesis using ex settle_effect_good[OF ok] by auto
  next
    case (C_host hop)
    then show ?thesis
      using ex host_exec_ledger[OF lok] store_good[OF ok] by (auto simp: ledger_step_def split: if_splits sum.split_asm)
  next
    case (C_restart pc now)
    then show ?thesis
      using ex open_step[OF lok] store_step[OF ok, of _ "[]"] by (auto simp: command_good_def split: sum.split_asm)
  qed
qed

interpretation commands: transactional "command_step l h dg" "command_run l h dg" command_ok command_later
  for l h dg
proof unfold_locales
  show "command_ok s'" if "command_ok s" "command_step l h dg op s = Inr s'" for s op s'
    using that command_exec_good by (simp add: command_step_def command_good_def)
  show "command_later s s'" if "command_ok s" "command_step l h dg op s = Inr s'" for s op s'
    using that command_exec_good by (simp add: command_step_def command_good_def)
  show "command_later s s''" if "command_later s s'" "command_later s' s''" for s s' s''
    using that by (rule command_later_trans)
qed (simp_all add: command_later_refl)

lemma new_command_ok: "command_ok new_command_host"
  by (simp add: command_ok_def new_command_host_def starts_def empty_ledger)

end
