(* ===== verification/CommandRoutes.thy ===== *)
theory CommandRoutes
  imports HostCommandProps RuntimeEvents
begin

text \<open>
  The routes that take commands (\<^verbatim>\<open>supervisor/src/http-api.ts\<close>): each checks the kind of its envelope, then its
  fence, retires the sessions of older assignments, and only then turns to the receipts.  Every route but
  one is gated by \<^verbatim>\<open>applyFence\<close>; the deletion of a runtime object compares the fence with the assignment that
  made the object instead.
\<close>

section \<open>Routes\<close>

text \<open>The columns of a stored runtime object that the routes read, and what they read of a live session.\<close>

record runtime_object =
  ro_id :: ident
  ro_run :: ident
  ro_assignment :: ident
  ro_epoch :: int

record upload_headers =
  uh_command :: ident
  uh_issued_at :: string
  uh_assignment :: ident
  uh_epoch :: int
  uh_generation :: int
  uh_size :: int
  uh_sha256 :: string

record live_session =
  ls_id :: ident
  ls_run :: ident
  ls_created_by :: ident
  ls_active_prompt :: "ident option"

text \<open>
  A route with what it looked up before the command runs: the run of a workspace handle (of the payload on
  adoption, of a handle that may be missing on creation), the session, or the object.
\<close>

datatype command_route =
    Reserve_object
  | Upload_object runtime_object upload_headers
  | Delete_object runtime_object
  | Adopt_workspace ident
  | Release_workspace ident
  | Create_session "ident option" "nat option"
  | Prompt_session live_session
  | Cancel_session live_session
  | Delete_session live_session
  | Checkpoint_session live_session
  | Input_session live_session
  | Steer_session live_session

fun route_kind :: "command_route \<Rightarrow> string" where
  "route_kind Reserve_object = ''runtime_object.reserve''"
| "route_kind (Upload_object ob u) = ''runtime_object.upload''"
| "route_kind (Delete_object ob) = ''runtime_object.delete''"
| "route_kind (Adopt_workspace run) = ''workspace.adopt''"
| "route_kind (Release_workspace run) = ''workspace.release''"
| "route_kind (Create_session run outputs) = ''session.create''"
| "route_kind (Prompt_session e) = ''session.prompt''"
| "route_kind (Cancel_session e) = ''session.cancel''"
| "route_kind (Delete_session e) = ''session.delete''"
| "route_kind (Checkpoint_session e) = ''session.checkpoint''"
| "route_kind (Input_session e) = ''session.input''"
| "route_kind (Steer_session e) = ''session.steer''"

fun route_entry :: "command_route \<Rightarrow> live_session option" where
  "route_entry (Prompt_session e) = Some e"
| "route_entry (Cancel_session e) = Some e"
| "route_entry (Delete_session e) = Some e"
| "route_entry (Checkpoint_session e) = Some e"
| "route_entry (Input_session e) = Some e"
| "route_entry (Steer_session e) = Some e"
| "route_entry _ = None"

text \<open>The run that the fence of a command must name, when the route knows one.\<close>

definition expected_run :: "command_route \<Rightarrow> command_fence \<Rightarrow> ident option" where
  "expected_run r f =
     (case r of
        Reserve_object \<Rightarrow> Some (cf_run f)
      | Upload_object ob _ \<Rightarrow> Some (ro_run ob)
      | Delete_object ob \<Rightarrow> Some (ro_run ob)
      | Adopt_workspace run \<Rightarrow> Some run
      | Release_workspace run \<Rightarrow> Some run
      | Create_session run _ \<Rightarrow> run
      | _ \<Rightarrow> map_option ls_run (route_entry r))"

text \<open>
  The envelope of an upload is made from its headers; it names the host itself and the run of the object.
\<close>

definition upload_envelope :: "host_identity \<Rightarrow> runtime_object \<Rightarrow> upload_headers \<Rightarrow> command_envelope" where
  "upload_envelope h ob u =
     \<lparr>ce_version = None, ce_target = None, ce_id = uh_command u, ce_kind = ''runtime_object.upload'',
      ce_issued_at = uh_issued_at u,
      ce_fence = \<lparr>cf_host_key = hi_key h, cf_assignment = uh_assignment u, cf_epoch = uh_epoch u, cf_run = ro_run ob\<rparr>,
      ce_payload = JObj [(''objectId'', JStr (ro_id ob)), (''generation'', json_int (uh_generation u)),
        (''sizeBytes'', json_int (uh_size u)), (''sha256'', JStr (uh_sha256 u))]\<rparr>"

definition route_session :: "command_route \<Rightarrow> ident option" where
  "route_session r =
     (case r of Upload_object ob _ \<Rightarrow> Some (ro_id ob) | Delete_object ob \<Rightarrow> Some (ro_id ob)
      | _ \<Rightarrow> map_option ls_id (route_entry r))"

definition route_outputs :: "command_route \<Rightarrow> nat option" where
  "route_outputs r = (case r of Create_session _ outputs \<Rightarrow> outputs | _ \<Rightarrow> None)"

text \<open>What a route hands to the receipts: the envelope, the session or object, and the admission.\<close>

definition route_call :: "host_identity \<Rightarrow> command_route \<Rightarrow> command_call \<Rightarrow> command_call" where
  "route_call h r c =
     c\<lparr>cc_env := (case r of Upload_object ob u \<Rightarrow> upload_envelope h ob u | _ \<Rightarrow> cc_env c),
       cc_session := route_session r,
       cc_admission := the (receiptAdmission (route_kind r) (route_outputs r) (map_option ls_created_by (route_entry r)))\<rparr>"

section \<open>The fence and the retirement of older owners\<close>

definition assertRuntimeObjectDeleteFence ::
  "host_identity \<Rightarrow> runtime_object \<Rightarrow> command_fence \<Rightarrow> command_error + unit" where
  "assertRuntimeObjectDeleteFence h ob f =
     (if cf_host_key f \<noteq> hi_key h then Inl (SupervisorError Sup_PRECONDITION ''host_mismatch'')
      else if cf_run f \<noteq> ro_run ob then Inl (SupervisorError Sup_PRECONDITION ''run_mismatch'')
      else if cf_assignment f \<noteq> ro_assignment ob \<or> cf_epoch f \<noteq> ro_epoch ob
      then Inl (SupervisorError Sup_FENCED ''assignment_fenced'')
      else Inr ())"

text \<open>
  The retirement waits for processes: the sessions it finds, how each ends, whether
  \<^verbatim>\<open>reconcileRunSessionProcesses\<close> throws, and the steps the host makes while the route waits are arguments.
\<close>

record retirement =
  rt_registry :: "session_entry list"
  rt_terminate :: "session_entry \<Rightarrow> retirement_evidence \<times> session_entry"
  rt_reconcile :: "command_error option"
  rt_meanwhile :: "(ident \<times> command_op) list"

definition requirePriorEpochRetirement ::
  "runtime_limits \<Rightarrow> host_identity \<Rightarrow> command_digests \<Rightarrow> retirement \<Rightarrow> command_envelope \<Rightarrow> command_host
     \<Rightarrow> command_error option \<times> command_host" where
  "requirePriorEpochRetirement l h dg w env s =
     (if (\<exists>r \<in> set_option (getReceipt (ce_id env) (ch_db s)). rc_phase r \<noteq> Accepted) then None
      else case snd (evictLowerEpochSessions (rt_terminate w) (cf_run (ce_fence env)) (cf_epoch (ce_fence env)) (rt_registry w)) of
        Some e \<Rightarrow> Some e
      | None \<Rightarrow> rt_reconcile w,
      command_run l h dg (rt_meanwhile w) s)"

section \<open>Serving a command\<close>

text \<open>A route answers, or throws; the state is the one the host is left in.\<close>

type_synonym served = "(command_error + command_answer) \<times> command_host"

definition answered :: "command_host \<Rightarrow> command_error + (command_answer \<times> command_host) \<Rightarrow> served" where
  "answered s r = (case r of Inl e \<Rightarrow> (Inl e, s) | Inr (a, s') \<Rightarrow> (Inr a, s'))"

definition behind_fence ::
  "runtime_limits \<Rightarrow> host_identity \<Rightarrow> command_digests \<Rightarrow> retirement \<Rightarrow> ident option \<Rightarrow> command_call
     \<Rightarrow> (command_host \<Rightarrow> served) \<Rightarrow> command_host \<Rightarrow> served" where
  "behind_fence l h dg w expected c run s =
     (case applyFence h (cc_disk c) (cc_now c) (ce_fence (cc_env c)) expected (ch_db s) of
        Inl e \<Rightarrow> (Inl e, s)
      | Inr (_, d) \<Rightarrow>
          (case requirePriorEpochRetirement l h dg w (cc_env c) (s\<lparr>ch_db := d\<rparr>) of
             (Some e, s') \<Rightarrow> (Inl e, s')
           | (None, s') \<Rightarrow> run s'))"

definition runCommand ::
  "runtime_limits \<Rightarrow> host_identity \<Rightarrow> command_digests \<Rightarrow> retirement \<Rightarrow> ident option \<Rightarrow> command_call
     \<Rightarrow> command_host \<Rightarrow> served" where
  "runCommand l h dg w expected c =
     behind_fence l h dg w expected c (\<lambda>s. answered s (execute l h dg c s))"

definition runRestartableUploadCommand ::
  "runtime_limits \<Rightarrow> host_identity \<Rightarrow> command_digests \<Rightarrow> retirement \<Rightarrow> ident option \<Rightarrow> command_call
     \<Rightarrow> command_host \<Rightarrow> served" where
  "runRestartableUploadCommand l h dg w expected c =
     behind_fence l h dg w expected c (\<lambda>s. answered s (executeRestartableUpload l h dg c s))"

definition runRuntimeObjectDeleteCommand ::
  "runtime_limits \<Rightarrow> host_identity \<Rightarrow> command_digests \<Rightarrow> runtime_object \<Rightarrow> command_call \<Rightarrow> command_host \<Rightarrow> served" where
  "runRuntimeObjectDeleteCommand l h dg ob c s =
     (case assertRuntimeObjectDeleteFence h ob (ce_fence (cc_env c)) of
        Inl e \<Rightarrow> (Inl e, s)
      | Inr _ \<Rightarrow> answered s (execute l h dg c s))"

text \<open>A session takes one prompt at a time, as soon as one of the two is a version-2 request.\<close>

definition prompt_busy :: "live_session \<Rightarrow> command_envelope \<Rightarrow> host_db \<Rightarrow> bool" where
  "prompt_busy e env d \<longleftrightarrow>
     (\<exists>a \<in> set_option (ls_active_prompt e). a \<noteq> [] \<and> a \<noteq> ce_id env
        \<and> (ce_version env = Some 2 \<or> (\<exists>r \<in> set_option (getReceipt a d). rc_version r = 2))
        \<and> getReceipt (ce_id env) d = None)"

definition runAsyncPromptCommand ::
  "runtime_limits \<Rightarrow> host_identity \<Rightarrow> command_digests \<Rightarrow> retirement \<Rightarrow> live_session \<Rightarrow> command_call
     \<Rightarrow> command_host \<Rightarrow> served" where
  "runAsyncPromptCommand l h dg w e c =
     behind_fence l h dg w (Some (ls_run e)) c (\<lambda>s.
       if prompt_busy e (cc_env c) (ch_db s) then (Inl (SupervisorError Sup_PRECONDITION ''command_in_progress''), s)
       else answered s (executeAsync l h dg c s))"

definition serve ::
  "runtime_limits \<Rightarrow> host_identity \<Rightarrow> command_digests \<Rightarrow> retirement \<Rightarrow> command_route \<Rightarrow> command_call
     \<Rightarrow> command_host \<Rightarrow> served" where
  "serve l h dg w r c0 s =
     (let c = route_call h r c0
      in if ce_kind (cc_env c) \<noteq> route_kind r then (Inl (SupervisorError Sup_PRECONDITION []), s)
         else case r of
           Upload_object ob u \<Rightarrow> runRestartableUploadCommand l h dg w (Some (ro_run ob)) c s
         | Delete_object ob \<Rightarrow> runRuntimeObjectDeleteCommand l h dg ob c s
         | Prompt_session e \<Rightarrow> runAsyncPromptCommand l h dg w e c s
         | _ \<Rightarrow> runCommand l h dg w (expected_run r (ce_fence (cc_env c))) c s)"

section \<open>A served command is a history of the host\<close>

lemma run_step:
  "command_run l h dg [(hi_boot h, op)] s = (case command_exec l h dg op s of Inl _ \<Rightarrow> s | Inr s' \<Rightarrow> s')"
  by (simp add: command_step_def)

lemma command_run_append: "command_run l h dg (xs @ ys) s = command_run l h dg ys (command_run l h dg xs s)"
  by (induction xs arbitrary: s) simp_all

text \<open>The state after a route is one that the separate steps reach, so their invariants hold of it.\<close>

definition reached :: "runtime_limits \<Rightarrow> host_identity \<Rightarrow> command_digests \<Rightarrow> command_host \<Rightarrow> command_host \<Rightarrow> bool" where
  "reached l h dg s s' \<longleftrightarrow> (\<exists>ops. s' = command_run l h dg ops s)"

lemma reached_refl: "reached l h dg s s"
  unfolding reached_def by (metis command_run.simps(1))

lemma reached_trans: "reached l h dg s s' \<Longrightarrow> reached l h dg s' s'' \<Longrightarrow> reached l h dg s s''"
  unfolding reached_def by (metis command_run_append)

lemma reached_run: "reached l h dg s (command_run l h dg ops s)"
  unfolding reached_def by blast

lemma reached_exec: "command_exec l h dg op s = Inr s' \<Longrightarrow> reached l h dg s s'"
  using run_step[of l h dg op s] reached_run[of l h dg s "[(hi_boot h, op)]"] by simp

lemma answered_reached:
  assumes "\<And>a s'. r = Inr (a, s') \<Longrightarrow> command_exec l h dg op s = Inr s'"
  shows "reached l h dg s (snd (answered s r))"
  using assms reached_exec reached_refl by (fastforce simp: answered_def split: sum.split prod.split)

lemma behind_fence_reached:
  assumes "\<And>s'. reached l h dg s' (snd (run s'))"
  shows "reached l h dg s (snd (behind_fence l h dg w expected c run s))"
proof (cases "applyFence h (cc_disk c) (cc_now c) (ce_fence (cc_env c)) expected (ch_db s)")
  case (Inl e)
  then show ?thesis by (simp add: behind_fence_def reached_refl)
next
  case (Inr x)
  obtain out d where x: "x = (out, d)" by (cases x)
  let ?s1 = "s\<lparr>ch_db := d\<rparr>" and ?s2 = "command_run l h dg (rt_meanwhile w) (s\<lparr>ch_db := d\<rparr>)"
  have "command_exec l h dg (C_fence (cc_disk c) (cc_now c) (ce_fence (cc_env c)) expected) s = Inr ?s1"
    using Inr by (simp add: x)
  then have r: "reached l h dg s ?s2" by (rule reached_trans[OF reached_exec reached_run])
  then show ?thesis
    using Inr reached_trans[OF r assms] by (auto simp: x behind_fence_def requirePriorEpochRetirement_def split: option.split)
qed

lemma serve_reached: "reached l h dg s (snd (serve l h dg w r c s))"
proof (cases "ce_kind (cc_env (route_call h r c)) = route_kind r")
  case False
  then show ?thesis by (simp add: serve_def Let_def reached_refl)
next
  case True
  let ?c = "route_call h r c"
  have ex: "reached l h dg s' (snd (answered s' (execute l h dg ?c s')))" for s'
    by (rule answered_reached[where op = "C_execute (route_kind r) ?c"]) (simp add: on_route_def True)
  have up: "reached l h dg s' (snd (answered s' (executeRestartableUpload l h dg ?c s')))" if "route_kind r = ''runtime_object.upload''" for s'
    by (rule answered_reached[where op = "C_upload ?c"]) (simp add: on_route_def True that)
  have as: "reached l h dg s' (snd (answered s' (executeAsync l h dg ?c s')))" if "route_kind r = ''session.prompt''" for s'
    by (rule answered_reached[where op = "C_async ?c"]) (simp add: on_route_def True that)
  have run: "reached l h dg s (snd (runCommand l h dg w e ?c s))" for e
    unfolding runCommand_def by (rule behind_fence_reached[OF ex])
  show ?thesis
    using True run ex behind_fence_reached[OF up] behind_fence_reached as
    by (cases r) (auto simp: serve_def Let_def runRestartableUploadCommand_def runRuntimeObjectDeleteCommand_def
        runAsyncPromptCommand_def reached_refl split: sum.split intro!: behind_fence_reached)
qed

section \<open>What the fence refuses\<close>

lemma route_call_simps: "cc_disk (route_call h r c) = cc_disk c" "cc_now (route_call h r c) = cc_now c"
  by (simp_all add: route_call_def)

lemma expected_run_upload: "expected_run (Upload_object ob u) f = Some (ro_run ob)"
  "expected_run (Prompt_session e) f = Some (ls_run e)"
  by (simp_all add: expected_run_def)

text \<open>On a route of the fence, a command that \<^verbatim>\<open>applyFence\<close> refuses ends there and leaves the host as it was.\<close>

lemma serve_fenced:
  assumes "\<nexists>ob. r = Delete_object ob" "ce_kind (cc_env (route_call h r c)) = route_kind r"
    and "applyFence h (cc_disk c) (cc_now c) (ce_fence (cc_env (route_call h r c)))
           (expected_run r (ce_fence (cc_env (route_call h r c)))) (ch_db s) = Inl e"
  shows "serve l h dg w r c s = (Inl e, s)"
  using assms
  by (cases r) (auto simp: serve_def Let_def runCommand_def runRestartableUploadCommand_def runAsyncPromptCommand_def
      behind_fence_def route_call_simps expected_run_upload)

lemma serve_kind: "ce_kind (cc_env (route_call h r c)) \<noteq> route_kind r
   \<Longrightarrow> serve l h dg w r c s = (Inl (SupervisorError Sup_PRECONDITION []), s)"
  by (simp add: serve_def Let_def)

text \<open>A fence for another host or another run is refused before the stored epoch is read.\<close>

lemma applyFence_elsewhere:
  "cf_host_key f \<noteq> hi_key h \<Longrightarrow> applyFence h ph now f expected d = Inl (SupervisorError Sup_PRECONDITION ''host_mismatch'')"
  "cf_host_key f = hi_key h \<Longrightarrow> \<exists>x \<in> set_option expected. cf_run f \<noteq> x
     \<Longrightarrow> applyFence h ph now f expected d = Inl (SupervisorError Sup_PRECONDITION ''run_mismatch'')"
  by (simp_all add: applyFence_def)

text \<open>The deletion of an object is served only under the assignment that made the object.\<close>

lemma delete_object_served:
  assumes "serve l h dg w (Delete_object ob) c s = (Inr a, s')"
  shows "cf_host_key (ce_fence (cc_env c)) = hi_key h \<and> cf_run (ce_fence (cc_env c)) = ro_run ob
    \<and> cf_assignment (ce_fence (cc_env c)) = ro_assignment ob \<and> cf_epoch (ce_fence (cc_env c)) = ro_epoch ob"
  using assms
  by (auto simp: serve_def Let_def runRuntimeObjectDeleteCommand_def assertRuntimeObjectDeleteFence_def route_call_def
      split: if_splits)

end
