(* ===== verification/HostCommandGuarantees.thy ===== *)
theory HostCommandGuarantees
  imports CommandRoutes HostExample
begin

text \<open>
  What a manager may rely on when it sends commands to an execution host: a command id takes effect at most
  once, and an assignment that was superseded is refused for good and starts no process.
\<close>

section \<open>Guarantees\<close>

lemma card_at_most_one: "finite K \<Longrightarrow> (\<And>x y. x \<in> K \<Longrightarrow> y \<in> K \<Longrightarrow> x = y) \<Longrightarrow> card K \<le> 1"
  by (simp add: card_le_Suc0_iff_eq)

text \<open>
  C5: A command id takes effect at most once.  However commands, retries, settlements, other operations and
  restarts of the host interleave, the effect of a command id is started at most once, except for the object
  kinds that are written to be started again; an id never starts effects of two kinds; and no id has two
  live effects at a time.
\<close>

theorem effect_starts_once:
  "length (filter (\<lambda>e. fst e = i \<and> \<not> snd e \<in> {''runtime_object.reserve'', ''runtime_object.delete'', ''runtime_object.upload''})
             (ch_begun (command_run l h dg ops new_command_host))) \<le> 1
   \<and> card (snd ` {e. e \<in> set (ch_begun (command_run l h dg ops new_command_host)) \<and> fst e = i}) \<le> 1
   \<and> distinct (map lc_id (ch_inflight (command_run l h dg ops new_command_host)))"
proof -
  define s where "s = command_run l h dg ops new_command_host"
  have ok: "command_ok s" unfolding s_def by (rule commands.run_ok[OF new_command_ok])
  have r: "restartable k \<longleftrightarrow> k \<in> {''runtime_object.reserve'', ''runtime_object.delete'', ''runtime_object.upload''}" for k
    by (auto simp: restartable_def RESTARTABLE_OBJECT_KINDS_def)
  define K where "K = snd ` {e. e \<in> set (ch_begun s) \<and> fst e = i}"
  have one: "k = k'" if "k \<in> K" "k' \<in> K" for k k'
  proof -
    have "has_receipt (i, k) (ch_db s)" "has_receipt (i, k') (ch_db s)" using that ok by (auto simp: command_ok_def K_def)
    then show ?thesis using has_receipt_kind ok by (auto simp: command_ok_def)
  qed
  have "finite K" by (simp add: K_def)
  then have "card K \<le> 1" using one by (rule card_at_most_one)
  then show ?thesis
    using ok unfolding s_def[symmetric] command_ok_def starts_def r K_def by blast
qed

text \<open>A command reaches the stored fence of its run if its kind, its host and its run are those of the route.\<close>

definition addressed :: "host_identity \<Rightarrow> command_route \<Rightarrow> command_call \<Rightarrow> bool" where
  "addressed h r c \<longleftrightarrow>
     (let env = cc_env (route_call h r c); f = ce_fence env
      in ce_kind env = route_kind r \<and> cf_host_key f = hi_key h \<and> (\<forall>x \<in> set_option (expected_run r f). cf_run f = x))"

definition superseded_by :: "command_fence \<Rightarrow> fence_row \<Rightarrow> bool" where
  "superseded_by f g \<longleftrightarrow>
     cf_epoch f < fn_epoch g \<or> (cf_epoch f = fn_epoch g \<and> cf_assignment f \<noteq> fn_assignment g)"

text \<open>The refusal of a superseded fence that reaches the stored one.\<close>

definition fence_refusal :: "command_fence \<Rightarrow> fence_row \<Rightarrow> command_error \<Rightarrow> bool" where
  "fence_refusal f g e \<longleftrightarrow>
     e = SupervisorError Sup_FENCED ''assignment_fenced''
     \<or> (cf_epoch f = fn_epoch g \<and> e = SupervisorError Sup_PRECONDITION ''assignment_mismatch'')"

lemma fence_refuses:
  assumes "command_ok s" "getFence (cf_run f) (ch_db s) = Some g" "command_later s s'"
    and "cf_host_key f = hi_key h" "\<forall>x \<in> set_option expected. cf_run f = x" "superseded_by f g"
  shows "\<exists>e. applyFence h ph now f expected (ch_db s') = Inl e \<and> fence_refusal f g e"
proof -
  obtain g' where g': "getFence (cf_run f) (ch_db s') = Some g'" "fence_later g g'"
    using assms(2,3) by (auto simp: command_later_def ledger_later_def fences_later_def)
  then show ?thesis using assms(4-6) by (auto simp: applyFence_def fence_later_def superseded_by_def fence_refusal_def)
qed

lemma serve_superseded:
  assumes s: "command_ok s" "getFence (cf_run f) (ch_db s) = Some g" "command_later s s'"
    and r: "\<nexists>ob. r = Delete_object ob" and f: "f = ce_fence (cc_env (route_call h r c))" "superseded_by f g"
  shows "\<exists>code token. serve l h dg w r c s' = (Inl (SupervisorError code token), s')
    \<and> (addressed h r c \<longrightarrow> fence_refusal f g (SupervisorError code token))"
proof (cases "addressed h r c")
  case True
  then obtain e where e: "applyFence h (cc_disk c) (cc_now c) f (expected_run r f) (ch_db s') = Inl e" "fence_refusal f g e"
    using fence_refuses[OF s _ _ f(2), of h "expected_run r f" "cc_disk c" "cc_now c"]
    by (auto simp: addressed_def Let_def f(1))
  have k: "ce_kind (cc_env (route_call h r c)) = route_kind r" using True by (simp add: addressed_def Let_def)
  have "serve l h dg w r c s' = (Inl e, s')" by (rule serve_fenced[OF r k]) (simp add: e(1)[unfolded f(1)])
  then show ?thesis using e(2) by (auto simp: fence_refusal_def)
next
  case False
  show ?thesis
  proof (cases "ce_kind (cc_env (route_call h r c)) = route_kind r")
    case k: True
    have "\<exists>token. applyFence h (cc_disk c) (cc_now c) f (expected_run r f) (ch_db s') = Inl (SupervisorError Sup_PRECONDITION token)"
    proof (cases "cf_host_key f = hi_key h")
      case host: True
      then have "\<exists>x \<in> set_option (expected_run r f). cf_run f \<noteq> x"
        using False k by (auto simp: addressed_def Let_def f(1))
      then show ?thesis using applyFence_elsewhere(2)[OF host] by blast
    qed (use applyFence_elsewhere(1) in blast)
    then obtain token where
      "applyFence h (cc_disk c) (cc_now c) f (expected_run r f) (ch_db s') = Inl (SupervisorError Sup_PRECONDITION token)" by blast
    from serve_fenced[OF r k this[unfolded f(1)]] show ?thesis using False by simp
  qed (use False serve_kind in blast)
qed


definition w_fence :: "int \<Rightarrow> command_fence" where
  "w_fence epoch = \<lparr>cf_host_key = ''h'', cf_assignment = ''a'', cf_epoch = epoch, cf_run = ''r''\<rparr>"

definition w_digests :: command_digests where
  "w_digests = \<lparr>dg_v2 = (\<lambda>e _. Some (ce_id e)), dg_legacy = (\<lambda>e. Some (ce_id e))\<rparr>"

lemma w_fence_run:
  "getFence ''r'' (ch_db (command_run l w_host dg [(''b'', C_fence w_disk 0 (w_fence 2) None)] new_command_host))
     = Some \<lparr>fn_run = ''r'', fn_assignment = ''a'', fn_epoch = 2, fn_updated_at = 0\<rparr>"
  by (simp add: command_step_def applyFence_def w_host_def w_fence_def getFence_def new_command_host_def empty_host_db_def
      setFence_def storage_write_def w_disk_def)

definition w_session :: live_session where
  "w_session = \<lparr>ls_id = ''u'', ls_run = ''r'', ls_created_by = ''c'', ls_active_prompt = None\<rparr>"

definition w_turn :: "command_fence \<Rightarrow> command_call" where
  "w_turn f = \<lparr>cc_disk = w_disk, cc_now = 9, cc_fresh = ''e'', cc_event = None, cc_admission = New_work,
     cc_env = \<lparr>ce_version = None, ce_target = None, ce_id = ''p'', ce_kind = ''session.prompt'', ce_issued_at = [],
       ce_fence = f, ce_payload = JNull\<rparr>,
     cc_session = None\<rparr>"

lemma w_turn_addressed: "addressed w_host (Prompt_session w_session) (w_turn (w_fence n))"
  by (simp add: addressed_def route_call_def w_turn_def w_session_def w_fence_def expected_run_def w_host_def)

definition w_retirement :: retirement where
  "w_retirement = \<lparr>rt_registry = [], rt_terminate = (\<lambda>e. (Confirmed, e)), rt_reconcile = None, rt_meanwhile = []\<rparr>"


text \<open>
  C8: A superseded generation starts no process.  If the host has seen an epoch for a run, then any session
  process of that run with a lower epoch that is registered at any later time was already registered then.
\<close>

theorem stale_generation_registers_nothing:
  assumes "getFence (ps_run p) (ch_db (command_run l h dg before new_command_host)) = Some g"
    and "p \<in> set (h_processes (ch_db (command_run l h dg (before @ later) new_command_host)))"
    and "ps_phase p = Registered" "ps_epoch p < fn_epoch g"
  shows "\<exists>q \<in> set (h_processes (ch_db (command_run l h dg before new_command_host))). same_process q p"
  using commands.run_prefix_later[OF new_command_ok, of l h dg before later] assms
  unfolding command_later_def ledger_later_def processes_later_def by (meson linorder_not_le)

definition w_process :: register_process where
  "w_process = \<lparr>rg_command = ''c'', rg_run = ''r'', rg_assignment = ''a'', rg_epoch = 1, rg_session = ''s'', rg_group = 7\<rparr>"

definition w_takeover :: "(ident \<times> command_op) list" where
  "w_takeover = [(''b'', C_host (Op_put_receipt w_disk 0 w_receipt (Some (Producer 0)))),
     (''b'', C_fence w_disk 1 (w_fence 1) None),
     (''b'', C_host (Op_register_process \<lparr>pc_boot = ''o'', pc_namespace = ''n''\<rparr> w_disk 2 w_process)),
     (''b'', C_fence w_disk 3 (w_fence 2) None)]"

lemma w_takeover_run:
  "getFence ''r'' (ch_db (command_run DEFAULT_RUNTIME_LIMITS w_host w_digests w_takeover new_command_host))
     = Some \<lparr>fn_run = ''r'', fn_assignment = ''a'', fn_epoch = 2, fn_updated_at = 3\<rparr>"
  "h_processes (ch_db (command_run DEFAULT_RUNTIME_LIMITS w_host w_digests w_takeover new_command_host)) =
     [\<lparr>ps_command = ''c'', ps_run = ''r'', ps_assignment = ''a'', ps_epoch = 1, ps_session = Some ''s'', ps_group = Some 7,
       ps_phase = Registered, ps_registered_at = 2, ps_retired_at = None, ps_boot = Some ''o'', ps_namespace = Some ''n'',
       ps_retired_boot = None\<rparr>]"
proof -
  note ev = w_takeover_def command_step_def is_fence_op_def applyFence_def w_fence_def w_created_def getFence_def setFence_def
    storage_write_def registerSessionProcess_def process_admitted_def w_process_def w_receipt_def w_wallet_def
    empty_host_db_def new_command_host_def safe_integer_def sql_update_def
  have k: "hi_key w_host = ''h''" "ph_available w_disk" "ph_write_fits w_disk" by (simp_all add: w_host_def w_disk_def)
  have "command_run DEFAULT_RUNTIME_LIMITS w_host w_digests [(''b'', C_host (Op_put_receipt w_disk 0 w_receipt (Some (Producer 0))))]
      new_command_host = new_command_host\<lparr>ch_db := w_created\<rparr>"
    by (simp add: command_step_def is_fence_op_def new_command_host_def w_put)
  then have one: "command_run DEFAULT_RUNTIME_LIMITS w_host w_digests w_takeover new_command_host
      = command_run DEFAULT_RUNTIME_LIMITS w_host w_digests (tl w_takeover) (new_command_host\<lparr>ch_db := w_created\<rparr>)"
    by (simp add: w_takeover_def)
  show "getFence ''r'' (ch_db (command_run DEFAULT_RUNTIME_LIMITS w_host w_digests w_takeover new_command_host))
     = Some \<lparr>fn_run = ''r'', fn_assignment = ''a'', fn_epoch = 2, fn_updated_at = 3\<rparr>"
    "h_processes (ch_db (command_run DEFAULT_RUNTIME_LIMITS w_host w_digests w_takeover new_command_host)) =
     [\<lparr>ps_command = ''c'', ps_run = ''r'', ps_assignment = ''a'', ps_epoch = 1, ps_session = Some ''s'', ps_group = Some 7,
       ps_phase = Registered, ps_registered_at = 2, ps_retired_at = None, ps_boot = Some ''o'', ps_namespace = Some ''n'',
       ps_retired_boot = None\<rparr>]"
    unfolding one by (simp_all add: ev k)
qed

theorem stale_generation_registers_nothing_witness:
  "\<exists>q \<in> set (h_processes (ch_db (command_run DEFAULT_RUNTIME_LIMITS w_host w_digests w_takeover new_command_host))).
     ps_command q = ''c'' \<and> ps_epoch q = 1"
  using stale_generation_registers_nothing[of _ DEFAULT_RUNTIME_LIMITS w_host w_digests w_takeover _ "[]"] w_takeover_run
  by (force simp: same_process_def)

end
