(* ===== verification/CommandRequests.thy ===== *)
theory CommandRequests
  imports CommandJson HostCommandGuarantees
begin

text \<open>
  The digests of requests (\<^verbatim>\<open>commandRequestDigest\<close> of \<^verbatim>\<open>supervisor/src/command-receipts.ts\<close>): the hash of the
  canonical text of a request, here with the hash as a parameter.  A command id names one request: a host that
  began a command lets no other request through under its id.
\<close>

section \<open>The text a digest is taken of\<close>

definition command_header :: "command_envelope \<Rightarrow> json" where
  "command_header env = JObj [(''id'', JStr (ce_id env)), (''kind'', JStr (ce_kind env)), (''issuedAt'', JStr (ce_issued_at env))]"

definition fence_json :: "command_fence \<Rightarrow> json" where
  "fence_json f = JObj [(''hostKey'', JStr (cf_host_key f)), (''assignmentId'', JStr (cf_assignment f)),
     (''assignmentEpoch'', json_int (cf_epoch f)), (''runId'', JStr (cf_run f))]"

definition request_json :: "command_envelope \<Rightarrow> ident option \<Rightarrow> json" where
  "request_json env session = JObj
     [(''requestVersion'', json_int 2), (''command'', command_header env), (''fence'', fence_json (ce_fence env)),
      (''target'', JObj [(''hostSessionId'', json_opt session)]), (''payload'', ce_payload env)]"

definition legacy_request_json :: "command_envelope \<Rightarrow> json" where
  "legacy_request_json env = JObj
     [(''command'', command_header env), (''fence'', fence_json (ce_fence env)), (''payload'', ce_payload env)]"

text \<open>\<^verbatim>\<open>requestDigest\<close>: \<open>sha\<close> stands for SHA-256 in hexadecimal.  A value with no canonical text has no digest.\<close>

definition requestDigest :: "(string \<Rightarrow> string) \<Rightarrow> json \<Rightarrow> string option" where
  "requestDigest sha v = (case canonicalCommandJson v of Inl _ \<Rightarrow> None | Inr t \<Rightarrow> Some (sha t))"

definition commandRequestDigest :: "(string \<Rightarrow> string) \<Rightarrow> command_envelope \<Rightarrow> ident option \<Rightarrow> string option" where
  "commandRequestDigest sha env session = requestDigest sha (request_json env session)"

definition request_digests :: "(string \<Rightarrow> string) \<Rightarrow> command_digests" where
  "request_digests sha = \<lparr>dg_v2 = commandRequestDigest sha, dg_legacy = (\<lambda>env. requestDigest sha (legacy_request_json env))\<rparr>"

section \<open>When two requests have one text\<close>

text \<open>Requests whose digested parts agree in everything but the order of keys of the payload.\<close>

definition same_text :: "command_envelope \<Rightarrow> ident option \<Rightarrow> command_envelope \<Rightarrow> ident option \<Rightarrow> bool" where
  "same_text env session env' session' \<longleftrightarrow>
     ce_id env = ce_id env' \<and> ce_kind env = ce_kind env' \<and> ce_issued_at env = ce_issued_at env'
     \<and> cf_host_key (ce_fence env) = cf_host_key (ce_fence env') \<and> cf_assignment (ce_fence env) = cf_assignment (ce_fence env')
     \<and> cf_run (ce_fence env) = cf_run (ce_fence env')
     \<and> same_json (json_int (cf_epoch (ce_fence env))) (json_int (cf_epoch (ce_fence env')))
     \<and> session = session' \<and> same_json (sort_keys (ce_payload env)) (sort_keys (ce_payload env'))"

text \<open>
  One request: the version, which the digest does not bind but the receipt does, and the target that a
  version-2 envelope names, are part of it.
\<close>

definition same_request :: "command_envelope \<Rightarrow> ident option \<Rightarrow> command_envelope \<Rightarrow> ident option \<Rightarrow> bool" where
  "same_request env session env' session' \<longleftrightarrow>
     same_text env session env' session' \<and> request_version env = request_version env'
     \<and> (request_version env = 2 \<longrightarrow> ce_target env = ce_target env')"

lemma sorted_request:
  "sort_keys (request_json env session) = JObj
     [(''command'', JObj [(''id'', JStr (ce_id env)), (''issuedAt'', JStr (ce_issued_at env)), (''kind'', JStr (ce_kind env))]),
      (''fence'', JObj [(''assignmentEpoch'', json_int (cf_epoch (ce_fence env))), (''assignmentId'', JStr (cf_assignment (ce_fence env))),
        (''hostKey'', JStr (cf_host_key (ce_fence env))), (''runId'', JStr (cf_run (ce_fence env)))]),
      (''payload'', sort_keys (ce_payload env)), (''requestVersion'', json_int 2),
      (''target'', JObj [(''hostSessionId'', json_opt session)])]"
proof -
  have "sort_keys (json_opt session) = json_opt session" by (simp add: json_opt_def split: option.splits)
  then show ?thesis
    by (simp add: request_json_def command_header_def fence_json_def json_int_def list_less_def lexord_def)
qed

lemma canonical_request_same:
  assumes "canonicalCommandJson (request_json env session) = Inr t" "canonicalCommandJson (request_json env' session') = Inr t"
  shows "same_text env session env' session'"
proof -
  have "same_json (sort_keys (request_json env session)) (sort_keys (request_json env' session'))"
    using canonical_iff[OF assms] by simp
  moreover have "same_json (json_opt session) (json_opt session') \<longleftrightarrow> session = session'"
    by (cases session; cases session') (auto simp: json_opt_def same_json_simps)
  ultimately show ?thesis unfolding sorted_request by (simp add: same_json_simps same_text_def)
qed

text \<open>The order of the keys of a payload does not change its digest.\<close>

lemma reordered_refl_scalar: "reordered (JStr s) (JStr s)" "reordered (json_int n) (json_int n)" "reordered (json_opt o1) (json_opt o1)"
  by (auto intro!: reordered_leaf simp: json_int_def json_opt_def split: option.splits)

lemma reordered_fields:
  assumes "list_all2 (\<lambda>p q. fst p = fst q \<and> reordered (snd p) (snd q)) kvs kws" "distinct (map fst kvs)"
  shows "reordered (JObj kvs) (JObj kws)"
  using reordered_obj[OF assms(1) refl assms(2)] .

lemma reordered_payload:
  "reordered (ce_payload env) v \<Longrightarrow> reordered (request_json env session) (request_json (env\<lparr>ce_payload := v\<rparr>) session)"
  by (auto simp: request_json_def command_header_def fence_json_def intro!: reordered_fields reordered_refl_scalar)

lemma digest_reordered:
  assumes "reordered (ce_payload env) v" "commandRequestDigest sha env session = Some x"
  shows "commandRequestDigest sha (env\<lparr>ce_payload := v\<rparr>) session = Some x"
  using canonical_reordered[OF reordered_payload[OF assms(1)]] assms(2)
  by (auto simp: commandRequestDigest_def requestDigest_def split: sum.split_asm)

section \<open>A command id names one request\<close>

lemma put_new_receipt:
  assumes "h_receipts d' = h_receipts d @ [row]" "getReceipt (rc_command row) d = None"
  shows "getReceipt (rc_command row) d' = Some row"
proof -
  have "find P xs = None \<Longrightarrow> P x \<Longrightarrow> find P (xs @ [x]) = Some x" for P and xs :: "receipt_row list" and x
    by (induction xs) (auto split: if_splits)
  then show ?thesis using assms by (simp add: getReceipt_def)
qed

lemma getReceipt_known: "receipt_known d i \<longleftrightarrow> getReceipt i d \<noteq> None"
  by (auto simp: receipt_known_def getReceipt_def find_None_iff list_ex_iff)

lemma written_digest:
  assumes w: "writeReceiptRow row d1 = Inr d2" and r: "h_receipts d1 = h_receipts d" "getReceipt (rc_command row) d = None"
    and d': "same_ledger d2 d'"
  shows "\<exists>r. getReceipt (rc_command row) d' = Some r \<and> rc_digest r = rc_digest row \<and> rc_schema r = rc_schema row
    \<and> rc_version r = rc_version row"
proof -
  have "\<not> receipt_known d1 (rc_command row)" using r by (simp add: getReceipt_known getReceipt_def)
  then have "h_receipts d2 = h_receipts d @ [row\<lparr>rc_retired_at := None\<rparr>]"
    using w r(1) by (auto simp: writeReceiptRow_def split: if_splits)
  then have "h_receipts d' = h_receipts d @ [row\<lparr>rc_retired_at := None\<rparr>]" using d' by (simp add: same_ledger_def)
  from put_new_receipt[OF this] r(2) show ?thesis by simp
qed

lemma admitted_receipts: "admitRuntimeReceipt l ph now row adm d = Inr d' \<Longrightarrow> h_receipts d' = h_receipts d"
  using admitRuntimeReceipt_ledger by (simp add: admits_wallet_def)

lemma settled_ledger: "same_ledger d (observeCapacity l now (settleReceiptBudget row d))"
  by (rule same_ledger_trans[OF settleReceiptBudget_ledger observe_ledger])

lemma put_digest:
  assumes new: "getReceipt (rc_command row) d = None"
    and p: "(\<exists>ev input. putReceiptWithRuntimeEvent l h ph now fresh row input adm d = Inr (ev, d')) \<or> putReceipt l ph now row adm d = Inr d'"
  shows "\<exists>r. getReceipt (rc_command row) d' = Some r \<and> rc_digest r = rc_digest row \<and> rc_schema r = rc_schema row
    \<and> rc_version r = rc_version row"
  using p
proof (elim disjE exE)
  assume "putReceipt l ph now row adm d = Inr d'"
  then obtain d1 d2 where a: "admitRuntimeReceipt l ph now row adm d = Inr d1" and w: "writeReceiptRow row d1 = Inr d2"
    and d': "d' = observeCapacity l now (settleReceiptBudget row d2)"
    by (auto simp: putReceipt_def storage_write_Inr rbind_Inr_iff)
  show ?thesis unfolding d' by (rule written_digest[OF w admitted_receipts[OF a] new settled_ledger])
next
  fix ev input assume "putReceiptWithRuntimeEvent l h ph now fresh row input adm d = Inr (ev, d')"
  then obtain d1 d2 d3 where a: "admitRuntimeReceipt l ph now row adm d = Inr d1"
    and e: "appendRuntimeEventInTransaction l h now fresh input d1 = Inr (ev, d2)"
    and w: "writeReceiptRow (receipt_with_event row ev) d2 = Inr d3"
    and d': "d' = observeCapacity l now (settleReceiptBudget row d3)"
    by (auto simp: putReceiptWithRuntimeEvent_def storage_write_Inr rbind_Inr_iff)
  have k: "rc_command (receipt_with_event row ev) = rc_command row" "rc_digest (receipt_with_event row ev) = rc_digest row"
    "rc_schema (receipt_with_event row ev) = rc_schema row" "rc_version (receipt_with_event row ev) = rc_version row" by (simp_all add: receipt_with_event_def Let_def)
  have r: "h_receipts d2 = h_receipts d" using admitted_receipts[OF a] append_ledger[OF e] by (simp add: same_ledger_def)
  show ?thesis using written_digest[OF w r _ settled_ledger] new unfolding k d' by blast
qed

lemma begun_digest:
  assumes new: "getReceipt (ce_id (cc_env c)) (ch_db s) = None" and b: "begin_effect l h dg c async accepted t s = Inr s'"
  shows "\<exists>r x. getReceipt (ce_id (cc_env c)) (ch_db s') = Some r \<and> rc_schema r = Some ''maister.command.request.v2''
    \<and> rc_digest r = Some x \<and> rc_version r = request_version (cc_env c) \<and> dg_v2 dg (cc_env c) (cc_session c) = Some x"
proof -
  obtain d where w: "writeReceipt l h dg c Accepted accepted t (ch_db s) = Inr d" and s': "ch_db s' = d"
    using b by (auto simp: begin_effect_def rbind_Inr_iff)
  obtain row where r: "receipt_of h dg c Accepted accepted t (ch_db s) = Inr row"
    and p: "(\<exists>ev input. putReceiptWithRuntimeEvent l h (cc_disk c) (cc_now c) (cc_fresh c) row input (Some (cc_admission c)) (ch_db s) = Inr (ev, d))
      \<or> putReceipt l (cc_disk c) (cc_now c) row (Some (cc_admission c)) (ch_db s) = Inr d"
    using w by (cases "cc_event c") (auto simp: writeReceipt_def rbind_Inr_iff case_Inr_iff)
  obtain x where x: "dg_v2 dg (cc_env c) (cc_session c) = Some x" "rc_digest row = Some x" "rc_command row = ce_id (cc_env c)"
    "rc_schema row = Some ''maister.command.request.v2''" "rc_version row = request_version (cc_env c)"
    using r new by (auto simp: receipt_of_def Let_def rbind_Inr_iff split: option.splits)
  from put_digest[OF _ p] new x show ?thesis unfolding s' x(3) by auto
qed

text \<open>A step that begins the effect of a call, by whichever of the three entries, has checked its target.\<close>

lemma begun_once:
  assumes ok: "command_ok s" and new: "getReceipt (ce_id (cc_env c)) (ch_db s) = None"
    and op: "op \<in> {C_execute kind c, C_upload c, C_async c}" and e: "command_step l h dg (boot, op) s = Inr s1"
    and log: "ch_begun s1 \<noteq> ch_begun s"
  shows "\<exists>h async accepted t. begin_effect l h dg c async accepted t s = Inr s1" "command_ok s1"
    "assertRequestTarget (cc_env c) (cc_session c) = Inr ()"
proof -
  have b: "begin_effect l (h\<lparr>hi_boot := boot\<rparr>) dg c False fresh_outcome (cc_now c) s = Inr s1
      \<or> begin_effect l (h\<lparr>hi_boot := boot\<rparr>) dg c True (accepted_outcome (cc_env c)) (cc_now c) s = Inr s1"
    and t: "assertRequestTarget (cc_env c) (cc_session c) = Inr ()"
    using new op e log
    by (auto simp: command_step_def on_route_def execute_def executeRestartableUpload_def executeAsync_def Let_def
        checked_receipt_def rbind_Inr_iff split: if_splits)
  show "\<exists>h async accepted t. begin_effect l h dg c async accepted t s = Inr s1" using b by blast
  show "assertRequestTarget (cc_env c) (cc_session c) = Inr ()" by (rule t)
  show "command_ok s1" by (rule commands.exec_ok[OF ok e])
qed

lemma passed_digest:
  assumes "checked_receipt dg c d = Inr o1" "getReceipt (ce_id (cc_env c)) d = Some r"
    "rc_schema r = Some ''maister.command.request.v2''" "rc_digest r = Some x"
  shows "dg_v2 dg (cc_env c) (cc_session c) = Some x" "rc_version r = request_version (cc_env c)"
    "assertRequestTarget (cc_env c) (cc_session c) = Inr ()"
  using assms
  by (auto simp: checked_receipt_def assertReceiptInvariant_def receipt_mismatch_def rbind_Inr_iff split: option.split_asm if_splits)

lemma checked_target:
  assumes "assertRequestTarget env session = Inr ()" "request_version env = 2"
  shows "ce_target env = session"
  using assms by (auto simp: assertRequestTarget_def request_version_def split: if_splits option.split_asm)

lemma digest_text:
  assumes "dg_v2 (request_digests sha) env session = Some x"
  obtains t where "canonicalCommandJson (request_json env session) = Inr t" "x = sha t"
  using assms by (auto simp: request_digests_def commandRequestDigest_def requestDigest_def split: sum.split_asm)

text \<open>
  C9: A command id names one request.  Once the host began a command under a new id, by any of its three
  entries (\<^verbatim>\<open>execute\<close>, \<^verbatim>\<open>executeRestartableUpload\<close>, \<^verbatim>\<open>executeAsync\<close>), any later call under that id that passes the
  receipt check, which each entry makes first, after any further history of the host, restarts and
  retirements included, carries the same request: the same version, header, fence, target and session, and a
  payload that differs at most in the order of its keys.  The one condition is that the hash does not
  collide on the two canonical texts.
\<close>

theorem command_id_names_one_request:
  assumes "getReceipt (ce_id (cc_env c)) (ch_db (command_run l h (request_digests sha) before new_command_host)) = None"
    and "op \<in> {C_execute kind c, C_upload c, C_async c}"
    and "command_step l h (request_digests sha) (boot, op) (command_run l h (request_digests sha) before new_command_host) = Inr s"
    and "ch_begun s \<noteq> ch_begun (command_run l h (request_digests sha) before new_command_host)"
    and "ce_id (cc_env c') = ce_id (cc_env c)"
    and "checked_receipt (request_digests sha) c' (ch_db (command_run l h (request_digests sha) later s)) = Inr existing"
    and "\<And>t u. canonicalCommandJson (request_json (cc_env c) (cc_session c)) = Inr t \<Longrightarrow>
           canonicalCommandJson (request_json (cc_env c') (cc_session c')) = Inr u \<Longrightarrow> sha t = sha u \<Longrightarrow> t = u"
  shows "same_request (cc_env c) (cc_session c) (cc_env c') (cc_session c')"
proof -
  let ?dg = "request_digests sha"
  note b = begun_once[OF commands.run_ok[OF new_command_ok] assms(1-4)]
  obtain r x where r: "getReceipt (ce_id (cc_env c)) (ch_db s) = Some r" "rc_schema r = Some ''maister.command.request.v2''"
    "rc_digest r = Some x" "rc_version r = request_version (cc_env c)" and x: "dg_v2 ?dg (cc_env c) (cc_session c) = Some x"
    using b(1) begun_digest[OF assms(1)] by blast
  have "digests_later (ch_db s) (ch_db (command_run l h ?dg later s))"
    using commands.run_later[OF b(2), of l h ?dg later] by (simp add: command_later_def ledger_later_def)
  then obtain r' where r': "getReceipt (ce_id (cc_env c')) (ch_db (command_run l h ?dg later s)) = Some r'"
    "rc_schema r' = Some ''maister.command.request.v2''" "rc_digest r' = Some x" "rc_version r' = request_version (cc_env c)"
    unfolding digests_later_def assms(5) using r by fastforce
  note p = passed_digest[OF assms(6) r'(1-3)]
  obtain t where t: "canonicalCommandJson (request_json (cc_env c) (cc_session c)) = Inr t" "x = sha t"
    by (rule digest_text[OF x])
  obtain u where u: "canonicalCommandJson (request_json (cc_env c') (cc_session c')) = Inr u" "x = sha u"
    by (rule digest_text[OF p(1)])
  have "t = u" using assms(7)[OF t(1) u(1)] t(2) u(2) by simp
  then have same: "same_text (cc_env c) (cc_session c) (cc_env c') (cc_session c')"
    using t(1) u(1) by (intro canonical_request_same) simp_all
  show ?thesis
    using same p(2,3) r'(4) checked_target[OF b(3)] checked_target[OF p(3)] by (simp add: same_request_def same_text_def)
qed

definition w_prompt :: "json \<Rightarrow> command_call" where
  "w_prompt payload = \<lparr>cc_disk = w_disk, cc_now = 0, cc_fresh = ''s'', cc_event = None, cc_admission = New_work,
     cc_env = \<lparr>ce_version = Some 2, ce_target = Some ''u'', ce_id = ''c'', ce_kind = ''session.prompt'', ce_issued_at = ''t'',
       ce_fence = w_fence 1, ce_payload = payload\<rparr>, cc_session = Some ''u''\<rparr>"

definition w_payload :: json where "w_payload = JObj [(''a'', JBool True), (''b'', JNull)]"
definition w_payload' :: json where "w_payload' = JObj [(''b'', JNull), (''a'', JBool True)]"

lemma w_put_plain:
  assumes "rc_phase row = Accepted" "encodedByteLength (rc_body row) \<le> MAX_RECEIPT_BODY_BYTES" "rc_retired_at row = None"
  shows "putReceipt DEFAULT_RUNTIME_LIMITS w_disk 0 row (Some New_work) empty_host_db = Inr (empty_host_db\<lparr>h_receipts := [row]\<rparr>)"
proof -
  have f: "refreshRuntimeFileBudget DEFAULT_RUNTIME_LIMITS empty_host_db = (runtimeFileBudgetSnapshot empty_host_db, empty_host_db)"
      "\<not> fs_pressured (runtimeFileBudgetSnapshot empty_host_db)"
    by (simp_all add: host_eval)
  have a: "admitReceipt DEFAULT_RUNTIME_LIMITS row New_work 0 empty_host_db = Inr empty_host_db"
    using assms by (simp add: admitReceipt_def receipt_known_def assertOutboxAdmission_def assertRetainedBelowHard_def host_eval)
  have "admitRuntimeReceipt DEFAULT_RUNTIME_LIMITS w_disk 0 row (Some New_work) empty_host_db = Inr empty_host_db"
    using f a assms by (simp add: admitRuntimeReceipt_def is_teardown_def Let_def)
  moreover have "row\<lparr>rc_retired_at := None\<rparr> = row" using assms(3) by (cases row) simp
  ultimately have "writeReceiptRow row empty_host_db = Inr (empty_host_db\<lparr>h_receipts := [row]\<rparr>)"
    using assms(2) by (simp add: writeReceiptRow_def receipt_known_def empty_host_db_def)
  moreover have "observeCapacity DEFAULT_RUNTIME_LIMITS 0 (empty_host_db\<lparr>h_receipts := [row]\<rparr>) = empty_host_db\<lparr>h_receipts := [row]\<rparr>"
    using assms(1) by (simp add: observeCapacity_def host_eval)
  moreover have "settleReceiptBudget row d = d" for d using assms(1) by (simp add: settleReceiptBudget_def)
  ultimately show ?thesis
    using \<open>admitRuntimeReceipt DEFAULT_RUNTIME_LIMITS w_disk 0 row (Some New_work) empty_host_db = Inr empty_host_db\<close>
    by (simp add: putReceipt_def storage_write_def w_disk_def assertPhysicalAdmission_def canAdmitPhysical_def)
qed

lemma w_digest:
  "commandRequestDigest (\<lambda>t. t) (cc_env (w_prompt w_payload)) (Some ''u'') =
     Some (json_stringify (sort_keys (request_json (cc_env (w_prompt w_payload)) (Some ''u''))))"
proof -
  have "canonicalCommandJson (request_json (cc_env (w_prompt w_payload)) (Some ''u''))
      = Inr (json_stringify (sort_keys (request_json (cc_env (w_prompt w_payload)) (Some ''u''))))"
    by (simp add: canonicalCommandJson_def encode_iff request_json_def command_header_def fence_json_def json_int_def json_opt_def
        is_finite_num_def w_prompt_def w_payload_def)
  then show ?thesis by (simp add: commandRequestDigest_def requestDigest_def)
qed

lemma w_payloads: "reordered w_payload w_payload'"
proof -
  have "reordered (JBool True) (JBool True)" "reordered JNull JNull" by (auto intro: reordered_leaf)
  then show ?thesis unfolding w_payload_def w_payload'_def
    by (intro reordered_obj[of _ "[(''a'', JBool True), (''b'', JNull)]"]) (simp_all add: add_mset_commute)
qed

lemma w_begun:
  "\<exists>s. command_step DEFAULT_RUNTIME_LIMITS w_host (request_digests (\<lambda>t. t)) (''b'', C_async (w_prompt w_payload)) new_command_host = Inr s
     \<and> ch_begun s = [(''c'', ''session.prompt'')]
     \<and> (\<exists>e. checked_receipt (request_digests (\<lambda>t. t)) (w_prompt w_payload') (ch_db s) = Inr (Some e))"
proof -
  let ?dg = "request_digests (\<lambda>t. t)" and ?c = "w_prompt w_payload" and ?h = "w_host\<lparr>hi_boot := ''b''\<rparr>"
  let ?out = "accepted_outcome (cc_env (w_prompt w_payload))"
  obtain x where x: "commandRequestDigest (\<lambda>t. t) (cc_env ?c) (Some ''u'') = Some x" using w_digest by blast
  have x': "commandRequestDigest (\<lambda>t. t) (cc_env (w_prompt w_payload')) (Some ''u'') = Some x"
    using digest_reordered[OF _ x, of w_payload'] w_payloads by (simp add: w_prompt_def)
  have small: "encodedByteLength (co_body ?out) \<le> MAX_RECEIPT_BODY_BYTES" by code_simp
  obtain row where r: "receipt_of ?h ?dg ?c Accepted ?out 0 empty_host_db = Inr row"
    and f: "rc_phase row = Accepted" "rc_body row = co_body ?out" "rc_retired_at row = None"
    and e: "rc_command row = ''c''" "rc_schema row = Some ''maister.command.request.v2''" "rc_digest row = Some x"
      "\<not> receipt_mismatch row (cc_env (w_prompt w_payload')) (Some ''u'') x"
    using x by (auto simp: receipt_of_def Let_def getReceipt_def empty_host_db_def request_digests_def w_prompt_def
        receipt_mismatch_def request_version_def w_fence_def w_host_def)
  have put: "putReceipt DEFAULT_RUNTIME_LIMITS w_disk 0 row (Some New_work) empty_host_db = Inr (empty_host_db\<lparr>h_receipts := [row]\<rparr>)"
    using w_put_plain[OF f(1) _ f(3)] small f(2) by simp
  have w: "writeReceipt DEFAULT_RUNTIME_LIMITS ?h ?dg ?c Accepted ?out 0 empty_host_db = Inr (empty_host_db\<lparr>h_receipts := [row]\<rparr>)"
    using r put by (simp add: writeReceipt_def w_prompt_def)
  define s where "s = new_command_host\<lparr>ch_db := empty_host_db\<lparr>h_receipts := [row]\<rparr>,
     ch_inflight := [\<lparr>lc_call = ?c, lc_received = 0, lc_async = True\<rparr>], ch_begun := [(''c'', ''session.prompt'')]\<rparr>"
  have none: "checked_receipt ?dg ?c empty_host_db = Inr None"
    by (simp add: checked_receipt_def assertRequestTarget_def w_prompt_def getReceipt_def empty_host_db_def)
  have c: "ce_id (cc_env ?c) = ''c''" "ce_kind (cc_env ?c) = ''session.prompt''" "cc_now ?c = 0" by (simp_all add: w_prompt_def)
  have "executeAsync DEFAULT_RUNTIME_LIMITS ?h ?dg ?c new_command_host
      = Inr (Answered (co_status ?out) (co_body ?out) False, s)"
    using w none by (simp add: executeAsync_def Let_def new_command_host_def live_def begin_effect_def s_def c)
  then have "command_step DEFAULT_RUNTIME_LIMITS w_host ?dg (''b'', C_async ?c) new_command_host = Inr s"
    by (simp add: command_step_def on_route_def c)
  moreover have "checked_receipt ?dg (w_prompt w_payload') (ch_db s) = Inr (Some row)"
    using e x' by (simp add: checked_receipt_def assertRequestTarget_def assertReceiptInvariant_def getReceipt_def s_def
        request_digests_def w_prompt_def)
  ultimately show ?thesis by (auto simp: s_def)
qed

theorem command_id_names_one_request_witness:
  "same_request (cc_env (w_prompt w_payload)) (Some ''u'') (cc_env (w_prompt w_payload')) (Some ''u'')"
proof -
  let ?dg = "request_digests (\<lambda>t. t)"
  have n: "getReceipt (ce_id (cc_env (w_prompt w_payload)))
     (ch_db (command_run DEFAULT_RUNTIME_LIMITS w_host ?dg [] new_command_host)) = None"
    by (simp add: getReceipt_def new_command_host_def empty_host_db_def)
  obtain s e where s: "command_step DEFAULT_RUNTIME_LIMITS w_host ?dg (''b'', C_async (w_prompt w_payload))
       (command_run DEFAULT_RUNTIME_LIMITS w_host ?dg [] new_command_host) = Inr s"
    and log: "ch_begun s = [(''c'', ''session.prompt'')]"
    and c: "checked_receipt ?dg (w_prompt w_payload')
      (ch_db (command_run DEFAULT_RUNTIME_LIMITS w_host ?dg [] s)) = Inr (Some e)"
    using w_begun by auto
  have grown: "ch_begun s \<noteq> ch_begun (command_run DEFAULT_RUNTIME_LIMITS w_host ?dg [] new_command_host)"
    by (simp add: log new_command_host_def)
  show ?thesis
    using command_id_names_one_request[OF n _ s grown _ c] by (simp add: w_prompt_def)
qed

end
