(* ===== verification/RunStatus.thy ===== *)
theory RunStatus
  imports Prelude
begin

text \<open>
  \<^verbatim>\<open>web/lib/runs/run-status-values.ts\<close> and \<^verbatim>\<open>run-status-sets.ts\<close>: the eleven run statuses and the
  named subsets every other component reads.  The lemmas say how the subsets lie to each other: the
  partition the orchestrator's accounting and the scheduler's slot count rely on.
\<close>

datatype run_status =
    Pending | Running | NeedsInput | NeedsInputIdle | HumanWorking | WaitingOnChildren
  | Review | Crashed | Done | Abandoned | Failed

definition RUN_STATUS_VALUES :: "run_status list" where
  "RUN_STATUS_VALUES =
     [Pending, Running, NeedsInput, NeedsInputIdle, HumanWorking, WaitingOnChildren,
      Review, Crashed, Done, Abandoned, Failed]"

definition TERMINAL_RUN_STATUSES :: "run_status list" where
  "TERMINAL_RUN_STATUSES = [Done, Failed, Crashed, Abandoned]"

definition DISPOSABLE_WORKSPACE_RUN_STATUSES :: "run_status list" where
  "DISPOSABLE_WORKSPACE_RUN_STATUSES = [Done, Abandoned]"

definition WORKTREE_TTL_RUN_STATUSES :: "run_status list" where
  "WORKTREE_TTL_RUN_STATUSES = DISPOSABLE_WORKSPACE_RUN_STATUSES @ [Failed]"

definition SLOT_HOLDING_RUN_STATUSES :: "run_status list" where
  "SLOT_HOLDING_RUN_STATUSES = [Running, NeedsInput, HumanWorking]"

definition isDisposableWorkspaceRunStatus :: "run_status \<Rightarrow> bool" where
  "isDisposableWorkspaceRunStatus s \<longleftrightarrow> s \<in> set DISPOSABLE_WORKSPACE_RUN_STATUSES"

definition SETTLED_RUN_STATUSES :: "run_status list" where
  "SETTLED_RUN_STATUSES = TERMINAL_RUN_STATUSES @ [Review]"

definition isSettledRunStatus :: "run_status \<Rightarrow> bool" where
  "isSettledRunStatus s \<longleftrightarrow> s \<in> set SETTLED_RUN_STATUSES"

definition FAILURE_TERMINAL_RUN_STATUSES :: "run_status list" where
  "FAILURE_TERMINAL_RUN_STATUSES = [Failed, Crashed, Abandoned]"

definition isFailureTerminalRunStatus :: "run_status \<Rightarrow> bool" where
  "isFailureTerminalRunStatus s \<longleftrightarrow> s \<in> set FAILURE_TERMINAL_RUN_STATUSES"

definition isTerminalRunStatus :: "run_status \<Rightarrow> bool" where
  "isTerminalRunStatus s \<longleftrightarrow> s \<in> set TERMINAL_RUN_STATUSES"

named_theorems status_defs \<open>the named subsets of the run statuses\<close>

declare
  TERMINAL_RUN_STATUSES_def [status_defs] DISPOSABLE_WORKSPACE_RUN_STATUSES_def [status_defs]
  WORKTREE_TTL_RUN_STATUSES_def [status_defs] SLOT_HOLDING_RUN_STATUSES_def [status_defs]
  SETTLED_RUN_STATUSES_def [status_defs] FAILURE_TERMINAL_RUN_STATUSES_def [status_defs]
  isDisposableWorkspaceRunStatus_def [status_defs] isSettledRunStatus_def [status_defs]
  isFailureTerminalRunStatus_def [status_defs] isTerminalRunStatus_def [status_defs]

instantiation run_status :: enum
begin

definition enum_run_status :: "run_status list" where
  "enum_run_status = RUN_STATUS_VALUES"

definition enum_all_run_status :: "(run_status \<Rightarrow> bool) \<Rightarrow> bool" where
  "enum_all_run_status P \<longleftrightarrow> list_all P RUN_STATUS_VALUES"

definition enum_ex_run_status :: "(run_status \<Rightarrow> bool) \<Rightarrow> bool" where
  "enum_ex_run_status P \<longleftrightarrow> list_ex P RUN_STATUS_VALUES"

instance
proof
  have all: "(UNIV :: run_status set) = set RUN_STATUS_VALUES"
    using run_status.exhaust by (auto simp: RUN_STATUS_VALUES_def)
  show "(UNIV :: run_status set) = set enum_class.enum"
    using all by (simp add: enum_run_status_def)
  show "distinct (enum_class.enum :: run_status list)"
    by (simp add: enum_run_status_def RUN_STATUS_VALUES_def)
  show "enum_class.enum_all P \<longleftrightarrow> Ball UNIV P" for P :: "run_status \<Rightarrow> bool"
    using all by (simp add: enum_all_run_status_def list_all_iff)
  show "enum_class.enum_ex P \<longleftrightarrow> Bex UNIV P" for P :: "run_status \<Rightarrow> bool"
    using all by (simp add: enum_ex_run_status_def list_ex_iff)
qed

end

lemma terminal_split:
  "isTerminalRunStatus s \<longleftrightarrow> s = Done \<or> isFailureTerminalRunStatus s"
  by (cases s) (simp_all add: status_defs)

lemma settled_split: "isSettledRunStatus s \<longleftrightarrow> isTerminalRunStatus s \<or> s = Review"
  by (cases s) (simp_all add: status_defs)

lemma slot_holding_not_settled: "s \<in> set SLOT_HOLDING_RUN_STATUSES \<Longrightarrow> \<not> isSettledRunStatus s"
  by (cases s) (simp_all add: status_defs)

end
