(* ===== verification/Database.thy ===== *)
theory Database
  imports JsValue RunStatus
begin

text \<open>
  The tables of \<^verbatim>\<open>web/lib/db/schema.ts\<close> that the run lifecycle reads or writes, with the columns the
  modelled functions touch.  A row is a record, a table the list of its rows, the database a record of
  tables.  Outbox tables grow at the end.  Each table with a text primary key interprets
  \<open>keyed_table\<close>.
\<close>

datatype run_kind = FlowRun | ScratchRun | AgentRun | LibrarianRun

datatype workspace_mode = OwnTree | SharedTree

record run_row =
  r_id :: ident
  r_runKind :: run_kind
  r_projectId :: "ident option"
  r_taskId :: "ident option"
  r_flowId :: "ident option"
  r_localPackageId :: "ident option"
  r_parentRunId :: "ident option"
  r_rootRunId :: "ident option"
  r_workspaceMode :: "workspace_mode option"
  r_maxActiveChildren :: "nat option"
  r_status :: run_status
  r_currentStepId :: "ident option"
  r_resumeTargetStepId :: "ident option"
  r_startedAt :: time
  r_endedAt :: "time option"
  r_checkpointAt :: "time option"
  r_keepaliveUntil :: "time option"
  r_resumeStartedAt :: "time option"
  r_resumeRequestedAt :: "time option"
  r_failedChildWakeAt :: "time option"
  r_flowDriverToken :: "string option"
  r_flowDriverLeaseExpiresAt :: "time option"
  r_executionAssignmentId :: "ident option"
  r_executionPolicy :: "json option"

datatype lifecycle_state = LcNone | LcClaiming | LcFailed

record workspace_row =
  w_id :: ident
  w_runId :: ident
  w_removedAt :: "time option"
  w_scheduledRemovalAt :: "time option"
  w_promotionState :: string
  w_promotionAttemptId :: "ident option"
  w_promotionClaimedAt :: "time option"
  w_lifecycleOperationState :: lifecycle_state
  w_lifecycleOperationClaimedAt :: "time option"
  w_lifecycleOperationLeaseExpiresAt :: "time option"
  w_lifecycleOperationAttemptId :: "ident option"
  w_lifecycleOperationName :: "string option"
  w_lifecycleOperationExpectedRunStatus :: "string option"

datatype sync_phase =
    SyStarting | SyRebasing | SyAgentRunning | SyVerifying | SyPushing
  | SySucceeded | SyFailed | SyAborted

definition RUN_SYNC_TERMINAL_PHASES :: "sync_phase list" where
  "RUN_SYNC_TERMINAL_PHASES = [SySucceeded, SyFailed, SyAborted]"

record sync_attempt_row =
  sa_id :: ident
  sa_runId :: ident
  sa_workspaceId :: ident
  sa_phase :: sync_phase
  sa_errorCode :: "string option"
  sa_errorMessage :: "string option"
  sa_updatedAt :: time

datatype assignment_state = Active | Superseded | Released

datatype placement_reason =
    PrLaunch | PrResume | PrRecover | PrWaitResume | PrReworkReturn | PrGateChat | PrSyncResolver
  | PrScratchRecover | PrNodeInterrupt | PrLegacyBackfill | PrLibrarianTurn

record assignment_row =
  ea_id :: ident
  ea_runId :: ident
  ea_executionHostId :: ident
  ea_epoch :: nat
  ea_state :: assignment_state
  ea_placementReason :: placement_reason
  ea_executionWorkspaceId :: "ident option"
  ea_workspaceAdoptedAt :: "time option"
  ea_supersededById :: "ident option"
  ea_releasedReason :: "string option"
  ea_createdAt :: time
  ea_updatedAt :: time
  ea_endedAt :: "time option"

datatype node_type =
    AiCoding | Cli | Check | Judge | Human | Form | Orchestrator | Consensus

datatype node_status =
    NaPending | NaRunning | NaSucceeded | NaFailed | NaNeedsInput | NaReworked | NaStale

datatype workspace_policy = Keep | RewindToNodeCheckpoint | FreshAttempt

datatype session_policy = ResumeSession | NewSession

record node_attempt_row =
  na_id :: ident
  na_runId :: ident
  na_nodeId :: ident
  na_nodeType :: node_type
  na_attempt :: nat
  na_status :: node_status
  na_decision :: "string option"
  na_workspacePolicy :: "workspace_policy option"
  na_reworkFromNode :: "ident option"
  na_acpSessionId :: "string option"
  na_checkpointRef :: "string option"
  na_claimHeadSha :: "string option"
  na_sessionPolicy :: "session_policy option"
  na_sessionFallback :: bool
  na_autoRetry :: bool
  na_stdout :: "string option"
  na_reworkBaseline :: "nat option"
  na_vars :: json
  na_exitCode :: "int option"
  na_errorCode :: "maister_error_code option"
  na_ownerUserId :: "ident option"
  na_baseRef :: "string option"
  na_returnedCommits :: "string option"
  na_returnedDiff :: "string option"
  na_enforcementSnapshot :: "json option"
  na_materializationPlan :: "json option"
  na_outputContract :: "json option"
  na_executionAssignmentId :: "ident option"
  na_startedAt :: time
  na_endedAt :: "time option"

datatype gate_kind =
    CommandCheck | SkillCheck | AiJudgment | ArtifactRequired | ExternalCheck | HumanReview

datatype gate_mode = Blocking | Advisory

datatype gate_status =
    GsPending | GsRunning | GsPassed | GsFailed | GsStale | GsSkipped | GsOverridden

record gate_result_row =
  gr_id :: ident
  gr_runId :: ident
  gr_nodeAttemptId :: ident
  gr_gateId :: ident
  gr_kind :: gate_kind
  gr_mode :: gate_mode
  gr_status :: gate_status
  gr_verdict :: "json option"
  gr_inputArtifactRefs :: "ident list option"
  gr_createdAt :: time

datatype artifact_validity = AvCurrent | AvStale | AvSuperseded | AvFailed | AvSkipped

datatype artifact_kind =
    AkDiff | AkLog | AkTestReport | AkLintReport | AkAiJudgment | AkHumanNote | AkCommitSet | AkCheckpoint
  | AkPreview | AkGenericFile | AkMutationReport | AkPlan

datatype artifact_producer = ByRunner | ByProjector | ByTakeover | ByGate | ByHuman

record artifact_row =
  ai_id :: ident
  ai_runId :: ident
  ai_nodeAttemptId :: "ident option"
  ai_nodeId :: "ident option"
  ai_attempt :: "nat option"
  ai_artifactDefId :: "ident option"
  ai_kind :: artifact_kind
  ai_producer :: artifact_producer
  ai_locator :: json
  ai_uri :: "string option"
  ai_hash :: "string option"
  ai_sizeBytes :: "nat option"
  ai_validity :: artifact_validity
  ai_requiredFor :: "string list option"
  ai_monotonicId :: "int option"
  ai_supersededById :: "ident option"
  ai_createdAt :: time

datatype result_validity = RvValid | RvStale | RvSuperseded | RvInvalid

datatype producer_kind = FlowNode | AgentSession

record run_result_row =
  rr_id :: ident
  rr_runId :: ident
  rr_validity :: result_validity
  rr_producerKind :: producer_kind
  rr_producerRef :: ident

datatype hitl_kind =
    HkPermission | HkForm | HkHuman | HkAgentQuestion | HkInfraRecovery | HkBudgetBreach
  | HkHookTrip | HkNodeInterrupt | HkDecisionRequest

record hitl_row =
  hr_id :: ident
  hr_runId :: ident
  hr_kind :: hitl_kind
  hr_response :: "json option"
  hr_respondedAt :: "time option"

datatype intent_state =
    TiQueued | TiPreparing | TiRunBound | TiHeld | TiFailed | TiCancelled | TiSettled

datatype intent_basis = BasisManual | BasisAutomatic | BasisExecutionChild

datatype launch_kind = LaunchFlow | LaunchAgent

record launch_intent_row =
  li_id :: ident
  li_projectId :: "ident option"
  li_basisKind :: intent_basis
  li_parentRunId :: "ident option"
  li_runId :: "ident option"
  li_originalRunId :: "ident option"
  li_state :: intent_state
  li_stateVersion :: nat
  li_parentObservedVersion :: "nat option"
  li_preparationIdentity :: "string option"
  li_settingsKind :: launch_kind
  li_dispatchCommittedAt :: "time option"

section \<open>Outboxes\<close>

datatype domain_event_kind =
    EvRunFailed | EvRunCrashed | EvRunAbandoned | EvRunDone | EvRunReview | EvRunReviewOpened

datatype terminal_cause_source =
    SrcGraph | SrcHitl | SrcSweeper | SrcScratch | SrcAgent | SrcReconcile | SrcResume
  | SrcOperator | SrcOrchestrator | SrcWorkbench | SrcLegacy

record terminal_cause =
  tc_code :: "maister_error_code option"
  tc_reason :: "string option"
  tc_source :: terminal_cause_source

datatype run_review_cause =
    CauseCompleted | CauseStopped | CauseSyncReturned | CauseReworkReleased

text \<open>
  The payload of a run event.  \<open>dp_parentRunId = None\<close> is a payload without the key,
  \<open>Some None\<close> the key with \<^verbatim>\<open>null\<close>.
\<close>

record domain_payload =
  dp_runId :: ident
  dp_taskId :: "ident option"
  dp_flowId :: "ident option"
  dp_runKind :: run_kind
  dp_reason :: "string option"
  dp_status :: "run_status option"
  dp_reviewCause :: "run_review_cause option"
  dp_resultStatus :: "string option"
  dp_parentRunId :: "ident option option"
  dp_cause :: "terminal_cause option"

record domain_event_row =
  de_kind :: domain_event_kind
  de_projectId :: "ident option"
  de_taskId :: "ident option"
  de_runId :: "ident option"
  de_actorType :: "string option"
  de_actorId :: "ident option"
  de_payload :: domain_payload
  de_occurredAt :: time

record webhook_event_row =
  we_id :: ident
  we_type :: string
  we_projectId :: "ident option"
  we_runId :: "ident option"
  we_data :: "(string \<times> json) list"
  we_occurredAt :: time

section \<open>The database\<close>

record db =
  runs :: "run_row list"
  workspaces :: "workspace_row list"
  runSyncAttempts :: "sync_attempt_row list"
  executionAssignments :: "assignment_row list"
  nodeAttempts :: "node_attempt_row list"
  gateResults :: "gate_result_row list"
  artifactInstances :: "artifact_row list"
  runResults :: "run_result_row list"
  hitlRequests :: "hitl_row list"
  taskLaunchIntents :: "launch_intent_row list"
  domainEvents :: "domain_event_row list"
  webhookEvents :: "webhook_event_row list"
  hostPressuredSince :: "time option"

interpretation runs_t: keyed_table r_id .
interpretation assignments_t: keyed_table ea_id .
interpretation attempts_t: keyed_table na_id .
interpretation workspaces_t: keyed_table w_id .
interpretation artifacts_t: keyed_table ai_id .

text \<open>The run's row, and its status where the row exists.\<close>

definition run_of :: "db \<Rightarrow> ident \<Rightarrow> run_row option" where
  "run_of d i = runs_t.row i (runs d)"

definition status_of :: "db \<Rightarrow> ident \<Rightarrow> run_status option" where
  "status_of d i = map_option r_status (run_of d i)"

text \<open>The primary keys the schema declares.\<close>

definition wf_keys :: "db \<Rightarrow> bool" where
  "wf_keys d \<longleftrightarrow>
     runs_t.wf_rows (runs d) \<and> assignments_t.wf_rows (executionAssignments d)
     \<and> attempts_t.wf_rows (nodeAttempts d) \<and> workspaces_t.wf_rows (workspaces d)"

section \<open>Concrete states\<close>

text \<open>A database without rows and a run row, from which the examples build their states.\<close>

definition empty_db :: db where
  "empty_db = \<lparr>runs = [], workspaces = [], runSyncAttempts = [], executionAssignments = [],
     nodeAttempts = [], gateResults = [], artifactInstances = [], runResults = [], hitlRequests = [],
     taskLaunchIntents = [], domainEvents = [], webhookEvents = [], hostPressuredSince = None\<rparr>"

definition example_run :: "ident \<Rightarrow> run_status \<Rightarrow> run_row" where
  "example_run i s = \<lparr>r_id = i, r_runKind = FlowRun, r_projectId = Some ''p'', r_taskId = Some ''t'',
     r_flowId = Some ''f'', r_localPackageId = None, r_parentRunId = None, r_rootRunId = None,
     r_workspaceMode = None, r_maxActiveChildren = None, r_status = s, r_currentStepId = Some ''plan'',
     r_resumeTargetStepId = None, r_startedAt = 0, r_endedAt = None, r_checkpointAt = None,
     r_keepaliveUntil = None, r_resumeStartedAt = None, r_resumeRequestedAt = None,
     r_failedChildWakeAt = None, r_flowDriverToken = None, r_flowDriverLeaseExpiresAt = None,
     r_executionAssignmentId = None, r_executionPolicy = None\<rparr>"

end
