(* ===== verification/Outbox.thy ===== *)
theory Outbox
  imports Database
begin

text \<open>
  The transactional outboxes: \<^verbatim>\<open>web/lib/domain-events/taxonomy.ts\<close> (the tokens a terminal cause
  may carry), \<^verbatim>\<open>domain-events/outbox.ts\<close>, \<^verbatim>\<open>domain-events/coordinator-wake-intent.ts\<close>,
  \<^verbatim>\<open>webhooks/outbox.ts\<close> and \<^verbatim>\<open>runs/delegated-review-emit.ts\<close>.  An emit appends a row in the
  caller's transaction; a failed child also arms its coordinator's wake.  The lemmas say that a cause
  only ever carries a token, that an emit appends exactly one row, and what the wake touches.
\<close>

section \<open>Cause tokens\<close>

definition is_cause_char :: "char \<Rightarrow> bool" where
  "is_cause_char c \<longleftrightarrow> is_lower_ascii c \<or> is_digit c \<or> c = CHR ''_''"

text \<open>\<^verbatim>\<open>[a-z][a-z0-9_]{0,63}\<close>.\<close>

definition is_cause_word :: "string \<Rightarrow> bool" where
  "is_cause_word w \<longleftrightarrow>
     (case w of [] \<Rightarrow> False
      | c # cs \<Rightarrow> is_lower_ascii c \<and> list_all is_cause_char cs \<and> length cs \<le> 63)"

text \<open>\<^verbatim>\<open>/^[a-z][a-z0-9_]{0,63}(\/[a-z][a-z0-9_]{0,63})?$/\<close>.\<close>

definition CAUSE_REASON :: "string \<Rightarrow> bool" where
  "CAUSE_REASON s \<longleftrightarrow>
     (case js_split (CHR ''/'') s of
        [w] \<Rightarrow> is_cause_word w
      | [w, v] \<Rightarrow> is_cause_word w \<and> is_cause_word v
      | _ \<Rightarrow> False)"

definition causeReason :: "string \<Rightarrow> string" where
  "causeReason token = js_lower (map (\<lambda>c. if c = CHR ''-'' then CHR ''_'' else c) token)"

definition terminalCauseReason :: "string option \<Rightarrow> string option" where
  "terminalCauseReason raw =
     (case raw of
        None \<Rightarrow> None
      | Some r \<Rightarrow>
          if r = [] then None
          else let token = causeReason (js_trim (hd (js_split (CHR '':'') r)))
               in if CAUSE_REASON token then Some token else None)"

definition tokenOnlyCause :: "terminal_cause \<Rightarrow> terminal_cause" where
  "tokenOnlyCause c = c\<lparr>tc_reason := terminalCauseReason (tc_reason c)\<rparr>"

section \<open>The coordinator's wake\<close>

definition ARMABLE_PARENT_STATUSES :: "run_status list" where
  "ARMABLE_PARENT_STATUSES = [Running, NeedsInput, NeedsInputIdle, WaitingOnChildren]"

definition armable :: "db \<Rightarrow> ident \<Rightarrow> run_row \<Rightarrow> bool" where
  "armable d parent r \<longleftrightarrow>
     r_id r = parent \<and> r_status r \<in> set ARMABLE_PARENT_STATUSES
     \<and> list_ex (\<lambda>a. na_runId a = r_id r \<and> r_currentStepId r = Some (na_nodeId a)
                   \<and> na_nodeType a = Orchestrator \<and> na_status a \<in> {NaRunning, NaNeedsInput})
         (nodeAttempts d)"

text \<open>\<^verbatim>\<open>coalesce(x, clock_timestamp())\<close>.\<close>

definition coalesce_now :: "time option \<Rightarrow> time \<Rightarrow> time option" where
  "coalesce_now x now = (case x of None \<Rightarrow> Some now | Some t \<Rightarrow> Some t)"

definition arm_row :: "time \<Rightarrow> run_row \<Rightarrow> run_row" where
  "arm_row now r = r\<lparr>r_failedChildWakeAt := coalesce_now (r_failedChildWakeAt r) now\<rparr>"

definition armFailedCoordinatorWake :: "time \<Rightarrow> ident \<Rightarrow> db \<Rightarrow> bool \<times> db" where
  "armFailedCoordinatorWake now parent d =
     (sql_returning (armable d parent) (arm_row now) (runs d) \<noteq> [],
      d\<lparr>runs := sql_update (armable d parent) (arm_row now) (runs d)\<rparr>)"

definition clearFailedCoordinatorWake :: "ident \<Rightarrow> db \<Rightarrow> db" where
  "clearFailedCoordinatorWake i d =
     d\<lparr>runs := sql_update (\<lambda>r. r_id r = i) (\<lambda>r. r\<lparr>r_failedChildWakeAt := None\<rparr>) (runs d)\<rparr>"

section \<open>Emitting\<close>

text \<open>
  \<^verbatim>\<open>EmitDomainEventInput\<close>: \<open>ei_parentRunId\<close> is \<open>None\<close> where the field is undefined and
  \<open>Some None\<close> where it is null.
\<close>

record emit_input =
  ei_kind :: domain_event_kind
  ei_projectId :: "ident option"
  ei_taskId :: "ident option"
  ei_runId :: "ident option"
  ei_actor :: "(string \<times> ident option) option"
  ei_parentRunId :: "ident option option"
  ei_cause :: "terminal_cause option"
  ei_payload :: domain_payload
  ei_occurredAt :: "time option"

definition TERMINAL_FAILURE_EVENT_KINDS :: "domain_event_kind list" where
  "TERMINAL_FAILURE_EVENT_KINDS = [EvRunFailed, EvRunCrashed, EvRunAbandoned]"

definition RUN_TERMINAL_EVENT_KINDS :: "domain_event_kind list" where
  "RUN_TERMINAL_EVENT_KINDS = [EvRunDone, EvRunFailed, EvRunCrashed, EvRunAbandoned]"

definition RUN_SETTLED_EVENT_KINDS :: "domain_event_kind list" where
  "RUN_SETTLED_EVENT_KINDS = RUN_TERMINAL_EVENT_KINDS @ [EvRunReview]"

text \<open>\<^verbatim>\<open>input.parentRunId && (kind is one of the three failures)\<close>.\<close>

definition wake_target :: "emit_input \<Rightarrow> ident option" where
  "wake_target inp =
     (case ei_parentRunId inp of
        Some (Some p) \<Rightarrow>
          if p \<noteq> [] \<and> ei_kind inp \<in> set TERMINAL_FAILURE_EVENT_KINDS then Some p else None
      | _ \<Rightarrow> None)"

definition event_row :: "time \<Rightarrow> emit_input \<Rightarrow> domain_event_row" where
  "event_row now inp =
     \<lparr>de_kind = ei_kind inp, de_projectId = ei_projectId inp, de_taskId = ei_taskId inp,
      de_runId = ei_runId inp, de_actorType = map_option fst (ei_actor inp),
      de_actorId = Option.bind (ei_actor inp) snd,
      de_payload = (ei_payload inp)
        \<lparr>dp_parentRunId := (case ei_parentRunId inp of None \<Rightarrow> dp_parentRunId (ei_payload inp)
                            | Some p \<Rightarrow> Some p),
         dp_cause := (case ei_cause inp of None \<Rightarrow> dp_cause (ei_payload inp)
                      | Some c \<Rightarrow> Some (tokenOnlyCause c))\<rparr>,
      de_occurredAt = (case ei_occurredAt inp of None \<Rightarrow> now | Some t \<Rightarrow> t)\<rparr>"

definition emitDomainEvent :: "time \<Rightarrow> emit_input \<Rightarrow> db \<Rightarrow> db" where
  "emitDomainEvent now inp d =
     (let d' = (case wake_target inp of None \<Rightarrow> d | Some p \<Rightarrow> snd (armFailedCoordinatorWake now p d))
      in d'\<lparr>domainEvents := domainEvents d' @ [event_row now inp]\<rparr>)"

datatype webhook_input =
    ProjectScoped (wi_type: string) "ident option" ident "(string \<times> json) list" "time option"
  | UserScoped (wi_type: string) ident "(string \<times> json) list" "time option"

definition webhook_row :: "time \<Rightarrow> ident \<Rightarrow> webhook_input \<Rightarrow> webhook_event_row" where
  "webhook_row now uuid inp =
     (case inp of
        ProjectScoped ty project run data t0 \<Rightarrow>
          \<lparr>we_id = uuid, we_type = ty, we_projectId = project, we_runId = Some run, we_data = data,
           we_occurredAt = (case t0 of None \<Rightarrow> now | Some t \<Rightarrow> t)\<rparr>
      | UserScoped ty owner data t0 \<Rightarrow>
          \<lparr>we_id = uuid, we_type = ty, we_projectId = None, we_runId = None,
           we_data = AList.update ''ownerUserId'' (JStr owner) data,
           we_occurredAt = (case t0 of None \<Rightarrow> now | Some t \<Rightarrow> t)\<rparr>)"

definition emitWebhookEvent :: "time \<Rightarrow> ident \<Rightarrow> webhook_input \<Rightarrow> db \<Rightarrow> ident \<times> db" where
  "emitWebhookEvent now uuid inp d =
     (uuid, d\<lparr>webhookEvents := webhookEvents d @ [webhook_row now uuid inp]\<rparr>)"

text \<open>\<^verbatim>\<open>ReviewFlipRow\<close>: the run's columns the flip returned, with the cause.\<close>

definition review_payload ::
    "run_row \<Rightarrow> run_review_cause \<Rightarrow> string option \<Rightarrow> domain_payload" where
  "review_payload r cause result =
     \<lparr>dp_runId = r_id r, dp_taskId = r_taskId r, dp_flowId = r_flowId r, dp_runKind = r_runKind r,
      dp_reason = None, dp_status = Some Review, dp_reviewCause = Some cause,
      dp_resultStatus = (case result of Some s \<Rightarrow> if s = [] then None else Some s | None \<Rightarrow> None),
      dp_parentRunId = None, dp_cause = None\<rparr>"

definition review_input ::
    "run_row \<Rightarrow> run_review_cause \<Rightarrow> string option \<Rightarrow> emit_input" where
  "review_input r cause result =
     (let delegated = (case r_parentRunId r of Some p \<Rightarrow> p \<noteq> [] | None \<Rightarrow> False)
      in \<lparr>ei_kind = (if delegated then EvRunReview else EvRunReviewOpened),
          ei_projectId = r_projectId r, ei_taskId = r_taskId r, ei_runId = Some (r_id r),
          ei_actor = Some (''system'', None),
          ei_parentRunId = (if delegated then Some (r_parentRunId r) else None),
          ei_cause = None, ei_payload = review_payload r cause result, ei_occurredAt = None\<rparr>)"

definition emitDelegatedReviewIfChild ::
    "time \<Rightarrow> run_row \<Rightarrow> run_review_cause \<Rightarrow> string option \<Rightarrow> db \<Rightarrow> db" where
  "emitDelegatedReviewIfChild now r cause result d =
     emitDomainEvent now (review_input r cause result) d"

section \<open>What a cause may carry\<close>

lemma cause_word_chars:
  "is_cause_word w \<Longrightarrow> c \<in> set w \<Longrightarrow> is_cause_char c"
  by (cases w) (auto simp: is_cause_word_def is_cause_char_def list_all_iff)

lemma js_split_chars: "c \<in> set s \<Longrightarrow> c = sep \<or> (\<exists>w \<in> set (js_split sep s). c \<in> set w)"
proof (induction s)
  case (Cons a s)
  then show ?case
    by (cases "js_split sep s") auto
qed simp

lemma cause_reason_chars:
  assumes "CAUSE_REASON s" and "c \<in> set s"
  shows "c = CHR ''/'' \<or> is_cause_char c"
  using assms js_split_chars[of c s "CHR ''/''"]
  by (auto simp: CAUSE_REASON_def cause_word_chars split: list.splits)

lemma cause_reason_not_Nil: "CAUSE_REASON s \<Longrightarrow> s \<noteq> []"
  by (auto simp: CAUSE_REASON_def is_cause_word_def)

lemma is_cause_char_plain:
  assumes "is_cause_char c"
  shows "c \<noteq> CHR '':''" and "c \<noteq> CHR ''-''" and "\<not> is_js_ws c" and "js_lower_char c = c"
  using assms
  by (auto simp: is_cause_char_def is_lower_ascii_def is_digit_def is_js_ws_def js_lower_char_def
      is_upper_ascii_def Let_def)

lemma slash_plain:
  "\<not> is_js_ws (CHR ''/'')" "js_lower_char (CHR ''/'') = CHR ''/''"
  by (simp_all add: is_js_ws_def js_lower_char_def is_upper_ascii_def)

lemma cause_reason_plain:
  assumes "CAUSE_REASON s" and "c \<in> set s"
  shows "c \<noteq> CHR '':''" and "c \<noteq> CHR ''-''" and "\<not> is_js_ws c" and "js_lower_char c = c"
  using cause_reason_chars[OF assms] is_cause_char_plain[of c] slash_plain by auto

lemma causeReason_token:
  assumes "CAUSE_REASON s"
  shows "causeReason s = s"
proof -
  have "map (\<lambda>c. js_lower_char (if c = CHR ''-'' then CHR ''_'' else c)) s = s"
    by (rule map_idI) (use cause_reason_plain[OF assms] in auto)
  then show ?thesis by (simp add: causeReason_def js_lower_def comp_def)
qed

lemma js_trim_token:
  assumes "CAUSE_REASON s"
  shows "js_trim s = s"
  using cause_reason_not_Nil[OF assms] cause_reason_plain(3)[OF assms]
  by (intro js_trim_idem_pre) auto

lemma terminalCauseReason_SomeD: "terminalCauseReason raw = Some r \<Longrightarrow> CAUSE_REASON r"
  by (auto simp: terminalCauseReason_def Let_def split: option.splits if_splits)

lemma terminalCauseReason_token:
  assumes "CAUSE_REASON s"
  shows "terminalCauseReason (Some s) = Some s"
proof -
  have "CHR '':'' \<notin> set s"
    using cause_reason_plain(1)[OF assms] by blast
  then have "hd (js_split (CHR '':'') s) = s"
    by (simp add: js_split_plain)
  with assms show ?thesis
    by (simp add: terminalCauseReason_def cause_reason_not_Nil js_trim_token causeReason_token)
qed

lemma terminalCauseReason_idem: "terminalCauseReason (terminalCauseReason raw) = terminalCauseReason raw"
proof (cases "terminalCauseReason raw")
  case (Some r)
  then show ?thesis using terminalCauseReason_SomeD terminalCauseReason_token by metis
qed (simp add: terminalCauseReason_def)

section \<open>What an emit changes\<close>

lemma arm_row_simps [simp]:
  "r_id (arm_row now r) = r_id r" "r_status (arm_row now r) = r_status r"
  "r_currentStepId (arm_row now r) = r_currentStepId r"
  "r_executionAssignmentId (arm_row now r) = r_executionAssignmentId r"
  "r_resumeTargetStepId (arm_row now r) = r_resumeTargetStepId r"
  "r_endedAt (arm_row now r) = r_endedAt r"
  "r_parentRunId (arm_row now r) = r_parentRunId r"
  by (simp_all add: arm_row_def)

text \<open>An emit touches the run table only to stamp the wake of the coordinator it names.\<close>

lemma emitDomainEvent_runs:
  "runs (emitDomainEvent now inp d) =
     (case wake_target inp of None \<Rightarrow> runs d
      | Some p \<Rightarrow> sql_update (armable d p) (arm_row now) (runs d))"
  by (simp add: emitDomainEvent_def armFailedCoordinatorWake_def split: option.splits)

lemma emitDomainEvent_frame [simp, sql_simps]:
  "domainEvents (emitDomainEvent now inp d) = domainEvents d @ [event_row now inp]"
  "workspaces (emitDomainEvent now inp d) = workspaces d"
  "runSyncAttempts (emitDomainEvent now inp d) = runSyncAttempts d"
  "executionAssignments (emitDomainEvent now inp d) = executionAssignments d"
  "nodeAttempts (emitDomainEvent now inp d) = nodeAttempts d"
  "gateResults (emitDomainEvent now inp d) = gateResults d"
  "artifactInstances (emitDomainEvent now inp d) = artifactInstances d"
  "runResults (emitDomainEvent now inp d) = runResults d"
  "hitlRequests (emitDomainEvent now inp d) = hitlRequests d"
  "taskLaunchIntents (emitDomainEvent now inp d) = taskLaunchIntents d"
  "webhookEvents (emitDomainEvent now inp d) = webhookEvents d"
  "hostPressuredSince (emitDomainEvent now inp d) = hostPressuredSince d"
  by (simp_all add: emitDomainEvent_def armFailedCoordinatorWake_def split: option.splits)

lemma emitDomainEvent_run_of:
  "run_of (emitDomainEvent now inp d) i =
     map_option (\<lambda>r. case wake_target inp of
                       Some p \<Rightarrow> if armable d p r then arm_row now r else r
                     | None \<Rightarrow> r) (run_of d i)"
  by (simp add: run_of_def emitDomainEvent_runs runs_t.row_update option.map_ident split: option.splits)

lemma emitDomainEvent_status [simp]:
  "status_of (emitDomainEvent now inp d) i = status_of d i"
  by (cases "run_of d i")
     (simp_all add: status_of_def emitDomainEvent_run_of split: option.splits)

lemma emitWebhookEvent_simps [simp, sql_simps]:
  "fst (emitWebhookEvent now uuid inp d) = uuid"
  "snd (emitWebhookEvent now uuid inp d) =
     d\<lparr>webhookEvents := webhookEvents d @ [webhook_row now uuid inp]\<rparr>"
  by (simp_all add: emitWebhookEvent_def)

lemma wake_target_review [simp]: "wake_target (review_input r cause result) = None"
  by (simp add: wake_target_def review_input_def TERMINAL_FAILURE_EVENT_KINDS_def Let_def
      split: option.splits)

lemma emitDelegatedReview_eq:
  "emitDelegatedReviewIfChild now r cause result d =
     d\<lparr>domainEvents := domainEvents d @ [event_row now (review_input r cause result)]\<rparr>"
  by (simp add: emitDelegatedReviewIfChild_def emitDomainEvent_def)

end
