(* ===== verification/Assignments.thy ===== *)
theory Assignments
  imports Outbox
begin

text \<open>
  Execution assignments: \<^verbatim>\<open>web/lib/execution-host/assignments.ts\<close> and \<^verbatim>\<open>placement.ts\<close>.  Every
  driver of a run holds an assignment with an epoch; a re-entry mints the next epoch and supersedes the
  active one, a park or an end releases it.  The invariant \<open>wf_assignments\<close> is the table's unique
  indexes and CHECKs; every operation keeps it, the epochs of a run only grow and a run has at most one
  active assignment.  The locale \<open>driver_generation\<close> is the contract the run's state transitions rely
  on, interpreted here on the model of the code.
\<close>

section \<open>Admissible commands\<close>

datatype command_kind =
    WorkspaceAdopt | WorkspaceRelease | SessionCreate | SessionPrompt | SessionInput | SessionSteer
  | SessionCancel | SessionCheckpoint | SessionDelete
  | RuntimeObjectReserve | RuntimeObjectUpload | RuntimeObjectDelete

datatype input_action = SelectInput | CancelInput

definition TEARDOWN_COMMAND_KINDS :: "command_kind list" where
  "TEARDOWN_COMMAND_KINDS =
     [SessionCheckpoint, SessionDelete, SessionCancel, RuntimeObjectDelete, WorkspaceRelease]"

definition isAdmissible :: "command_kind \<Rightarrow> assignment_state \<Rightarrow> input_action option \<Rightarrow> bool" where
  "isAdmissible kind state inputAction =
     (case state of
        Active \<Rightarrow> True
      | Released \<Rightarrow>
          if kind = SessionInput then inputAction = Some CancelInput
          else kind \<in> set TEARDOWN_COMMAND_KINDS
      | Superseded \<Rightarrow> False)"

section \<open>Reading\<close>

definition is_active_of :: "ident \<Rightarrow> assignment_row \<Rightarrow> bool" where
  "is_active_of run a \<longleftrightarrow> ea_runId a = run \<and> ea_state a = Active"

definition getActiveAssignment :: "ident \<Rightarrow> db \<Rightarrow> assignment_row option" where
  "getActiveAssignment run d = find (is_active_of run) (executionAssignments d)"

definition getLatestAssignment :: "ident \<Rightarrow> db \<Rightarrow> assignment_row option" where
  "getLatestAssignment run d =
     sql_latest ea_epoch (sql_select (\<lambda>a. ea_runId a = run) (executionAssignments d))"

definition getAssignmentById :: "ident \<Rightarrow> db \<Rightarrow> assignment_row option" where
  "getAssignmentById i d = find (\<lambda>a. ea_id a = i) (executionAssignments d)"

text \<open>\<^verbatim>\<open>max(epoch)\<close> over the run's assignments, 0 where it has none.\<close>

definition maxEpoch :: "ident \<Rightarrow> assignment_row list \<Rightarrow> nat" where
  "maxEpoch run rows = foldr (\<lambda>a m. if ea_runId a = run then max (ea_epoch a) m else m) rows 0"

section \<open>Writing\<close>

text \<open>The insert of \<^verbatim>\<open>mintAssignment\<close>, refused by the primary key and the two unique indexes.\<close>

definition insertAssignment ::
    "assignment_row \<Rightarrow> assignment_row list \<Rightarrow> maister_error + assignment_row list" where
  "insertAssignment a rows =
     (if list_ex (\<lambda>b. ea_id b = ea_id a \<or> (ea_runId b = ea_runId a \<and> ea_epoch b = ea_epoch a)
                     \<or> (ea_state a = Active \<and> is_active_of (ea_runId a) b)) rows
      then Inl (MaisterError CONFLICT ''assignment_mint_race'') else Inr (rows @ [a]))"

definition supersede_row :: "time \<Rightarrow> assignment_row \<Rightarrow> assignment_row" where
  "supersede_row now a = a\<lparr>ea_state := Superseded, ea_endedAt := Some now, ea_updatedAt := now\<rparr>"

definition minted_row ::
    "time \<Rightarrow> ident \<Rightarrow> ident \<Rightarrow> ident \<Rightarrow> placement_reason \<Rightarrow> db \<Rightarrow> assignment_row" where
  "minted_row now uuid run host reason d =
     (let inherited =
            (case getLatestAssignment run d of
               Some p \<Rightarrow> if ea_executionHostId p = host
                          then (ea_executionWorkspaceId p, ea_workspaceAdoptedAt p) else (None, None)
             | None \<Rightarrow> (None, None))
      in \<lparr>ea_id = uuid, ea_runId = run, ea_executionHostId = host,
          ea_epoch = maxEpoch run (executionAssignments d) + 1, ea_state = Active,
          ea_placementReason = reason, ea_executionWorkspaceId = fst inherited,
          ea_workspaceAdoptedAt = snd inherited, ea_supersededById = None, ea_releasedReason = None,
          ea_createdAt = now, ea_updatedAt = now, ea_endedAt = None\<rparr>)"

definition claim_run_row :: "ident \<Rightarrow> run_row \<Rightarrow> run_row" where
  "claim_run_row uuid r =
     r\<lparr>r_executionAssignmentId := Some uuid, r_flowDriverToken := None,
       r_flowDriverLeaseExpiresAt := None\<rparr>"

definition mintAssignment ::
    "time \<Rightarrow> ident \<Rightarrow> ident \<Rightarrow> ident \<Rightarrow> placement_reason \<Rightarrow> db \<Rightarrow> maister_error + (assignment_row \<times> db)" where
  "mintAssignment now uuid run host reason d =
     (if sql_select (\<lambda>r. r_id r = run) (runs d) = [] then Inl (MaisterError PRECONDITION [])
      else let active = getActiveAssignment run d;
               row = minted_row now uuid run host reason d;
               rows1 = (case active of
                          None \<Rightarrow> executionAssignments d
                        | Some a \<Rightarrow> sql_update (\<lambda>b. ea_id b = ea_id a \<and> ea_state b = Active)
                                     (supersede_row now) (executionAssignments d))
           in rbind (insertAssignment row rows1) (\<lambda>rows2.
                let rows3 = (case active of
                               None \<Rightarrow> rows2
                             | Some a \<Rightarrow> sql_update (\<lambda>b. ea_id b = ea_id a)
                                          (\<lambda>b. b\<lparr>ea_supersededById := Some uuid\<rparr>) rows2)
                in Inr (row, d\<lparr>executionAssignments := rows3,
                               runs := sql_update (\<lambda>r. r_id r = run) (claim_run_row uuid) (runs d)\<rparr>)))"

definition release_row :: "time \<Rightarrow> string \<Rightarrow> assignment_row \<Rightarrow> assignment_row" where
  "release_row now reason a =
     a\<lparr>ea_state := Released, ea_releasedReason := Some reason, ea_endedAt := Some now,
       ea_updatedAt := now\<rparr>"

definition releaseAssignmentForRun ::
    "time \<Rightarrow> ident \<Rightarrow> string \<Rightarrow> db \<Rightarrow> assignment_row option \<times> db" where
  "releaseAssignmentForRun now run reason d =
     ((case sql_returning (is_active_of run) (release_row now reason) (executionAssignments d) of
         [] \<Rightarrow> None | a # _ \<Rightarrow> Some a),
      d\<lparr>executionAssignments :=
          sql_update (is_active_of run) (release_row now reason) (executionAssignments d)\<rparr>)"

definition setAssignmentWorkspace :: "time \<Rightarrow> ident \<Rightarrow> ident \<Rightarrow> db \<Rightarrow> bool \<times> db" where
  "setAssignmentWorkspace now i ws d =
     (let f = (\<lambda>a. a\<lparr>ea_executionWorkspaceId := Some ws, ea_workspaceAdoptedAt := Some now,
                     ea_updatedAt := now\<rparr>)
      in (sql_returning (\<lambda>a. ea_id a = i) f (executionAssignments d) \<noteq> [],
          d\<lparr>executionAssignments := sql_update (\<lambda>a. ea_id a = i) f (executionAssignments d)\<rparr>))"

section \<open>Placement\<close>

text \<open>
  \<^verbatim>\<open>localHost\<close> resolves the one local execution host, or throws; its outcome is an argument.
\<close>

definition mintPlacement ::
    "time \<Rightarrow> ident \<Rightarrow> (maister_error + ident) \<Rightarrow> ident option \<Rightarrow> ident \<Rightarrow> placement_reason \<Rightarrow> db
       \<Rightarrow> maister_error + (assignment_row \<times> db)" where
  "mintPlacement now uuid localHost host run reason d =
     rbind (case host of Some h \<Rightarrow> Inr h | None \<Rightarrow> localHost)
       (\<lambda>h. mintAssignment now uuid run h reason d)"

definition ensureAssignment ::
    "time \<Rightarrow> ident \<Rightarrow> (maister_error + ident) \<Rightarrow> ident \<Rightarrow> placement_reason \<Rightarrow> db
       \<Rightarrow> maister_error + (assignment_row \<times> db)" where
  "ensureAssignment now uuid localHost run reason d =
     (case getActiveAssignment run d of
        Some a \<Rightarrow> Inr (a, d)
      | None \<Rightarrow>
          rbind localHost (\<lambda>h.
            case getActiveAssignment run d of
              Some a \<Rightarrow> Inr (a, d)
            | None \<Rightarrow>
                (case getLatestAssignment run d of
                   Some _ \<Rightarrow> Inl (MaisterError PRECONDITION ''assignment_missing'')
                 | None \<Rightarrow> mintPlacement now uuid localHost (Some h) run reason d)))"

section \<open>The invariant\<close>

text \<open>
  Primary key, \<^verbatim>\<open>UNIQUE (run_id, epoch)\<close>, one active row per run, \<^verbatim>\<open>epoch >= 1\<close> and
  \<^verbatim>\<open>(state = 'active') = (ended_at IS NULL)\<close>.
\<close>

definition unique_epochs :: "assignment_row list \<Rightarrow> bool" where
  "unique_epochs rows \<longleftrightarrow> distinct (map (\<lambda>a. (ea_runId a, ea_epoch a)) rows)"

definition one_active :: "assignment_row list \<Rightarrow> bool" where
  "one_active rows \<longleftrightarrow> distinct (map ea_runId (filter (\<lambda>a. ea_state a = Active) rows))"

definition assignment_ok :: "assignment_row \<Rightarrow> bool" where
  "assignment_ok a \<longleftrightarrow> 1 \<le> ea_epoch a \<and> (ea_state a = Active \<longleftrightarrow> ea_endedAt a = None)"

definition wf_assignments :: "assignment_row list \<Rightarrow> bool" where
  "wf_assignments rows \<longleftrightarrow>
     assignments_t.wf_rows rows \<and> unique_epochs rows \<and> one_active rows \<and> list_all assignment_ok rows"

lemma maxEpoch_ge: "a \<in> set rows \<Longrightarrow> ea_runId a = run \<Longrightarrow> ea_epoch a \<le> maxEpoch run rows"
  by (induction rows) (auto simp: maxEpoch_def max_def)

lemma maxEpoch_update:
  assumes "\<And>a. ea_runId (f a) = ea_runId a" and "\<And>a. ea_epoch (f a) = ea_epoch a"
  shows "maxEpoch run (sql_update P f rows) = maxEpoch run rows"
  using assms by (induction rows) (auto simp: maxEpoch_def sql_update_def)

lemma maxEpoch_append:
  "maxEpoch run (rows @ [a]) = (if ea_runId a = run then max (maxEpoch run rows) (ea_epoch a) else maxEpoch run rows)"
  by (induction rows) (auto simp: maxEpoch_def)

lemma active_None_iff:
  "getActiveAssignment run d = None \<longleftrightarrow> (\<forall>a \<in> set (executionAssignments d). \<not> is_active_of run a)"
  by (auto simp: getActiveAssignment_def find_None_iff)

lemma active_SomeD:
  "getActiveAssignment run d = Some a \<Longrightarrow> a \<in> set (executionAssignments d) \<and> is_active_of run a"
  by (auto simp: getActiveAssignment_def find_Some_iff)

lemma one_active_unique:
  "one_active rows \<Longrightarrow> a \<in> set rows \<Longrightarrow> b \<in> set rows \<Longrightarrow>
     is_active_of run a \<Longrightarrow> is_active_of run b \<Longrightarrow> a = b"
  by (auto simp: one_active_def is_active_of_def distinct_map inj_on_def)

lemma unique_epochs_update:
  assumes "\<And>a. ea_runId (f a) = ea_runId a" and "\<And>a. ea_epoch (f a) = ea_epoch a"
  shows "unique_epochs (sql_update P f rows) = unique_epochs rows"
proof -
  have "map (\<lambda>a. (ea_runId a, ea_epoch a)) (sql_update P f rows)
      = map (\<lambda>a. (ea_runId a, ea_epoch a)) rows"
    using assms by (simp add: sql_update_def)
  then show ?thesis by (simp only: unique_epochs_def)
qed

lemma subseq_Cons_rule: "subseq xs ys \<Longrightarrow> subseq xs (y # ys)"
  by (rule list_emb_Cons)

lemma subseq_distinct: "subseq xs ys \<Longrightarrow> distinct ys \<Longrightarrow> distinct xs"
  by (induction rule: list_emb.induct) (auto dest: list_emb_set)

lemma one_active_drop:
  assumes "one_active rows" and "\<And>a. ea_runId (f a) = ea_runId a"
    and "\<And>a. ea_state (f a) = Active \<Longrightarrow> ea_state a = Active"
  shows "one_active (sql_update P f rows)"
proof -
  have sub: "subseq (map ea_runId (filter (\<lambda>a. ea_state a = Active) (sql_update P f rows)))
      (map ea_runId (filter (\<lambda>a. ea_state a = Active) rows))"
  proof (induction rows)
    case (Cons a rows)
    with assms(2) assms(3)[of a] show ?case
      by (cases "P a"; cases "ea_state a = Active"; cases "ea_state (f a) = Active")
         (simp_all add: sql_update_def subseq_Cons_rule)
  qed (simp add: sql_update_def)
  show ?thesis
    using assms(1) subseq_distinct[OF sub] by (simp add: one_active_def)
qed

lemma list_all_sql_update:
  "list_all Q rows \<Longrightarrow> (\<And>a. Q a \<Longrightarrow> P a \<Longrightarrow> Q (f a)) \<Longrightarrow> list_all Q (sql_update P f rows)"
  by (auto simp: list_all_iff sql_update_def)

text \<open>An update that ends or annotates rows, and never revives one, keeps the invariant.\<close>

lemma wf_assignments_update:
  assumes "wf_assignments rows"
    and "\<And>a. ea_id (f a) = ea_id a" and "\<And>a. ea_runId (f a) = ea_runId a"
    and "\<And>a. ea_epoch (f a) = ea_epoch a"
    and "\<And>a. ea_state (f a) = Active \<Longrightarrow> ea_state a = Active"
    and "\<And>a. assignment_ok a \<Longrightarrow> P a \<Longrightarrow> assignment_ok (f a)"
  shows "wf_assignments (sql_update P f rows)"
  using assms
  by (simp add: wf_assignments_def assignments_t.wf_update unique_epochs_update one_active_drop
      list_all_sql_update)

lemma insertAssignment_InrD:
  assumes "insertAssignment a rows = Inr rows'"
  shows "rows' = rows @ [a]"
    and "\<And>b. b \<in> set rows \<Longrightarrow> ea_id b \<noteq> ea_id a"
    and "\<And>b. b \<in> set rows \<Longrightarrow> ea_runId b = ea_runId a \<Longrightarrow> ea_epoch b \<noteq> ea_epoch a"
    and "\<And>b. b \<in> set rows \<Longrightarrow> ea_state a = Active \<Longrightarrow> \<not> is_active_of (ea_runId a) b"
  using assms by (auto simp: insertAssignment_def list_ex_iff split: if_splits)

lemma wf_assignments_insert:
  assumes "wf_assignments rows" and "assignment_ok a" and "insertAssignment a rows = Inr rows'"
  shows "wf_assignments rows'"
proof -
  note ins = insertAssignment_InrD[OF assms(3)]
  have "assignments_t.wf_rows rows'"
  proof (unfold ins(1), rule assignments_t.wf_insert)
    show "assignments_t.wf_rows rows"
      using assms(1) by (simp add: wf_assignments_def)
    show "ea_id a \<notin> ea_id ` set rows"
      using ins(2) by fastforce
  qed
  moreover have "unique_epochs rows'"
    using assms(1) ins(1,3) by (fastforce simp: wf_assignments_def unique_epochs_def)
  moreover have "one_active rows'"
    using assms(1) ins(1,4) by (fastforce simp: wf_assignments_def one_active_def is_active_of_def)
  moreover have "list_all assignment_ok rows'"
    using assms(1,2) ins(1) by (simp add: wf_assignments_def)
  ultimately show ?thesis by (simp add: wf_assignments_def)
qed

section \<open>Minting\<close>

lemma minted_row_simps [simp]:
  "ea_id (minted_row now uuid run host reason d) = uuid"
  "ea_runId (minted_row now uuid run host reason d) = run"
  "ea_state (minted_row now uuid run host reason d) = Active"
  "ea_epoch (minted_row now uuid run host reason d) = maxEpoch run (executionAssignments d) + 1"
  "ea_executionHostId (minted_row now uuid run host reason d) = host"
  "ea_endedAt (minted_row now uuid run host reason d) = None"
  by (simp_all add: minted_row_def Let_def)

lemma assignment_ok_minted [simp]: "assignment_ok (minted_row now uuid run host reason d)"
  by (simp add: assignment_ok_def)

text \<open>
  The three statements together: the row that was active is superseded and points at the new one,
  every other row is as it was, the new row is last.
\<close>

definition retired :: "time \<Rightarrow> ident \<Rightarrow> assignment_row \<Rightarrow> assignment_row" where
  "retired now uuid a = (supersede_row now a)\<lparr>ea_supersededById := Some uuid\<rparr>"

lemma retired_simps [simp]:
  "ea_id (retired now uuid a) = ea_id a" "ea_runId (retired now uuid a) = ea_runId a"
  "ea_epoch (retired now uuid a) = ea_epoch a" "ea_state (retired now uuid a) = Superseded"
  "ea_endedAt (retired now uuid a) = Some now" "ea_supersededById (retired now uuid a) = Some uuid"
  by (simp_all add: retired_def supersede_row_def)

lemma find_active_key:
  assumes "wf_assignments rows" and "find (is_active_of run) rows = Some a" and "b \<in> set rows"
  shows "ea_id b = ea_id a \<longleftrightarrow> is_active_of run b"
proof -
  have a: "a \<in> set rows" "is_active_of run a"
    using assms(2) by (auto simp: find_Some_iff)
  show ?thesis
  proof
    assume "ea_id b = ea_id a"
    with a(1) assms(1,3) have "b = a"
      by (metis assignments_t.row_unique option.inject wf_assignments_def)
    with a(2) show "is_active_of run b" by simp
  next
    assume "is_active_of run b"
    with a assms(1,3) show "ea_id b = ea_id a"
      using one_active_unique[of rows a b run] by (simp add: wf_assignments_def)
  qed
qed

lemma sql_update_cong:
  assumes "\<And>r. r \<in> set rows \<Longrightarrow> (if P r then f r else r) = (if Q r then g r else r)"
  shows "sql_update P f rows = sql_update Q g rows"
  using assms by (simp add: sql_update_def)

lemma supersede_then_point:
  assumes "wf_assignments rows" and "find (is_active_of run) rows = Some a"
  shows "sql_update (\<lambda>b. ea_id b = ea_id a) (\<lambda>b. b\<lparr>ea_supersededById := Some uuid\<rparr>)
           (sql_update (\<lambda>b. ea_id b = ea_id a \<and> ea_state b = Active) (supersede_row now) rows)
         = sql_update (is_active_of run) (retired now uuid) rows"
  using find_active_key[OF assms]
  by (auto simp: sql_update_def retired_def supersede_row_def is_active_of_def intro!: map_cong)

lemma supersede_rows:
  assumes "wf_assignments rows" and "find (is_active_of run) rows = Some a"
  shows "sql_update (\<lambda>b. ea_id b = ea_id a \<and> ea_state b = Active) (supersede_row now) rows
         = sql_update (is_active_of run) (supersede_row now) rows"
  using find_active_key[OF assms] by (intro sql_update_cong) (auto simp: is_active_of_def)

lemma insert_next_epoch:
  assumes a: "ea_runId a = run" "ea_epoch a = maxEpoch run rows + 1"
    and fresh: "\<And>b. b \<in> set rows \<Longrightarrow> ea_id b \<noteq> ea_id a"
    and f: "\<And>b. ea_id (f b) = ea_id b" "\<And>b. ea_runId (f b) = ea_runId b"
      "\<And>b. ea_epoch (f b) = ea_epoch b" "\<And>b. ea_state (f b) \<noteq> Active"
  shows "insertAssignment a (sql_update (is_active_of run) f rows)
    = Inr (sql_update (is_active_of run) f rows @ [a])"
proof -
  have "ea_id b \<noteq> ea_id a \<and> (ea_runId b = run \<longrightarrow> ea_epoch b \<noteq> ea_epoch a) \<and> \<not> is_active_of run b"
    if "b \<in> set (sql_update (is_active_of run) f rows)" for b
  proof -
    from that obtain c where "c \<in> set rows" and b: "b = (if is_active_of run c then f c else c)"
      by (auto simp: sql_update_def)
    with fresh maxEpoch_ge[of c rows run] show ?thesis
      by (auto simp: a f is_active_of_def split: if_splits)
  qed
  then show ?thesis
    by (auto simp: insertAssignment_def list_ex_iff a)
qed

lemma mintAssignment_InrD:
  assumes "wf_assignments (executionAssignments d)"
    and "mintAssignment now uuid run host reason d = Inr (a, d')"
  shows "a = minted_row now uuid run host reason d"
    and "d' = d\<lparr>executionAssignments :=
                  sql_update (is_active_of run) (retired now uuid) (executionAssignments d) @ [a],
                runs := sql_update (\<lambda>r. r_id r = run) (claim_run_row uuid) (runs d)\<rparr>"
    and "\<exists>r \<in> set (runs d). r_id r = run"
    and "\<And>b. b \<in> set (executionAssignments d) \<Longrightarrow> ea_id b \<noteq> uuid"
proof -
  let ?rows = "executionAssignments d"
  let ?a = "minted_row now uuid run host reason d"
  let ?rows1 = "case getActiveAssignment run d of None \<Rightarrow> ?rows
    | Some a \<Rightarrow> sql_update (\<lambda>b. ea_id b = ea_id a \<and> ea_state b = Active) (supersede_row now) ?rows"
  obtain rows2 where ins: "insertAssignment ?a ?rows1 = Inr rows2" and a: "a = ?a"
    and d': "d' = d\<lparr>executionAssignments := (case getActiveAssignment run d of None \<Rightarrow> rows2
        | Some a \<Rightarrow> sql_update (\<lambda>b. ea_id b = ea_id a) (\<lambda>b. b\<lparr>ea_supersededById := Some uuid\<rparr>) rows2),
        runs := sql_update (\<lambda>r. r_id r = run) (claim_run_row uuid) (runs d)\<rparr>"
    and run: "sql_select (\<lambda>r. r_id r = run) (runs d) \<noteq> []"
    using assms(2) by (auto simp: mintAssignment_def Let_def rbind_Inr_iff split: if_splits)
  note i = insertAssignment_InrD[OF ins]
  show "a = ?a" by (rule a)
  show "\<exists>r \<in> set (runs d). r_id r = run"
    using run by (auto simp: sql_select_def filter_empty_conv)
  have "map ea_id ?rows1 = map ea_id ?rows"
    by (simp add: assignments_t.map_pk_update supersede_row_def split: option.splits)
  then have ids: "ea_id ` set ?rows1 = ea_id ` set ?rows"
    by (metis set_map)
  show fresh: "\<And>b. b \<in> set ?rows \<Longrightarrow> ea_id b \<noteq> uuid"
  proof -
    fix b
    assume "b \<in> set ?rows"
    then have "ea_id b \<in> ea_id ` set ?rows1" using ids by simp
    then obtain c where "c \<in> set ?rows1" and "ea_id b = ea_id c" by (elim imageE)
    with i(2)[of c] show "ea_id b \<noteq> uuid" by simp
  qed
  show "d' = d\<lparr>executionAssignments := sql_update (is_active_of run) (retired now uuid) ?rows @ [a],
                runs := sql_update (\<lambda>r. r_id r = run) (claim_run_row uuid) (runs d)\<rparr>"
  proof (cases "getActiveAssignment run d")
    case None
    then have "sql_update (is_active_of run) (retired now uuid) ?rows = ?rows"
      by (intro sql_update_none) (simp add: active_None_iff)
    with None d' i(1) a show ?thesis by simp
  next
    case (Some c)
    then have f: "find (is_active_of run) ?rows = Some c"
      by (simp add: getActiveAssignment_def)
    have "ea_id c \<noteq> uuid"
      using fresh active_SomeD[OF Some] by blast
    then have "sql_update (\<lambda>b. ea_id b = ea_id c) (\<lambda>b. b\<lparr>ea_supersededById := Some uuid\<rparr>) rows2
        = sql_update (is_active_of run) (retired now uuid) ?rows @ [a]"
      using supersede_then_point[OF assms(1) f, of uuid now] Some i(1) a
      by (simp add: sql_update_def)
    with Some d' show ?thesis by simp
  qed
qed

lemma mintAssignment_wf:
  assumes wf: "wf_assignments (executionAssignments d)"
    and mint: "mintAssignment now uuid run host reason d = Inr (a, d')"
  shows "wf_assignments (executionAssignments d')"
proof -
  note m = mintAssignment_InrD[OF assms]
  let ?rows = "sql_update (is_active_of run) (retired now uuid) (executionAssignments d)"
  have "wf_assignments ?rows"
    by (rule wf_assignments_update[OF wf]) (simp_all add: assignment_ok_def)
  moreover have "insertAssignment a ?rows = Inr (?rows @ [a])"
    using m(1,4) by (intro insert_next_epoch) simp_all
  ultimately show ?thesis
    using wf_assignments_insert[of ?rows a] m(1,2) by simp
qed

lemma mintAssignment_total:
  assumes wf: "wf_assignments (executionAssignments d)" and run: "r \<in> set (runs d)" "r_id r = run"
    and fresh: "\<And>b. b \<in> set (executionAssignments d) \<Longrightarrow> ea_id b \<noteq> uuid"
  shows "\<exists>a d'. mintAssignment now uuid run host reason d = Inr (a, d')"
proof -
  let ?rows = "executionAssignments d"
  have sel: "sql_select (\<lambda>r. r_id r = run) (runs d) \<noteq> []"
    using run by (auto simp: sql_select_def filter_empty_conv)
  have key: "insertAssignment (minted_row now uuid run host reason d)
      (sql_update (is_active_of run) (supersede_row now) ?rows)
    = Inr (sql_update (is_active_of run) (supersede_row now) ?rows
           @ [minted_row now uuid run host reason d])"
    using fresh by (intro insert_next_epoch) (simp_all add: supersede_row_def)
  show ?thesis
  proof (cases "getActiveAssignment run d")
    case None
    then have "sql_update (is_active_of run) (supersede_row now) ?rows = ?rows"
      by (intro sql_update_none) (simp add: active_None_iff)
    with key sel None show ?thesis by (simp add: mintAssignment_def Let_def)
  next
    case (Some c)
    then have "find (is_active_of run) ?rows = Some c"
      by (simp add: getActiveAssignment_def)
    with key sel Some show ?thesis
      by (simp add: mintAssignment_def supersede_rows[OF wf] Let_def)
  qed
qed

section \<open>The contract of a driver generation\<close>

text \<open>
  What the state transitions rely on: \<open>release\<close> leaves the run without an active generation,
  \<open>mint\<close> makes the generation it returns the active one, with the next epoch, and neither touches
  another run.  \<open>fence k run d\<close> says that the generations of the run below \<open>k\<close> are over: whatever is
  active now or later is not older than \<open>k\<close>.
\<close>

locale driver_generation =
  fixes active :: "'run \<Rightarrow> 'd \<Rightarrow> 'a option"
    and wf :: "'d \<Rightarrow> bool"
    and release :: "'m \<Rightarrow> 'run \<Rightarrow> 'd \<Rightarrow> 'd"
    and mint :: "'n \<Rightarrow> 'run \<Rightarrow> 'd \<Rightarrow> 'e + ('a \<times> 'd)"
    and epoch :: "'a \<Rightarrow> nat"
    and top :: "'run \<Rightarrow> 'd \<Rightarrow> nat"
  assumes release_wf: "wf d \<Longrightarrow> wf (release m run d)"
    and release_active: "active run (release m run d) = None"
    and release_other: "run' \<noteq> run \<Longrightarrow> active run' (release m run d) = active run' d"
    and release_top: "top run' (release m run d) = top run' d"
    and mint_wf: "wf d \<Longrightarrow> mint n run d = Inr (a, d') \<Longrightarrow> wf d'"
    and mint_active: "wf d \<Longrightarrow> mint n run d = Inr (a, d') \<Longrightarrow> active run d' = Some a"
    and mint_epoch: "wf d \<Longrightarrow> mint n run d = Inr (a, d') \<Longrightarrow> epoch a = Suc (top run d)"
    and mint_top: "wf d \<Longrightarrow> mint n run d = Inr (a, d') \<Longrightarrow> top run d' = epoch a"
    and mint_other: "wf d \<Longrightarrow> mint n run d = Inr (a, d') \<Longrightarrow> run' \<noteq> run \<Longrightarrow>
          active run' d' = active run' d \<and> top run' d' = top run' d"
    and active_top: "wf d \<Longrightarrow> active run d = Some a \<Longrightarrow> epoch a \<le> top run d"
begin

definition fence :: "nat \<Rightarrow> 'run \<Rightarrow> 'd \<Rightarrow> bool" where
  "fence k run d \<longleftrightarrow> k \<le> Suc (top run d) \<and> (\<forall>a. active run d = Some a \<longrightarrow> k \<le> epoch a)"

lemma fence_release: "fence k run' d \<Longrightarrow> fence k run' (release m run d)"
  using release_active release_other release_top
  by (cases "run' = run") (simp_all add: fence_def)

lemma fence_mint:
  assumes "wf d" and "fence k run' d" and "mint n run d = Inr (a, d')"
  shows "fence k run' d'"
  using assms mint_active[OF assms(1,3)] mint_epoch[OF assms(1,3)] mint_top[OF assms(1,3)]
    mint_other[OF assms(1,3), of run']
  by (cases "run' = run") (auto simp: fence_def)

lemma mint_fences:
  assumes "wf d" and "mint n run d = Inr (a, d')"
  shows "fence (epoch a) run d'"
  using mint_active[OF assms] mint_top[OF assms] by (simp add: fence_def)

lemma mint_newer:
  assumes "wf d" and "active run d = Some b" and "mint n run d = Inr (a, d')"
  shows "epoch b < epoch a"
  using active_top[OF assms(1,2)] mint_epoch[OF assms(1,3)] by simp

lemma fenced_not_active:
  "fence k run d \<Longrightarrow> epoch b < k \<Longrightarrow> active run d \<noteq> Some b"
  by (auto simp: fence_def)

end

lemma end_find:
  assumes "\<And>a. ea_runId (f a) = ea_runId a" and "\<And>a. ea_state (f a) \<noteq> Active"
  shows "find (is_active_of run') (sql_update (is_active_of run) f rows)
     = (if run' = run then None else find (is_active_of run') rows)"
proof (induction rows)
  case (Cons a rows)
  have "\<not> is_active_of run' (f a)" and "is_active_of run a \<Longrightarrow> is_active_of run' a \<Longrightarrow> run' = run"
    using assms by (auto simp: is_active_of_def)
  with Cons show ?case
    by (cases "is_active_of run a"; cases "is_active_of run' a") (auto simp: sql_update_def)
qed simp

lemma release_find:
  "find (is_active_of run') (sql_update (is_active_of run) (release_row now reason) rows)
     = (if run' = run then None else find (is_active_of run') rows)"
  by (rule end_find) (simp_all add: release_row_def)

lemma retire_find:
  "find (is_active_of run') (sql_update (is_active_of run) (retired now uuid) rows)
     = (if run' = run then None else find (is_active_of run') rows)"
  by (rule end_find) simp_all

lemma find_append: "find P (xs @ ys) = (case find P xs of None \<Rightarrow> find P ys | Some x \<Rightarrow> Some x)"
  by (induction xs) auto

lemma release_getActive [simp]:
  "getActiveAssignment run' (snd (releaseAssignmentForRun now run reason d)) =
     (if run' = run then None else getActiveAssignment run' d)"
  by (simp add: getActiveAssignment_def releaseAssignmentForRun_def release_find)

lemma release_wf_assignments:
  "wf_assignments (executionAssignments d) \<Longrightarrow>
     wf_assignments (executionAssignments (snd (releaseAssignmentForRun now run reason d)))"
  by (simp add: releaseAssignmentForRun_def)
     (rule wf_assignments_update, simp_all add: release_row_def assignment_ok_def)

lemma release_maxEpoch:
  "maxEpoch run' (executionAssignments (snd (releaseAssignmentForRun now run reason d)))
     = maxEpoch run' (executionAssignments d)"
  by (simp add: releaseAssignmentForRun_def maxEpoch_update release_row_def)

lemma mint_getActive:
  assumes "wf_assignments (executionAssignments d)"
    and "mintAssignment now uuid run host reason d = Inr (a, d')"
  shows "getActiveAssignment run' d' = (if run' = run then Some a else getActiveAssignment run' d)"
  using mintAssignment_InrD(1,2)[OF assms]
  by (auto simp: getActiveAssignment_def find_append retire_find is_active_of_def split: option.splits)

lemma mint_maxEpoch:
  assumes "wf_assignments (executionAssignments d)"
    and "mintAssignment now uuid run host reason d = Inr (a, d')"
  shows "maxEpoch run' (executionAssignments d') =
    (if run' = run then Suc (maxEpoch run (executionAssignments d)) else maxEpoch run' (executionAssignments d))"
  using mintAssignment_InrD(1,2)[OF assms] by (simp add: maxEpoch_append maxEpoch_update)

interpretation gen: driver_generation
  getActiveAssignment
  "\<lambda>d. wf_assignments (executionAssignments d)"
  "\<lambda>(now, reason) run d. snd (releaseAssignmentForRun now run reason d)"
  "\<lambda>(now, uuid, host, reason) run d. mintAssignment now uuid run host reason d"
  ea_epoch
  "\<lambda>run d. maxEpoch run (executionAssignments d)"
proof (unfold_locales, goal_cases)
  case (5 d n run a d')
  then show ?case by (cases n) (auto intro: mintAssignment_wf)
next
  case (6 d n run a d')
  then show ?case by (cases n) (auto simp: mint_getActive)
next
  case (7 d n run a d')
  then show ?case
    using mintAssignment_InrD(1) by (cases n) fastforce
next
  case (8 d n run a d')
  then show ?case
    using mintAssignment_InrD(1) by (cases n) (fastforce simp: mint_maxEpoch)
next
  case (9 d n run a d' run')
  then show ?case by (cases n) (auto simp: mint_getActive mint_maxEpoch)
next
  case (10 d run a)
  then show ?case
    using active_SomeD maxEpoch_ge by (fastforce simp: is_active_of_def)
qed (auto simp: release_wf_assignments release_maxEpoch split: prod.splits)

end
