(* ===== verification/NodeLedger.thy ===== *)
theory NodeLedger
  imports Outbox
begin

text \<open>
  The node-attempt ledger: \<^verbatim>\<open>web/lib/flows/graph/ledger.ts\<close> with \<^verbatim>\<open>attempt-decisions.ts\<close>,
  \<^verbatim>\<open>rework-baseline.ts\<close> and \<^verbatim>\<open>session-policy.ts\<close>, and the two staling writes it calls
  (\<^verbatim>\<open>artifact-store.ts\<close>, \<^verbatim>\<open>run-results/ledger.ts\<close>).  The ledger is append-only per
  (run, node): an append takes the next attempt number, a rework jump stales only the newest executed
  attempt of each downstream node, and the rework budget is counted from the baseline an attempt
  carries.
\<close>

section \<open>Provenance decisions and the rework budget\<close>

definition REVIEW_REWORK_CLAIM_DECISION :: string where
  "REVIEW_REWORK_CLAIM_DECISION = ''review_rework_claim''"

definition OPERATOR_INTERRUPT_DECISION :: string where
  "OPERATOR_INTERRUPT_DECISION = ''operator_interrupt''"

definition CRASH_RECOVER_DECISION :: string where
  "CRASH_RECOVER_DECISION = ''crash_recover''"

definition TURN_LOST_DECISION :: string where
  "TURN_LOST_DECISION = ''turn_lost''"

definition NON_CORRECTION_DECISIONS :: "string list" where
  "NON_CORRECTION_DECISIONS = [OPERATOR_INTERRUPT_DECISION, CRASH_RECOVER_DECISION, TURN_LOST_DECISION]"

definition effectiveAttempts :: "nat \<Rightarrow> nat option \<Rightarrow> nat \<Rightarrow> int" where
  "effectiveAttempts attemptNumber baseline nonCorrections =
     int attemptNumber - int (case baseline of None \<Rightarrow> 0 | Some b \<Rightarrow> b) - int nonCorrections"

definition is_non_correction :: "ident \<Rightarrow> node_attempt_row \<Rightarrow> bool" where
  "is_non_correction node a \<longleftrightarrow>
     na_nodeId a = node \<and> (case na_decision a of None \<Rightarrow> False | Some s \<Rightarrow> s \<in> set NON_CORRECTION_DECISIONS)"

definition nonCorrectionAttemptCount :: "node_attempt_row list \<Rightarrow> ident \<Rightarrow> nat" where
  "nonCorrectionAttemptCount attempts node = length (filter (is_non_correction node) attempts)"

datatype policy_source = ReworkTransition | NodePolicy | FlowDefaults | EngineDefault

definition resolveSessionPolicy ::
    "session_policy option \<Rightarrow> session_policy option \<Rightarrow> session_policy option
       \<Rightarrow> session_policy \<times> policy_source" where
  "resolveSessionPolicy reworkPolicy nodePolicy flowDefault =
     (case reworkPolicy of Some p \<Rightarrow> (p, ReworkTransition)
      | None \<Rightarrow> (case nodePolicy of Some p \<Rightarrow> (p, NodePolicy)
        | None \<Rightarrow> (case flowDefault of Some p \<Rightarrow> (p, FlowDefaults)
          | None \<Rightarrow> (ResumeSession, EngineDefault))))"

section \<open>Appending\<close>

definition STDOUT_HARD_CAP_BYTES :: nat where
  "STDOUT_HARD_CAP_BYTES = 1024 * 1024"

definition truncate_stdout :: "string option \<Rightarrow> string option" where
  "truncate_stdout s =
     (case s of None \<Rightarrow> None
      | Some t \<Rightarrow> if length t \<le> STDOUT_HARD_CAP_BYTES then Some t else Some (take STDOUT_HARD_CAP_BYTES t))"

definition of_node :: "ident \<Rightarrow> ident \<Rightarrow> node_attempt_row \<Rightarrow> bool" where
  "of_node run node a \<longleftrightarrow> na_runId a = run \<and> na_nodeId a = node"

definition nextAttemptFor :: "ident \<Rightarrow> ident \<Rightarrow> db \<Rightarrow> nat" where
  "nextAttemptFor run node d =
     fold (\<lambda>a m. if na_attempt a > m then na_attempt a else m)
       (sql_select (of_node run node) (nodeAttempts d)) 0 + 1"

definition latestAttemptForNode :: "ident \<Rightarrow> ident \<Rightarrow> db \<Rightarrow> node_attempt_row option" where
  "latestAttemptForNode run node d =
     sql_latest na_attempt (sql_select (of_node run node) (nodeAttempts d))"

text \<open>
  The insert, refused (\<open>None\<close>: Postgres raises) by the primary key and by
  \<^verbatim>\<open>UNIQUE (run_id, node_id, attempt)\<close>.
\<close>

definition insertNodeAttempt :: "node_attempt_row \<Rightarrow> db \<Rightarrow> db option" where
  "insertNodeAttempt a d =
     (if list_ex (\<lambda>b. na_id b = na_id a
                     \<or> (of_node (na_runId a) (na_nodeId a) b \<and> na_attempt b = na_attempt a)) (nodeAttempts d)
      then None else Some (d\<lparr>nodeAttempts := nodeAttempts d @ [a]\<rparr>))"

text \<open>A row with the column defaults.\<close>

definition blank_attempt :: "time \<Rightarrow> ident \<Rightarrow> ident \<Rightarrow> ident \<Rightarrow> node_type \<Rightarrow> nat \<Rightarrow> node_status \<Rightarrow> node_attempt_row" where
  "blank_attempt now uuid run node type n status =
     \<lparr>na_id = uuid, na_runId = run, na_nodeId = node, na_nodeType = type, na_attempt = n,
      na_status = status, na_decision = None, na_workspacePolicy = None, na_reworkFromNode = None,
      na_acpSessionId = None, na_checkpointRef = None, na_claimHeadSha = None, na_sessionPolicy = None,
      na_sessionFallback = False, na_autoRetry = False, na_stdout = None, na_reworkBaseline = None,
      na_vars = JObj [], na_exitCode = None, na_errorCode = None, na_ownerUserId = None,
      na_baseRef = None, na_returnedCommits = None, na_returnedDiff = None,
      na_enforcementSnapshot = None, na_materializationPlan = None, na_outputContract = None,
      na_executionAssignmentId = None, na_startedAt = now, na_endedAt = None\<rparr>"

record append_args =
  ap_attempt :: "nat option"
  ap_reworkFromNode :: "ident option"
  ap_autoRetry :: bool
  ap_sessionPolicy :: "session_policy option"
  ap_executionAssignmentId :: "ident option"

definition plain_append :: append_args where
  "plain_append = \<lparr>ap_attempt = None, ap_reworkFromNode = None, ap_autoRetry = False,
     ap_sessionPolicy = None, ap_executionAssignmentId = None\<rparr>"

definition appendNodeAttempt ::
    "time \<Rightarrow> ident \<Rightarrow> ident \<Rightarrow> ident \<Rightarrow> node_type \<Rightarrow> append_args \<Rightarrow> db \<Rightarrow> ((ident \<times> nat) \<times> db) option" where
  "appendNodeAttempt now uuid run node type args d =
     (let attempt = (case ap_attempt args of None \<Rightarrow> nextAttemptFor run node d | Some n \<Rightarrow> n);
          baseline = Option.bind (latestAttemptForNode run node d) na_reworkBaseline
      in map_option (Pair (uuid, attempt))
           (insertNodeAttempt
              ((blank_attempt now uuid run node type attempt NaPending)
                 \<lparr>na_reworkFromNode := ap_reworkFromNode args, na_autoRetry := ap_autoRetry args,
                  na_sessionPolicy := ap_sessionPolicy args, na_reworkBaseline := baseline,
                  na_executionAssignmentId := ap_executionAssignmentId args\<rparr>) d))"

section \<open>Transitions of one attempt\<close>

definition update_attempt :: "ident \<Rightarrow> (node_attempt_row \<Rightarrow> node_attempt_row) \<Rightarrow> db \<Rightarrow> db" where
  "update_attempt i f d = d\<lparr>nodeAttempts := sql_update (\<lambda>a. na_id a = i) f (nodeAttempts d)\<rparr>"

definition markNodeRunning :: "ident \<Rightarrow> db \<Rightarrow> db" where
  "markNodeRunning i d = update_attempt i (\<lambda>a. a\<lparr>na_status := NaRunning\<rparr>) d"

definition markCoordinatorResumedRunning :: "ident \<Rightarrow> ident \<Rightarrow> db \<Rightarrow> maister_error + db" where
  "markCoordinatorResumedRunning i assignment d =
     (let P = (\<lambda>a. na_id a = i \<and> na_status a = NaNeedsInput);
          f = (\<lambda>a. a\<lparr>na_status := NaRunning, na_executionAssignmentId := Some assignment\<rparr>)
      in if sql_returning P f (nodeAttempts d) = []
         then Inl (MaisterError CONFLICT ''coordinator_resume_attempt_changed'')
         else Inr (d\<lparr>nodeAttempts := sql_update P f (nodeAttempts d)\<rparr>))"

record succeed_args =
  sd_stdout :: "string option"
  sd_vars :: "json option"
  sd_exitCode :: "int option"
  sd_decision :: "string option"
  sd_workspacePolicy :: "workspace_policy option"
  sd_acpSessionId :: "string option"
  sd_outputContract :: "json option"

definition markNodeSucceeded :: "time \<Rightarrow> ident \<Rightarrow> succeed_args \<Rightarrow> db \<Rightarrow> db" where
  "markNodeSucceeded now i args d =
     update_attempt i (\<lambda>a.
       a\<lparr>na_status := NaSucceeded, na_stdout := truncate_stdout (sd_stdout args),
         na_vars := (case sd_vars args of None \<Rightarrow> JObj [] | Some v \<Rightarrow> v),
         na_exitCode := sd_exitCode args, na_decision := sd_decision args,
         na_workspacePolicy := sd_workspacePolicy args, na_acpSessionId := sd_acpSessionId args,
         na_outputContract := (case sd_outputContract args of None \<Rightarrow> na_outputContract a | Some c \<Rightarrow> Some c),
         na_endedAt := Some now\<rparr>) d"

definition markNodeFailed ::
    "time \<Rightarrow> ident \<Rightarrow> maister_error_code \<Rightarrow> string option \<Rightarrow> int option \<Rightarrow> json option \<Rightarrow> db \<Rightarrow> db" where
  "markNodeFailed now i code stdout exitCode contract d =
     update_attempt i (\<lambda>a.
       a\<lparr>na_status := NaFailed, na_stdout := truncate_stdout stdout, na_exitCode := exitCode,
         na_errorCode := Some code,
         na_outputContract := (case contract of None \<Rightarrow> na_outputContract a | Some c \<Rightarrow> Some c),
         na_endedAt := Some now\<rparr>) d"

definition setCheckpointRef :: "ident \<Rightarrow> string \<Rightarrow> db \<Rightarrow> db" where
  "setCheckpointRef i ref d = update_attempt i (\<lambda>a. a\<lparr>na_checkpointRef := Some ref\<rparr>) d"

definition resetReworkBaseline :: "ident \<Rightarrow> ident \<Rightarrow> db \<Rightarrow> nat option \<times> db" where
  "resetReworkBaseline run node d =
     (case latestAttemptForNode run node d of
        None \<Rightarrow> (None, d)
      | Some latest \<Rightarrow>
          (Some (na_attempt latest),
           update_attempt (na_id latest) (\<lambda>a. a\<lparr>na_reworkBaseline := Some (na_attempt latest)\<rparr>) d))"

definition setSessionFallback :: "ident \<Rightarrow> db \<Rightarrow> db" where
  "setSessionFallback i d = update_attempt i (\<lambda>a. a\<lparr>na_sessionFallback := True\<rparr>) d"

definition setEnforcementSnapshot :: "ident \<Rightarrow> json \<Rightarrow> db \<Rightarrow> db" where
  "setEnforcementSnapshot i entries d =
     d\<lparr>nodeAttempts := sql_update (\<lambda>a. na_id a = i \<and> na_enforcementSnapshot a = None)
         (\<lambda>a. a\<lparr>na_enforcementSnapshot := Some entries\<rparr>) (nodeAttempts d)\<rparr>"

definition setMaterializationPlan :: "ident \<Rightarrow> json \<Rightarrow> db \<Rightarrow> db" where
  "setMaterializationPlan i plan d =
     d\<lparr>nodeAttempts := sql_update (\<lambda>a. na_id a = i \<and> na_materializationPlan a = None)
         (\<lambda>a. a\<lparr>na_materializationPlan := Some plan\<rparr>) (nodeAttempts d)\<rparr>"

text \<open>\<^verbatim>\<open>jsonb_set(plan, '{cleanup}', c)\<close> on an object: the key is replaced or added.\<close>

definition jsonb_set_key :: "string \<Rightarrow> json \<Rightarrow> json \<Rightarrow> json" where
  "jsonb_set_key k v j = (case j of JObj kvs \<Rightarrow> JObj (AList.update k v kvs) | _ \<Rightarrow> j)"

definition updateMaterializationCleanup :: "ident \<Rightarrow> json \<Rightarrow> db \<Rightarrow> db" where
  "updateMaterializationCleanup i cleanup d =
     d\<lparr>nodeAttempts := sql_update (\<lambda>a. na_id a = i \<and> na_materializationPlan a \<noteq> None)
         (\<lambda>a. a\<lparr>na_materializationPlan :=
                 map_option (jsonb_set_key ''cleanup'' cleanup) (na_materializationPlan a)\<rparr>) (nodeAttempts d)\<rparr>"

definition markNodeNeedsInput :: "ident \<Rightarrow> bool \<Rightarrow> db \<Rightarrow> bool \<times> db" where
  "markNodeNeedsInput i requireRunning d =
     (let P = (\<lambda>a. na_id a = i \<and> (requireRunning \<longrightarrow> na_status a = NaRunning));
          f = (\<lambda>a. a\<lparr>na_status := NaNeedsInput\<rparr>)
      in (\<not> requireRunning \<or> sql_returning P f (nodeAttempts d) \<noteq> [],
          d\<lparr>nodeAttempts := sql_update P f (nodeAttempts d)\<rparr>))"

definition markNodeReworked :: "time \<Rightarrow> ident \<Rightarrow> string \<Rightarrow> workspace_policy option \<Rightarrow> db \<Rightarrow> db" where
  "markNodeReworked now i decision policy d =
     update_attempt i (\<lambda>a.
       a\<lparr>na_status := NaReworked, na_decision := Some decision, na_workspacePolicy := policy,
         na_endedAt := Some now\<rparr>) d"

section \<open>Manual takeover\<close>

definition claimTakeover ::
    "time \<Rightarrow> ident \<Rightarrow> ident \<Rightarrow> ident \<Rightarrow> ident \<Rightarrow> node_type option \<Rightarrow> string option \<Rightarrow> string option \<Rightarrow> db
       \<Rightarrow> ((ident \<times> nat) \<times> db) option" where
  "claimTakeover now uuid run node user type decision claimHeadSha d =
     (let attempt = nextAttemptFor run node d
      in map_option (Pair (uuid, attempt))
           (insertNodeAttempt
              ((blank_attempt now uuid run node (case type of None \<Rightarrow> Human | Some t \<Rightarrow> t) attempt NaNeedsInput)
                 \<lparr>na_ownerUserId := Some user, na_claimHeadSha := claimHeadSha, na_decision := decision\<rparr>) d))"

definition takeoverRows :: "ident \<Rightarrow> db \<Rightarrow> node_attempt_row list" where
  "takeoverRows run d =
     sort_key na_attempt (sql_select (\<lambda>a. na_runId a = run \<and> na_ownerUserId a \<noteq> None) (nodeAttempts d))"

definition getActiveTakeover :: "ident \<Rightarrow> db \<Rightarrow> node_attempt_row option" where
  "getActiveTakeover run d =
     (let active = filter (\<lambda>a. na_endedAt a = None) (takeoverRows run d)
      in if active = [] then None else Some (last active))"

definition recordTakeoverReturn ::
    "time \<Rightarrow> ident \<Rightarrow> ident \<Rightarrow> string \<Rightarrow> string \<Rightarrow> string \<Rightarrow> db \<Rightarrow> maister_error + db" where
  "recordTakeoverReturn now run node baseRef commits diff d =
     (case getActiveTakeover run d of
        None \<Rightarrow> Inl (MaisterError PRECONDITION [])
      | Some active \<Rightarrow>
          if na_nodeId active \<noteq> node then Inl (MaisterError PRECONDITION [])
          else Inr (update_attempt (na_id active) (\<lambda>a.
                 a\<lparr>na_baseRef := Some baseRef, na_returnedCommits := truncate_stdout (Some commits),
                   na_returnedDiff := truncate_stdout (Some diff), na_endedAt := Some now\<rparr>) d))"

definition endActiveTakeover :: "time \<Rightarrow> ident \<Rightarrow> db \<Rightarrow> db" where
  "endActiveTakeover now run d =
     (case getActiveTakeover run d of
        None \<Rightarrow> d
      | Some active \<Rightarrow> update_attempt (na_id active) (\<lambda>a. a\<lparr>na_endedAt := Some now\<rparr>) d)"

definition hasPendingTakeoverResume :: "ident \<Rightarrow> ident \<Rightarrow> db \<Rightarrow> bool" where
  "hasPendingTakeoverResume run reentry d =
     (let returned = filter (\<lambda>a. na_returnedDiff a \<noteq> None \<and> na_endedAt a \<noteq> None) (takeoverRows run d)
      in returned \<noteq> []
         \<and> \<not> list_ex (\<lambda>a. of_node run reentry a \<and> na_ownerUserId a = None
                         \<and> na_startedAt a > na_startedAt (last returned)) (nodeAttempts d))"

section \<open>Reading and staling\<close>

definition getNodeAttemptsForRun :: "ident \<Rightarrow> db \<Rightarrow> node_attempt_row list" where
  "getNodeAttemptsForRun run d =
     sort_key na_startedAt (sort_key na_attempt (sql_select (\<lambda>a. na_runId a = run) (nodeAttempts d)))"

definition latestAttemptByNode :: "node_attempt_row list \<Rightarrow> (ident \<times> node_attempt_row) list" where
  "latestAttemptByNode rows = newest_by na_nodeId (\<lambda>r cur. na_attempt r > na_attempt cur) rows"

definition latestExecutedAttemptByNode :: "node_attempt_row list \<Rightarrow> (ident \<times> node_attempt_row) list" where
  "latestExecutedAttemptByNode rows = latestAttemptByNode (filter (\<lambda>a. na_ownerUserId a = None) rows)"

definition markArtifactsStale :: "ident \<Rightarrow> ident list \<Rightarrow> db \<Rightarrow> db" where
  "markArtifactsStale run nodes d =
     (if nodes = [] then d
      else d\<lparr>artifactInstances :=
               sql_update (\<lambda>x. ai_runId x = run \<and> ai_validity x = AvCurrent
                             \<and> (case ai_nodeId x of None \<Rightarrow> False | Some n \<Rightarrow> n \<in> set nodes))
                 (\<lambda>x. x\<lparr>ai_validity := AvStale\<rparr>) (artifactInstances d)\<rparr>)"

definition stale_result :: "ident \<Rightarrow> ident list \<Rightarrow> run_result_row \<Rightarrow> bool" where
  "stale_result run nodes x \<longleftrightarrow>
     rr_runId x = run \<and> rr_validity x = RvValid \<and> rr_producerKind x = FlowNode \<and> rr_producerRef x \<in> set nodes"

definition markRunResultStale :: "ident \<Rightarrow> ident list \<Rightarrow> db \<Rightarrow> bool \<times> db" where
  "markRunResultStale run nodes d =
     (if nodes = [] then (False, d)
      else (sql_returning (stale_result run nodes) (\<lambda>x. x\<lparr>rr_validity := RvStale\<rparr>) (runResults d) \<noteq> [],
            d\<lparr>runResults := sql_update (stale_result run nodes) (\<lambda>x. x\<lparr>rr_validity := RvStale\<rparr>) (runResults d)\<rparr>))"

definition passed_gate :: "ident \<Rightarrow> gate_result_row \<Rightarrow> bool" where
  "passed_gate i g \<longleftrightarrow> gr_nodeAttemptId g = i \<and> gr_status g = GsPassed"

definition stale_gate :: "gate_result_row \<Rightarrow> gate_result_row" where
  "stale_gate g = g\<lparr>gr_status := GsStale\<rparr>"

definition stale_attempt_row :: "node_attempt_row \<Rightarrow> node_attempt_row" where
  "stale_attempt_row a = a\<lparr>na_status := NaStale\<rparr>"

text \<open>One turn of the loop of \<^verbatim>\<open>markDownstreamStale\<close>, on an entry of the latest-attempt map.\<close>

definition stale_entry ::
    "ident list \<Rightarrow> ident \<times> node_attempt_row \<Rightarrow> (nat \<times> nat) \<times> db \<Rightarrow> (nat \<times> nat) \<times> db" where
  "stale_entry targets e s =
     (let (nodeId, attempt) = e; ((staledNodes, staledGates), d) = s
      in if nodeId \<notin> set targets then s
         else let succeeded = na_status attempt = NaSucceeded;
                  d1 = (if succeeded then update_attempt (na_id attempt) stale_attempt_row d else d);
                  n = length (sql_returning (passed_gate (na_id attempt)) stale_gate (gateResults d1))
              in ((if succeeded then staledNodes + 1 else staledNodes, staledGates + n),
                  d1\<lparr>gateResults := sql_update (passed_gate (na_id attempt)) stale_gate (gateResults d1)\<rparr>))"

definition markDownstreamStale :: "ident \<Rightarrow> ident list \<Rightarrow> db \<Rightarrow> (nat \<times> nat \<times> bool) \<times> db" where
  "markDownstreamStale run downstream d =
     (let targets = set_of_list downstream;
          latest = latestExecutedAttemptByNode (getNodeAttemptsForRun run d);
          ((nodes, gates), d1) = fold (stale_entry targets) latest ((0, 0), d);
          d2 = markArtifactsStale run downstream d1;
          (result, d3) = markRunResultStale run downstream d2
      in ((nodes, gates, result), d3))"

end
