(* ===== verification/LifecycleClaim.thy ===== *)
theory LifecycleClaim
  imports Database
begin

text \<open>
  The workspace's lifecycle slot: \<^verbatim>\<open>web/lib/runs/lifecycle-claim.ts\<close>, the reading of the
  claim timeout and the removal age in \<^verbatim>\<open>web/lib/instance-config.ts\<close>, and the three fences that
  key on the slot: promotion's (\<^verbatim>\<open>runs/promote.ts\<close>), the branch sync's
  (\<^verbatim>\<open>runs/sync-target.ts\<close>) and the lifecycle service's
  (\<^verbatim>\<open>workbench-lifecycle/service.ts\<close>).  Two kinds of claim own a
  worktree, a lifecycle operation inside its lease and a promotion inside its window; the lemmas say when a
  slot is held, when it may be taken and that a release satisfies the column CHECK.
\<close>

section \<open>Settings\<close>

text \<open>
  \<^verbatim>\<open>if (!raw) return d; parsed = Number.parseInt(raw, 10); if (!Number.isFinite(parsed) || parsed < 1)
  return d; return parsed;\<close>: the reading of every positive integer setting.  A finite result of
  \<^verbatim>\<open>parseInt\<close> is an integer.
\<close>

definition positive_setting :: "string option \<Rightarrow> int \<Rightarrow> int" where
  "positive_setting raw d =
     (case raw of
        None \<Rightarrow> d
      | Some s \<Rightarrow>
          if s = [] then d
          else (case js_parseInt10 s of Fin q \<Rightarrow> if q < 1 then d else \<lfloor>q\<rfloor> | _ \<Rightarrow> d))"

definition DEFAULT_PROMOTION_CLAIM_TIMEOUT_SECONDS :: int where
  "DEFAULT_PROMOTION_CLAIM_TIMEOUT_SECONDS = 300"

definition promotionClaimTimeoutSeconds :: "string option \<Rightarrow> int" where
  "promotionClaimTimeoutSeconds raw = positive_setting raw DEFAULT_PROMOTION_CLAIM_TIMEOUT_SECONDS"

definition DEFAULT_GC_AGE_DAYS :: int where
  "DEFAULT_GC_AGE_DAYS = 14"

definition gcAgeDays :: "string option \<Rightarrow> int" where
  "gcAgeDays raw = positive_setting raw DEFAULT_GC_AGE_DAYS"

lemma positive_setting_pos: "1 \<le> d \<Longrightarrow> 1 \<le> positive_setting raw d"
  by (auto simp: positive_setting_def le_floor_iff split: option.splits js_number.splits)

lemma settings_pos: "1 \<le> promotionClaimTimeoutSeconds raw" "1 \<le> gcAgeDays raw"
  by (simp_all add: promotionClaimTimeoutSeconds_def gcAgeDays_def positive_setting_pos
      DEFAULT_PROMOTION_CLAIM_TIMEOUT_SECONDS_def DEFAULT_GC_AGE_DAYS_def)

section \<open>Claims\<close>

text \<open>\<open>now\<close> is \<^verbatim>\<open>Date.now()\<close>, \<open>raw\<close> the value of \<^verbatim>\<open>MAISTER_PROMOTION_CLAIM_TIMEOUT_SECONDS\<close>.\<close>

definition lifecycleClaimIsStale :: "string option \<Rightarrow> time \<Rightarrow> workspace_row \<Rightarrow> bool" where
  "lifecycleClaimIsStale raw now w \<longleftrightarrow>
     (case w_lifecycleOperationClaimedAt w of
        None \<Rightarrow> True
      | Some t \<Rightarrow> t < now - promotionClaimTimeoutSeconds raw * 1000)"

definition RELEASED_LIFECYCLE_CLAIM :: "workspace_row \<Rightarrow> workspace_row" where
  "RELEASED_LIFECYCLE_CLAIM w =
     w\<lparr>w_lifecycleOperationState := LcNone, w_lifecycleOperationClaimedAt := None,
       w_lifecycleOperationLeaseExpiresAt := None, w_lifecycleOperationAttemptId := None,
       w_lifecycleOperationName := None, w_lifecycleOperationExpectedRunStatus := None\<rparr>"

definition canReclaimLifecycle :: "time \<Rightarrow> workspace_row \<Rightarrow> bool" where
  "canReclaimLifecycle now w \<longleftrightarrow>
     (case w_lifecycleOperationState w of
        LcNone \<Rightarrow> True
      | LcFailed \<Rightarrow> True
      | LcClaiming \<Rightarrow>
          (case w_lifecycleOperationLeaseExpiresAt w of None \<Rightarrow> True | Some t \<Rightarrow> t \<le> now))"

definition promotionClaimIsLive :: "string option \<Rightarrow> time \<Rightarrow> workspace_row \<Rightarrow> bool" where
  "promotionClaimIsLive raw now w \<longleftrightarrow>
     w_promotionState w = ''claiming''
     \<and> (case w_promotionClaimedAt w of
          None \<Rightarrow> False
        | Some t \<Rightarrow> t \<ge> now - promotionClaimTimeoutSeconds raw * 1000)"

definition workbenchClaimHolder ::
    "string option \<Rightarrow> time \<Rightarrow> workspace_row \<Rightarrow> (string \<times> time option) option" where
  "workbenchClaimHolder raw now w =
     (if w_lifecycleOperationState w = LcClaiming \<and> \<not> canReclaimLifecycle now w
      then Some ((case w_lifecycleOperationName w of None \<Rightarrow> ''unknown'' | Some n \<Rightarrow> n),
                 w_lifecycleOperationClaimedAt w)
      else if promotionClaimIsLive raw now w then Some (''promotion'', w_promotionClaimedAt w)
      else None)"

definition workbenchClaimHoldsTree :: "string option \<Rightarrow> time \<Rightarrow> workspace_row \<Rightarrow> bool" where
  "workbenchClaimHoldsTree raw now w \<longleftrightarrow> workbenchClaimHolder raw now w \<noteq> None"

section \<open>The fences\<close>

definition RECLAIMABLE_STATES :: "string list" where
  "RECLAIMABLE_STATES = [''none'', ''failed'', ''reopened'']"

definition canReclaim :: "string option \<Rightarrow> time \<Rightarrow> workspace_row \<Rightarrow> bool" where
  "canReclaim raw now w \<longleftrightarrow>
     (if w_promotionState w \<in> set RECLAIMABLE_STATES then True
      else if w_promotionState w = ''claiming'' then \<not> promotionClaimIsLive raw now w
      else False)"

definition assertNoLiveWorkbenchClaim ::
    "string option \<Rightarrow> time \<Rightarrow> workspace_row \<Rightarrow> maister_error + unit" where
  "assertNoLiveWorkbenchClaim raw now w =
     (if w_lifecycleOperationName w = Some ''sync'' \<and> w_lifecycleOperationState w = LcClaiming
         \<and> \<not> lifecycleClaimIsStale raw now w
      then Inl (MaisterError CONFLICT [])
      else if w_lifecycleOperationName w \<noteq> Some ''sync'' \<and> w_lifecycleOperationState w = LcClaiming
         \<and> \<not> canReclaimLifecycle now w
      then Inl (MaisterError CONFLICT [])
      else Inr ())"

text \<open>The two refusals of the sync claim transaction.\<close>

definition sync_fence :: "string option \<Rightarrow> time \<Rightarrow> workspace_row \<Rightarrow> maister_error + unit" where
  "sync_fence raw now w =
     (if w_promotionState w = ''claiming'' \<or> w_promotionState w = ''done''
      then Inl (MaisterError CONFLICT [])
      else if w_lifecycleOperationState w = LcClaiming \<and> \<not> lifecycleClaimIsStale raw now w
      then Inl (MaisterError CONFLICT [])
      else Inr ())"

text \<open>The two refusals of the lifecycle service's claim transaction on the workspace row.\<close>

definition lifecycle_fence :: "string option \<Rightarrow> time \<Rightarrow> workspace_row \<Rightarrow> maister_error + unit" where
  "lifecycle_fence raw now w =
     (if \<not> canReclaimLifecycle now w then Inl (MaisterError CONFLICT ''busy'')
      else if promotionClaimIsLive raw now w then Inl (MaisterError CONFLICT ''busy'')
      else Inr ())"

section \<open>Taking, renewing and keeping a claim\<close>

definition lease_of :: "string option \<Rightarrow> time \<Rightarrow> time" where
  "lease_of raw now = now + promotionClaimTimeoutSeconds raw * 1000"

text \<open>The columns the lifecycle service writes when its fence let it through.\<close>

definition claim_lifecycle_row ::
    "string option \<Rightarrow> time \<Rightarrow> ident \<Rightarrow> string \<Rightarrow> string \<Rightarrow> workspace_row \<Rightarrow> workspace_row" where
  "claim_lifecycle_row raw now attempt operation expected w =
     w\<lparr>w_lifecycleOperationState := LcClaiming, w_lifecycleOperationClaimedAt := Some now,
       w_lifecycleOperationLeaseExpiresAt := Some (lease_of raw now),
       w_lifecycleOperationAttemptId := Some attempt, w_lifecycleOperationName := Some operation,
       w_lifecycleOperationExpectedRunStatus := Some expected\<rparr>"

definition renewable :: "time \<Rightarrow> ident \<Rightarrow> ident \<Rightarrow> workspace_row \<Rightarrow> bool" where
  "renewable now ws attempt w \<longleftrightarrow>
     w_id w = ws \<and> w_lifecycleOperationState w = LcClaiming
     \<and> w_lifecycleOperationAttemptId w = Some attempt
     \<and> (case w_lifecycleOperationLeaseExpiresAt w of None \<Rightarrow> False | Some l \<Rightarrow> l > now)"

definition renew_row :: "string option \<Rightarrow> time \<Rightarrow> workspace_row \<Rightarrow> workspace_row" where
  "renew_row raw now w = w\<lparr>w_lifecycleOperationLeaseExpiresAt := Some (lease_of raw now)\<rparr>"

definition renewLifecycleOperationLease ::
    "string option \<Rightarrow> time \<Rightarrow> ident \<Rightarrow> ident \<Rightarrow> db \<Rightarrow> maister_error + ((ident \<times> time) \<times> db)" where
  "renewLifecycleOperationLease raw now ws attempt d =
     (if sql_returning (renewable now ws attempt) (renew_row raw now) (workspaces d) = []
      then Inl (MaisterError CONFLICT [])
      else Inr ((attempt, lease_of raw now),
                d\<lparr>workspaces := sql_update (renewable now ws attempt) (renew_row raw now) (workspaces d)\<rparr>))"

text \<open>One beat of the branch sync's driver: it moves the claim's instant together with the lease.\<close>

definition sync_heartbeat :: "string option \<Rightarrow> time \<Rightarrow> ident \<Rightarrow> ident \<Rightarrow> db \<Rightarrow> db" where
  "sync_heartbeat raw now ws attempt d =
     d\<lparr>workspaces := sql_update (\<lambda>w. w_id w = ws \<and> w_lifecycleOperationAttemptId w = Some attempt)
         (\<lambda>w. w\<lparr>w_lifecycleOperationClaimedAt := Some now,
                w_lifecycleOperationLeaseExpiresAt := Some (lease_of raw now)\<rparr>) (workspaces d)\<rparr>"

section \<open>The shape of a claim\<close>

text \<open>
  \<^verbatim>\<open>workspaces_lifecycle_claim_shape_check\<close>: a free slot carries none of the claim's columns, a
  claimed or failed one its attempt, name and expected status, and a lease exactly while claimed.
\<close>

definition claim_shape :: "workspace_row \<Rightarrow> bool" where
  "claim_shape w \<longleftrightarrow>
     (let noted = w_lifecycleOperationAttemptId w \<noteq> None \<and> w_lifecycleOperationName w \<noteq> None
                  \<and> w_lifecycleOperationExpectedRunStatus w \<noteq> None
      in case w_lifecycleOperationState w of
           LcNone \<Rightarrow> w_lifecycleOperationAttemptId w = None \<and> w_lifecycleOperationName w = None
                     \<and> w_lifecycleOperationExpectedRunStatus w = None
                     \<and> w_lifecycleOperationLeaseExpiresAt w = None
         | LcClaiming \<Rightarrow> noted \<and> w_lifecycleOperationLeaseExpiresAt w \<noteq> None
         | LcFailed \<Rightarrow> noted \<and> w_lifecycleOperationLeaseExpiresAt w = None)"

lemma released_shape [simp]: "claim_shape (RELEASED_LIFECYCLE_CLAIM w)"
  by (simp add: claim_shape_def RELEASED_LIFECYCLE_CLAIM_def)

lemma released_simps [simp]:
  "w_id (RELEASED_LIFECYCLE_CLAIM w) = w_id w"
  "w_runId (RELEASED_LIFECYCLE_CLAIM w) = w_runId w"
  "w_lifecycleOperationName (RELEASED_LIFECYCLE_CLAIM w) = None"
  "w_scheduledRemovalAt (RELEASED_LIFECYCLE_CLAIM w) = w_scheduledRemovalAt w"
  "canReclaimLifecycle now (RELEASED_LIFECYCLE_CLAIM w)"
  by (simp_all add: RELEASED_LIFECYCLE_CLAIM_def canReclaimLifecycle_def)

section \<open>The properties\<close>

lemma one_writer_lemma: "lifecycle_fence raw now w = Inr () \<longleftrightarrow> \<not> workbenchClaimHoldsTree raw now w"
  by (cases "w_lifecycleOperationState w")
     (auto simp: lifecycle_fence_def workbenchClaimHoldsTree_def workbenchClaimHolder_def
      canReclaimLifecycle_def)


definition example_workspace :: workspace_row where
  "example_workspace = \<lparr>w_id = ''w'', w_runId = ''r'', w_removedAt = None, w_scheduledRemovalAt = None,
     w_promotionState = ''none'', w_promotionAttemptId = None, w_promotionClaimedAt = None,
     w_lifecycleOperationState = LcClaiming, w_lifecycleOperationClaimedAt = Some 0,
     w_lifecycleOperationLeaseExpiresAt = Some 900000, w_lifecycleOperationAttemptId = Some ''op'',
     w_lifecycleOperationName = Some ''publish'', w_lifecycleOperationExpectedRunStatus = Some ''Review''\<rparr>"


lemma fences_on_claimed:
  assumes "w_lifecycleOperationState w = LcClaiming" and "w_promotionState w = ''none''"
    and "w_lifecycleOperationClaimedAt w = Some t" and "w_lifecycleOperationLeaseExpiresAt w = Some l"
  shows "sync_fence raw now w = Inr () \<longleftrightarrow> lease_of raw t < now"
    and "lifecycle_fence raw now w = Inr () \<longleftrightarrow> l \<le> now"
  using assms
  by (auto simp: sync_fence_def lifecycle_fence_def lifecycleClaimIsStale_def canReclaimLifecycle_def
      promotionClaimIsLive_def lease_of_def)

text \<open>
  a branch sync can take the slot of a running lifecycle operation.  Renewing moves the lease and
  leaves the claim's instant, and the sync's fence reads only the latter: after an operation claimed at
  \<open>t\<close> renewed its lease at \<open>t'\<close>, at every instant between the two expiries the lifecycle service
  still refuses the slot and the sync's fence lets a sync through.
\<close>

lemma sync_steals_renewed_lease:
  assumes "w_promotionState w = ''none''" and "t < t'" and "t' < lease_of raw t"
    and "lease_of raw t < now" and "now < lease_of raw t'"
    and "w' = claim_lifecycle_row raw t attempt operation expected w"
  shows "\<exists>d'. renewLifecycleOperationLease raw t' (w_id w) attempt (empty_db\<lparr>workspaces := [w']\<rparr>)
      = Inr ((attempt, lease_of raw t'), d')
    \<and> workspaces d' = [renew_row raw t' w']
    \<and> lifecycle_fence raw now (renew_row raw t' w') \<noteq> Inr ()
    \<and> workbenchClaimHoldsTree raw now (renew_row raw t' w')
    \<and> sync_fence raw now (renew_row raw t' w') = Inr ()"
proof -
  let ?w = "renew_row raw t' w'"
  have "w_lifecycleOperationState ?w = LcClaiming" "w_promotionState ?w = ''none''"
    "w_lifecycleOperationClaimedAt ?w = Some t" "w_lifecycleOperationLeaseExpiresAt ?w = Some (lease_of raw t')"
    using assms(1) by (simp_all add: assms(6) renew_row_def claim_lifecycle_row_def)
  note fences = fences_on_claimed[OF this]
  have "renewable t' (w_id w) attempt w'"
    using assms(3) by (simp add: assms(6) renewable_def claim_lifecycle_row_def)
  then show ?thesis
    using fences assms(4,5) one_writer_lemma[of raw now ?w]
    by (simp add: renewLifecycleOperationLease_def sql_returning_def sql_update_def empty_db_def)
qed

lemma sync_steals_renewed_lease_witness:
  "\<exists>d'. renewLifecycleOperationLease None 200000 ''w'' ''op''
        (empty_db\<lparr>workspaces := [claim_lifecycle_row None 0 ''op'' ''publish'' ''Review'' example_workspace]\<rparr>)
      = Inr ((''op'', 500000), d')
    \<and> list_all (\<lambda>w. workbenchClaimHoldsTree None 400000 w \<and> sync_fence None 400000 w = Inr ()) (workspaces d')"
  using sync_steals_renewed_lease[of example_workspace 0 200000 None 400000 _ "''op''" "''publish''" "''Review''"]
  by (force simp: example_workspace_def lease_of_def promotionClaimTimeoutSeconds_def positive_setting_def
      DEFAULT_PROMOTION_CLAIM_TIMEOUT_SECONDS_def claim_lifecycle_row_def)

text \<open>
  where the lease runs from the claim's instant, as after a claim and after every heartbeat of the
  branch sync, the two fences agree except at the very instant of expiry.
\<close>

lemma fences_agree:
  assumes "w_lifecycleOperationState w = LcClaiming" and "w_promotionState w = ''none''"
    and "w_lifecycleOperationClaimedAt w = Some t"
    and "w_lifecycleOperationLeaseExpiresAt w = Some (lease_of raw t)" and "now \<noteq> lease_of raw t"
  shows "sync_fence raw now w = Inr () \<longleftrightarrow> lifecycle_fence raw now w = Inr ()"
  using fences_on_claimed[OF assms(1-4)] assms(5) by auto

lemma fences_agree_witness:
  "sync_fence None 200000 (example_workspace\<lparr>w_lifecycleOperationLeaseExpiresAt := Some 300000\<rparr>) = Inr ()
   \<longleftrightarrow> lifecycle_fence None 200000 (example_workspace\<lparr>w_lifecycleOperationLeaseExpiresAt := Some 300000\<rparr>) = Inr ()"
  by (rule fences_agree[where t = 0])
     (simp_all add: example_workspace_def lease_of_def promotionClaimTimeoutSeconds_def positive_setting_def
      DEFAULT_PROMOTION_CLAIM_TIMEOUT_SECONDS_def)

end
