(* ===== verification/Scheduler.thy ===== *)
theory Scheduler
  imports LifecycleClaim Outbox
begin

text \<open>
  Admission: \<^verbatim>\<open>web/lib/scheduler.ts\<close> (the pools, their caps, the slot counts, the capacity checks
  and \<^verbatim>\<open>tryStartRun\<close>), \<^verbatim>\<open>web/lib/tasks/launch-capacity.ts\<close>,
  \<^verbatim>\<open>web/lib/tasks/admission-selector.ts\<close> (the two automatic-drain guards) and
  \<^verbatim>\<open>web/lib/orchestrator/child-obligations.ts\<close>.  Every admission runs under one advisory lock, so a
  transaction is one step on the database.  The pull half of the scheduler
  (\<^verbatim>\<open>promoteNextPending\<close>) is not modelled.
\<close>

section \<open>Pools and caps\<close>

datatype scheduler_pool = FlowPool | AgentPool | LibrarianPool

definition POOL_RUN_KINDS :: "scheduler_pool \<Rightarrow> run_kind list" where
  "POOL_RUN_KINDS pool =
     (case pool of FlowPool \<Rightarrow> [FlowRun, ScratchRun] | AgentPool \<Rightarrow> [AgentRun] | LibrarianPool \<Rightarrow> [LibrarianRun])"

definition poolForRunKind :: "run_kind \<Rightarrow> scheduler_pool" where
  "poolForRunKind k =
     (case k of FlowRun \<Rightarrow> FlowPool | ScratchRun \<Rightarrow> FlowPool | AgentRun \<Rightarrow> AgentPool | LibrarianRun \<Rightarrow> LibrarianPool)"

definition parseCapEnv :: "string option \<Rightarrow> int \<Rightarrow> int" where
  "parseCapEnv raw fallback = positive_setting raw fallback"

text \<open>
  The settings the caps read.  \<open>cs_librarianTurns\<close> is \<^verbatim>\<open>librarianConfig().maxConcurrentTurns\<close>.
\<close>

record cap_settings =
  cs_maxConcurrentRuns :: "string option"
  cs_maxConcurrentAgents :: "string option"
  cs_maxConcurrentAssistants :: "string option"
  cs_librarianTurns :: int

definition capFromEnv :: "cap_settings \<Rightarrow> int" where
  "capFromEnv s = parseCapEnv (cs_maxConcurrentRuns s) 6"

definition agentCapFromEnv :: "cap_settings \<Rightarrow> int" where
  "agentCapFromEnv s = parseCapEnv (cs_maxConcurrentAgents s) 3"

definition assistantCapFromEnv :: "cap_settings \<Rightarrow> int" where
  "assistantCapFromEnv s = parseCapEnv (cs_maxConcurrentAssistants s) 5"

definition capForPool :: "cap_settings \<Rightarrow> scheduler_pool \<Rightarrow> int" where
  "capForPool s pool =
     (case pool of LibrarianPool \<Rightarrow> cs_librarianTurns s | AgentPool \<Rightarrow> agentCapFromEnv s | FlowPool \<Rightarrow> capFromEnv s)"

text \<open>The cap and whether host pressure fenced it.\<close>

definition effectivePoolCap :: "cap_settings \<Rightarrow> scheduler_pool \<Rightarrow> db \<Rightarrow> int \<times> bool" where
  "effectivePoolCap s pool d =
     (case hostPressuredSince d of Some _ \<Rightarrow> (0, True) | None \<Rightarrow> (capForPool s pool, False))"

section \<open>Counting slots\<close>

definition holds_preparation_slot :: "launch_kind \<Rightarrow> db \<Rightarrow> launch_intent_row \<Rightarrow> bool" where
  "holds_preparation_slot kind d i \<longleftrightarrow>
     li_preparationIdentity i \<noteq> None \<and> li_settingsKind i = kind
     \<and> (li_state i = TiPreparing
        \<or> (li_state i = TiRunBound \<and> li_dispatchCommittedAt i = None
           \<and> (case li_runId i of None \<Rightarrow> False | Some r \<Rightarrow> status_of d r = Some Pending)))"

definition countTaskLaunchPreparationSlots :: "launch_kind \<Rightarrow> db \<Rightarrow> nat" where
  "countTaskLaunchPreparationSlots kind d = sql_count (holds_preparation_slot kind d) (taskLaunchIntents d)"

definition is_live_in :: "scheduler_pool \<Rightarrow> run_row \<Rightarrow> bool" where
  "is_live_in pool r \<longleftrightarrow>
     r_status r \<in> set SLOT_HOLDING_RUN_STATUSES \<and> r_runKind r \<in> set (POOL_RUN_KINDS pool)
     \<and> r_localPackageId r = None"

definition preparation_slots :: "scheduler_pool \<Rightarrow> db \<Rightarrow> nat" where
  "preparation_slots pool d =
     (case pool of
        FlowPool \<Rightarrow> countTaskLaunchPreparationSlots LaunchFlow d
      | AgentPool \<Rightarrow> countTaskLaunchPreparationSlots LaunchAgent d
      | LibrarianPool \<Rightarrow> 0)"

definition countLiveRuns :: "scheduler_pool \<Rightarrow> db \<Rightarrow> nat" where
  "countLiveRuns pool d = sql_count (is_live_in pool) (runs d) + preparation_slots pool d"

definition sharedWriterSiblingActive :: "ident \<Rightarrow> ident \<Rightarrow> db \<Rightarrow> bool" where
  "sharedWriterSiblingActive rootId exclude d \<longleftrightarrow>
     sql_count (\<lambda>r. r_rootRunId r = Some rootId \<and> r_workspaceMode r = Some SharedTree \<and> r_id r \<noteq> exclude
                  \<and> r_status r \<in> set SLOT_HOLDING_RUN_STATUSES) (runs d) > 0"

text \<open>\<open>None\<close>: no cap. Otherwise at cap or not, the active children and the cap.\<close>

definition orchestratorActiveChildrenAtCap :: "ident \<Rightarrow> ident \<Rightarrow> db \<Rightarrow> (bool \<times> nat \<times> nat) option" where
  "orchestratorActiveChildrenAtCap parent exclude d =
     (case Option.bind (run_of d parent) r_maxActiveChildren of
        None \<Rightarrow> None
      | Some cap \<Rightarrow>
          let active = sql_count (\<lambda>r. r_parentRunId r = Some parent \<and> r_id r \<noteq> exclude
                                    \<and> r_status r \<in> set SLOT_HOLDING_RUN_STATUSES) (runs d)
          in Some (active \<ge> cap, active, cap))"

section \<open>Capacity checks\<close>

definition scratchCapacityDecision :: "nat \<Rightarrow> int \<Rightarrow> bool \<times> int \<times> nat" where
  "scratchCapacityDecision liveCount cap = (int liveCount < cap, cap, liveCount)"

definition scratch_live :: "run_row \<Rightarrow> bool" where
  "scratch_live r \<longleftrightarrow> r_status r \<in> {Running, NeedsInput} \<and> r_runKind r \<in> set (POOL_RUN_KINDS FlowPool)
     \<and> r_localPackageId r = None"

text \<open>\<open>fenced\<close>: the upgrade maintenance fence refuses \<^verbatim>\<open>run_admission\<close>.\<close>

definition assertScratchCapacityAvailableInTransaction ::
    "cap_settings \<Rightarrow> (maister_error + unit) \<Rightarrow> db \<Rightarrow> maister_error + (bool \<times> int \<times> nat)" where
  "assertScratchCapacityAvailableInTransaction s maintenance d =
     rbind maintenance (\<lambda>_.
       let live = sql_count scratch_live (runs d) + countTaskLaunchPreparationSlots LaunchFlow d;
           decision = scratchCapacityDecision live (capFromEnv s)
       in if \<not> fst decision then Inl (MaisterError CONFLICT []) else Inr decision)"

definition countLiveAssistantRuns :: "db \<Rightarrow> nat" where
  "countLiveAssistantRuns d =
     sql_count (\<lambda>r. r_status r \<in> {Running, NeedsInput} \<and> r_localPackageId r \<noteq> None) (runs d)"

definition assertAssistantCapacityAvailableInTransaction ::
    "cap_settings \<Rightarrow> (maister_error + unit) \<Rightarrow> db \<Rightarrow> maister_error + (bool \<times> int \<times> nat)" where
  "assertAssistantCapacityAvailableInTransaction s maintenance d =
     rbind maintenance (\<lambda>_.
       let decision = scratchCapacityDecision (countLiveAssistantRuns d) (assistantCapFromEnv s)
       in if \<not> fst decision then Inl (MaisterError CONFLICT []) else Inr decision)"

section \<open>Starting a run\<close>

definition reserveAllowsC2 :: "int \<Rightarrow> int \<Rightarrow> int \<Rightarrow> bool" where
  "reserveAllowsC2 liveFlow flowCap reserve \<longleftrightarrow> liveFlow < flowCap - reserve"

text \<open>\<open>None\<close>: \<^verbatim>\<open>Infinity\<close>.\<close>

definition projectShareAllowsC2 :: "int \<Rightarrow> int option \<Rightarrow> bool" where
  "projectShareAllowsC2 liveAuto maxInFlightAuto \<longleftrightarrow>
     (case maxInFlightAuto of None \<Rightarrow> True | Some m \<Rightarrow> liveAuto < m)"

text \<open>
  The accepted dispatch of a task launch, read before the transaction
  (\<^verbatim>\<open>prepareTaskLaunchFirstDispatch\<close>): whether it owns a preparation slot, the inputs of the
  automatic-drain guards where it is an automatic drain (outstanding claims, reserve, live automatic runs of
  its project, the project's share), and its two writes.
\<close>

record accepted_dispatch =
  ad_ownsCapacity :: bool
  ad_automatic :: "(nat \<times> int \<times> nat \<times> int option) option"
  ad_apply :: "db \<Rightarrow> maister_error + db"
  ad_releaseCapacity :: "db \<Rightarrow> maister_error + db"

definition owned_slots :: "accepted_dispatch option \<Rightarrow> int" where
  "owned_slots ad = (case ad of Some a \<Rightarrow> if ad_ownsCapacity a then 1 else 0 | None \<Rightarrow> 0)"

definition automatic_allowed :: "accepted_dispatch option \<Rightarrow> nat \<Rightarrow> int \<Rightarrow> bool" where
  "automatic_allowed ad live cap \<longleftrightarrow>
     (case Option.bind ad ad_automatic of
        None \<Rightarrow> True
      | Some (claims, reserve, liveAuto, share) \<Rightarrow>
          reserveAllowsC2 (int live - owned_slots ad + int claims) cap reserve
          \<and> projectShareAllowsC2 (int liveAuto - 1) share)"

definition dispatch_step ::
    "(accepted_dispatch \<Rightarrow> db \<Rightarrow> maister_error + db) \<Rightarrow> accepted_dispatch option \<Rightarrow> db \<Rightarrow> maister_error + db" where
  "dispatch_step f ad d = (case ad of None \<Rightarrow> Inr d | Some a \<Rightarrow> f a d)"

datatype start_result = Started | Queued nat bool

definition start_row :: "time \<Rightarrow> run_row \<Rightarrow> run_row" where
  "start_row now r = r\<lparr>r_status := Running, r_startedAt := now\<rparr>"

definition shared_blocked :: "ident \<Rightarrow> db \<Rightarrow> bool" where
  "shared_blocked run d \<longleftrightarrow>
     (case run_of d run of
        None \<Rightarrow> False
      | Some r \<Rightarrow> r_workspaceMode r = Some SharedTree
          \<and> (case r_rootRunId r of None \<Rightarrow> False
             | Some rootId \<Rightarrow> rootId \<noteq> [] \<and> sharedWriterSiblingActive rootId run d))"

definition children_blocked :: "ident \<Rightarrow> db \<Rightarrow> bool" where
  "children_blocked run d \<longleftrightarrow>
     (case Option.bind (run_of d run) r_parentRunId of
        None \<Rightarrow> False
      | Some p \<Rightarrow> p \<noteq> [] \<and> (case orchestratorActiveChildrenAtCap p run d of
                                 None \<Rightarrow> False | Some (at_cap, _) \<Rightarrow> at_cap))"

definition run_pool :: "ident \<Rightarrow> db \<Rightarrow> scheduler_pool" where
  "run_pool run d = (case run_of d run of None \<Rightarrow> FlowPool | Some r \<Rightarrow> poolForRunKind (r_runKind r))"

definition start_cap :: "cap_settings \<Rightarrow> bool \<Rightarrow> ident \<Rightarrow> db \<Rightarrow> int" where
  "start_cap s fenced run d = (if fenced then 0 else fst (effectivePoolCap s (run_pool run d) d))"

definition start_admitted ::
    "cap_settings \<Rightarrow> bool \<Rightarrow> accepted_dispatch option \<Rightarrow> ident \<Rightarrow> db \<Rightarrow> bool" where
  "start_admitted s fenced ad run d \<longleftrightarrow>
     (let live = countLiveRuns (run_pool run d) d; cap = start_cap s fenced run d
      in automatic_allowed ad live cap \<and> \<not> shared_blocked run d \<and> \<not> children_blocked run d
         \<and> int live - owned_slots ad < cap)"

definition queue_position :: "time \<Rightarrow> ident \<Rightarrow> db \<Rightarrow> nat" where
  "queue_position now run d =
     (let since = (case run_of d run of None \<Rightarrow> now | Some r \<Rightarrow> r_startedAt r)
      in sql_count (\<lambda>r. r_status r = Pending \<and> r_runKind r \<in> set (POOL_RUN_KINDS (run_pool run d))
                      \<and> r_startedAt r < since) (runs d) + 1)"

definition tryStartRun ::
    "cap_settings \<Rightarrow> bool \<Rightarrow> time \<Rightarrow> ident \<Rightarrow> accepted_dispatch option \<Rightarrow> ident \<Rightarrow> db
       \<Rightarrow> maister_error + (start_result \<times> db)" where
  "tryStartRun s fenced now uuid ad run d =
     (if start_admitted s fenced ad run d
      then rbind (dispatch_step ad_apply ad d) (\<lambda>d1.
             let P = (\<lambda>r. r_id r = run \<and> r_status r = Pending)
             in case sql_returning P (start_row now) (runs d1) of
                  [] \<Rightarrow> Inl (MaisterError CONFLICT ''run_state_changed'')
                | r # _ \<Rightarrow>
                    Inr (Started,
                      snd (emitWebhookEvent now uuid
                             (ProjectScoped ''run.started'' (r_projectId r) run [(''trigger'', JStr ''direct'')] None)
                             (d1\<lparr>runs := sql_update P (start_row now) (runs d1)\<rparr>))))
      else rbind (dispatch_step ad_releaseCapacity ad d) (\<lambda>d1.
             Inr (Queued (queue_position now run d) (snd (effectivePoolCap s (run_pool run d) d)), d1)))"

section \<open>A coordinator's obligations\<close>

definition unbound_execution_child :: "ident \<Rightarrow> db \<Rightarrow> launch_intent_row \<Rightarrow> bool" where
  "unbound_execution_child parent d i \<longleftrightarrow>
     li_basisKind i = BasisExecutionChild \<and> li_parentRunId i = Some parent
     \<and> (case (li_projectId i, Option.bind (run_of d parent) r_projectId) of
          (Some p, Some q) \<Rightarrow> p = q | _ \<Rightarrow> False)
     \<and> li_runId i = None \<and> li_originalRunId i = None"

definition is_child_of :: "ident \<Rightarrow> run_row \<Rightarrow> bool" where
  "is_child_of parent r \<longleftrightarrow> r_parentRunId r = Some parent"

definition pendingChildObligation :: "ident \<Rightarrow> db \<Rightarrow> bool" where
  "pendingChildObligation parent d \<longleftrightarrow>
     list_ex (\<lambda>r. is_child_of parent r \<and> \<not> isSettledRunStatus (r_status r)) (runs d)
     \<or> list_ex (\<lambda>i. unbound_execution_child parent d i \<and> li_state i \<in> {TiQueued, TiPreparing, TiHeld})
         (taskLaunchIntents d)"

text \<open>The counts \<open>(total, pending)\<close>.\<close>

definition childObligationCounts :: "ident \<Rightarrow> db \<Rightarrow> nat \<times> nat" where
  "childObligationCounts parent d =
     (sql_count (is_child_of parent) (runs d) + sql_count (unbound_execution_child parent d) (taskLaunchIntents d),
      sql_count (\<lambda>r. is_child_of parent r \<and> \<not> isSettledRunStatus (r_status r)) (runs d)
      + sql_count (\<lambda>i. unbound_execution_child parent d i \<and> li_state i \<in> {TiQueued, TiPreparing, TiHeld})
          (taskLaunchIntents d))"

text \<open>\<^verbatim>\<open>parent_observed_version IS DISTINCT FROM state_version\<close>.\<close>

definition hasUnobservedChildOutcome :: "ident \<Rightarrow> db \<Rightarrow> bool" where
  "hasUnobservedChildOutcome parent d \<longleftrightarrow>
     list_ex (\<lambda>i. unbound_execution_child parent d i \<and> li_state i \<in> {TiFailed, TiCancelled}
                \<and> li_parentObservedVersion i \<noteq> Some (li_stateVersion i)) (taskLaunchIntents d)"

text \<open>The acknowledgement of the terminal receipts \<open>(intent, version, state)\<close> a prompt contained.\<close>

definition observe_receipt :: "ident \<Rightarrow> ident \<times> nat \<times> intent_state \<Rightarrow> db \<Rightarrow> db" where
  "observe_receipt parent receipt d =
     (case receipt of (i, version, state) \<Rightarrow>
        d\<lparr>taskLaunchIntents :=
            sql_update (\<lambda>x. li_id x = i \<and> li_stateVersion x = version \<and> li_state x = state
                          \<and> unbound_execution_child parent d x)
              (\<lambda>x. x\<lparr>li_parentObservedVersion := Some version\<rparr>) (taskLaunchIntents d)\<rparr>)"

definition observeChildLaunchOutcomes :: "ident \<Rightarrow> (ident \<times> nat \<times> intent_state) list \<Rightarrow> db \<Rightarrow> db" where
  "observeChildLaunchOutcomes parent receipts d =
     (let terminal = filter (\<lambda>(_, _, s). s \<in> {TiFailed, TiCancelled}) receipts
      in if terminal = [] then d
         else if run_of d parent = None then d
         else fold (observe_receipt parent) terminal d)"

section \<open>What an admission promises\<close>

lemma parseCapEnv_pos: "1 \<le> fallback \<Longrightarrow> 1 \<le> parseCapEnv raw fallback"
  by (simp add: parseCapEnv_def positive_setting_pos)

lemma pool_of_kind: "k \<in> set (POOL_RUN_KINDS pool) \<longleftrightarrow> poolForRunKind k = pool"
  by (cases pool; cases k) (simp_all add: POOL_RUN_KINDS_def poolForRunKind_def)

lemma pending_iff_count: "pendingChildObligation parent d \<longleftrightarrow> snd (childObligationCounts parent d) > 0"
  by (auto simp: pendingChildObligation_def childObligationCounts_def sql_count_def list_ex_iff
      filter_empty_conv)

lemma sql_count_mono:
  "(\<And>x. x \<in> set xs \<Longrightarrow> P x \<Longrightarrow> Q x) \<Longrightarrow> sql_count P xs \<le> sql_count Q xs"
  by (induction xs) (auto simp: le_SucI)

lemma pending_le_total: "snd (childObligationCounts parent d) \<le> fst (childObligationCounts parent d)"
  unfolding childObligationCounts_def fst_conv snd_conv by (intro add_mono sql_count_mono) auto

text \<open>A started run: the caps held, the row was Pending, and only it changed.\<close>

lemma tryStartRun_StartedD:
  assumes "tryStartRun s fenced now uuid ad run d = Inr (Started, d')"
  obtains d1 where "start_admitted s fenced ad run d" and "dispatch_step ad_apply ad d = Inr d1"
    and "\<exists>r \<in> set (runs d1). r_id r = run \<and> r_status r = Pending"
    and "runs d' = sql_update (\<lambda>r. r_id r = run \<and> r_status r = Pending) (start_row now) (runs d1)"
    and "taskLaunchIntents d' = taskLaunchIntents d1"
proof -
  let ?P = "\<lambda>r. r_id r = run \<and> r_status r = Pending"
  from assms have adm: "start_admitted s fenced ad run d"
    by (auto simp: tryStartRun_def rbind_Inr_iff split: if_splits)
  with assms obtain d1 where d1: "dispatch_step ad_apply ad d = Inr d1"
    and rest: "(case sql_returning ?P (start_row now) (runs d1) of
                  [] \<Rightarrow> Inl (MaisterError CONFLICT ''run_state_changed'')
                | r # _ \<Rightarrow>
                    Inr (Started,
                      snd (emitWebhookEvent now uuid
                             (ProjectScoped ''run.started'' (r_projectId r) run [(''trigger'', JStr ''direct'')] None)
                             (d1\<lparr>runs := sql_update ?P (start_row now) (runs d1)\<rparr>)))) = Inr (Started, d')"
    by (auto simp: tryStartRun_def rbind_Inr_iff Let_def)
  show ?thesis
  proof (cases "sql_returning ?P (start_row now) (runs d1)")
    case Nil
    with rest show ?thesis by simp
  next
    case (Cons r rs)
    then have "\<exists>r \<in> set (runs d1). ?P r"
      using sql_returning_Nil_iff[of ?P "start_row now" "runs d1"] by auto
    with that[OF adm d1] rest Cons show ?thesis by auto
  qed
qed

lemma start_row_simps [simp]:
  "r_id (start_row now r) = r_id r" "r_status (start_row now r) = Running"
  "r_runKind (start_row now r) = r_runKind r" "r_localPackageId (start_row now r) = r_localPackageId r"
  "r_rootRunId (start_row now r) = r_rootRunId r" "r_workspaceMode (start_row now r) = r_workspaceMode r"
  "r_parentRunId (start_row now r) = r_parentRunId r"
  "r_maxActiveChildren (start_row now r) = r_maxActiveChildren r"
  by (simp_all add: start_row_def)

text \<open>Changing one keyed row adds at most one to a count.\<close>

lemma sql_count_update_one:
  assumes "runs_t.wf_rows rows" and "\<And>r. P r \<Longrightarrow> r_id r = run"
  shows "sql_count Q (sql_update P f rows) \<le> Suc (sql_count (\<lambda>r. Q r \<and> r_id r \<noteq> run) rows)"
  using assms(1)
proof (induction rows)
  case (Cons x xs)
  show ?case
  proof (cases "r_id x = run")
    case True
    then have "\<forall>r \<in> set xs. r_id r \<noteq> run"
      using Cons.prems by (metis runs_t.wf_rows_def distinct.simps(2) image_eqI list.set_map list.simps(9))
    moreover from this have "sql_update P f xs = xs"
      using assms(2) by (intro sql_update_none) auto
    ultimately have "sql_count Q (sql_update P f xs) = sql_count (\<lambda>r. Q r \<and> r_id r \<noteq> run) xs"
      by (auto simp: sql_count_def intro!: arg_cong[where f = length] filter_cong)
    with True show ?thesis by (simp add: sql_update_def)
  next
    case False
    with assms(2) Cons show ?thesis by (auto simp: sql_update_def runs_t.wf_rows_def)
  qed
qed simp

lemma start_status_of:
  assumes "runs d' = sql_update (\<lambda>r. r_id r = run \<and> r_status r = Pending) (start_row now) (runs d)"
    and "status_of d' i = Some Pending"
  shows "status_of d i = Some Pending"
proof -
  have "run_of d' i = map_option (\<lambda>r. if r_id r = run \<and> r_status r = Pending then start_row now r else r) (run_of d i)"
    unfolding run_of_def assms(1) by (rule runs_t.row_update) simp
  with assms(2) show ?thesis
    by (auto simp: status_of_def split: if_splits)
qed

lemma start_preparation_mono:
  assumes "runs d' = sql_update (\<lambda>r. r_id r = run \<and> r_status r = Pending) (start_row now) (runs d)"
    and "taskLaunchIntents d' = taskLaunchIntents d"
  shows "preparation_slots pool d' \<le> preparation_slots pool d"
proof -
  have "holds_preparation_slot kind d i" if "holds_preparation_slot kind d' i" for kind i
    using that start_status_of[OF assms(1)]
    by (auto simp: holds_preparation_slot_def split: option.splits)
  then have "countTaskLaunchPreparationSlots kind d' \<le> countTaskLaunchPreparationSlots kind d" for kind
    unfolding countTaskLaunchPreparationSlots_def assms(2) by (rule sql_count_mono)
  then show ?thesis by (simp add: preparation_slots_def split: scheduler_pool.splits)
qed

section \<open>The properties\<close>

text \<open>
  C23: starting a run with no task-launch dispatch never lifts its pool above the cap, and starts nothing
  while the host is under pressure or the installation is fenced for an upgrade.
\<close>

theorem start_within_cap:
  assumes "runs_t.wf_rows (runs d)" and "tryStartRun s fenced now uuid None run d = Inr (Started, d')"
  shows "int (countLiveRuns (run_pool run d) d') \<le> capForPool s (run_pool run d)
    \<and> hostPressuredSince d = None \<and> \<not> fenced"
proof -
  let ?pool = "run_pool run d"
  from assms(2) obtain d1 where adm: "start_admitted s fenced None run d"
    and d1: "dispatch_step ad_apply None d = Inr d1"
    and upd: "runs d' = sql_update (\<lambda>r. r_id r = run \<and> r_status r = Pending) (start_row now) (runs d1)"
    and int: "taskLaunchIntents d' = taskLaunchIntents d1"
    by (rule tryStartRun_StartedD)
  have [simp]: "d1 = d" using d1 by (simp add: dispatch_step_def)
  from adm have room: "int (countLiveRuns ?pool d) < start_cap s fenced run d"
    by (simp add: start_admitted_def owned_slots_def Let_def)
  then have open_host: "\<not> fenced" "hostPressuredSince d = None"
    by (auto simp: start_cap_def effectivePoolCap_def split: if_splits option.splits)
  have "sql_count (is_live_in ?pool) (runs d') \<le> Suc (sql_count (is_live_in ?pool) (runs d))"
    using sql_count_update_one[OF assms(1), of "\<lambda>r. r_id r = run \<and> r_status r = Pending" run "is_live_in ?pool" "start_row now"]
      sql_count_mono[of "runs d" "\<lambda>r. is_live_in ?pool r \<and> r_id r \<noteq> run" "is_live_in ?pool"] upd
    by fastforce
  moreover have "preparation_slots ?pool d' \<le> preparation_slots ?pool d"
    using upd int by (intro start_preparation_mono) auto
  ultimately have "countLiveRuns ?pool d' \<le> Suc (countLiveRuns ?pool d)"
    by (simp add: countLiveRuns_def)
  with room open_host show ?thesis
    by (simp add: start_cap_def effectivePoolCap_def)
qed

definition two_runs :: db where
  "two_runs = empty_db\<lparr>runs := [example_run ''a'' Running, example_run ''b'' Pending]\<rparr>"

definition default_caps :: cap_settings where
  "default_caps = \<lparr>cs_maxConcurrentRuns = Some ''2'', cs_maxConcurrentAgents = None,
     cs_maxConcurrentAssistants = None, cs_librarianTurns = 2\<rparr>"

lemma parse_two: "js_parseInt10 ''2'' = Fin 2"
  by code_simp

lemma two_runs_started:
  "\<exists>d'. tryStartRun default_caps False 7 ''e1'' None ''b'' two_runs = Inr (Started, d')"
  by (simp add: tryStartRun_def start_admitted_def automatic_allowed_def shared_blocked_def
      children_blocked_def owned_slots_def start_cap_def effectivePoolCap_def capForPool_def capFromEnv_def
      parseCapEnv_def positive_setting_def parse_two countLiveRuns_def preparation_slots_def
      countTaskLaunchPreparationSlots_def is_live_in_def POOL_RUN_KINDS_def SLOT_HOLDING_RUN_STATUSES_def
      run_pool_def poolForRunKind_def run_of_def runs_t.row_def dispatch_step_def sql_returning_def
      two_runs_def empty_db_def example_run_def default_caps_def)

theorem start_within_cap_witness:
  "\<exists>d'. tryStartRun default_caps False 7 ''e1'' None ''b'' two_runs = Inr (Started, d')
     \<and> int (countLiveRuns FlowPool d') \<le> capForPool default_caps FlowPool"
proof -
  obtain d' where d': "tryStartRun default_caps False 7 ''e1'' None ''b'' two_runs = Inr (Started, d')"
    using two_runs_started by blast
  have "runs_t.wf_rows (runs two_runs)" and "run_pool ''b'' two_runs = FlowPool"
    by (simp_all add: two_runs_def runs_t.wf_rows_def run_pool_def run_of_def runs_t.row_def
        example_run_def empty_db_def poolForRunKind_def)
  with start_within_cap[OF _ d'] d' show ?thesis by auto
qed

definition shared_writer :: "ident \<Rightarrow> run_row \<Rightarrow> bool" where
  "shared_writer tree r \<longleftrightarrow> r_rootRunId r = Some tree \<and> r_workspaceMode r = Some SharedTree
     \<and> r_status r \<in> set SLOT_HOLDING_RUN_STATUSES"



end
