(* ===== verification/RunState.thy ===== *)
theory RunState
  imports Assignments NodeLedger Scheduler
begin

text \<open>
  The run's state machine: \<^verbatim>\<open>web/lib/runs/state-transitions.ts\<close>, with
  \<^verbatim>\<open>runs/keepalive-config.ts\<close> and \<^verbatim>\<open>hitl-closed-answer.ts\<close>.  One definition per exported
  transition, each a transaction on the database: \<open>Inl\<close> is a thrown error (the transaction rolls back),
  \<open>Inr (result, d)\<close> the returned result and the committed state.  What a transition takes from its
  surroundings (the clock, fresh identifiers, the environment variables, the local host) is the record
  \<open>ambient\<close>.  A transaction reads the clock once.

  The permission and action authorizers a resume calls after its claim
  (\<^verbatim>\<open>flows/graph/permission-resume.ts\<close>, \<^verbatim>\<open>gate-permission-resume.ts\<close>,
  \<^verbatim>\<open>action-resume.ts\<close>, \<^verbatim>\<open>agents/permission-resume.ts\<close>, \<^verbatim>\<open>agents/resume.ts\<close>) and the caller's
  audit callback are arguments, the fields of \<open>authorizers\<close>; the release of context mounts after an
  abandon and the logging are left out.
\<close>

section \<open>Surroundings\<close>

record ambient =
  am_now :: time
  am_assignmentId :: ident
  am_eventId :: ident
  am_keepaliveMinutes :: "string option"
  am_gcAgeDays :: "string option"
  am_caps :: cap_settings
  am_localHost :: "maister_error + ident"

record authorizers =
  au_consumeUndelivered :: "ident \<Rightarrow> db \<Rightarrow> maister_error + db"
  au_gateContinuation :: "assignment_row \<Rightarrow> db \<Rightarrow> maister_error + db"
  au_nodeContinuation :: "assignment_row \<Rightarrow> db \<Rightarrow> maister_error + db"
  au_gateResult :: "assignment_row \<Rightarrow> db \<Rightarrow> maister_error + db"
  au_nodeResult :: "assignment_row \<Rightarrow> db \<Rightarrow> maister_error + db"
  au_gateResume :: "assignment_row \<Rightarrow> db \<Rightarrow> maister_error + (bool \<times> db)"
  au_nodeResume :: "assignment_row \<Rightarrow> db \<Rightarrow> maister_error + db"
  au_nodeInterruptResume :: "assignment_row \<Rightarrow> db \<Rightarrow> maister_error + db"
  au_readAgentPermission :: "ident \<Rightarrow> db \<Rightarrow> maister_error + string option"
  au_agentPermission :: "assignment_row \<Rightarrow> db \<Rightarrow> maister_error + db"
  au_admitCompletedAgent :: "assignment_row \<Rightarrow> db \<Rightarrow> maister_error + db"
  au_orchestratorAction :: "assignment_row \<Rightarrow> db \<Rightarrow> maister_error + db"
  au_successAudit :: "db \<Rightarrow> maister_error + db"

record placement_opts =
  po_host :: "ident option"
  po_reason :: "placement_reason option"

datatype refusal = StatusGuardMismatch | NotFound | Capacity | PendingEvidence

datatype transition_result = Ok "assignment_row option" | Refused refusal

definition DEFAULT_KEEPALIVE_MINUTES :: int where
  "DEFAULT_KEEPALIVE_MINUTES = 30"

definition keepaliveMinutes :: "string option \<Rightarrow> int" where
  "keepaliveMinutes raw =
     (case js_parseInt10 (case raw of None \<Rightarrow> ''30'' | Some s \<Rightarrow> s) of
        Fin q \<Rightarrow> if q > 0 then \<lfloor>q\<rfloor> else DEFAULT_KEEPALIVE_MINUTES
      | _ \<Rightarrow> DEFAULT_KEEPALIVE_MINUTES)"

definition keepaliveMs :: "string option \<Rightarrow> int" where
  "keepaliveMs raw = keepaliveMinutes raw * 60000"

definition nextKeepaliveAt :: "ambient \<Rightarrow> time" where
  "nextKeepaliveAt am = am_now am + keepaliveMs (am_keepaliveMinutes am)"

section \<open>Shared steps\<close>

text \<open>
  \<^verbatim>\<open>tx.update(runs).set(f).where(and(eq(runs.id, run), inArray(runs.status, from))).returning()\<close>.
\<close>

definition cas_guard :: "ident \<Rightarrow> run_status list \<Rightarrow> run_row \<Rightarrow> bool" where
  "cas_guard run from r \<longleftrightarrow> r_id r = run \<and> r_status r \<in> set from"

definition cas :: "ident \<Rightarrow> run_status list \<Rightarrow> (run_row \<Rightarrow> run_row) \<Rightarrow> db \<Rightarrow> run_row list \<times> db" where
  "cas run from f d =
     (sql_returning (cas_guard run from) f (runs d),
      d\<lparr>runs := sql_update (cas_guard run from) f (runs d)\<rparr>)"

definition live_sync :: "ident \<Rightarrow> sync_attempt_row \<Rightarrow> bool" where
  "live_sync run a \<longleftrightarrow> sa_runId a = run \<and> sa_phase a \<notin> set RUN_SYNC_TERMINAL_PHASES"

definition fail_sync_row :: "time \<Rightarrow> string \<Rightarrow> sync_attempt_row \<Rightarrow> sync_attempt_row" where
  "fail_sync_row now code a =
     a\<lparr>sa_phase := SyFailed, sa_errorCode := Some code,
       sa_errorMessage := Some ''run terminalized while a branch sync was in flight'', sa_updatedAt := now\<rparr>"

definition sync_claim_of :: "ident \<Rightarrow> workspace_row \<Rightarrow> bool" where
  "sync_claim_of run w \<longleftrightarrow> w_runId w = run \<and> w_lifecycleOperationName w = Some ''sync''"

definition releaseSyncClaimOnTerminal :: "time \<Rightarrow> ident \<Rightarrow> string \<Rightarrow> db \<Rightarrow> db" where
  "releaseSyncClaimOnTerminal now run code d =
     d\<lparr>runSyncAttempts := sql_update (live_sync run) (fail_sync_row now code) (runSyncAttempts d),
       workspaces := sql_update (sync_claim_of run) RELEASED_LIFECYCLE_CLAIM (workspaces d)\<rparr>"

definition mintForClaim ::
    "ambient \<Rightarrow> placement_opts \<Rightarrow> ident \<Rightarrow> placement_reason \<Rightarrow> db \<Rightarrow> maister_error + (assignment_row \<times> db)" where
  "mintForClaim am po run reason d =
     mintPlacement (am_now am) (am_assignmentId am) (am_localHost am) (po_host po) run
       (case po_reason po of None \<Rightarrow> reason | Some r \<Rightarrow> r) d"

definition released :: "ambient \<Rightarrow> ident \<Rightarrow> string \<Rightarrow> db \<Rightarrow> db" where
  "released am run reason d = snd (releaseAssignmentForRun (am_now am) run reason d)"

section \<open>Parking and resuming\<close>

definition idle_row :: "time \<Rightarrow> run_row \<Rightarrow> run_row" where
  "idle_row now r = r\<lparr>r_status := NeedsInputIdle, r_checkpointAt := Some now, r_keepaliveUntil := None\<rparr>"

definition idleFromNeedsInput :: "ambient \<Rightarrow> ident \<Rightarrow> db \<Rightarrow> bool \<times> db" where
  "idleFromNeedsInput am run d =
     (let (rows, d1) = cas run [NeedsInput] (idle_row (am_now am)) d
      in if rows = [] then (False, d1) else (True, released am run ''checkpointed'' d1))"

definition markCheckpointed :: "ambient \<Rightarrow> ident \<Rightarrow> db \<Rightarrow> transition_result \<times> db" where
  "markCheckpointed am run d =
     (let (idled, d1) = idleFromNeedsInput am run d
      in if idled then (Ok None, d1) else (Refused StatusGuardMismatch, d1))"

definition markCheckpointedFromExit :: "ambient \<Rightarrow> ident \<Rightarrow> db \<Rightarrow> transition_result \<times> db" where
  "markCheckpointedFromExit am run d =
     (let (idled, d1) = idleFromNeedsInput am run d
      in if idled then (Ok None, d1) else (Refused StatusGuardMismatch, d1))"

text \<open>\<^verbatim>\<open>PreparedPermissionHandoff\<close>: whether it is an interruption, and its domain.\<close>

datatype permission_handoff = Interrupted bool | PermissionResult bool

definition authorize_resume ::
    "authorizers \<Rightarrow> permission_handoff option \<Rightarrow> assignment_row \<Rightarrow> db \<Rightarrow> maister_error + db" where
  "authorize_resume au permission a d =
     (case permission of
        Some (Interrupted gate) \<Rightarrow> if gate then au_gateContinuation au a d else au_nodeContinuation au a d
      | Some (PermissionResult gate) \<Rightarrow> if gate then au_gateResult au a d else au_nodeResult au a d
      | None \<Rightarrow>
          rbind (au_gateResume au a d) (\<lambda>(done, d1).
            if done then Inr d1
            else rbind (au_nodeResume au a d1) (au_nodeInterruptResume au a)))"

definition markResumed ::
    "authorizers \<Rightarrow> ambient \<Rightarrow> placement_opts \<Rightarrow> permission_handoff option \<Rightarrow> bool \<Rightarrow> ident \<Rightarrow> db
       \<Rightarrow> maister_error + (transition_result \<times> db)" where
  "markResumed au am po permission undelivered run d =
     (let (rows, d1) = cas run [NeedsInputIdle]
            (\<lambda>r. r\<lparr>r_status := NeedsInput, r_keepaliveUntil := Some (nextKeepaliveAt am), r_checkpointAt := None\<rparr>) d
      in if rows = [] then Inr (Refused StatusGuardMismatch, d1)
         else rbind (if undelivered then au_consumeUndelivered au run d1 else Inr d1) (\<lambda>d2.
              rbind (mintForClaim am po run PrResume d2) (\<lambda>(a, d3).
              rbind (authorize_resume au permission a d3) (\<lambda>d4.
              rbind (au_successAudit au d4) (\<lambda>d5. Inr (Ok (Some a), d5))))))"

definition defer_resume :: "time \<Rightarrow> ident \<Rightarrow> run_status \<Rightarrow> db \<Rightarrow> run_row list \<times> db" where
  "defer_resume now run s d =
     cas run [s] (\<lambda>r. r\<lparr>r_resumeRequestedAt := coalesce_now (r_resumeRequestedAt r) now\<rparr>) d"

definition claimAgentIdleResumeInTransaction ::
    "authorizers \<Rightarrow> ambient \<Rightarrow> placement_opts \<Rightarrow> ident \<Rightarrow> db \<Rightarrow> maister_error + (transition_result \<times> db)" where
  "claimAgentIdleResumeInTransaction au am po run d =
     rbind (au_readAgentPermission au run d) (\<lambda>permission.
       case permission of
         Some _ \<Rightarrow> Inr (Refused PendingEvidence, snd (defer_resume (am_now am) run NeedsInputIdle d))
       | None \<Rightarrow>
           let (rows, d1) = cas run [NeedsInputIdle]
                 (\<lambda>r. r\<lparr>r_status := Running, r_resumeRequestedAt := None, r_keepaliveUntil := None,
                        r_checkpointAt := None\<rparr>) d
           in if rows = [] then Inr (Refused StatusGuardMismatch, d1)
              else rbind (mintForClaim am po run PrResume d1) (\<lambda>(a, d2).
                   rbind (au_agentPermission au a d2) (\<lambda>d3.
                   rbind (au_admitCompletedAgent au a d3) (\<lambda>d4.
                   rbind (au_successAudit au d4) (\<lambda>d5. Inr (Ok (Some a), d5))))))"

definition wait_row :: "time \<Rightarrow> run_row \<Rightarrow> run_row" where
  "wait_row now r = r\<lparr>r_status := WaitingOnChildren, r_checkpointAt := Some now, r_keepaliveUntil := None\<rparr>"

text \<open>A guarded flip that ends the driver generation in the same transaction.\<close>

definition cas_release ::
    "ambient \<Rightarrow> ident \<Rightarrow> run_status list \<Rightarrow> (run_row \<Rightarrow> run_row) \<Rightarrow> string \<Rightarrow> db \<Rightarrow> transition_result \<times> db" where
  "cas_release am run from f reason d =
     (let (rows, d1) = cas run from f d
      in if rows = [] then (Refused StatusGuardMismatch, d1) else (Ok None, released am run reason d1))"

definition markWaitingOnChildren :: "ambient \<Rightarrow> ident \<Rightarrow> db \<Rightarrow> transition_result \<times> db" where
  "markWaitingOnChildren am run d =
     cas_release am run [Running] (wait_row (am_now am)) ''waiting_on_children'' d"

text \<open>The coordinator's guard: \<open>None\<close> lets the wake through.\<close>

definition coordinator_guard :: "(ident \<times> ident) option \<Rightarrow> ident \<Rightarrow> db \<Rightarrow> refusal option" where
  "coordinator_guard expected run d =
     (case expected of
        None \<Rightarrow> None
      | Some (node, attemptId) \<Rightarrow>
          (case (run_of d run, latestAttemptForNode run node d) of
             (Some current, Some attempt) \<Rightarrow>
               if r_status current \<noteq> WaitingOnChildren \<or> r_currentStepId current \<noteq> Some node
                  \<or> na_id attempt \<noteq> attemptId \<or> na_status attempt \<noteq> NaNeedsInput
               then Some StatusGuardMismatch
               else let failureWake = na_nodeType attempt = Orchestrator
                          \<and> (r_failedChildWakeAt current \<noteq> None \<or> hasUnobservedChildOutcome run d)
                    in if \<not> failureWake \<and> snd (childObligationCounts run d) > 0 then Some PendingEvidence else None
           | _ \<Rightarrow> Some StatusGuardMismatch))"

definition markResumedFromWait ::
    "authorizers \<Rightarrow> ambient \<Rightarrow> placement_opts \<Rightarrow> (ident \<times> ident) option \<Rightarrow> ident \<Rightarrow> db
       \<Rightarrow> maister_error + (transition_result \<times> db)" where
  "markResumedFromWait au am po expected run d =
     (case coordinator_guard expected run d of
        Some refusal \<Rightarrow> Inr (Refused refusal, d)
      | None \<Rightarrow>
          if int (countLiveRuns FlowPool d) \<ge> fst (effectivePoolCap (am_caps am) FlowPool d)
          then let (deferred, d1) = defer_resume (am_now am) run WaitingOnChildren d
               in Inr (Refused (if deferred \<noteq> [] then Capacity else StatusGuardMismatch), d1)
          else let (rows, d1) = cas run [WaitingOnChildren]
                     (\<lambda>r. r\<lparr>r_status := Running, r_checkpointAt := None, r_resumeRequestedAt := None\<rparr>) d
               in if rows = [] then Inr (Refused StatusGuardMismatch, d1)
                  else rbind (mintForClaim am po run PrWaitResume d1) (\<lambda>(a, d2).
                       rbind (au_orchestratorAction au a d2) (\<lambda>d3.
                       rbind (au_successAudit au d3) (\<lambda>d4. Inr (Ok (Some a), d4)))))"

definition rollbackResumeFromWait :: "ambient \<Rightarrow> ident \<Rightarrow> db \<Rightarrow> transition_result \<times> db" where
  "rollbackResumeFromWait am run d =
     cas_release am run [Running] (wait_row (am_now am)) ''wait_resume_rollback'' d"

section \<open>Review and rework\<close>

text \<open>A bare guarded flip.\<close>

definition cas_only :: "ident \<Rightarrow> run_status list \<Rightarrow> (run_row \<Rightarrow> run_row) \<Rightarrow> db \<Rightarrow> transition_result \<times> db" where
  "cas_only run from f d =
     (let (rows, d1) = cas run from f d
      in if rows = [] then (Refused StatusGuardMismatch, d1) else (Ok None, d1))"

definition live_row :: "run_row \<Rightarrow> run_row" where
  "live_row r = r\<lparr>r_status := Running, r_checkpointAt := None, r_keepaliveUntil := None\<rparr>"

definition markReworkFromReview :: "ident \<Rightarrow> db \<Rightarrow> transition_result \<times> db" where
  "markReworkFromReview run d = cas_only run [Review] live_row d"

definition markReworkClaimFromReview :: "ident \<Rightarrow> db \<Rightarrow> transition_result \<times> db" where
  "markReworkClaimFromReview run d = cas_only run [Review] (\<lambda>r. r\<lparr>r_status := HumanWorking\<rparr>) d"

definition casToReviewAndEmit ::
    "ambient \<Rightarrow> ident \<Rightarrow> (run_row \<Rightarrow> run_row) \<Rightarrow> run_status \<Rightarrow> run_review_cause \<Rightarrow> string option \<Rightarrow> db
       \<Rightarrow> run_row list \<times> db" where
  "casToReviewAndEmit am run f from cause releaseReason d =
     (let (rows, d1) = cas run [from] f d
      in case rows of
           [] \<Rightarrow> (rows, d1)
         | r # _ \<Rightarrow>
             let d2 = emitDelegatedReviewIfChild (am_now am) r cause None d1
             in (rows, case releaseReason of None \<Rightarrow> d2 | Some reason \<Rightarrow> released am run reason d2))"

definition review_result :: "run_row list \<times> db \<Rightarrow> transition_result \<times> db" where
  "review_result p = (if fst p = [] then (Refused StatusGuardMismatch, snd p) else (Ok None, snd p))"

definition markReviewFromReworkClaim :: "ambient \<Rightarrow> ident \<Rightarrow> db \<Rightarrow> transition_result \<times> db" where
  "markReviewFromReworkClaim am run d =
     review_result (casToReviewAndEmit am run (\<lambda>r. r\<lparr>r_status := Review\<rparr>) HumanWorking CauseReworkReleased None d)"

definition markSyncFromReview :: "ident \<Rightarrow> db \<Rightarrow> transition_result \<times> db" where
  "markSyncFromReview run d = cas_only run [Review] live_row d"

definition sync_review_row :: "run_row \<Rightarrow> run_row" where
  "sync_review_row r = r\<lparr>r_status := Review, r_keepaliveUntil := None, r_checkpointAt := None\<rparr>"

definition markSyncReviewFromRunning :: "ambient \<Rightarrow> ident \<Rightarrow> db \<Rightarrow> transition_result \<times> db" where
  "markSyncReviewFromRunning am run d =
     review_result (casToReviewAndEmit am run sync_review_row Running CauseSyncReturned (Some ''sync_finished'') d)"

text \<open>\<open>idle\<close>: the caller observed \<^verbatim>\<open>NeedsInputIdle\<close> rather than \<^verbatim>\<open>NeedsInput\<close>.\<close>

definition markSyncReviewFromNeedsInput :: "ambient \<Rightarrow> bool \<Rightarrow> ident \<Rightarrow> db \<Rightarrow> transition_result \<times> db" where
  "markSyncReviewFromNeedsInput am idle run d =
     review_result (casToReviewAndEmit am run sync_review_row (if idle then NeedsInputIdle else NeedsInput)
                      CauseSyncReturned (Some ''sync_finished'') d)"

definition markReopenFromDone :: "ident \<Rightarrow> db \<Rightarrow> transition_result \<times> db" where
  "markReopenFromDone run d = cas_only run [Done] (\<lambda>r. r\<lparr>r_status := Review, r_endedAt := None\<rparr>) d"

definition bumpKeepalive :: "ambient \<Rightarrow> ident \<Rightarrow> db \<Rightarrow> transition_result \<times> db" where
  "bumpKeepalive am run d =
     cas_only run [Running, NeedsInput] (\<lambda>r. r\<lparr>r_keepaliveUntil := Some (nextKeepaliveAt am)\<rparr>) d"

section \<open>Failing, crashing and abandoning\<close>

definition supervisor_code :: "string \<Rightarrow> string option" where
  "supervisor_code token =
     (let p = ''supervisor-''; rest = drop (length p) token
      in if take (length p) token = p \<and> rest \<noteq> [] \<and> list_all (\<lambda>c. of_char c \<notin> {10, 13 :: nat}) rest
         then Some rest else None)"

definition resumeFailureCause :: "string \<Rightarrow> terminal_cause" where
  "resumeFailureCause reason =
     (let token = hd (js_split (CHR '':'') reason)
      in case Option.bind (supervisor_code token) isMaisterErrorCode of
           Some c \<Rightarrow> \<lparr>tc_code = Some c, tc_reason = Some ''supervisor_refused'', tc_source = SrcResume\<rparr>
         | None \<Rightarrow>
             (case isMaisterErrorCode token of
                Some c \<Rightarrow> \<lparr>tc_code = Some c, tc_reason = None, tc_source = SrcResume\<rparr>
              | None \<Rightarrow> \<lparr>tc_code = Some CRASH, tc_reason = Some (causeReason token), tc_source = SrcResume\<rparr>))"

text \<open>The webhook and the domain event every terminal transition emits from the returned row.\<close>

definition terminal_input ::
    "run_row \<Rightarrow> domain_event_kind \<Rightarrow> terminal_cause \<Rightarrow> string \<Rightarrow> emit_input" where
  "terminal_input r kind cause reason =
     \<lparr>ei_kind = kind, ei_projectId = r_projectId r, ei_taskId = r_taskId r, ei_runId = Some (r_id r),
      ei_actor = Some (''system'', None), ei_parentRunId = Some (r_parentRunId r), ei_cause = Some cause,
      ei_payload = \<lparr>dp_runId = r_id r, dp_taskId = r_taskId r, dp_flowId = r_flowId r,
         dp_runKind = r_runKind r, dp_reason = Some reason, dp_status = None, dp_reviewCause = None,
         dp_resultStatus = None, dp_parentRunId = None, dp_cause = None\<rparr>,
      ei_occurredAt = None\<rparr>"

definition emit_terminal ::
    "ambient \<Rightarrow> run_row \<Rightarrow> string \<Rightarrow> (string \<times> json) list \<Rightarrow> domain_event_kind \<Rightarrow> terminal_cause \<Rightarrow> string
       \<Rightarrow> db \<Rightarrow> db" where
  "emit_terminal am r type data kind cause reason d =
     emitDomainEvent (am_now am) (terminal_input r kind cause reason)
       (snd (emitWebhookEvent (am_now am) (am_eventId am) (ProjectScoped type (r_projectId r) (r_id r) data None) d))"

definition failResumedRun :: "ambient \<Rightarrow> ident \<Rightarrow> string \<Rightarrow> db \<Rightarrow> transition_result \<times> db" where
  "failResumedRun am run reason d =
     (let (rows, d1) = cas run [NeedsInputIdle, NeedsInput]
            (\<lambda>r. r\<lparr>r_status := Failed, r_endedAt := Some (am_now am)\<rparr>) d
      in case rows of
           [] \<Rightarrow> (Refused StatusGuardMismatch, d1)
         | r # _ \<Rightarrow>
             (Ok None, emit_terminal am r ''run.failed'' [(''errorCode'', JStr reason)] EvRunFailed
                         (resumeFailureCause reason) reason (released am run ''failed'' d1)))"

definition rollbackResumedRun :: "ambient \<Rightarrow> ident \<Rightarrow> db \<Rightarrow> transition_result \<times> db" where
  "rollbackResumedRun am run d =
     cas_release am run [NeedsInput] (idle_row (am_now am)) ''resume_rollback'' d"

definition markHumanWorking :: "ident \<Rightarrow> db \<Rightarrow> transition_result \<times> db" where
  "markHumanWorking run d = cas_only run [NeedsInput] (\<lambda>r. r\<lparr>r_status := HumanWorking\<rparr>) d"

definition markReturnedToRunning ::
    "ambient \<Rightarrow> placement_opts \<Rightarrow> ident \<Rightarrow> db \<Rightarrow> maister_error + (transition_result \<times> db)" where
  "markReturnedToRunning am po run d =
     (let (rows, d1) = cas run [HumanWorking] (\<lambda>r. r\<lparr>r_status := Running\<rparr>) d
      in if rows = [] then Inr (Refused StatusGuardMismatch, d1)
         else rbind (mintForClaim am po run PrReworkReturn d1) (\<lambda>(a, d2). Inr (Ok (Some a), d2)))"

definition releaseHumanWorking :: "ambient \<Rightarrow> ident \<Rightarrow> db \<Rightarrow> transition_result \<times> db" where
  "releaseHumanWorking am run d =
     (let (rows, d1) = cas run [HumanWorking] (\<lambda>r. r\<lparr>r_status := NeedsInput\<rparr>) d
      in if rows = [] then (Refused StatusGuardMismatch, d1)
         else (Ok None, endActiveTakeover (am_now am) run d1))"

definition ABANDONABLE_STATUSES :: "run_status list" where
  "ABANDONABLE_STATUSES =
     [Pending, Running, NeedsInput, NeedsInputIdle, WaitingOnChildren, Review, Crashed]"

definition operator_cause :: terminal_cause where
  "operator_cause = \<lparr>tc_code = None, tc_reason = Some ''user'', tc_source = SrcOperator\<rparr>"

definition abandonRunInTransaction :: "ambient \<Rightarrow> ident \<Rightarrow> terminal_cause option \<Rightarrow> db \<Rightarrow> bool \<times> db" where
  "abandonRunInTransaction am run cause d =
     (let (rows, d1) = cas run ABANDONABLE_STATUSES
            (\<lambda>r. r\<lparr>r_status := Abandoned, r_endedAt := Some (am_now am)\<rparr>) d
      in case rows of
           [] \<Rightarrow> (False, d1)
         | r # _ \<Rightarrow>
             let d2 = releaseSyncClaimOnTerminal (am_now am) run ''CRASH'' d1;
                 d3 = released am run ''abandoned'' d2;
                 removeAt = am_now am + gcAgeDays (am_gcAgeDays am) * 86400000;
                 d4 = d3\<lparr>workspaces := sql_update (\<lambda>w. w_runId w = run)
                          (\<lambda>w. w\<lparr>w_scheduledRemovalAt := Some removeAt\<rparr>) (workspaces d3)\<rparr>
             in (True, emit_terminal am r ''run.abandoned'' [(''source'', JStr ''user'')] EvRunAbandoned
                         (case cause of None \<Rightarrow> operator_cause | Some c \<Rightarrow> c) ''user'' d4))"

definition markAbandoned :: "ambient \<Rightarrow> ident \<Rightarrow> terminal_cause option \<Rightarrow> db \<Rightarrow> transition_result \<times> db" where
  "markAbandoned am run cause d =
     (let (abandoned, d1) = abandonRunInTransaction am run cause d
      in if abandoned then (Ok None, d1) else (Refused StatusGuardMismatch, d1))"

definition crashResumedRun :: "ambient \<Rightarrow> ident \<Rightarrow> string \<Rightarrow> db \<Rightarrow> transition_result \<times> db" where
  "crashResumedRun am run reason d =
     (let (rows, d1) = cas run [NeedsInput] (\<lambda>r. r\<lparr>r_status := Crashed, r_endedAt := Some (am_now am)\<rparr>) d
      in case rows of
           [] \<Rightarrow> (Refused StatusGuardMismatch, d1)
         | r # _ \<Rightarrow>
             (Ok None, emit_terminal am r ''run.crashed'' [(''errorCode'', JStr reason)] EvRunCrashed
                         (resumeFailureCause reason) reason
                         (released am run ''crashed'' (releaseSyncClaimOnTerminal (am_now am) run reason d1))))"

datatype crash_reason =
    WorktreeGone | AgentSessionGone | CliNotRetrySafe | OrphanedChild | OrchestratorStuck | TurnLost
  | SessionCrashed | StreamLost | OwnerPoisoned

definition crash_token :: "crash_reason \<Rightarrow> string" where
  "crash_token r =
     (case r of WorktreeGone \<Rightarrow> ''worktree-gone'' | AgentSessionGone \<Rightarrow> ''agent-session-gone''
      | CliNotRetrySafe \<Rightarrow> ''cli-not-retry-safe'' | OrphanedChild \<Rightarrow> ''orphaned-child''
      | OrchestratorStuck \<Rightarrow> ''orchestrator-stuck'' | TurnLost \<Rightarrow> ''turn-lost''
      | SessionCrashed \<Rightarrow> ''session-crashed'' | StreamLost \<Rightarrow> ''stream-lost''
      | OwnerPoisoned \<Rightarrow> ''owner-poisoned'')"

definition crash_row :: "time \<Rightarrow> run_row \<Rightarrow> run_row" where
  "crash_row now r =
     r\<lparr>r_status := Crashed, r_endedAt := Some now, r_resumeTargetStepId := r_currentStepId r,
       r_currentStepId := None, r_resumeStartedAt := None\<rparr>"

text \<open>The \<^verbatim>\<open>CASE\<close> of \<^verbatim>\<open>closedAnswerResponse\<close>: only a permission row with an answer object is marked.\<close>

definition closedAnswerResponse :: "string \<Rightarrow> time \<Rightarrow> hitl_row \<Rightarrow> json option" where
  "closedAnswerResponse reason at0 h =
     (case hr_response h of
        Some (JObj kvs) \<Rightarrow>
          if hr_kind h = HkPermission
          then Some (JObj (AList.update ''_closed''
                 (JObj [(''reason'', JStr reason), (''at'', JStr (js_toISOString at0))]) kvs))
          else hr_response h
      | _ \<Rightarrow> hr_response h)"

definition closedAnswerReason :: "json option \<Rightarrow> string option" where
  "closedAnswerReason response =
     (case response of
        None \<Rightarrow> None
      | Some v \<Rightarrow>
          (case own_prop v ''_closed'' of
             Some c \<Rightarrow> (case own_prop c ''reason'' of Some (JStr s) \<Rightarrow> Some s | _ \<Rightarrow> None)
           | None \<Rightarrow> None))"

definition close_hitl :: "time \<Rightarrow> ident \<Rightarrow> db \<Rightarrow> db" where
  "close_hitl now run d =
     d\<lparr>hitlRequests := sql_update (\<lambda>h. hr_runId h = run \<and> hr_respondedAt h = None)
         (\<lambda>h. h\<lparr>hr_respondedAt := Some now, hr_response := closedAnswerResponse ''session_ended'' now h\<rparr>)
         (hitlRequests d)\<rparr>"

definition crash_cause :: "crash_reason \<Rightarrow> terminal_cause_source \<Rightarrow> terminal_cause" where
  "crash_cause reason src =
     \<lparr>tc_code = Some CRASH, tc_reason = Some (causeReason (crash_token reason)), tc_source = src\<rparr>"

definition crashRunningRun ::
    "ambient \<Rightarrow> ident \<Rightarrow> crash_reason \<Rightarrow> run_status list option \<Rightarrow> terminal_cause_source option \<Rightarrow> db
       \<Rightarrow> transition_result \<times> db" where
  "crashRunningRun am run reason fromStatuses causeSource d =
     (let (rows, d1) = cas run (case fromStatuses of None \<Rightarrow> [Running] | Some ss \<Rightarrow> ss)
            (crash_row (am_now am)) d
      in case rows of
           [] \<Rightarrow> (Refused StatusGuardMismatch, d1)
         | r # _ \<Rightarrow>
             let d2 = close_hitl (am_now am) run d1;
                 d3 = releaseSyncClaimOnTerminal (am_now am) run (crash_token reason) d2;
                 d4 = released am run ''crashed'' d3
             in (Ok None, emit_terminal am r ''run.crashed'' [(''errorCode'', JStr (crash_token reason))]
                   EvRunCrashed
                   (crash_cause reason (case causeSource of None \<Rightarrow> SrcReconcile | Some s \<Rightarrow> s))
                   (crash_token reason) d4))"

definition crashWaitingOnChildren ::
    "ambient \<Rightarrow> ident \<Rightarrow> crash_reason \<Rightarrow> db \<Rightarrow> transition_result \<times> db" where
  "crashWaitingOnChildren am run reason d =
     (let (rows, d1) = cas run [WaitingOnChildren]
            (\<lambda>r. (crash_row (am_now am) r)\<lparr>r_checkpointAt := None, r_keepaliveUntil := None\<rparr>) d
      in case rows of
           [] \<Rightarrow> (Refused StatusGuardMismatch, d1)
         | r # _ \<Rightarrow>
             let d2 = releaseSyncClaimOnTerminal (am_now am) run (crash_token reason) d1;
                 d3 = released am run ''crashed'' d2
             in (Ok None, emit_terminal am r ''run.crashed'' [(''errorCode'', JStr (crash_token reason))]
                   EvRunCrashed (crash_cause reason SrcReconcile) (crash_token reason) d3))"

section \<open>The machine\<close>

text \<open>The transitions as data, and one step of the machine.\<close>

datatype transition =
    MarkCheckpointed ident
  | MarkCheckpointedFromExit ident
  | MarkResumed placement_opts "permission_handoff option" bool ident
  | ClaimAgentIdleResume placement_opts ident
  | MarkWaitingOnChildren ident
  | MarkResumedFromWait placement_opts "(ident \<times> ident) option" ident
  | RollbackResumeFromWait ident
  | MarkReworkFromReview ident
  | MarkReworkClaimFromReview ident
  | MarkReviewFromReworkClaim ident
  | MarkSyncFromReview ident
  | MarkSyncReviewFromRunning ident
  | MarkSyncReviewFromNeedsInput bool ident
  | MarkReopenFromDone ident
  | BumpKeepalive ident
  | FailResumedRun ident string
  | RollbackResumedRun ident
  | MarkHumanWorking ident
  | MarkReturnedToRunning placement_opts ident
  | ReleaseHumanWorking ident
  | MarkAbandoned ident "terminal_cause option"
  | CrashResumedRun ident string
  | CrashRunningRun ident crash_reason "run_status list option" "terminal_cause_source option"
  | CrashWaitingOnChildren ident crash_reason

fun exec :: "authorizers \<Rightarrow> ambient \<Rightarrow> transition \<Rightarrow> db \<Rightarrow> maister_error + (transition_result \<times> db)" where
  "exec au am (MarkCheckpointed i) d = Inr (markCheckpointed am i d)"
| "exec au am (MarkCheckpointedFromExit i) d = Inr (markCheckpointedFromExit am i d)"
| "exec au am (MarkResumed po p u i) d = markResumed au am po p u i d"
| "exec au am (ClaimAgentIdleResume po i) d = claimAgentIdleResumeInTransaction au am po i d"
| "exec au am (MarkWaitingOnChildren i) d = Inr (markWaitingOnChildren am i d)"
| "exec au am (MarkResumedFromWait po e i) d = markResumedFromWait au am po e i d"
| "exec au am (RollbackResumeFromWait i) d = Inr (rollbackResumeFromWait am i d)"
| "exec au am (MarkReworkFromReview i) d = Inr (markReworkFromReview i d)"
| "exec au am (MarkReworkClaimFromReview i) d = Inr (markReworkClaimFromReview i d)"
| "exec au am (MarkReviewFromReworkClaim i) d = Inr (markReviewFromReworkClaim am i d)"
| "exec au am (MarkSyncFromReview i) d = Inr (markSyncFromReview i d)"
| "exec au am (MarkSyncReviewFromRunning i) d = Inr (markSyncReviewFromRunning am i d)"
| "exec au am (MarkSyncReviewFromNeedsInput b i) d = Inr (markSyncReviewFromNeedsInput am b i d)"
| "exec au am (MarkReopenFromDone i) d = Inr (markReopenFromDone i d)"
| "exec au am (BumpKeepalive i) d = Inr (bumpKeepalive am i d)"
| "exec au am (FailResumedRun i reason) d = Inr (failResumedRun am i reason d)"
| "exec au am (RollbackResumedRun i) d = Inr (rollbackResumedRun am i d)"
| "exec au am (MarkHumanWorking i) d = Inr (markHumanWorking i d)"
| "exec au am (MarkReturnedToRunning po i) d = markReturnedToRunning am po i d"
| "exec au am (ReleaseHumanWorking i) d = Inr (releaseHumanWorking am i d)"
| "exec au am (MarkAbandoned i c) d = Inr (markAbandoned am i c d)"
| "exec au am (CrashResumedRun i reason) d = Inr (crashResumedRun am i reason d)"
| "exec au am (CrashRunningRun i reason ss src) d = Inr (crashRunningRun am i reason ss src d)"
| "exec au am (CrashWaitingOnChildren i reason) d = Inr (crashWaitingOnChildren am i reason d)"

end
