(* ===== verification/RunMachine.thy ===== *)
theory RunMachine
  imports RunState
begin

text \<open>
  The abstract machine the transitions implement: per transition a subject, the statuses it starts from,
  the status it ends in and what it does to the driver generation.  \<open>exec_conforms\<close> is the refinement:
  an accepted transition is exactly its line of the table and leaves every other run alone, a refused one
  changes no status and no generation.  The global properties of \<open>RunStateProps\<close> read the table.
\<close>

section \<open>The table\<close>

datatype driver_effect = KeepDriver | ReleaseDriver | MintDriver

fun subject :: "transition \<Rightarrow> ident" where
  "subject (MarkCheckpointed i) = i"
| "subject (MarkCheckpointedFromExit i) = i"
| "subject (MarkResumed po p u i) = i"
| "subject (ClaimAgentIdleResume po i) = i"
| "subject (MarkWaitingOnChildren i) = i"
| "subject (MarkResumedFromWait po e i) = i"
| "subject (RollbackResumeFromWait i) = i"
| "subject (MarkReworkFromReview i) = i"
| "subject (MarkReworkClaimFromReview i) = i"
| "subject (MarkReviewFromReworkClaim i) = i"
| "subject (MarkSyncFromReview i) = i"
| "subject (MarkSyncReviewFromRunning i) = i"
| "subject (MarkSyncReviewFromNeedsInput b i) = i"
| "subject (MarkReopenFromDone i) = i"
| "subject (BumpKeepalive i) = i"
| "subject (FailResumedRun i reason) = i"
| "subject (RollbackResumedRun i) = i"
| "subject (MarkHumanWorking i) = i"
| "subject (MarkReturnedToRunning po i) = i"
| "subject (ReleaseHumanWorking i) = i"
| "subject (MarkAbandoned i c) = i"
| "subject (CrashResumedRun i reason) = i"
| "subject (CrashRunningRun i reason ss src) = i"
| "subject (CrashWaitingOnChildren i reason) = i"

fun sources :: "transition \<Rightarrow> run_status list" where
  "sources (MarkCheckpointed i) = [NeedsInput]"
| "sources (MarkCheckpointedFromExit i) = [NeedsInput]"
| "sources (MarkResumed po p u i) = [NeedsInputIdle]"
| "sources (ClaimAgentIdleResume po i) = [NeedsInputIdle]"
| "sources (MarkWaitingOnChildren i) = [Running]"
| "sources (MarkResumedFromWait po e i) = [WaitingOnChildren]"
| "sources (RollbackResumeFromWait i) = [Running]"
| "sources (MarkReworkFromReview i) = [Review]"
| "sources (MarkReworkClaimFromReview i) = [Review]"
| "sources (MarkReviewFromReworkClaim i) = [HumanWorking]"
| "sources (MarkSyncFromReview i) = [Review]"
| "sources (MarkSyncReviewFromRunning i) = [Running]"
| "sources (MarkSyncReviewFromNeedsInput b i) = [if b then NeedsInputIdle else NeedsInput]"
| "sources (MarkReopenFromDone i) = [Done]"
| "sources (BumpKeepalive i) = [Running, NeedsInput]"
| "sources (FailResumedRun i reason) = [NeedsInputIdle, NeedsInput]"
| "sources (RollbackResumedRun i) = [NeedsInput]"
| "sources (MarkHumanWorking i) = [NeedsInput]"
| "sources (MarkReturnedToRunning po i) = [HumanWorking]"
| "sources (ReleaseHumanWorking i) = [HumanWorking]"
| "sources (MarkAbandoned i c) = ABANDONABLE_STATUSES"
| "sources (CrashResumedRun i reason) = [NeedsInput]"
| "sources (CrashRunningRun i reason ss src) = (case ss of None \<Rightarrow> [Running] | Some l \<Rightarrow> l)"
| "sources (CrashWaitingOnChildren i reason) = [WaitingOnChildren]"

fun target :: "transition \<Rightarrow> run_status \<Rightarrow> run_status" where
  "target (MarkCheckpointed i) = (\<lambda>s. NeedsInputIdle)"
| "target (MarkCheckpointedFromExit i) = (\<lambda>s. NeedsInputIdle)"
| "target (MarkResumed po p u i) = (\<lambda>s. NeedsInput)"
| "target (ClaimAgentIdleResume po i) = (\<lambda>s. Running)"
| "target (MarkWaitingOnChildren i) = (\<lambda>s. WaitingOnChildren)"
| "target (MarkResumedFromWait po e i) = (\<lambda>s. Running)"
| "target (RollbackResumeFromWait i) = (\<lambda>s. WaitingOnChildren)"
| "target (MarkReworkFromReview i) = (\<lambda>s. Running)"
| "target (MarkReworkClaimFromReview i) = (\<lambda>s. HumanWorking)"
| "target (MarkReviewFromReworkClaim i) = (\<lambda>s. Review)"
| "target (MarkSyncFromReview i) = (\<lambda>s. Running)"
| "target (MarkSyncReviewFromRunning i) = (\<lambda>s. Review)"
| "target (MarkSyncReviewFromNeedsInput b i) = (\<lambda>s. Review)"
| "target (MarkReopenFromDone i) = (\<lambda>s. Review)"
| "target (BumpKeepalive i) = (\<lambda>s. s)"
| "target (FailResumedRun i reason) = (\<lambda>s. Failed)"
| "target (RollbackResumedRun i) = (\<lambda>s. NeedsInputIdle)"
| "target (MarkHumanWorking i) = (\<lambda>s. HumanWorking)"
| "target (MarkReturnedToRunning po i) = (\<lambda>s. Running)"
| "target (ReleaseHumanWorking i) = (\<lambda>s. NeedsInput)"
| "target (MarkAbandoned i c) = (\<lambda>s. Abandoned)"
| "target (CrashResumedRun i reason) = (\<lambda>s. Crashed)"
| "target (CrashRunningRun i reason ss src) = (\<lambda>s. Crashed)"
| "target (CrashWaitingOnChildren i reason) = (\<lambda>s. Crashed)"

fun driver_of :: "transition \<Rightarrow> driver_effect" where
  "driver_of (MarkResumed po p u i) = MintDriver"
| "driver_of (ClaimAgentIdleResume po i) = MintDriver"
| "driver_of (MarkResumedFromWait po e i) = MintDriver"
| "driver_of (MarkReturnedToRunning po i) = MintDriver"
| "driver_of (MarkReworkFromReview i) = KeepDriver"
| "driver_of (MarkReworkClaimFromReview i) = KeepDriver"
| "driver_of (MarkReviewFromReworkClaim i) = KeepDriver"
| "driver_of (MarkSyncFromReview i) = KeepDriver"
| "driver_of (MarkReopenFromDone i) = KeepDriver"
| "driver_of (BumpKeepalive i) = KeepDriver"
| "driver_of (MarkHumanWorking i) = KeepDriver"
| "driver_of (ReleaseHumanWorking i) = KeepDriver"
| "driver_of _ = ReleaseDriver"

section \<open>Moves\<close>

definition driver_change :: "driver_effect \<Rightarrow> ident \<Rightarrow> db \<Rightarrow> db \<Rightarrow> bool" where
  "driver_change e run d d' \<longleftrightarrow>
     (case e of
        KeepDriver \<Rightarrow> executionAssignments d' = executionAssignments d
      | ReleaseDriver \<Rightarrow>
          (\<exists>now reason. executionAssignments d' = executionAssignments (snd (releaseAssignmentForRun now run reason d)))
      | MintDriver \<Rightarrow>
          (\<exists>now uuid host reason a d0 d1. executionAssignments d0 = executionAssignments d
             \<and> mintAssignment now uuid run host reason d0 = Inr (a, d1)
             \<and> executionAssignments d' = executionAssignments d1))"

definition moved ::
    "ident \<Rightarrow> run_status list \<Rightarrow> (run_status \<Rightarrow> run_status) \<Rightarrow> driver_effect \<Rightarrow> db \<Rightarrow> db \<Rightarrow> bool" where
  "moved run from to e d d' \<longleftrightarrow>
     (\<exists>s. status_of d run = Some s \<and> s \<in> set from \<and> status_of d' run = Some (to s))
     \<and> (\<forall>i. i \<noteq> run \<longrightarrow> status_of d' i = status_of d i)
     \<and> map r_id (runs d') = map r_id (runs d)
     \<and> driver_change e run d d'"

text \<open>No status and no generation changes.\<close>

definition quiet :: "db \<Rightarrow> db \<Rightarrow> bool" where
  "quiet d d' \<longleftrightarrow>
     (\<forall>i. status_of d' i = status_of d i) \<and> map r_id (runs d') = map r_id (runs d)
     \<and> executionAssignments d' = executionAssignments d"

lemma quiet_refl [simp]: "quiet d d"
  by (simp add: quiet_def)

lemma quiet_trans [trans]: "quiet d d1 \<Longrightarrow> quiet d1 d2 \<Longrightarrow> quiet d d2"
  by (simp add: quiet_def)

lemma quiet_runs:
  "runs d' = runs d \<Longrightarrow> executionAssignments d' = executionAssignments d \<Longrightarrow> quiet d d'"
  by (simp add: quiet_def status_of_def run_of_def)

lemma release_cong:
  "executionAssignments d = executionAssignments d' \<Longrightarrow>
     executionAssignments (snd (releaseAssignmentForRun now run reason d))
       = executionAssignments (snd (releaseAssignmentForRun now run reason d'))"
  by (simp add: releaseAssignmentForRun_def)

lemma moved_quiet:
  assumes "moved run from to e d d1" and "quiet d1 d2"
  shows "moved run from to e d d2"
  using assms by (cases e) (auto simp: moved_def quiet_def driver_change_def)

lemma moved_release:
  assumes "moved run from to KeepDriver d d1"
  shows "moved run from to ReleaseDriver d (snd (releaseAssignmentForRun now run reason d1))"
proof -
  have "executionAssignments (snd (releaseAssignmentForRun now run reason d1))
      = executionAssignments (snd (releaseAssignmentForRun now run reason d))"
    using assms by (intro release_cong) (simp add: moved_def driver_change_def)
  moreover have "runs (snd (releaseAssignmentForRun now run reason d1)) = runs d1"
    by (simp add: releaseAssignmentForRun_def)
  ultimately show ?thesis
    using assms by (auto simp: moved_def driver_change_def status_of_def run_of_def)
qed

lemma claim_run_row_simps [simp]:
  "r_id (claim_run_row uuid r) = r_id r" "r_status (claim_run_row uuid r) = r_status r"
  by (simp_all add: claim_run_row_def)

lemma status_update:
  assumes "runs d' = sql_update P f (runs d)" and "\<And>r. r_id (f r) = r_id r" and "\<And>r. r_status (f r) = r_status r"
  shows "status_of d' i = status_of d i" and "map r_id (runs d') = map r_id (runs d)"
proof -
  have "run_of d' i = map_option (\<lambda>r. if P r then f r else r) (run_of d i)"
    unfolding run_of_def assms(1) by (rule runs_t.row_update) (rule assms(2))
  then show "status_of d' i = status_of d i"
    using assms(3) by (cases "run_of d i") (simp_all add: status_of_def)
  show "map r_id (runs d') = map r_id (runs d)"
    unfolding assms(1) by (rule runs_t.map_pk_update) (rule assms(2))
qed

lemma moved_mint:
  assumes "wf_assignments (executionAssignments d)" and "moved run from to KeepDriver d d1"
    and "mintForClaim am po run reason d1 = Inr (a, d2)"
  shows "moved run from to MintDriver d d2"
proof -
  have ea: "executionAssignments d1 = executionAssignments d"
    using assms(2) by (simp add: moved_def driver_change_def)
  from assms(3) obtain h rs where mint: "mintAssignment (am_now am) (am_assignmentId am) run h rs d1 = Inr (a, d2)"
    by (auto simp: mintForClaim_def mintPlacement_def rbind_Inr_iff)
  have "runs d2 = sql_update (\<lambda>r. r_id r = run) (claim_run_row (am_assignmentId am)) (runs d1)"
    using mintAssignment_InrD(2)[OF _ mint] assms(1) ea by simp
  note st = status_update[OF this]
  have "driver_change MintDriver run d d2"
    unfolding driver_change_def driver_effect.case using mint ea by blast
  with assms(2) st show ?thesis by (simp add: moved_def)
qed

section \<open>Quiet steps\<close>

lemma quiet_emit: "quiet d (emitDomainEvent now inp d)"
proof -
  have "map r_id (runs (emitDomainEvent now inp d)) = map r_id (runs d)"
    by (simp add: emitDomainEvent_runs runs_t.map_pk_update split: option.splits)
  then show ?thesis by (simp add: quiet_def)
qed

lemma quiet_webhook: "quiet d (snd (emitWebhookEvent now uuid inp d))"
  by (rule quiet_runs) simp_all

lemma quiet_review: "quiet d (emitDelegatedReviewIfChild now r cause result d)"
  by (simp add: emitDelegatedReviewIfChild_def quiet_emit)

lemma quiet_terminal: "quiet d (emit_terminal am r type data kind cause reason d)"
  unfolding emit_terminal_def by (rule quiet_trans[OF quiet_webhook quiet_emit])

lemma quiet_sync: "quiet d (releaseSyncClaimOnTerminal now run code d)"
  by (rule quiet_runs) (simp_all add: releaseSyncClaimOnTerminal_def)

lemma quiet_hitl: "quiet d (close_hitl now run d)"
  by (rule quiet_runs) (simp_all add: close_hitl_def)

lemma quiet_takeover: "quiet d (endActiveTakeover now run d)"
  by (rule quiet_runs) (simp_all add: endActiveTakeover_def update_attempt_def split: option.splits)

lemma quiet_workspaces: "quiet d (d\<lparr>workspaces := ws\<rparr>)"
  by (rule quiet_runs) simp_all

lemmas quiet_steps = quiet_emit quiet_webhook quiet_review quiet_terminal quiet_sync quiet_hitl
  quiet_takeover quiet_workspaces

section \<open>Authorizers\<close>

text \<open>
  What the authorizers and the audit leave alone: they write gate results, node attempts, HITL requests
  and tables outside this model, never the runs, their assignments, their workspaces or the outboxes.
\<close>

definition keeps_core :: "db \<Rightarrow> db \<Rightarrow> bool" where
  "keeps_core d d' \<longleftrightarrow>
     runs d' = runs d \<and> executionAssignments d' = executionAssignments d \<and> workspaces d' = workspaces d
     \<and> runSyncAttempts d' = runSyncAttempts d \<and> domainEvents d' = domainEvents d
     \<and> webhookEvents d' = webhookEvents d"

definition authorizers_frame :: "authorizers \<Rightarrow> bool" where
  "authorizers_frame au \<longleftrightarrow>
     (\<forall>i d d'. au_consumeUndelivered au i d = Inr d' \<longrightarrow> keeps_core d d')
     \<and> (\<forall>f \<in> {au_gateContinuation au, au_nodeContinuation au, au_gateResult au, au_nodeResult au,
              au_nodeResume au, au_nodeInterruptResume au, au_agentPermission au,
              au_admitCompletedAgent au, au_orchestratorAction au}.
          \<forall>a d d'. f a d = Inr d' \<longrightarrow> keeps_core d d')
     \<and> (\<forall>a d b d'. au_gateResume au a d = Inr (b, d') \<longrightarrow> keeps_core d d')
     \<and> (\<forall>d d'. au_successAudit au d = Inr d' \<longrightarrow> keeps_core d d')"

lemma keeps_core_refl [simp]: "keeps_core d d"
  by (simp add: keeps_core_def)

lemma keeps_core_trans: "keeps_core d d1 \<Longrightarrow> keeps_core d1 d2 \<Longrightarrow> keeps_core d d2"
  by (simp add: keeps_core_def)

lemma quiet_core: "keeps_core d d' \<Longrightarrow> quiet d d'"
  by (rule quiet_runs) (simp_all add: keeps_core_def)

lemma authorizers_frameD:
  assumes "authorizers_frame au"
  shows "au_consumeUndelivered au i d = Inr d' \<Longrightarrow> keeps_core d d'"
    and "au_gateContinuation au a d = Inr d' \<Longrightarrow> keeps_core d d'"
    and "au_nodeContinuation au a d = Inr d' \<Longrightarrow> keeps_core d d'"
    and "au_gateResult au a d = Inr d' \<Longrightarrow> keeps_core d d'"
    and "au_nodeResult au a d = Inr d' \<Longrightarrow> keeps_core d d'"
    and "au_gateResume au a d = Inr (b, d') \<Longrightarrow> keeps_core d d'"
    and "au_nodeResume au a d = Inr d' \<Longrightarrow> keeps_core d d'"
    and "au_nodeInterruptResume au a d = Inr d' \<Longrightarrow> keeps_core d d'"
    and "au_agentPermission au a d = Inr d' \<Longrightarrow> keeps_core d d'"
    and "au_admitCompletedAgent au a d = Inr d' \<Longrightarrow> keeps_core d d'"
    and "au_orchestratorAction au a d = Inr d' \<Longrightarrow> keeps_core d d'"
    and "au_successAudit au d = Inr d' \<Longrightarrow> keeps_core d d'"
  using assms unfolding authorizers_frame_def by auto

lemma authorize_resume_core:
  assumes "authorizers_frame au" and "authorize_resume au permission a d = Inr d'"
  shows "keeps_core d d'"
proof (cases permission)
  case None
  with assms(2) obtain done0 d1 where g: "au_gateResume au a d = Inr (done0, d1)"
    and rest: "(if done0 then Inr d1 else rbind (au_nodeResume au a d1) (au_nodeInterruptResume au a)) = Inr d'"
    by (auto simp: authorize_resume_def rbind_Inr_iff)
  have "keeps_core d1 d'"
    using rest authorizers_frameD(7,8)[OF assms(1)]
    by (auto simp: rbind_Inr_iff split: if_splits) (blast intro: keeps_core_trans)
  with authorizers_frameD(6)[OF assms(1) g] show ?thesis by (rule keeps_core_trans)
next
  case (Some p)
  then show ?thesis
    using assms(2) authorizers_frameD(2-5)[OF assms(1)]
    by (auto simp: authorize_resume_def split: permission_handoff.splits if_splits)
qed

lemmas authorizers_quiet = authorizers_frameD[THEN quiet_core] authorize_resume_core[THEN quiet_core]

lemma bind_quiet:
  assumes "rbind m f = Inr d2" and "\<And>x. m = Inr x \<Longrightarrow> quiet d x" and "\<And>x. f x = Inr d2 \<Longrightarrow> quiet x d2"
  shows "quiet d d2"
  using assms by (auto simp: rbind_Inr_iff intro: quiet_trans)

section \<open>The guarded flip\<close>

lemma cas_cases:
  assumes wf: "runs_t.wf_rows (runs d)" and f: "\<And>r. r_id (f r) = r_id r"
    and cas: "cas run from f d = (rows, d1)"
  obtains (miss) "rows = []" and "d1 = d" and "\<And>r. run_of d run = Some r \<Longrightarrow> r_status r \<notin> set from"
  | (hit) r where "run_of d run = Some r" and "r_status r \<in> set from" and "rows = [f r]"
      and "d1 = d\<lparr>runs := sql_update (cas_guard run from) f (runs d)\<rparr>"
      and "run_of d1 run = Some (f r)" and "\<And>i. i \<noteq> run \<Longrightarrow> run_of d1 i = run_of d i"
proof -
  have rows: "rows = (case run_of d run of None \<Rightarrow> [] | Some r \<Rightarrow> if r_status r \<in> set from then [f r] else [])"
    using cas runs_t.returning_key[OF wf, of run "\<lambda>r. r_status r \<in> set from" f]
    by (simp add: cas_def cas_guard_def[abs_def] run_of_def)
  have d1: "d1 = d\<lparr>runs := sql_update (cas_guard run from) f (runs d)\<rparr>"
    using cas by (simp add: cas_def)
  have runs1: "run_of d1 i = map_option (\<lambda>r. if cas_guard run from r then f r else r) (run_of d i)" for i
    unfolding run_of_def d1 by (simp add: runs_t.row_update f)
  show thesis
  proof (cases "\<exists>r. run_of d run = Some r \<and> r_status r \<in> set from")
    case True
    then obtain r where r: "run_of d run = Some r" "r_status r \<in> set from" by blast
    have id: "r_id r = run"
      using r(1) runs_t.row_in_set by (fastforce simp: run_of_def)
    have other: "run_of d1 i = run_of d i" if "i \<noteq> run" for i
    proof (cases "run_of d i")
      case None
      then show ?thesis by (simp add: runs1)
    next
      case (Some x)
      then have "r_id x = i"
        using runs_t.row_in_set[of i "runs d"] by (simp add: run_of_def)
      with Some that show ?thesis by (simp add: runs1 cas_guard_def)
    qed
    show thesis
      using hit[OF r] rows r d1 other runs1[of run] id by (simp add: cas_guard_def)
  next
    case False
    then have "\<And>r. r \<in> set (runs d) \<Longrightarrow> \<not> cas_guard run from r"
      using runs_t.row_unique[OF wf] by (auto simp: cas_guard_def run_of_def)
    then have "d1 = d"
      unfolding d1 by (simp add: sql_update_none)
    with False rows show thesis
      using miss by (auto split: option.splits)
  qed
qed

lemma cas_moved:
  assumes "run_of d run = Some r" and "r_status r \<in> set from" and "run_of d1 run = Some (f r)"
    and "\<And>i. i \<noteq> run \<Longrightarrow> run_of d1 i = run_of d i"
    and "d1 = d\<lparr>runs := sql_update (cas_guard run from) f (runs d)\<rparr>"
    and "\<And>r. r_id (f r) = r_id r" and "\<And>r. r_status (f r) = to (r_status r)"
  shows "moved run from to KeepDriver d d1"
  using assms
  by (auto simp: moved_def status_of_def driver_change_def runs_t.map_pk_update)

text \<open>
  What a flip makes of a database, as a rule: either nothing happened and the rest of the transition
  refuses, or the run moved and the rest runs on the moved state.
\<close>

lemma casE:
  assumes "runs_t.wf_rows (runs d)" and "\<And>r. r_id (f r) = r_id r" and "\<And>r. r_status (f r) = to (r_status r)"
  obtains (miss) "cas run src f d = ([], d)"
  | (hit) r d1 where "cas run src f d = ([f r], d1)" and "run_of d run = Some r" and "r_id (f r) = run"
      and "moved run src to KeepDriver d d1"
      and "d1 = d\<lparr>runs := sql_update (cas_guard run src) f (runs d)\<rparr>"
proof (cases "cas run src f d")
  case (Pair rows d1)
  from assms(1,2) Pair show thesis
  proof (cases rule: cas_cases)
    case miss
    with that(1) Pair show thesis by simp
  next
    case (hit r)
    have "moved run src to KeepDriver d d1"
      using hit assms(2,3) by (intro cas_moved)
    moreover have "r_id (f r) = run"
      using hit(1) assms(2) runs_t.row_in_set[of run "runs d"] by (auto simp: run_of_def)
    ultimately show thesis
      using that(2)[of r d1] Pair hit(1,3,4) by simp
  qed
qed

section \<open>Every transition is its line of the table\<close>

definition outcome ::
    "ident \<Rightarrow> run_status list \<Rightarrow> (run_status \<Rightarrow> run_status) \<Rightarrow> driver_effect \<Rightarrow> db
       \<Rightarrow> transition_result \<times> db \<Rightarrow> bool" where
  "outcome run from to e d p \<longleftrightarrow>
     (case fst p of Ok _ \<Rightarrow> moved run from to e d (snd p) | Refused _ \<Rightarrow> quiet d (snd p))"

lemma outcome_simps [simp]:
  "outcome run from to e d (Ok a, d') \<longleftrightarrow> moved run from to e d d'"
  "outcome run from to e d (Refused x, d') \<longleftrightarrow> quiet d d'"
  by (simp_all add: outcome_def)

lemma moved_id_quiet:
  assumes "moved run from (\<lambda>s. s) KeepDriver d d'"
  shows "quiet d d'"
proof -
  have "status_of d' i = status_of d i" for i
    using assms by (cases "i = run") (auto simp: moved_def)
  with assms show ?thesis by (simp add: moved_def quiet_def driver_change_def)
qed

lemma cas_only_outcome:
  assumes "runs_t.wf_rows (runs d)" and "\<And>r. r_id (f r) = r_id r" and "\<And>r. r_status (f r) = to (r_status r)"
  shows "outcome run from to KeepDriver d (cas_only run from f d)"
  using assms by (cases rule: casE[where run = run and src = "from"]) (simp_all add: cas_only_def)

lemma cas_release_outcome:
  assumes "runs_t.wf_rows (runs d)" and "\<And>r. r_id (f r) = r_id r" and "\<And>r. r_status (f r) = to (r_status r)"
  shows "outcome run from to ReleaseDriver d (cas_release am run from f reason d)"
  using assms
  by (cases rule: casE[where run = run and src = "from"]) (simp_all add: cas_release_def released_def moved_release)

lemma defer_quiet:
  assumes "runs_t.wf_rows (runs d)"
  shows "quiet d (snd (defer_resume now run s d))"
  unfolding defer_resume_def
  by (cases rule: casE[OF assms, where run = run and src = "[s]" and to = "\<lambda>s. s"
      and f = "\<lambda>r. r\<lparr>r_resumeRequestedAt := coalesce_now (r_resumeRequestedAt r) now\<rparr>"])
     (auto dest: moved_id_quiet)

lemma review_outcome:
  assumes "runs_t.wf_rows (runs d)" and "\<And>r. r_id (f r) = r_id r" and "\<And>r. r_status (f r) = Review"
    and "e = (if reason = None then KeepDriver else ReleaseDriver)"
  shows "outcome run [from] (\<lambda>_. Review) e d (review_result (casToReviewAndEmit am run f from cause reason d))"
  using assms(1,2,3)
proof (cases rule: casE[where run = run and src = "[from]" and to = "\<lambda>_. Review"])
  case miss
  then show ?thesis by (simp add: casToReviewAndEmit_def review_result_def)
next
  case (hit r d1)
  note m = moved_quiet[OF hit(4) quiet_review]
  show ?thesis
    using hit(1) m assms(4)
    by (cases reason)
       (simp_all add: casToReviewAndEmit_def review_result_def released_def moved_release)
qed

lemma terminal_outcome:
  assumes wf: "runs_t.wf_rows (runs d)" and "\<And>r. r_id (f r) = r_id r" and "\<And>r. r_status (f r) = to (r_status r)"
    and quiet: "\<And>d1. quiet d1 (before d1)" and "\<And>r d1. quiet d1 (after r d1)"
  shows "outcome run from to ReleaseDriver d
    (let (rows, d1) = cas run from f d
     in case rows of [] \<Rightarrow> (Refused StatusGuardMismatch, d1)
        | r # _ \<Rightarrow> (Ok None, after r (released am run reason (before d1))))"
  using wf assms(2,3)
proof (cases rule: casE[where run = run and src = "from"])
  case (hit r d1)
  have "moved run from to ReleaseDriver d (released am run reason (before d1))"
    unfolding released_def by (rule moved_release[OF moved_quiet[OF hit(4) quiet]])
  then show ?thesis
    using hit(1) assms(5) moved_quiet by simp
qed simp

lemma mint_outcome:
  assumes wf: "runs_t.wf_rows (runs d)" and wfa: "wf_assignments (executionAssignments d)"
    and "\<And>r. r_id (f r) = r_id r" and "\<And>r. r_status (f r) = to (r_status r)"
    and pre: "\<And>d1 d2. pre d1 = Inr d2 \<Longrightarrow> quiet d1 d2" and post: "\<And>a d1 d2. post a d1 = Inr d2 \<Longrightarrow> quiet d1 d2"
    and ex: "(let (rows, d1) = cas run from f d
         in if rows = [] then Inr (Refused StatusGuardMismatch, d1)
            else rbind (pre d1) (\<lambda>d2. rbind (mintForClaim am po run reason d2) (\<lambda>(a, d3).
                 rbind (post a d3) (\<lambda>d4. Inr (Ok (Some a), d4))))) = Inr p"
  shows "outcome run from to MintDriver d p"
  using wf assms(3,4)
proof (cases rule: casE[where run = run and src = "from"])
  case miss
  with ex show ?thesis by auto
next
  case (hit r d1)
  with ex obtain d2 a d3 d4 where steps: "pre d1 = Inr d2" "mintForClaim am po run reason d2 = Inr (a, d3)"
    "post a d3 = Inr d4" and p: "p = (Ok (Some a), d4)"
    by (auto simp: rbind_Inr_iff)
  have "moved run from to MintDriver d d3"
    by (rule moved_mint[OF wfa moved_quiet[OF hit(4) pre[OF steps(1)]] steps(2)])
  with p post[OF steps(3)] show ?thesis by (simp add: moved_quiet)
qed

lemma row_simps [simp]:
  "r_id (idle_row now r) = r_id r" "r_status (idle_row now r) = NeedsInputIdle"
  "r_id (wait_row now r) = r_id r" "r_status (wait_row now r) = WaitingOnChildren"
  "r_id (live_row r) = r_id r" "r_status (live_row r) = Running"
  "r_id (sync_review_row r) = r_id r" "r_status (sync_review_row r) = Review"
  "r_id (crash_row now r) = r_id r" "r_status (crash_row now r) = Crashed"
  by (simp_all add: idle_row_def wait_row_def live_row_def sync_review_row_def crash_row_def)

definition wf_db :: "db \<Rightarrow> bool" where
  "wf_db d \<longleftrightarrow> runs_t.wf_rows (runs d) \<and> wf_assignments (executionAssignments d)"

lemma checkpoint_eq:
  "markCheckpointed am run d = cas_release am run [NeedsInput] (idle_row (am_now am)) ''checkpointed'' d"
  "markCheckpointedFromExit am run d = markCheckpointed am run d"
  by (simp_all add: markCheckpointed_def markCheckpointedFromExit_def idleFromNeedsInput_def cas_release_def
      split: prod.splits)

lemma resumed_outcome:
  assumes "wf_db d" and "authorizers_frame au" and "markResumed au am po permission undelivered run d = Inr p"
  shows "outcome run [NeedsInputIdle] (\<lambda>_. NeedsInput) MintDriver d p"
proof (rule mint_outcome[where pre = "\<lambda>d1. if undelivered then au_consumeUndelivered au run d1 else Inr d1"
      and post = "\<lambda>a d3. rbind (authorize_resume au permission a d3) (au_successAudit au)"])
  show "(let (rows, d1) = cas run [NeedsInputIdle]
          (\<lambda>r. r\<lparr>r_status := NeedsInput, r_keepaliveUntil := Some (nextKeepaliveAt am), r_checkpointAt := None\<rparr>) d
        in if rows = [] then Inr (Refused StatusGuardMismatch, d1)
           else rbind (if undelivered then au_consumeUndelivered au run d1 else Inr d1)
                 (\<lambda>d2. rbind (mintForClaim am po run PrResume d2)
                   (\<lambda>(a, d3). rbind (rbind (authorize_resume au permission a d3) (au_successAudit au))
                      (\<lambda>d4. Inr (Ok (Some a), d4))))) = Inr p"
    using assms(3) unfolding markResumed_def rbind_assoc .
  show "quiet d1 d2" if "(if undelivered then au_consumeUndelivered au run d1 else Inr d1) = Inr d2" for d1 d2
    using that authorizers_frameD(1)[OF assms(2)] by (auto split: if_splits intro: quiet_core)
  show "quiet d1 d2" if "rbind (authorize_resume au permission a d1) (au_successAudit au) = Inr d2" for a d1 d2
    by (rule bind_quiet[OF that]) (rule authorizers_quiet[OF assms(2)], assumption)+
qed (use assms(1) in \<open>simp_all add: wf_db_def\<close>)

lemma agent_resume_outcome:
  assumes "wf_db d" and "authorizers_frame au" and "claimAgentIdleResumeInTransaction au am po run d = Inr p"
  shows "outcome run [NeedsInputIdle] (\<lambda>_. Running) MintDriver d p"
proof -
  from assms(3) obtain permission where perm: "au_readAgentPermission au run d = Inr permission"
    by (auto simp: claimAgentIdleResumeInTransaction_def rbind_Inr_iff)
  show ?thesis
  proof (cases permission)
    case (Some reason)
    then show ?thesis
      using assms(1,3) perm defer_quiet
      by (auto simp: claimAgentIdleResumeInTransaction_def wf_db_def)
  next
    case None
    show ?thesis
    proof (rule mint_outcome[where pre = Inr and reason = PrResume and am = am and po = po
          and post = "\<lambda>a d2. rbind (au_agentPermission au a d2)
                  (\<lambda>d3. rbind (au_admitCompletedAgent au a d3) (au_successAudit au))"])
      show "(let (rows, d1) = cas run [NeedsInputIdle]
              (\<lambda>r. r\<lparr>r_status := Running, r_resumeRequestedAt := None, r_keepaliveUntil := None,
                     r_checkpointAt := None\<rparr>) d
            in if rows = [] then Inr (Refused StatusGuardMismatch, d1)
               else rbind (Inr d1) (\<lambda>d2. rbind (mintForClaim am po run PrResume d2)
                     (\<lambda>(a, d3). rbind (rbind (au_agentPermission au a d3)
                        (\<lambda>d3. rbind (au_admitCompletedAgent au a d3) (au_successAudit au)))
                        (\<lambda>d4. Inr (Ok (Some a), d4))))) = Inr p"
        using assms(3) unfolding claimAgentIdleResumeInTransaction_def perm None rbind_assoc rbind_simps
          option.case .
      show "quiet d1 d2" if "rbind (au_agentPermission au a d1)
          (\<lambda>d3. rbind (au_admitCompletedAgent au a d3) (au_successAudit au)) = Inr d2" for a d1 d2
        by (rule bind_quiet[OF that])
           (rule bind_quiet authorizers_quiet[OF assms(2)], assumption)+
    qed (use assms(1) in \<open>simp_all add: wf_db_def\<close>)
  qed
qed

lemma wait_resume_outcome:
  assumes "wf_db d" and "authorizers_frame au" and "markResumedFromWait au am po expected run d = Inr p"
  shows "outcome run [WaitingOnChildren] (\<lambda>_. Running) MintDriver d p"
proof (cases "coordinator_guard expected run d = None
    \<and> int (countLiveRuns FlowPool d) < fst (effectivePoolCap (am_caps am) FlowPool d)")
  case False
  then show ?thesis
    using assms(1,3) defer_quiet[of d "am_now am" run WaitingOnChildren]
    by (auto simp: markResumedFromWait_def wf_db_def Let_def split: option.splits prod.splits if_splits)
next
  case True
  show ?thesis
  proof (rule mint_outcome[where pre = Inr and reason = PrWaitResume and am = am and po = po
        and post = "\<lambda>a d2. rbind (au_orchestratorAction au a d2) (au_successAudit au)"])
    show "(let (rows, d1) = cas run [WaitingOnChildren]
            (\<lambda>r. r\<lparr>r_status := Running, r_checkpointAt := None, r_resumeRequestedAt := None\<rparr>) d
          in if rows = [] then Inr (Refused StatusGuardMismatch, d1)
             else rbind (Inr d1) (\<lambda>d2. rbind (mintForClaim am po run PrWaitResume d2)
                   (\<lambda>(a, d3). rbind (rbind (au_orchestratorAction au a d3) (au_successAudit au))
                      (\<lambda>d4. Inr (Ok (Some a), d4))))) = Inr p"
      using assms(3) True unfolding markResumedFromWait_def rbind_assoc rbind_simps by simp
    show "quiet d1 d2" if "rbind (au_orchestratorAction au a d1) (au_successAudit au) = Inr d2" for a d1 d2
      by (rule bind_quiet[OF that]) (rule authorizers_quiet[OF assms(2)], assumption)+
  qed (use assms(1) in \<open>simp_all add: wf_db_def\<close>)
qed

lemma returned_outcome:
  assumes "wf_db d" and "markReturnedToRunning am po run d = Inr p"
  shows "outcome run [HumanWorking] (\<lambda>_. Running) MintDriver d p"
proof (rule mint_outcome[where pre = Inr and reason = PrReworkReturn and am = am and po = po
      and post = "\<lambda>a. Inr" and f = "\<lambda>r. r\<lparr>r_status := Running\<rparr>"])
  show "(let (rows, d1) = cas run [HumanWorking] (\<lambda>r. r\<lparr>r_status := Running\<rparr>) d
        in if rows = [] then Inr (Refused StatusGuardMismatch, d1)
           else rbind (Inr d1) (\<lambda>d2. rbind (mintForClaim am po run PrReworkReturn d2)
                 (\<lambda>(a, d3). rbind (Inr d3) (\<lambda>d4. Inr (Ok (Some a), d4))))) = Inr p"
    using assms(2) unfolding markReturnedToRunning_def rbind_simps .
qed (use assms(1) in \<open>simp_all add: wf_db_def\<close>)

lemma takeover_release_outcome:
  assumes "wf_db d"
  shows "outcome run [HumanWorking] (\<lambda>_. NeedsInput) KeepDriver d (releaseHumanWorking am run d)"
proof -
  have wf: "runs_t.wf_rows (runs d)" using assms by (simp add: wf_db_def)
  show ?thesis
    unfolding releaseHumanWorking_def
    by (cases rule: casE[OF wf, where run = run and src = "[HumanWorking]" and to = "\<lambda>_. NeedsInput"
        and f = "\<lambda>r. r\<lparr>r_status := NeedsInput\<rparr>"])
       (auto intro: moved_quiet quiet_takeover)
qed

lemma fail_outcome:
  assumes "wf_db d"
  shows "outcome run [NeedsInputIdle, NeedsInput] (\<lambda>_. Failed) ReleaseDriver d (failResumedRun am run reason d)"
  unfolding failResumedRun_def
  by (rule terminal_outcome[where before = "\<lambda>x. x"])
     (use assms in \<open>simp_all add: wf_db_def quiet_terminal\<close>)

lemma crash_resumed_outcome:
  assumes "wf_db d"
  shows "outcome run [NeedsInput] (\<lambda>_. Crashed) ReleaseDriver d (crashResumedRun am run reason d)"
  unfolding crashResumedRun_def
  by (rule terminal_outcome) (use assms in \<open>simp_all add: wf_db_def quiet_terminal quiet_sync\<close>)

lemma crash_running_outcome:
  assumes "wf_db d"
  shows "outcome run (case ss of None \<Rightarrow> [Running] | Some l \<Rightarrow> l) (\<lambda>_. Crashed) ReleaseDriver d
    (crashRunningRun am run reason ss src d)"
  unfolding crashRunningRun_def Let_def
  by (rule terminal_outcome[unfolded Let_def,
        where before = "\<lambda>d1. releaseSyncClaimOnTerminal (am_now am) run (crash_token reason)
                              (close_hitl (am_now am) run d1)"])
     (use assms in \<open>auto simp: wf_db_def quiet_terminal intro: quiet_trans[OF quiet_hitl quiet_sync]\<close>)

lemma crash_waiting_outcome:
  assumes "wf_db d"
  shows "outcome run [WaitingOnChildren] (\<lambda>_. Crashed) ReleaseDriver d (crashWaitingOnChildren am run reason d)"
  unfolding crashWaitingOnChildren_def Let_def
  by (rule terminal_outcome[unfolded Let_def])
     (use assms in \<open>simp_all add: wf_db_def quiet_terminal quiet_sync\<close>)

lemma abandon_eq:
  "markAbandoned am run cause d =
     (let (rows, d1) = cas run ABANDONABLE_STATUSES
            (\<lambda>r. r\<lparr>r_status := Abandoned, r_endedAt := Some (am_now am)\<rparr>) d
      in case rows of [] \<Rightarrow> (Refused StatusGuardMismatch, d1)
         | r # _ \<Rightarrow>
           (Ok None, (\<lambda>d3. emit_terminal am r ''run.abandoned'' [(''source'', JStr ''user'')] EvRunAbandoned
              (case cause of None \<Rightarrow> operator_cause | Some c \<Rightarrow> c) ''user''
              (d3\<lparr>workspaces := sql_update (\<lambda>w. w_runId w = run)
                   (\<lambda>w. w\<lparr>w_scheduledRemovalAt := Some (am_now am + gcAgeDays (am_gcAgeDays am) * 86400000)\<rparr>)
                   (workspaces d3)\<rparr>))
             (released am run ''abandoned'' (releaseSyncClaimOnTerminal (am_now am) run ''CRASH'' d1))))"
  by (simp add: markAbandoned_def abandonRunInTransaction_def Let_def split: prod.splits list.splits)

lemma abandon_outcome:
  assumes "wf_db d"
  shows "outcome run ABANDONABLE_STATUSES (\<lambda>_. Abandoned) ReleaseDriver d (markAbandoned am run cause d)"
  unfolding abandon_eq
  by (rule terminal_outcome[where after = "\<lambda>r d3.
        emit_terminal am r ''run.abandoned'' [(''source'', JStr ''user'')] EvRunAbandoned
              (case cause of None \<Rightarrow> operator_cause | Some c \<Rightarrow> c) ''user''
              (d3\<lparr>workspaces := sql_update (\<lambda>w. w_runId w = run)
                   (\<lambda>w. w\<lparr>w_scheduledRemovalAt := Some (am_now am + gcAgeDays (am_gcAgeDays am) * 86400000)\<rparr>)
                   (workspaces d3)\<rparr>)"])
     (use assms in \<open>auto simp: wf_db_def quiet_sync intro: quiet_trans[OF quiet_workspaces quiet_terminal]\<close>)

lemmas transition_outcomes = resumed_outcome agent_resume_outcome wait_resume_outcome returned_outcome
  takeover_release_outcome fail_outcome crash_resumed_outcome crash_running_outcome crash_waiting_outcome
  abandon_outcome

lemma exec_conforms:
  assumes wf: "wf_db d" and au: "authorizers_frame au" and ex: "exec au am t d = Inr p"
  shows "outcome (subject t) (sources t) (target t) (driver_of t) d p"
proof -
  have runs: "runs_t.wf_rows (runs d)" using wf by (simp add: wf_db_def)
  note flips = cas_only_outcome[OF runs] cas_release_outcome[OF runs] review_outcome[OF runs]
  show ?thesis
    using ex
    by (cases t)
       (auto simp: transition_outcomes[OF wf] transition_outcomes(1-3)[OF wf au] checkpoint_eq
        markWaitingOnChildren_def rollbackResumeFromWait_def rollbackResumedRun_def
        markReworkFromReview_def markReworkClaimFromReview_def markSyncFromReview_def markReopenFromDone_def
        bumpKeepalive_def markHumanWorking_def markReviewFromReworkClaim_def markSyncReviewFromRunning_def
        markSyncReviewFromNeedsInput_def intro!: flips)
qed

end
