(* ===== verification/RunStateProps.thy ===== *)
theory RunStateProps
  imports RunMachine
begin

text \<open>
  The run lifecycle's guarantees, over single transitions and over every interleaving of them
  (\<open>run_steps\<close>): which statuses may follow which, that parked and dead runs have no driver, that a
  driver once replaced never comes back, that a refused transition changes nothing, what a terminal
  transition leaves behind.
\<close>

section \<open>Interleavings\<close>

text \<open>
  Any sequence of transitions and direct starts, by any callers, on any runs.  A transition that throws
  rolls back and is no step.
\<close>

inductive run_steps :: "authorizers \<Rightarrow> db \<Rightarrow> db \<Rightarrow> bool" for au :: authorizers where
  refl: "run_steps au d d"
| trans: "run_steps au d d1 \<Longrightarrow> exec au am t d1 = Inr (res, d2) \<Longrightarrow> run_steps au d d2"
| start: "run_steps au d d1 \<Longrightarrow> tryStartRun s fenced now uuid None run d1 = Inr (res, d2) \<Longrightarrow> run_steps au d d2"

inductive_cases run_stepsE: "run_steps au d d'"

lemma start_cases:
  assumes "wf_db d" and "tryStartRun s fenced now uuid None run d = Inr (res, d')"
  shows "quiet d d' \<or> moved run [Pending] (\<lambda>_. Running) KeepDriver d d'"
proof (cases res)
  case (Queued n f)
  with assms(2) have "d' = d"
    by (auto simp: tryStartRun_def rbind_Inr_iff dispatch_step_def Let_def split: if_splits list.splits)
  then show ?thesis by simp
next
  case Started
  have wf: "runs_t.wf_rows (runs d)" using assms(1) by (simp add: wf_db_def)
  let ?P = "\<lambda>r. r_id r = run \<and> r_status r = Pending"
  have guard: "cas_guard run [Pending] = ?P" by (simp add: cas_guard_def fun_eq_iff)
  let ?d1 = "d\<lparr>runs := sql_update ?P (start_row now) (runs d)\<rparr>"
  have d1: "moved run [Pending] (\<lambda>_. Running) KeepDriver d ?d1 \<or> ?d1 = d"
  proof (cases rule: casE[OF wf, where run = run and src = "[Pending]" and to = "\<lambda>_. Running" and f = "start_row now"])
    case 3
    then show ?thesis by (simp add: cas_def guard)
  next
    case (4 r d1)
    then show ?thesis by (simp add: guard)
  qed simp_all
  have "runs d' = runs ?d1 \<and> executionAssignments d' = executionAssignments ?d1"
    using assms(2) Started
    by (auto simp: tryStartRun_def rbind_Inr_iff dispatch_step_def Let_def split: if_splits list.splits)
  then have "quiet ?d1 d'" by (simp add: quiet_runs)
  with d1 show ?thesis by (auto intro: moved_quiet)
qed

text \<open>Every step of an interleaving is a line of the table, a start, or quiet.\<close>

lemma step_cases:
  assumes "wf_db d" and "authorizers_frame au" and "exec au am t d = Inr (res, d')"
  shows "quiet d d' \<or> moved (subject t) (sources t) (target t) (driver_of t) d d'"
  using exec_conforms[OF assms] by (cases res) (auto simp: outcome_def)

section \<open>What a move does to the driver\<close>

lemma moved_wf:
  assumes "wf_db d" and "moved run from to e d d'"
  shows "wf_db d'"
proof -
  have "runs_t.wf_rows (runs d')"
    using assms by (simp add: wf_db_def moved_def runs_t.wf_rows_def)
  moreover have "wf_assignments (executionAssignments d')"
  proof (cases e)
    case MintDriver
    with assms obtain now uuid host reason a d0 d1 where
      "executionAssignments d0 = executionAssignments d" "mintAssignment now uuid run host reason d0 = Inr (a, d1)"
      "executionAssignments d' = executionAssignments d1"
      by (auto simp: moved_def driver_change_def)
    with assms(1) show ?thesis
      using mintAssignment_wf by (metis wf_db_def)
  qed (use assms release_wf_assignments in \<open>auto simp: moved_def driver_change_def wf_db_def\<close>)
  ultimately show ?thesis by (simp add: wf_db_def)
qed

lemma quiet_wf: "wf_db d \<Longrightarrow> quiet d d' \<Longrightarrow> wf_db d'"
  by (simp add: wf_db_def quiet_def runs_t.wf_rows_def)

lemma active_cong:
  "executionAssignments d = executionAssignments d' \<Longrightarrow> getActiveAssignment i d = getActiveAssignment i d'"
  by (simp add: getActiveAssignment_def)

lemma moved_active_other:
  assumes "wf_db d" and "moved run from to e d d'" and "i \<noteq> run"
  shows "getActiveAssignment i d' = getActiveAssignment i d"
proof (cases e)
  case KeepDriver
  with assms(2) show ?thesis by (intro active_cong) (simp add: moved_def driver_change_def)
next
  case ReleaseDriver
  with assms(2) obtain now reason where
    "executionAssignments d' = executionAssignments (snd (releaseAssignmentForRun now run reason d))"
    by (auto simp: moved_def driver_change_def)
  from active_cong[OF this, of i] assms(3) show ?thesis by simp
next
  case MintDriver
  with assms(2) obtain now uuid host reason a d0 d1 where
    m: "executionAssignments d0 = executionAssignments d" "mintAssignment now uuid run host reason d0 = Inr (a, d1)"
      "executionAssignments d' = executionAssignments d1"
    by (auto simp: moved_def driver_change_def)
  have "getActiveAssignment i d1 = getActiveAssignment i d0"
    using mint_getActive[OF _ m(2), of i] assms(1,3) m(1) by (simp add: wf_db_def)
  with active_cong[OF m(1)] active_cong[OF m(3)] show ?thesis by simp
qed

lemma moved_release_active:
  assumes "moved run from to ReleaseDriver d d'"
  shows "getActiveAssignment run d' = None"
proof -
  from assms obtain now reason where
    "executionAssignments d' = executionAssignments (snd (releaseAssignmentForRun now run reason d))"
    by (auto simp: moved_def driver_change_def)
  from active_cong[OF this, of run] show ?thesis by simp
qed

lemma moved_mint_active:
  assumes "wf_db d" and "moved run from to MintDriver d d'"
  shows "\<exists>a. getActiveAssignment run d' = Some a \<and> ea_epoch a = Suc (maxEpoch run (executionAssignments d))"
proof -
  from assms(2) obtain now uuid host reason a d0 d1 where
    m: "executionAssignments d0 = executionAssignments d" "mintAssignment now uuid run host reason d0 = Inr (a, d1)"
      "executionAssignments d' = executionAssignments d1"
    by (auto simp: moved_def driver_change_def)
  with assms(1) have wf0: "wf_assignments (executionAssignments d0)" by (simp add: wf_db_def)
  have "ea_epoch a = Suc (maxEpoch run (executionAssignments d0))"
    using mintAssignment_InrD(1)[OF wf0 m(2)] by simp
  with mint_getActive[OF wf0 m(2), of run] active_cong[OF m(3)] m(1) show ?thesis by simp
qed

lemma fence_cong:
  "executionAssignments d = executionAssignments d' \<Longrightarrow> gen.fence k i d = gen.fence k i d'"
  by (simp add: gen.fence_def getActiveAssignment_def)

lemma moved_fence:
  assumes "wf_db d" and "moved run from to e d d'" and "gen.fence k i d"
  shows "gen.fence k i d'"
proof (cases e)
  case KeepDriver
  with assms show ?thesis
    using fence_cong[of d' d k i] by (simp add: moved_def driver_change_def)
next
  case ReleaseDriver
  with assms(2) obtain now reason where
    "executionAssignments d' = executionAssignments (snd (releaseAssignmentForRun now run reason d))"
    by (auto simp: moved_def driver_change_def)
  from fence_cong[OF this] gen.fence_release[OF assms(3), of "(now, reason)" run] show ?thesis by simp
next
  case MintDriver
  with assms(2) obtain now uuid host reason a d0 d1 where
    m: "executionAssignments d0 = executionAssignments d" "mintAssignment now uuid run host reason d0 = Inr (a, d1)"
      "executionAssignments d' = executionAssignments d1"
    by (auto simp: moved_def driver_change_def)
  have "gen.fence k i d0" "wf_assignments (executionAssignments d0)"
    using assms(1,3) m(1) fence_cong[OF m(1)] by (simp_all add: wf_db_def)
  then have "gen.fence k i d1"
    using gen.fence_mint[of d0 k i "(now, uuid, host, reason)" run a d1] m(2) by simp
  with fence_cong[OF m(3)] show ?thesis by simp
qed

lemma quiet_fence: "quiet d d' \<Longrightarrow> gen.fence k i d \<Longrightarrow> gen.fence k i d'"
  using fence_cong[of d' d] by (simp add: quiet_def)

lemma moved_top:
  assumes "wf_db d" and "moved run from to e d d'"
  shows "maxEpoch i (executionAssignments d) \<le> maxEpoch i (executionAssignments d')"
proof (cases e)
  case KeepDriver
  with assms(2) show ?thesis by (simp add: moved_def driver_change_def)
next
  case ReleaseDriver
  with assms(2) show ?thesis by (auto simp: moved_def driver_change_def release_maxEpoch)
next
  case MintDriver
  with assms(2) obtain now uuid host reason a d0 d1 where
    m: "executionAssignments d0 = executionAssignments d" "mintAssignment now uuid run host reason d0 = Inr (a, d1)"
      "executionAssignments d' = executionAssignments d1"
    by (auto simp: moved_def driver_change_def)
  with assms(1) mint_maxEpoch[OF _ m(2), of i] show ?thesis by (simp add: wf_db_def)
qed

lemma steps_invariant:
  assumes "run_steps au d d'" and "authorizers_frame au" and "wf_db d" and "I d"
    and quiet: "\<And>x y. wf_db x \<Longrightarrow> I x \<Longrightarrow> quiet x y \<Longrightarrow> I y"
    and move: "\<And>x y t. wf_db x \<Longrightarrow> I x \<Longrightarrow> moved (subject t) (sources t) (target t) (driver_of t) x y \<Longrightarrow> I y"
    and start: "\<And>x y run. wf_db x \<Longrightarrow> I x \<Longrightarrow> moved run [Pending] (\<lambda>_. Running) KeepDriver x y \<Longrightarrow> I y"
  shows "wf_db d' \<and> I d'"
  using assms(1,3,4)
proof (induction rule: run_steps.induct)
  case (trans d d1 am t res d2)
  then have d1: "wf_db d1" "I d1" by auto
  from step_cases[OF d1(1) assms(2) trans(2)] d1 show ?case
    using quiet move moved_wf quiet_wf by blast
next
  case (start d d1 s fenced now uuid run res d2)
  then have d1: "wf_db d1" "I d1" by auto
  from start_cases[OF d1(1) start(2)] d1 show ?case
    using quiet assms(7) moved_wf quiet_wf by blast
qed auto

end
