(* ===== verification/RunGuarantees.thy ===== *)
theory RunGuarantees
  imports RunStateProps
begin

text \<open>
  The properties of the run lifecycle, each with a run of the machine on a concrete database where it has
  hypotheses.
\<close>

section \<open>A concrete machine\<close>

text \<open>Authorizers that find nothing to authorize, and an ambient with the defaults.\<close>

definition no_authorizers :: authorizers where
  "no_authorizers = \<lparr>au_consumeUndelivered = (\<lambda>i. Inr), au_gateContinuation = (\<lambda>a. Inr),
     au_nodeContinuation = (\<lambda>a. Inr), au_gateResult = (\<lambda>a. Inr), au_nodeResult = (\<lambda>a. Inr),
     au_gateResume = (\<lambda>a d. Inr (False, d)), au_nodeResume = (\<lambda>a. Inr), au_nodeInterruptResume = (\<lambda>a. Inr),
     au_readAgentPermission = (\<lambda>i d. Inr None), au_agentPermission = (\<lambda>a. Inr),
     au_admitCompletedAgent = (\<lambda>a. Inr), au_orchestratorAction = (\<lambda>a. Inr), au_successAudit = Inr\<rparr>"

lemma no_authorizers_frame: "authorizers_frame no_authorizers"
  by (simp add: authorizers_frame_def no_authorizers_def)

definition example_ambient :: ambient where
  "example_ambient = \<lparr>am_now = 1000, am_assignmentId = ''a2'', am_eventId = ''e1'', am_keepaliveMinutes = None,
     am_gcAgeDays = None, am_caps = default_caps, am_localHost = Inr ''h''\<rparr>"

definition example_assignment :: assignment_row where
  "example_assignment = \<lparr>ea_id = ''a1'', ea_runId = ''r'', ea_executionHostId = ''h'', ea_epoch = 1,
     ea_state = Active, ea_placementReason = PrLaunch, ea_executionWorkspaceId = None,
     ea_workspaceAdoptedAt = None, ea_supersededById = None, ea_releasedReason = None, ea_createdAt = 0,
     ea_updatedAt = 0, ea_endedAt = None\<rparr>"

definition driven :: "run_status \<Rightarrow> db" where
  "driven s = empty_db\<lparr>runs := [example_run ''r'' s], executionAssignments := [example_assignment]\<rparr>"

lemma driven_wf: "wf_db (driven s)"
  by (simp add: driven_def wf_db_def runs_t.wf_rows_def wf_assignments_def assignments_t.wf_rows_def
      unique_epochs_def one_active_def assignment_ok_def example_assignment_def empty_db_def)

lemmas driven_simps = driven_def empty_db_def example_run_def example_assignment_def example_ambient_def
  cas_def cas_guard_def sql_returning_def sql_update_def released_def releaseAssignmentForRun_def
  is_active_of_def release_row_def status_of_def run_of_def runs_t.row_def getActiveAssignment_def

section \<open>Statuses\<close>

text \<open>
  C1: an accepted transition moves its run from one of the statuses its guard names to the one status the
  table gives, and changes the status of no other run.
\<close>

theorem transition_edges:
  assumes "wf_db d" and "authorizers_frame au" and "exec au am t d = Inr (Ok a, d')"
  shows "(\<exists>s. status_of d (subject t) = Some s \<and> s \<in> set (sources t)
            \<and> status_of d' (subject t) = Some (target t s))
    \<and> (\<forall>i. i \<noteq> subject t \<longrightarrow> status_of d' i = status_of d i)"
  using exec_conforms[OF assms] by (auto simp: moved_def)

lemma driven_checkpoint:
  "\<exists>d'. exec no_authorizers example_ambient (MarkCheckpointed ''r'') (driven NeedsInput) = Inr (Ok None, d')"
  by (simp add: checkpoint_eq cas_release_def driven_simps)

theorem transition_edges_witness:
  "\<exists>d'. exec no_authorizers example_ambient (MarkCheckpointed ''r'') (driven NeedsInput) = Inr (Ok None, d')
     \<and> status_of d' ''r'' = Some NeedsInputIdle"
  using driven_checkpoint transition_edges[OF driven_wf no_authorizers_frame] by fastforce

fun crash_sources_live :: "transition \<Rightarrow> bool" where
  "crash_sources_live (CrashRunningRun i reason ss src) \<longleftrightarrow>
     list_all (\<lambda>s. \<not> isTerminalRunStatus s) (case ss of None \<Rightarrow> [Running] | Some l \<Rightarrow> l)"
| "crash_sources_live _ \<longleftrightarrow> True"

lemma terminal_sources:
  assumes "crash_sources_live t" and "s \<in> set (sources t)" and "isTerminalRunStatus s"
  shows "(s = Done \<and> (\<exists>i. t = MarkReopenFromDone i)) \<or> (s = Crashed \<and> (\<exists>i c. t = MarkAbandoned i c))"
  using assms
  by (cases t) (auto simp: status_defs ABANDONABLE_STATUSES_def list_all_iff split: if_splits option.splits)



fun repeatable :: "transition \<Rightarrow> bool" where
  "repeatable (BumpKeepalive i) \<longleftrightarrow> True"
| "repeatable (CrashRunningRun i reason ss src) \<longleftrightarrow> Crashed \<in> set (case ss of None \<Rightarrow> [Running] | Some l \<Rightarrow> l)"
| "repeatable _ \<longleftrightarrow> False"

lemma target_not_source: "\<not> repeatable t \<Longrightarrow> s \<in> set (sources t) \<Longrightarrow> target t s \<notin> set (sources t)"
  by (cases t) (auto simp: ABANDONABLE_STATUSES_def split: if_splits)

text \<open>
  C17: every transition is delivered at most once: after it was accepted, delivering the same transition
  again is refused (only the keep-alive ping repeats), so of two racing callers one wins.
\<close>

theorem single_winner:
  assumes "wf_db d" and "authorizers_frame au" and "\<not> repeatable t"
    and "exec au am t d = Inr (Ok a, d1)" and "exec au am' t d1 = Inr (res, d2)"
  shows "\<exists>refusal. res = Refused refusal"
proof (cases res)
  case (Ok b)
  have m: "moved (subject t) (sources t) (target t) (driver_of t) d d1"
    using exec_conforms[OF assms(1,2,4)] by simp
  then have wf1: "wf_db d1" using moved_wf[OF assms(1)] by blast
  have "moved (subject t) (sources t) (target t) (driver_of t) d1 d2"
    using exec_conforms[OF wf1 assms(2,5)] Ok by simp
  with m target_not_source[OF assms(3)] show ?thesis by (auto simp: moved_def)
qed simp

theorem single_winner_witness:
  "\<exists>d1 res d2 refusal.
     exec no_authorizers example_ambient (MarkCheckpointed ''r'') (driven NeedsInput) = Inr (Ok None, d1)
     \<and> exec no_authorizers example_ambient (MarkCheckpointed ''r'') d1 = Inr (res, d2) \<and> res = Refused refusal"
proof -
  obtain d1 where d1: "exec no_authorizers example_ambient (MarkCheckpointed ''r'') (driven NeedsInput) = Inr (Ok None, d1)"
    using driven_checkpoint by blast
  obtain res d2 where d2: "exec no_authorizers example_ambient (MarkCheckpointed ''r'') d1 = Inr (res, d2)"
    by (cases "markCheckpointed example_ambient ''r'' d1") simp
  with single_winner[OF driven_wf no_authorizers_frame _ d1 d2] d1 show ?thesis by auto
qed

section \<open>Drivers\<close>

definition undriven :: "run_status list" where
  "undriven = [NeedsInputIdle, WaitingOnChildren, Failed, Abandoned, Crashed]"

definition parked_undriven :: "db \<Rightarrow> bool" where
  "parked_undriven d \<longleftrightarrow>
     (\<forall>i s. status_of d i = Some s \<longrightarrow> s \<in> set undriven \<longrightarrow> getActiveAssignment i d = None)"

lemma undriven_releases: "s \<in> set (sources t) \<Longrightarrow> target t s \<in> set undriven \<Longrightarrow> driver_of t = ReleaseDriver"
  by (cases t) (auto simp: undriven_def split: if_splits)

lemma parked_undriven_moved:
  assumes wf: "wf_db d" and inv: "parked_undriven d" and m: "moved run from to e d d'"
    and rel: "\<And>s. s \<in> set from \<Longrightarrow> to s \<in> set undriven \<Longrightarrow> e = ReleaseDriver"
  shows "parked_undriven d'"
  unfolding parked_undriven_def
proof (intro allI impI)
  fix i s
  assume s: "status_of d' i = Some s" "s \<in> set undriven"
  show "getActiveAssignment i d' = None"
  proof (cases "i = run")
    case True
    with m s rel have "e = ReleaseDriver" by (auto simp: moved_def)
    with m True show ?thesis by (simp add: moved_release_active)
  next
    case False
    with m s have "status_of d i = Some s" by (simp add: moved_def)
    with inv s(2) moved_active_other[OF wf m False] show ?thesis by (simp add: parked_undriven_def)
  qed
qed

text \<open>
  C2: in every interleaving a run that is parked (\<^verbatim>\<open>NeedsInputIdle\<close>,
  \<^verbatim>\<open>WaitingOnChildren\<close>) or dead (\<^verbatim>\<open>Failed\<close>, \<^verbatim>\<open>Abandoned\<close>, \<^verbatim>\<open>Crashed\<close>) has no active
  execution assignment, every run has at most one, and no two assignments of a run share an epoch.
\<close>

theorem parked_runs_have_no_driver:
  assumes "run_steps au d d'" and "authorizers_frame au" and "wf_db d" and "parked_undriven d"
  shows "parked_undriven d' \<and> one_active (executionAssignments d') \<and> unique_epochs (executionAssignments d')"
proof -
  have "wf_db d' \<and> parked_undriven d'"
  proof (rule steps_invariant[where I = parked_undriven, OF assms(1-4)])
    show "parked_undriven y" if "parked_undriven x" "quiet x y" for x y
      using that active_cong[of y x] by (simp add: parked_undriven_def quiet_def)
    show "parked_undriven y" if "wf_db x" "parked_undriven x"
      "moved (subject t) (sources t) (target t) (driver_of t) x y" for x y t
      using that by (rule parked_undriven_moved) (rule undriven_releases)
    show "parked_undriven y" if "wf_db x" "parked_undriven x" "moved run [Pending] (\<lambda>_. Running) KeepDriver x y" for x y run
      using that by (rule parked_undriven_moved) (simp add: undriven_def)
  qed
  then show ?thesis by (simp add: wf_db_def wf_assignments_def)
qed

lemma driven_parked: "s \<notin> set undriven \<Longrightarrow> parked_undriven (driven s)"
  by (auto simp: parked_undriven_def driven_simps split: if_splits)

lemma driven_step:
  assumes "exec no_authorizers example_ambient t (driven s) = Inr (res, d')"
  shows "run_steps no_authorizers (driven s) d'"
  by (rule run_steps.trans[OF run_steps.refl assms])

theorem parked_runs_have_no_driver_witness:
  "\<exists>d'. run_steps no_authorizers (driven NeedsInput) d' \<and> status_of d' ''r'' = Some NeedsInputIdle
     \<and> getActiveAssignment ''r'' d' = None"
proof -
  obtain d' where d': "exec no_authorizers example_ambient (MarkCheckpointed ''r'') (driven NeedsInput) = Inr (Ok None, d')"
    and st: "status_of d' ''r'' = Some NeedsInputIdle"
    by (simp add: checkpoint_eq cas_release_def idle_row_def driven_simps)
  note steps = driven_step[OF d']
  from parked_runs_have_no_driver[OF steps no_authorizers_frame driven_wf driven_parked]
  have "parked_undriven d'" by (simp add: undriven_def)
  with st steps show ?thesis by (auto simp: parked_undriven_def undriven_def)
qed

lemma steps_fence:
  assumes "run_steps au d d'" and "authorizers_frame au" and "wf_db d" and "gen.fence k run d"
  shows "wf_db d' \<and> gen.fence k run d'"
  by (rule steps_invariant[where I = "gen.fence k run", OF assms]) (blast intro: quiet_fence moved_fence)+

lemma steps_top:
  assumes "run_steps au d d'" and "authorizers_frame au" and "wf_db d"
  shows "maxEpoch run (executionAssignments d) \<le> maxEpoch run (executionAssignments d')"
proof -
  let ?I = "\<lambda>x. maxEpoch run (executionAssignments d) \<le> maxEpoch run (executionAssignments x)"
  have "wf_db d' \<and> ?I d'"
  proof (rule steps_invariant[where I = ?I, OF assms])
    show "?I y" if "?I x" "quiet x y" for x y
      using that by (simp add: quiet_def)
    show "?I y" if "wf_db x" "?I x" "moved (subject t) (sources t) (target t) (driver_of t) x y" for x y t
      using that(2) moved_top[OF that(1,3)] by (rule le_trans)
    show "?I y" if "wf_db x" "?I x" "moved r [Pending] (\<lambda>_. Running) KeepDriver x y" for x y r
      using that(2) moved_top[OF that(1,3)] by (rule le_trans)
  qed simp
  then show ?thesis by simp
qed

text \<open>A run that is checkpointed under one driver and resumed under the next.\<close>

lemma example_handover:
  "\<exists>d1 d2 a. run_steps no_authorizers (driven NeedsInput) d1 \<and> run_steps no_authorizers d1 d2
     \<and> getActiveAssignment ''r'' (driven NeedsInput) = Some example_assignment \<and> getActiveAssignment ''r'' d1 = None
     \<and> getActiveAssignment ''r'' d2 = Some a \<and> ea_epoch a \<noteq> ea_epoch example_assignment"
proof -
  let ?po = "\<lparr>po_host = None, po_reason = None\<rparr>"
  obtain d1 where d1: "exec no_authorizers example_ambient (MarkCheckpointed ''r'') (driven NeedsInput) = Inr (Ok None, d1)"
    and none: "getActiveAssignment ''r'' d1 = None" and b: "getActiveAssignment ''r'' (driven NeedsInput) = Some example_assignment"
    and d1eq: "d1 = (driven NeedsInput)\<lparr>runs := [idle_row 1000 (example_run ''r'' NeedsInput)],
        executionAssignments := [release_row 1000 ''checkpointed'' example_assignment]\<rparr>"
    by (simp add: checkpoint_eq cas_release_def idle_row_def driven_simps)
  obtain d2 a where d2: "exec no_authorizers example_ambient (MarkResumed ?po None False ''r'') d1 = Inr (Ok (Some a), d2)"
    and act: "getActiveAssignment ''r'' d2 = Some a" and ep: "ea_epoch a \<noteq> ea_epoch example_assignment"
    by (simp add: d1eq markResumed_def mintForClaim_def mintPlacement_def mintAssignment_def minted_row_def
        authorize_resume_def no_authorizers_def insertAssignment_def getLatestAssignment_def maxEpoch_def
        sql_select_def idle_row_def driven_simps claim_run_row_def Let_def)
  have "run_steps no_authorizers (driven NeedsInput) d1" "run_steps no_authorizers d1 d2"
    by (rule run_steps.trans[OF run_steps.refl d1], rule run_steps.trans[OF run_steps.refl d2])
  then show ?thesis using b none act ep by blast
qed

text \<open>
  C3: a driver generation that stopped being the run's active one never becomes active again, whatever
  transitions follow: no later active assignment of the run carries its epoch.
\<close>

theorem fenced_driver_never_returns:
  assumes "authorizers_frame au" and "wf_db d" and "getActiveAssignment run d = Some b"
    and "run_steps au d d1" and "\<And>c. getActiveAssignment run d1 = Some c \<Longrightarrow> ea_epoch c \<noteq> ea_epoch b"
    and "run_steps au d1 d2" and "getActiveAssignment run d2 = Some a"
  shows "ea_epoch b < ea_epoch a"
proof -
  have top: "ea_epoch b \<le> maxEpoch run (executionAssignments d)"
    using gen.active_top[OF _ assms(3)] assms(2) by (simp add: wf_db_def)
  then have "gen.fence (ea_epoch b) run d"
    using assms(3) by (simp add: gen.fence_def)
  from steps_fence[OF assms(4,1,2) this]
  have d1: "wf_db d1" "gen.fence (ea_epoch b) run d1" by auto
  have "maxEpoch run (executionAssignments d) \<le> maxEpoch run (executionAssignments d1)"
    by (rule steps_top[OF assms(4,1,2)])
  moreover have "Suc (ea_epoch b) \<le> ea_epoch c" if "getActiveAssignment run d1 = Some c" for c
    using assms(5)[OF that] d1(2) that by (auto simp: gen.fence_def)
  ultimately have "gen.fence (Suc (ea_epoch b)) run d1"
    using top by (simp add: gen.fence_def)
  from steps_fence[OF assms(6,1) d1(1) this] assms(7) show ?thesis
    by (auto simp: gen.fence_def)
qed

theorem fenced_driver_never_returns_witness:
  "\<exists>d1 d2 a. run_steps no_authorizers (driven NeedsInput) d1 \<and> run_steps no_authorizers d1 d2
     \<and> getActiveAssignment ''r'' d2 = Some a \<and> ea_epoch example_assignment < ea_epoch a"
proof -
  obtain d1 d2 a where h: "run_steps no_authorizers (driven NeedsInput) d1" "run_steps no_authorizers d1 d2"
    "getActiveAssignment ''r'' (driven NeedsInput) = Some example_assignment" "getActiveAssignment ''r'' d1 = None"
    "getActiveAssignment ''r'' d2 = Some a" using example_handover by blast
  from fenced_driver_never_returns[OF no_authorizers_frame driven_wf h(3,1) _ h(2,5)] h(4)
  show ?thesis using h by auto
qed

end
