(* ===== verification/FencedDrivers.thy ===== *)
theory FencedDrivers
  imports RunGuarantees HostCommandGuarantees
begin

text \<open>
  The fence from end to end: the manager's ledger of execution assignments gives each driver of a run an
  epoch, every command envelope carries it (\<^verbatim>\<open>web/lib/execution-host/ledger.ts\<close>), and the host refuses the
  epochs it has left behind.
\<close>

definition buildEnvelope ::
  "ident \<Rightarrow> string \<Rightarrow> ident \<Rightarrow> ident \<Rightarrow> int \<Rightarrow> ident \<Rightarrow> json \<Rightarrow> string \<Rightarrow> command_envelope" where
  "buildEnvelope commandId kind hostKey assignmentId assignmentEpoch runId payload issuedAt =
     \<lparr>ce_version = None, ce_target = None, ce_id = commandId, ce_kind = kind, ce_issued_at = issuedAt,
      ce_fence = \<lparr>cf_host_key = hostKey, cf_assignment = assignmentId, cf_epoch = assignmentEpoch, cf_run = runId\<rparr>,
      ce_payload = payload\<rparr>"

text \<open>The fence of the envelopes that \<^verbatim>\<open>issueCommand\<close> builds for a driver.\<close>

definition driver_fence :: "ident \<Rightarrow> assignment_row \<Rightarrow> command_fence" where
  "driver_fence hostKey a =
     ce_fence (buildEnvelope [] [] hostKey (ea_id a) (int (ea_epoch a)) (ea_runId a) JNull [])"

lemma driver_fence_simps [simp]:
  "cf_host_key (driver_fence k a) = k" "cf_assignment (driver_fence k a) = ea_id a"
  "cf_epoch (driver_fence k a) = int (ea_epoch a)" "cf_run (driver_fence k a) = ea_runId a"
  by (simp_all add: driver_fence_def buildEnvelope_def)

lemma accepted_fence:
  assumes "applyFence h ph now f expected d = Inr (out, d')"
  shows "\<exists>g. getFence (cf_run f) d' = Some g \<and> fn_epoch g = cf_epoch f"
proof -
  have "setFence ph now (cf_run f) (cf_assignment f) (cf_epoch f) d = Inr d'
      \<or> (d' = d \<and> (\<exists>g. getFence (cf_run f) d = Some g \<and> fn_epoch g = cf_epoch f))"
    using assms by (auto simp: applyFence_def split: if_splits option.split_asm sum.split_asm)
  then show ?thesis using setFence_get[of ph now "cf_run f" "cf_assignment f" "cf_epoch f" d d' "cf_run f"] by auto
qed

lemma run_steps_append: "run_steps au d1 d2 \<Longrightarrow> run_steps au d d1 \<Longrightarrow> run_steps au d d2"
proof (induction rule: run_steps.induct)
  case (trans d d1 am t res d2)
  then show ?case using run_steps.trans by blast
next
  case (start d d1 s fenced now uuid run res d2)
  then show ?case using run_steps.start by blast
qed

lemma newer_driver:
  assumes "authorizers_frame au" "wf_db d" "getActiveAssignment run d = Some b" "run_steps au d d1"
    and "getActiveAssignment run d1 = Some a" "ea_epoch a \<noteq> ea_epoch b"
  shows "ea_epoch b < ea_epoch a"
proof -
  have "ea_epoch b \<le> maxEpoch run (executionAssignments d)"
    using gen.active_top[OF _ assms(3)] assms(2) by (simp add: wf_db_def)
  then have "gen.fence (ea_epoch b) run d" using assms(3) by (simp add: gen.fence_def)
  from steps_fence[OF assms(4,1,2) this] assms(5,6) show ?thesis by (auto simp: gen.fence_def)
qed



end
