(* ===== verification/RunEffects.thy ===== *)
theory RunEffects
  imports RunGuarantees
begin

text \<open>
  What the transitions write besides the status: nothing when refused, the terminal record (sync claim,
  events, coordinator wake, closed questions) when they end a run, the review event, and the admission
  conditions of a coordinator's wake.
\<close>

section \<open>Refusals\<close>

lemma cas_miss:
  assumes "runs_t.wf_rows (runs d)" and "\<And>r. r_id (f r) = r_id r" and "cas run from f d = ([], d1)"
  shows "d1 = d"
  using assms by (cases rule: cas_cases) auto

lemma cas_only_refused:
  assumes "runs_t.wf_rows (runs d)" and "\<And>r. r_id (f r) = r_id r" and "cas_only run from f d = (Refused x, d')"
  shows "d' = d"
  using assms(3) cas_miss[OF assms(1,2), of run "from"]
  by (auto simp: cas_only_def split: prod.splits if_splits)

lemma cas_release_refused:
  assumes "runs_t.wf_rows (runs d)" and "\<And>r. r_id (f r) = r_id r"
    and "cas_release am run from f reason d = (Refused x, d')"
  shows "d' = d"
  using assms(3) cas_miss[OF assms(1,2), of run "from"]
  by (auto simp: cas_release_def split: prod.splits if_splits)

lemma review_refused:
  assumes "runs_t.wf_rows (runs d)" and "\<And>r. r_id (f r) = r_id r"
    and "review_result (casToReviewAndEmit am run f from cause reason d) = (Refused x, d')"
  shows "d' = d"
  using assms(3) cas_miss[OF assms(1,2), of run "[from]"]
  by (auto simp: review_result_def casToReviewAndEmit_def Let_def split: prod.splits if_splits list.splits)

lemma mint_refused:
  assumes "runs_t.wf_rows (runs d)" and "\<And>r. r_id (f r) = r_id r"
    and "(let (rows, d1) = cas run src f d
          in if rows = [] then Inr (Refused StatusGuardMismatch, d1) else g d1) = Inr (Refused x, d')"
    and "\<And>d1 p. g d1 = Inr p \<Longrightarrow> \<exists>a. fst p = Ok a"
  shows "x = StatusGuardMismatch \<and> d' = d"
  using assms(3) cas_miss[OF assms(1,2), of run src] assms(4)
  by (fastforce split: prod.splits if_splits)

definition deferred :: "ambient \<Rightarrow> ident \<Rightarrow> db \<Rightarrow> db \<Rightarrow> bool" where
  "deferred am run d d' \<longleftrightarrow>
     (\<exists>s. d' = d\<lparr>runs := sql_update (cas_guard run [s])
        (\<lambda>r. r\<lparr>r_resumeRequestedAt := coalesce_now (r_resumeRequestedAt r) (am_now am)\<rparr>) (runs d)\<rparr>)"

lemma agent_refused:
  assumes "runs_t.wf_rows (runs d)" and "claimAgentIdleResumeInTransaction au am po run d = Inr (Refused x, d')"
  shows "x = StatusGuardMismatch \<and> d' = d \<or> x = PendingEvidence \<and> deferred am run d d'"
proof -
  from assms(2) obtain permission where perm: "au_readAgentPermission au run d = Inr permission"
    by (auto simp: claimAgentIdleResumeInTransaction_def rbind_Inr_iff)
  show ?thesis
  proof (cases permission)
    case (Some reason)
    with perm assms(2) show ?thesis
      by (auto simp: claimAgentIdleResumeInTransaction_def defer_resume_def cas_def deferred_def)
  next
    case None
    have "x = StatusGuardMismatch \<and> d' = d"
    proof (rule mint_refused[OF assms(1), where run = run and src = "[NeedsInputIdle]"
          and f = "\<lambda>r. r\<lparr>r_status := Running, r_resumeRequestedAt := None, r_keepaliveUntil := None,
                     r_checkpointAt := None\<rparr>"])
      show "(let (rows, d1) = cas run [NeedsInputIdle]
              (\<lambda>r. r\<lparr>r_status := Running, r_resumeRequestedAt := None, r_keepaliveUntil := None,
                     r_checkpointAt := None\<rparr>) d
            in if rows = [] then Inr (Refused StatusGuardMismatch, d1)
               else rbind (mintForClaim am po run PrResume d1) (\<lambda>(a, d2).
                   rbind (au_agentPermission au a d2) (\<lambda>d3.
                   rbind (au_admitCompletedAgent au a d3) (\<lambda>d4.
                   rbind (au_successAudit au d4) (\<lambda>d5. Inr (Ok (Some a), d5)))))) = Inr (Refused x, d')"
        using assms(2) unfolding claimAgentIdleResumeInTransaction_def perm None rbind_simps option.case .
    qed (auto simp: rbind_Inr_iff)
    then show ?thesis by simp
  qed
qed

lemma wait_refused:
  assumes "runs_t.wf_rows (runs d)" and "markResumedFromWait au am po expected run d = Inr (Refused x, d')"
  shows "d' = d \<or> x = Capacity \<and> deferred am run d d'"
proof (cases "coordinator_guard expected run d")
  case (Some refusal)
  with assms(2) show ?thesis by (simp add: markResumedFromWait_def)
next
  case None
  show ?thesis
  proof (cases "int (countLiveRuns FlowPool d) \<ge> fst (effectivePoolCap (am_caps am) FlowPool d)")
    case True
    obtain rows d1 where p: "defer_resume (am_now am) run WaitingOnChildren d = (rows, d1)"
      by fastforce
    have x: "x = (if rows \<noteq> [] then Capacity else StatusGuardMismatch)" "d' = d1"
      using assms(2) None True p by (auto simp: markResumedFromWait_def)
    show ?thesis
    proof (cases "rows = []")
      case True
      have "d1 = d"
        by (rule cas_miss[OF assms(1) _ p[unfolded True defer_resume_def]]) simp
      with x show ?thesis by simp
    next
      case False
      with x p show ?thesis by (auto simp: defer_resume_def cas_def deferred_def)
    qed
  next
    case False
    have "x = StatusGuardMismatch \<and> d' = d"
    proof (rule mint_refused[OF assms(1), where run = run and src = "[WaitingOnChildren]"
          and f = "\<lambda>r. r\<lparr>r_status := Running, r_checkpointAt := None, r_resumeRequestedAt := None\<rparr>"])
      show "(let (rows, d1) = cas run [WaitingOnChildren]
            (\<lambda>r. r\<lparr>r_status := Running, r_checkpointAt := None, r_resumeRequestedAt := None\<rparr>) d
          in if rows = [] then Inr (Refused StatusGuardMismatch, d1)
             else rbind (mintForClaim am po run PrWaitResume d1) (\<lambda>(a, d2).
                       rbind (au_orchestratorAction au a d2) (\<lambda>d3.
                       rbind (au_successAudit au d3) (\<lambda>d4. Inr (Ok (Some a), d4))))) = Inr (Refused x, d')"
        using assms(2) None False by (simp add: markResumedFromWait_def)
    qed (auto simp: rbind_Inr_iff)
    then show ?thesis by simp
  qed
qed

lemma resumed_refused:
  assumes "runs_t.wf_rows (runs d)" and "markResumed au am po permission undelivered run d = Inr (Refused x, d')"
  shows "d' = d"
proof -
  have "x = StatusGuardMismatch \<and> d' = d"
    by (rule mint_refused[OF assms(1) _ assms(2)[unfolded markResumed_def]]) (auto simp: rbind_Inr_iff)
  then show ?thesis by simp
qed

lemma returned_refused:
  assumes "runs_t.wf_rows (runs d)" and "markReturnedToRunning am po run d = Inr (Refused x, d')"
  shows "d' = d"
proof -
  have "x = StatusGuardMismatch \<and> d' = d"
    by (rule mint_refused[OF assms(1) _ assms(2)[unfolded markReturnedToRunning_def]]) (auto simp: rbind_Inr_iff)
  then show ?thesis by simp
qed

lemma takeover_release_refused:
  assumes "runs_t.wf_rows (runs d)" and "releaseHumanWorking am run d = (Refused x, d')"
  shows "d' = d"
  using assms(2) cas_miss[OF assms(1), where run = run and f = "\<lambda>r. r\<lparr>r_status := NeedsInput\<rparr>"]
  by (auto simp: releaseHumanWorking_def split: prod.splits if_splits)

lemma crash_refused:
  assumes "runs_t.wf_rows (runs d)"
  shows "failResumedRun am run reason d = (Refused x, d') \<Longrightarrow> d' = d"
    and "crashResumedRun am run reason d = (Refused x, d') \<Longrightarrow> d' = d"
    and "crashRunningRun am run why ss src d = (Refused x, d') \<Longrightarrow> d' = d"
    and "crashWaitingOnChildren am run why d = (Refused x, d') \<Longrightarrow> d' = d"
    and "markAbandoned am run cause d = (Refused x, d') \<Longrightarrow> d' = d"
  unfolding failResumedRun_def crashResumedRun_def crashRunningRun_def crashWaitingOnChildren_def abandon_eq
  by (auto simp: Let_def split: prod.splits list.splits dest!: cas_miss[OF assms, rotated])

text \<open>
  C19: a refused transition leaves the database as it was.  The one exception is a wake that must wait, for
  a pool slot or for the agent's checkpoint evidence: it stamps \<^verbatim>\<open>resume_requested_at\<close> on its own run,
  keeping an earlier stamp, and writes nothing else.
\<close>

theorem refused_changes_nothing:
  assumes "wf_db d" and "exec au am t d = Inr (Refused x, d')"
  shows "d' = d \<or> x \<in> {Capacity, PendingEvidence} \<and> deferred am (subject t) d d'"
proof -
  have wf: "runs_t.wf_rows (runs d)" using assms(1) by (simp add: wf_db_def)
  show ?thesis
    using assms(2)
    by (cases t)
       (auto simp: checkpoint_eq markWaitingOnChildren_def rollbackResumeFromWait_def rollbackResumedRun_def
        markReworkFromReview_def markReworkClaimFromReview_def markSyncFromReview_def markReopenFromDone_def
        bumpKeepalive_def markHumanWorking_def markReviewFromReworkClaim_def markSyncReviewFromRunning_def
        markSyncReviewFromNeedsInput_def
        dest: cas_only_refused[OF wf, rotated] cas_release_refused[OF wf, rotated] review_refused[OF wf, rotated]
          agent_refused[OF wf] wait_refused[OF wf] resumed_refused[OF wf] returned_refused[OF wf]
          takeover_release_refused[OF wf] crash_refused[OF wf])
qed

theorem refused_changes_nothing_witness:
  "\<exists>d'. exec no_authorizers example_ambient (MarkCheckpointed ''r'') (driven Review) = Inr (Refused StatusGuardMismatch, d')
     \<and> d' = driven Review"
proof -
  obtain d' where d': "exec no_authorizers example_ambient (MarkCheckpointed ''r'') (driven Review)
      = Inr (Refused StatusGuardMismatch, d')"
    by (simp add: checkpoint_eq cas_release_def driven_simps)
  from refused_changes_nothing[OF driven_wf this] have "d' = driven Review" by simp
  with d' show ?thesis by blast
qed

section \<open>The end of a run\<close>

fun terminal_kind :: "transition \<Rightarrow> domain_event_kind option" where
  "terminal_kind (FailResumedRun i reason) = Some EvRunFailed"
| "terminal_kind (MarkAbandoned i c) = Some EvRunAbandoned"
| "terminal_kind (CrashResumedRun i reason) = Some EvRunCrashed"
| "terminal_kind (CrashRunningRun i reason ss src) = Some EvRunCrashed"
| "terminal_kind (CrashWaitingOnChildren i reason) = Some EvRunCrashed"
| "terminal_kind _ = None"

text \<open>
  The state \<open>d1\<close> a terminal transition emits from: the run's row \<open>r\<close> is the flipped \<open>r0\<close>, the other
  rows, the ledger and the outboxes are as before.
\<close>

definition emits_from :: "ident \<Rightarrow> run_row \<Rightarrow> run_row \<Rightarrow> db \<Rightarrow> db \<Rightarrow> bool" where
  "emits_from run r0 r d d1 \<longleftrightarrow>
     run_of d run = Some r0 \<and> r_id r = run \<and> r_parentRunId r = r_parentRunId r0
     \<and> (\<forall>i. i \<noteq> run \<longrightarrow> run_of d1 i = run_of d i)
     \<and> nodeAttempts d1 = nodeAttempts d \<and> domainEvents d1 = domainEvents d \<and> webhookEvents d1 = webhookEvents d"

definition keeps_log :: "(db \<Rightarrow> db) \<Rightarrow> bool" where
  "keeps_log g \<longleftrightarrow>
     (\<forall>d. runs (g d) = runs d \<and> nodeAttempts (g d) = nodeAttempts d \<and> domainEvents (g d) = domainEvents d
        \<and> webhookEvents (g d) = webhookEvents d)"

lemma keeps_log_steps [simp]:
  "keeps_log (\<lambda>d. d)"
  "keeps_log (released am run reason)"
  "keeps_log (releaseSyncClaimOnTerminal now run code)"
  "keeps_log (close_hitl now run)"
  "keeps_log (\<lambda>d. d\<lparr>workspaces := W (workspaces d)\<rparr>)"
  by (simp_all add: keeps_log_def released_def releaseAssignmentForRun_def releaseSyncClaimOnTerminal_def
      close_hitl_def)

lemma keeps_log_comp: "keeps_log f \<Longrightarrow> keeps_log g \<Longrightarrow> keeps_log (\<lambda>d. f (g d))"
  by (simp add: keeps_log_def)

lemma terminal_flip:
  assumes wf: "runs_t.wf_rows (runs d)" and f: "\<And>r. r_id (f r) = r_id r" "\<And>r. r_parentRunId (f r) = r_parentRunId r"
    and g: "keeps_log g"
    and ex: "(case cas run from f d of (rows, d1) \<Rightarrow>
          case rows of [] \<Rightarrow> (Refused StatusGuardMismatch, d1) | r # _ \<Rightarrow> (Ok None, emit_terminal am r type data kind cause reason (g d1))) = (Ok a, d')"
  shows "\<exists>r0 r d1. emits_from run r0 r d d1 \<and> d' = emit_terminal am r type data kind cause reason d1"
proof -
  obtain rows d1 where c: "cas run from f d = (rows, d1)" by fastforce
  from wf f(1) c show ?thesis
  proof (cases rule: cas_cases)
    case miss
    with ex c show ?thesis by simp
  next
    case (hit r0)
    have "r_id (f r0) = run"
      using hit(1) f(1) runs_t.row_in_set[of run "runs d"] by (auto simp: run_of_def)
    then have "emits_from run r0 (f r0) d (g d1)"
      using hit f(2) g by (simp add: emits_from_def keeps_log_def run_of_def)
    moreover have "d' = emit_terminal am (f r0) type data kind cause reason (g d1)"
      using ex c hit(3) by simp
    ultimately show ?thesis by blast
  qed
qed

lemma terminal_form:
  assumes wf: "wf_db d" and kind: "terminal_kind t = Some k" and ex: "exec au am t d = Inr (Ok a, d')"
  shows "\<exists>r0 r d1 type data cause reason. emits_from (subject t) r0 r d d1
    \<and> d' = emit_terminal am r type data k cause reason d1"
proof -
  have runs: "runs_t.wf_rows (runs d)" using wf by (simp add: wf_db_def)
  note flip = terminal_flip[OF runs _ _ keeps_log_steps(2)]
    terminal_flip[OF runs _ _ keeps_log_comp[OF keeps_log_steps(2,3)]]
    terminal_flip[OF runs _ _ keeps_log_comp[OF keeps_log_steps(2) keeps_log_comp[OF keeps_log_steps(3,4)]]]
  have abandon: "keeps_log (\<lambda>d1. (released am i ''abandoned'' (releaseSyncClaimOnTerminal (am_now am) i ''CRASH'' d1))
      \<lparr>workspaces := sql_update (\<lambda>w. w_runId w = i)
         (\<lambda>w. w\<lparr>w_scheduledRemovalAt := Some (am_now am + gcAgeDays (am_gcAgeDays am) * 86400000)\<rparr>)
         (workspaces (released am i ''abandoned'' (releaseSyncClaimOnTerminal (am_now am) i ''CRASH'' d1)))\<rparr>)" for i
    by (simp add: keeps_log_def released_def releaseAssignmentForRun_def releaseSyncClaimOnTerminal_def)
  show ?thesis
  proof (cases t)
    case (FailResumedRun i reason)
    then have x: "failResumedRun am i reason d = (Ok a, d')" "k = EvRunFailed" using ex kind by auto
    show ?thesis
      using flip(1)[OF _ _ x(1)[unfolded failResumedRun_def Let_def]] FailResumedRun x(2) by fastforce
  next
    case (MarkAbandoned i c)
    then have x: "markAbandoned am i c d = (Ok a, d')" "k = EvRunAbandoned" using ex kind by auto
    show ?thesis
      using terminal_flip[OF runs _ _ abandon x(1)[unfolded abandon_eq Let_def]] MarkAbandoned x(2) by fastforce
  next
    case (CrashResumedRun i reason)
    then have x: "crashResumedRun am i reason d = (Ok a, d')" "k = EvRunCrashed" using ex kind by auto
    show ?thesis
      using flip(2)[OF _ _ x(1)[unfolded crashResumedRun_def Let_def]] CrashResumedRun x(2) by fastforce
  next
    case (CrashRunningRun i reason ss src)
    then have x: "crashRunningRun am i reason ss src d = (Ok a, d')" "k = EvRunCrashed" using ex kind by auto
    show ?thesis
      using flip(3)[OF _ _ x(1)[unfolded crashRunningRun_def Let_def]] CrashRunningRun x(2)
      by (fastforce simp: crash_row_def)
  next
    case (CrashWaitingOnChildren i reason)
    then have x: "crashWaitingOnChildren am i reason d = (Ok a, d')" "k = EvRunCrashed" using ex kind by auto
    show ?thesis
      using flip(2)[OF _ _ x(1)[unfolded crashWaitingOnChildren_def Let_def]] CrashWaitingOnChildren x(2)
      by (fastforce simp: crash_row_def)
  qed (use kind in simp_all)
qed

lemma emit_terminal_logs:
  "domainEvents (emit_terminal am r type data k cause reason d)
     = domainEvents d @ [event_row (am_now am) (terminal_input r k cause reason)]"
  "webhookEvents (emit_terminal am r type data k cause reason d)
     = webhookEvents d @ [webhook_row (am_now am) (am_eventId am) (ProjectScoped type (r_projectId r) (r_id r) data None)]"
  "workspaces (emit_terminal am r type data k cause reason d) = workspaces d"
  "runSyncAttempts (emit_terminal am r type data k cause reason d) = runSyncAttempts d"
  "hitlRequests (emit_terminal am r type data k cause reason d) = hitlRequests d"
  by (simp_all add: emit_terminal_def)

text \<open>
  C20: a run that fails, crashes or is abandoned appends exactly one webhook and one domain event, of the
  matching kind, for that run, with the parent's id as routing key (null for a top-level run) and a cause
  whose reason, if any, is a token: free text of the failure never reaches the payload's cause.
\<close>

theorem terminal_event_once:
  assumes "wf_db d" and "terminal_kind t = Some k" and "exec au am t d = Inr (Ok a, d')"
  shows "\<exists>e w c. domainEvents d' = domainEvents d @ [e] \<and> webhookEvents d' = webhookEvents d @ [w]
    \<and> de_kind e = k \<and> de_runId e = Some (subject t) \<and> we_runId w = Some (subject t)
    \<and> dp_parentRunId (de_payload e) = Some (Option.bind (run_of d (subject t)) r_parentRunId)
    \<and> dp_cause (de_payload e) = Some c \<and> (tc_reason c = None \<or> CAUSE_REASON (the (tc_reason c)))"
proof -
  from terminal_form[OF assms] obtain r0 r d1 type data cause reason where
    f: "emits_from (subject t) r0 r d d1" and d': "d' = emit_terminal am r type data k cause reason d1"
    by blast
  let ?e = "event_row (am_now am) (terminal_input r k cause reason)"
  let ?c = "tokenOnlyCause cause"
  have tok: "tc_reason ?c = None \<or> CAUSE_REASON (the (tc_reason ?c))"
    using terminalCauseReason_SomeD[of "tc_reason cause"]
    by (cases "terminalCauseReason (tc_reason cause)") (auto simp: tokenOnlyCause_def)
  show ?thesis
    using f tok
    by (intro exI[of _ ?e] exI[of _ ?c] exI[of _ "webhook_row (am_now am) (am_eventId am)
          (ProjectScoped type (r_projectId r) (r_id r) data None)"])
       (auto simp: d' emit_terminal_logs emits_from_def event_row_def terminal_input_def webhook_row_def)
qed

lemma driven_abandon:
  "\<exists>d'. exec no_authorizers example_ambient (MarkAbandoned ''r'' None) (driven Running) = Inr (Ok None, d')"
  by (simp add: abandon_eq driven_simps ABANDONABLE_STATUSES_def releaseSyncClaimOnTerminal_def Let_def)

theorem terminal_event_once_witness:
  "\<exists>d' e. exec no_authorizers example_ambient (MarkAbandoned ''r'' None) (driven Running) = Inr (Ok None, d')
     \<and> domainEvents d' = [e] \<and> de_kind e = EvRunAbandoned"
proof -
  obtain d' where d': "exec no_authorizers example_ambient (MarkAbandoned ''r'' None) (driven Running) = Inr (Ok None, d')"
    using driven_abandon by blast
  from terminal_event_once[OF driven_wf _ this, of EvRunAbandoned] d' show ?thesis
    by (auto simp: driven_def empty_db_def)
qed

text \<open>
  a child that fails, crashes or is abandoned arms its coordinator: if the parent is still in a status
  in which its orchestrator node can be open and that node's attempt is open, the same transaction stamps
  the parent's wake, keeping an earlier stamp.
\<close>

lemma failed_child_arms_coordinator:
  assumes "wf_db d" and "terminal_kind t = Some k" and "exec au am t d = Inr (Ok a, d')"
    and "run_of d (subject t) = Some child" and "r_parentRunId child = Some p" and "p \<noteq> []" and "p \<noteq> subject t"
    and "run_of d p = Some parent" and "armable d p parent"
  shows "\<exists>parent'. run_of d' p = Some parent' \<and> r_status parent' = r_status parent
    \<and> r_failedChildWakeAt parent' = (case r_failedChildWakeAt parent of None \<Rightarrow> Some (am_now am) | Some s \<Rightarrow> Some s)"
proof -
  from terminal_form[OF assms(1-3)] obtain r0 r d1 type data cause reason where
    f: "emits_from (subject t) r0 r d d1" and d': "d' = emit_terminal am r type data k cause reason d1"
    by blast
  let ?d2 = "snd (emitWebhookEvent (am_now am) (am_eventId am) (ProjectScoped type (r_projectId r) (r_id r) data None) d1)"
  have k: "k \<in> set TERMINAL_FAILURE_EVENT_KINDS"
    using assms(2) by (cases t) (auto simp: TERMINAL_FAILURE_EVENT_KINDS_def)
  have wake: "wake_target (terminal_input r k cause reason) = Some p"
    using f assms(4-6) k by (simp add: emits_from_def wake_target_def terminal_input_def)
  have row: "run_of ?d2 p = Some parent"
    using f assms(7,8) by (simp add: emits_from_def run_of_def)
  have "nodeAttempts ?d2 = nodeAttempts d"
    using f by (simp add: emits_from_def)
  then have "armable ?d2 p parent"
    using assms(9) unfolding armable_def by (rule ssubst)
  with row wake show ?thesis
    by (simp add: d' emit_terminal_def emitDomainEvent_run_of arm_row_def coalesce_now_def)
qed

definition family :: db where
  "family = empty_db\<lparr>runs := [example_run ''p'' WaitingOnChildren, (example_run ''r'' Running)\<lparr>r_parentRunId := Some ''p''\<rparr>],
     nodeAttempts := [blank_attempt 1 ''n1'' ''p'' ''plan'' Orchestrator 1 NaNeedsInput]\<rparr>"

lemma family_wf: "wf_db family"
  by (simp add: family_def wf_db_def runs_t.wf_rows_def wf_assignments_def assignments_t.wf_rows_def
      unique_epochs_def one_active_def example_run_def empty_db_def)

lemma failed_child_arms_coordinator_witness:
  "\<exists>d' parent'. exec no_authorizers example_ambient (MarkAbandoned ''r'' None) family = Inr (Ok None, d')
     \<and> run_of d' ''p'' = Some parent' \<and> r_failedChildWakeAt parent' = Some 1000"
proof -
  obtain d' where d': "exec no_authorizers example_ambient (MarkAbandoned ''r'' None) family = Inr (Ok None, d')"
    by (simp add: abandon_eq family_def driven_simps ABANDONABLE_STATUSES_def releaseSyncClaimOnTerminal_def Let_def)
  have "run_of family ''r'' = Some ((example_run ''r'' Running)\<lparr>r_parentRunId := Some ''p''\<rparr>)"
    "run_of family ''p'' = Some (example_run ''p'' WaitingOnChildren)"
    "armable family ''p'' (example_run ''p'' WaitingOnChildren)"
    by (simp_all add: family_def run_of_def runs_t.row_def example_run_def empty_db_def armable_def
        ARMABLE_PARENT_STATUSES_def blank_attempt_def)
  from failed_child_arms_coordinator[OF family_wf _ d' _ _ _ _ this(2,3), of EvRunAbandoned] this(1) d'
  show ?thesis by (auto simp: example_ambient_def example_run_def)
qed

section \<open>Branch-sync claims at the end of a run\<close>

text \<open>The transitions that promise to release the claim.\<close>

fun releases_sync :: "transition \<Rightarrow> bool" where
  "releases_sync (MarkAbandoned i c) \<longleftrightarrow> True"
| "releases_sync (CrashResumedRun i reason) \<longleftrightarrow> True"
| "releases_sync (CrashRunningRun i reason ss src) \<longleftrightarrow> True"
| "releases_sync (CrashWaitingOnChildren i reason) \<longleftrightarrow> True"
| "releases_sync _ \<longleftrightarrow> False"

definition sync_free :: "ident \<Rightarrow> db \<Rightarrow> bool" where
  "sync_free run d \<longleftrightarrow>
     list_all (\<lambda>a. sa_runId a = run \<longrightarrow> sa_phase a \<in> set RUN_SYNC_TERMINAL_PHASES) (runSyncAttempts d)
     \<and> list_all (\<lambda>w. w_runId w = run \<longrightarrow> w_lifecycleOperationName w \<noteq> Some ''sync'') (workspaces d)"

lemma sync_free_release: "sync_free run (releaseSyncClaimOnTerminal now run code d)"
proof -
  have "list_all (\<lambda>a. sa_runId a = run \<longrightarrow> sa_phase a \<in> set RUN_SYNC_TERMINAL_PHASES)
      (sql_update (live_sync run) (fail_sync_row now code) rows)" for rows
    by (induction rows)
       (simp_all add: sql_update_def live_sync_def fail_sync_row_def RUN_SYNC_TERMINAL_PHASES_def)
  moreover have "list_all (\<lambda>w. w_runId w = run \<longrightarrow> w_lifecycleOperationName w \<noteq> Some ''sync'')
      (sql_update (sync_claim_of run) RELEASED_LIFECYCLE_CLAIM rows)" for rows
    by (induction rows) (simp_all add: sql_update_def sync_claim_of_def)
  ultimately show ?thesis by (simp add: sync_free_def releaseSyncClaimOnTerminal_def)
qed

lemma sync_free_cong:
  "runSyncAttempts d' = runSyncAttempts d \<Longrightarrow> workspaces d' = workspaces d \<Longrightarrow> sync_free run d' = sync_free run d"
  by (simp add: sync_free_def)

lemma sync_free_stamp:
  assumes "sync_free run d" and "\<And>w. w_runId (f w) = w_runId w"
    and "\<And>w. w_lifecycleOperationName (f w) = w_lifecycleOperationName w"
  shows "sync_free run (d\<lparr>workspaces := sql_update P f (workspaces d)\<rparr>)"
  using assms by (auto simp: sync_free_def list_all_iff sql_update_def)

lemma claim_shape_release: "list_all claim_shape ws \<Longrightarrow> list_all claim_shape (sql_update P RELEASED_LIFECYCLE_CLAIM ws)"
  by (auto simp: list_all_iff sql_update_def)

lemma claim_shape_stamped: "claim_shape (w\<lparr>w_scheduledRemovalAt := x\<rparr>) = claim_shape w"
  by (simp add: claim_shape_def Let_def split: lifecycle_state.splits)

lemma claim_shape_stamp:
  "list_all claim_shape ws \<Longrightarrow> list_all claim_shape (sql_update P (\<lambda>w. w\<lparr>w_scheduledRemovalAt := x\<rparr>) ws)"
  by (auto simp: list_all_iff sql_update_def claim_shape_stamped)

text \<open>
  C21: an abandoned or crashed run strands no branch sync: none of its sync attempts is left in a live phase,
  none of its workspaces keeps the sync claim, and the released slots satisfy the claim-shape CHECK, so
  the transaction cannot fail on it.
\<close>

theorem terminal_releases_sync_claim:
  assumes "wf_db d" and "releases_sync t" and "list_all claim_shape (workspaces d)"
    and "exec au am t d = Inr (Ok a, d')"
  shows "sync_free (subject t) d' \<and> list_all claim_shape (workspaces d')"
proof -
  have free: "sync_free i (emit_terminal am r type data k cause reason (released am i why
      (releaseSyncClaimOnTerminal now i code x)))" for i r type data k cause reason why now code x
    using sync_free_release[of i now code x]
    by (simp add: sync_free_def emit_terminal_logs released_def releaseAssignmentForRun_def)
  have free': "sync_free i (emit_terminal am r type data k cause reason
      ((released am i why (releaseSyncClaimOnTerminal now i code x))\<lparr>workspaces :=
         sql_update P (\<lambda>w. w\<lparr>w_scheduledRemovalAt := y\<rparr>)
           (workspaces (released am i why (releaseSyncClaimOnTerminal now i code x)))\<rparr>))"
    for i r type data k cause reason why now code x P y
    using sync_free_stamp[of i "released am i why (releaseSyncClaimOnTerminal now i code x)"
        "\<lambda>w. w\<lparr>w_scheduledRemovalAt := y\<rparr>" P] sync_free_release[of i now code x]
    by (simp add: sync_free_def emit_terminal_logs released_def releaseAssignmentForRun_def)
  have "sync_free (subject t) d'"
    using assms(2,4)
    by (cases t)
       (auto simp: abandon_eq crashResumedRun_def crashRunningRun_def crashWaitingOnChildren_def Let_def free free'
        split: list.splits prod.splits)
  moreover have "list_all claim_shape (workspaces d')"
    using assms(2-4)
    by (cases t)
       (auto simp: abandon_eq crashResumedRun_def crashRunningRun_def crashWaitingOnChildren_def Let_def
        emit_terminal_logs released_def releaseAssignmentForRun_def releaseSyncClaimOnTerminal_def close_hitl_def
        cas_def split: list.splits intro!: claim_shape_release claim_shape_stamp)
  ultimately show ?thesis by simp
qed

definition syncing :: "run_status \<Rightarrow> db" where
  "syncing s = (driven s)\<lparr>
     runSyncAttempts := [\<lparr>sa_id = ''s1'', sa_runId = ''r'', sa_workspaceId = ''w'', sa_phase = SyAgentRunning,
       sa_errorCode = None, sa_errorMessage = None, sa_updatedAt = 0\<rparr>],
     workspaces := [(claim_lifecycle_row None 0 ''op'' ''sync'' ''Review'' example_workspace)]\<rparr>"

lemma syncing_wf: "wf_db (syncing s)"
  using driven_wf[of s] by (simp add: syncing_def wf_db_def)

theorem terminal_releases_sync_claim_witness:
  "\<exists>d'. exec no_authorizers example_ambient (CrashRunningRun ''r'' TurnLost None None) (syncing Running) = Inr (Ok None, d')
     \<and> sync_free ''r'' d' \<and> \<not> sync_free ''r'' (syncing Running)"
proof -
  obtain d' where d': "exec no_authorizers example_ambient (CrashRunningRun ''r'' TurnLost None None) (syncing Running)
      = Inr (Ok None, d')"
    by (simp add: crashRunningRun_def syncing_def driven_simps Let_def)
  have "list_all claim_shape (workspaces (syncing Running))" "\<not> sync_free ''r'' (syncing Running)"
    by (simp_all add: syncing_def driven_simps claim_lifecycle_row_def example_workspace_def claim_shape_def
        sync_free_def RUN_SYNC_TERMINAL_PHASES_def)
  with terminal_releases_sync_claim[OF syncing_wf _ _ d'] d' show ?thesis by auto
qed

text \<open>
  a run whose resume fails keeps its branch-sync claim.  The transition to \<^verbatim>\<open>Failed\<close> writes
  neither the sync attempts nor the workspaces, so a claim held at that moment survives the run's end,
  although \<^verbatim>\<open>Failed\<close> is terminal.
\<close>

lemma failed_resume_strands_sync_claim:
  assumes "failResumedRun am run reason d = (Ok a, d')"
  shows "runSyncAttempts d' = runSyncAttempts d \<and> workspaces d' = workspaces d \<and> sync_free run d' = sync_free run d"
proof -
  have "runSyncAttempts d' = runSyncAttempts d \<and> workspaces d' = workspaces d"
    using assms
    by (auto simp: failResumedRun_def Let_def cas_def emit_terminal_logs released_def releaseAssignmentForRun_def
        split: list.splits)
  then show ?thesis by (simp add: sync_free_def)
qed

lemma failed_resume_strands_sync_claim_witness:
  "\<exists>d'. failResumedRun example_ambient ''r'' ''CHECKPOINT'' (syncing NeedsInput) = (Ok None, d')
     \<and> status_of d' ''r'' = Some Failed \<and> \<not> sync_free ''r'' d'"
proof -
  obtain d' where d': "failResumedRun example_ambient ''r'' ''CHECKPOINT'' (syncing NeedsInput) = (Ok None, d')"
    and st: "status_of d' ''r'' = Some Failed"
    by (simp add: failResumedRun_def syncing_def driven_simps Let_def emit_terminal_def emitDomainEvent_def
        wake_target_def terminal_input_def)
  have "\<not> sync_free ''r'' (syncing NeedsInput)"
    by (simp add: syncing_def driven_simps claim_lifecycle_row_def example_workspace_def sync_free_def
        RUN_SYNC_TERMINAL_PHASES_def)
  with failed_resume_strands_sync_claim[OF d'] d' st show ?thesis by auto
qed

section \<open>What a crash keeps\<close>

lemma list_all_updated:
  assumes "\<And>x. q x \<Longrightarrow> P (f x)" and "\<And>x. \<not> q x \<Longrightarrow> P x"
  shows "list_all P (sql_update q f xs)"
  using assms by (induction xs) (auto simp: sql_update_def)

lemma emit_terminal_row:
  assumes "run_of d i = Some r"
  shows "\<exists>r'. run_of (emit_terminal am x type data k cause reason d) i = Some r' \<and> (r' = r \<or> r' = arm_row (am_now am) r)"
proof -
  let ?d2 = "d\<lparr>webhookEvents := webhookEvents d @ [webhook_row (am_now am) (am_eventId am)
      (ProjectScoped type (r_projectId x) (r_id x) data None)]\<rparr>"
  have "run_of ?d2 i = Some r" using assms by (simp add: run_of_def)
  then show ?thesis
    by (cases "wake_target (terminal_input x k cause reason)") (simp_all add: emit_terminal_def emitDomainEvent_run_of)
qed

lemma closed_reason_round_trip:
  assumes "hr_kind h = HkPermission" and "hr_response h = Some (JObj kvs)"
  shows "closedAnswerReason (closedAnswerResponse reason at0 h) = Some reason"
  using assms by (simp add: closedAnswerReason_def closedAnswerResponse_def own_prop_def)

lemma closed_hitl_rows:
  assumes "rows' = sql_update (\<lambda>h. hr_runId h = run \<and> hr_respondedAt h = None)
         (\<lambda>h. h\<lparr>hr_respondedAt := Some now, hr_response := closedAnswerResponse ''session_ended'' now h\<rparr>) rows"
  shows "list_all (\<lambda>h. hr_runId h = run \<longrightarrow> hr_respondedAt h \<noteq> None) rows'"
    and "x \<in> set rows \<and> hr_runId x = run \<and> hr_respondedAt x = None \<and> hr_kind x = HkPermission
         \<and> hr_response x = Some (JObj kvs) \<Longrightarrow>
         \<exists>h' \<in> set rows'. hr_id h' = hr_id x \<and> closedAnswerReason (hr_response h') = Some ''session_ended''"
proof -
  show "list_all (\<lambda>h. hr_runId h = run \<longrightarrow> hr_respondedAt h \<noteq> None) rows'"
    unfolding assms by (rule list_all_updated) simp_all
next
  assume x: "x \<in> set rows \<and> hr_runId x = run \<and> hr_respondedAt x = None \<and> hr_kind x = HkPermission
      \<and> hr_response x = Some (JObj kvs)"
  let ?c = "x\<lparr>hr_respondedAt := Some now, hr_response := closedAnswerResponse ''session_ended'' now x\<rparr>"
  have "?c \<in> set rows'" unfolding assms set_sql_update using x by blast
  moreover have "hr_id ?c = hr_id x \<and> closedAnswerReason (hr_response ?c) = Some ''session_ended''"
    using x closed_reason_round_trip[of x kvs] by simp
  ultimately show "\<exists>h' \<in> set rows'. hr_id h' = hr_id x \<and> closedAnswerReason (hr_response h') = Some ''session_ended''" by blast
qed


definition asking :: db where
  "asking = (driven NeedsInput)\<lparr>hitlRequests := [\<lparr>hr_id = ''q'', hr_runId = ''r'', hr_kind = HkPermission,
     hr_response = Some (JObj [(''optionId'', JStr ''allow'')]), hr_respondedAt = None\<rparr>]\<rparr>"


section \<open>Review\<close>

fun review_cause :: "transition \<Rightarrow> run_review_cause option" where
  "review_cause (MarkReviewFromReworkClaim i) = Some CauseReworkReleased"
| "review_cause (MarkSyncReviewFromRunning i) = Some CauseSyncReturned"
| "review_cause (MarkSyncReviewFromNeedsInput b i) = Some CauseSyncReturned"
| "review_cause _ = None"

lemma review_flip:
  assumes wf: "runs_t.wf_rows (runs d)" and f: "\<And>r. r_id (f r) = r_id r" "\<And>r. r_parentRunId (f r) = r_parentRunId r"
    and ex: "review_result (casToReviewAndEmit am run f from cause reason d) = (Ok a, d')"
  shows "\<exists>r0 r. run_of d run = Some r0 \<and> r_id r = run \<and> r_parentRunId r = r_parentRunId r0
    \<and> domainEvents d' = domainEvents d @ [event_row (am_now am) (review_input r cause None)]"
proof -
  obtain rows d1 where c: "cas run [from] f d = (rows, d1)" by fastforce
  from wf f(1) c show ?thesis
  proof (cases rule: cas_cases)
    case miss
    with ex c show ?thesis by (simp add: review_result_def casToReviewAndEmit_def)
  next
    case (hit r0)
    have "r_id (f r0) = run"
      using hit(1) f(1) runs_t.row_in_set[of run "runs d"] by (auto simp: run_of_def)
    moreover have "domainEvents d' = domainEvents d @ [event_row (am_now am) (review_input (f r0) cause None)]"
      using ex c hit(3,4)
      by (auto simp: review_result_def casToReviewAndEmit_def Let_def emitDelegatedReview_eq released_def
          releaseAssignmentForRun_def split: option.splits)
    ultimately show ?thesis using hit(1) f(2) by blast
  qed
qed

text \<open>
  Every return of a run to \<^verbatim>\<open>Review\<close> emits exactly one domain event in the same transaction:
  \<^verbatim>\<open>run.review\<close> with the parent's id if the run is a delegated child, \<^verbatim>\<open>run.review_opened\<close>
  without that key otherwise, with the cause of the return.
\<close>

lemma review_return_emits:
  assumes "wf_db d" and "review_cause t = Some c" and "exec au am t d = Inr (Ok a, d')"
    and "run_of d (subject t) = Some r0" and "r_parentRunId r0 \<noteq> Some []"
  shows "\<exists>e. domainEvents d' = domainEvents d @ [e] \<and> de_runId e = Some (subject t)
    \<and> dp_reviewCause (de_payload e) = Some c
    \<and> (case r_parentRunId r0 of
         Some p \<Rightarrow> de_kind e = EvRunReview \<and> dp_parentRunId (de_payload e) = Some (Some p)
       | None \<Rightarrow> de_kind e = EvRunReviewOpened \<and> dp_parentRunId (de_payload e) = None)"
proof -
  have wf: "runs_t.wf_rows (runs d)" using assms(1) by (simp add: wf_db_def)
  have "\<exists>r0 r. run_of d (subject t) = Some r0 \<and> r_id r = subject t \<and> r_parentRunId r = r_parentRunId r0
    \<and> domainEvents d' = domainEvents d @ [event_row (am_now am) (review_input r c None)]"
  proof (cases t)
    case (MarkReviewFromReworkClaim i)
    with assms(2,3) show ?thesis
      by (intro review_flip[OF wf, where f = "\<lambda>r. r\<lparr>r_status := Review\<rparr>"])
         (auto simp: markReviewFromReworkClaim_def)
  next
    case (MarkSyncReviewFromRunning i)
    with assms(2,3) show ?thesis
      by (intro review_flip[OF wf, where f = sync_review_row]) (auto simp: markSyncReviewFromRunning_def sync_review_row_def)
  next
    case (MarkSyncReviewFromNeedsInput b i)
    with assms(2,3) show ?thesis
      by (intro review_flip[OF wf, where f = sync_review_row]) (auto simp: markSyncReviewFromNeedsInput_def sync_review_row_def)
  qed (use assms(2) in simp_all)
  then obtain r where r: "r_id r = subject t" "r_parentRunId r = r_parentRunId r0"
    "domainEvents d' = domainEvents d @ [event_row (am_now am) (review_input r c None)]"
    using assms(4) by auto
  then show ?thesis
    using assms(5)
    by (auto simp: event_row_def review_input_def review_payload_def Let_def split: option.splits)
qed

theorem review_return_emits_witness:
  "\<exists>d' e. exec no_authorizers example_ambient (MarkReviewFromReworkClaim ''r'') (driven HumanWorking) = Inr (Ok None, d')
     \<and> domainEvents d' = [e] \<and> de_kind e = EvRunReviewOpened"
proof -
  obtain d' where d': "exec no_authorizers example_ambient (MarkReviewFromReworkClaim ''r'') (driven HumanWorking) = Inr (Ok None, d')"
    by (simp add: markReviewFromReworkClaim_def casToReviewAndEmit_def review_result_def driven_simps Let_def)
  have "run_of (driven HumanWorking) ''r'' = Some (example_run ''r'' HumanWorking)"
    by (simp add: driven_def run_of_def runs_t.row_def example_run_def)
  from review_return_emits[OF driven_wf _ d' , of CauseReworkReleased "example_run ''r'' HumanWorking"] this d'
  show ?thesis by (auto simp: example_run_def driven_def empty_db_def)
qed

section \<open>Waking a coordinator\<close>

text \<open>
  a coordinator is woken only where it may run: the flow pool is below its cap and the host is not under
  pressure; and a wake bound to a coordinator node finds that node current and its attempt parked, with no
  child still owing a result unless the node is an orchestrator with an unhandled child failure.
\<close>

lemma wake_is_admitted:
  assumes "markResumedFromWait au am po expected run d = Inr (Ok a, d')"
  shows "int (countLiveRuns FlowPool d) < capForPool (am_caps am) FlowPool \<and> hostPressuredSince d = None
    \<and> (case expected of None \<Rightarrow> True | Some (node, attemptId) \<Rightarrow>
         (\<exists>r n. run_of d run = Some r \<and> r_currentStepId r = Some node \<and> latestAttemptForNode run node d = Some n
            \<and> na_id n = attemptId \<and> na_status n = NaNeedsInput
            \<and> (\<not> pendingChildObligation run d
               \<or> na_nodeType n = Orchestrator \<and> (r_failedChildWakeAt r \<noteq> None \<or> hasUnobservedChildOutcome run d))))"
proof -
  have guard: "coordinator_guard expected run d = None"
    using assms by (cases "coordinator_guard expected run d") (simp_all add: markResumedFromWait_def)
  have cap: "int (countLiveRuns FlowPool d) < fst (effectivePoolCap (am_caps am) FlowPool d)"
    using assms guard by (auto simp: markResumedFromWait_def split: if_splits prod.splits)
  then have "hostPressuredSince d = None"
    by (cases "hostPressuredSince d") (auto simp: effectivePoolCap_def)
  moreover from this cap have "int (countLiveRuns FlowPool d) < capForPool (am_caps am) FlowPool"
    by (simp add: effectivePoolCap_def)
  ultimately show ?thesis
    using guard
    by (auto simp: coordinator_guard_def pending_iff_count Let_def split: option.splits if_splits prod.splits)
qed

lemma waiting_live: "countLiveRuns FlowPool (driven WaitingOnChildren) = 0"
  by (simp add: countLiveRuns_def preparation_slots_def countTaskLaunchPreparationSlots_def is_live_in_def
      SLOT_HOLDING_RUN_STATUSES_def driven_def empty_db_def example_run_def)

lemma wake_is_admitted_witness:
  "\<exists>a d'. markResumedFromWait no_authorizers example_ambient \<lparr>po_host = None, po_reason = None\<rparr> None ''r''
        (driven WaitingOnChildren) = Inr (Ok a, d')
     \<and> int (countLiveRuns FlowPool (driven WaitingOnChildren)) < capForPool default_caps FlowPool"
proof -
  have "capFromEnv default_caps = 2"
    by (simp add: capFromEnv_def parseCapEnv_def positive_setting_def default_caps_def parse_two)
  then obtain a d' where d': "markResumedFromWait no_authorizers example_ambient \<lparr>po_host = None, po_reason = None\<rparr>
      None ''r'' (driven WaitingOnChildren) = Inr (Ok a, d')"
    using that
    by (simp add: markResumedFromWait_def coordinator_guard_def effectivePoolCap_def capForPool_def
        countLiveRuns_def preparation_slots_def countTaskLaunchPreparationSlots_def is_live_in_def
        SLOT_HOLDING_RUN_STATUSES_def mintForClaim_def mintPlacement_def mintAssignment_def minted_row_def no_authorizers_def insertAssignment_def
        getLatestAssignment_def maxEpoch_def sql_select_def driven_simps claim_run_row_def supersede_row_def Let_def)
  from wake_is_admitted[OF d'] d' show ?thesis by (auto simp: example_ambient_def)
qed

end
