(* ===== verification/NodeLedgerProps.thy ===== *)
theory NodeLedgerProps
  imports NodeLedger
begin

text \<open>
  What the ledger promises: the invariant \<open>wf_ledger\<close> (its two unique constraints) and that an append
  keeps it, the declarative meaning of a rework jump (\<open>markDownstreamStale\<close>), the rework budget over a
  reset, and the life of a manual takeover.
\<close>

section \<open>Appending\<close>

definition wf_ledger :: "db \<Rightarrow> bool" where
  "wf_ledger d \<longleftrightarrow>
     distinct (map na_id (nodeAttempts d))
     \<and> distinct (map (\<lambda>a. (na_runId a, na_nodeId a, na_attempt a)) (nodeAttempts d))"

lemma wf_ledger_id:
  "wf_ledger d \<Longrightarrow> a \<in> set (nodeAttempts d) \<Longrightarrow> b \<in> set (nodeAttempts d) \<Longrightarrow> na_id a = na_id b \<Longrightarrow> a = b"
  by (auto simp: wf_ledger_def distinct_map inj_on_def)

lemma wf_ledger_attempt:
  "wf_ledger d \<Longrightarrow> a \<in> set (nodeAttempts d) \<Longrightarrow> b \<in> set (nodeAttempts d) \<Longrightarrow>
     of_node run node a \<Longrightarrow> of_node run node b \<Longrightarrow> na_attempt a = na_attempt b \<Longrightarrow> a = b"
  by (auto simp: wf_ledger_def of_node_def distinct_map inj_on_def)

lemma fold_max_ge: "m \<le> fold (\<lambda>a m. if na_attempt a > m then na_attempt a else m) as m"
  by (induction as arbitrary: m) (auto intro: le_trans less_imp_le)

lemma fold_max_covers:
  "a \<in> set as \<Longrightarrow> na_attempt a \<le> fold (\<lambda>a m. if na_attempt a > m then na_attempt a else m) as m"
proof (induction as arbitrary: m)
  case (Cons b as)
  then show ?case
    using fold_max_ge[of "if na_attempt b > m then na_attempt b else m" as] by fastforce
qed simp

lemma nextAttemptFor_gt:
  assumes "a \<in> set (nodeAttempts d)" and "of_node run node a"
  shows "na_attempt a < nextAttemptFor run node d"
  using fold_max_covers[of a "sql_select (of_node run node) (nodeAttempts d)" 0] assms
  by (simp add: nextAttemptFor_def sql_select_def)

lemma insertNodeAttempt_Some:
  assumes "\<And>b. b \<in> set (nodeAttempts d) \<Longrightarrow> na_id b \<noteq> na_id a"
    and "na_attempt a = nextAttemptFor (na_runId a) (na_nodeId a) d"
  shows "insertNodeAttempt a d = Some (d\<lparr>nodeAttempts := nodeAttempts d @ [a]\<rparr>)"
  using assms nextAttemptFor_gt[of _ d "na_runId a" "na_nodeId a"]
  by (fastforce simp: insertNodeAttempt_def list_ex_iff)

lemma insertNodeAttempt_wf:
  assumes "wf_ledger d" and "insertNodeAttempt a d = Some d'"
  shows "wf_ledger d'" and "d' = d\<lparr>nodeAttempts := nodeAttempts d @ [a]\<rparr>"
proof -
  show eq: "d' = d\<lparr>nodeAttempts := nodeAttempts d @ [a]\<rparr>"
    using assms(2) by (auto simp: insertNodeAttempt_def split: if_splits)
  have "\<forall>b \<in> set (nodeAttempts d). na_id a \<noteq> na_id b
      \<and> (na_runId a, na_nodeId a, na_attempt a) \<noteq> (na_runId b, na_nodeId b, na_attempt b)"
    using assms(2) by (auto simp: insertNodeAttempt_def list_ex_iff of_node_def split: if_splits)
  then have "na_id a \<notin> na_id ` set (nodeAttempts d)"
    and "(na_runId a, na_nodeId a, na_attempt a)
      \<notin> (\<lambda>b. (na_runId b, na_nodeId b, na_attempt b)) ` set (nodeAttempts d)"
    by (auto simp: image_iff)
  then show "wf_ledger d'"
    using assms(1) by (simp add: eq wf_ledger_def)
qed

lemma sql_latest_last:
  assumes "\<And>r. r \<in> set rows \<Longrightarrow> k r < k a"
  shows "sql_latest k (rows @ [a]) = Some a"
  using assms by (induction rows) auto

lemma latestAttempt_append:
  assumes "of_node run node a" and "na_attempt a = nextAttemptFor run node d"
  shows "latestAttemptForNode run node (d\<lparr>nodeAttempts := nodeAttempts d @ [a]\<rparr>) = Some a"
  using assms nextAttemptFor_gt[of _ d run node]
  by (auto simp: latestAttemptForNode_def sql_select_def intro!: sql_latest_last)

section \<open>A rework jump\<close>

text \<open>The attempt a rework jump looks at: the highest-numbered one of its node that is no claim row.\<close>

definition latest_executed :: "ident \<Rightarrow> db \<Rightarrow> node_attempt_row \<Rightarrow> bool" where
  "latest_executed run d a \<longleftrightarrow>
     na_runId a = run \<and> na_ownerUserId a = None
     \<and> list_all (\<lambda>b. of_node run (na_nodeId a) b \<and> na_ownerUserId b = None \<longrightarrow> na_attempt b \<le> na_attempt a)
         (nodeAttempts d)"

interpretation attempts_by_node: newest_per_key na_nodeId "\<lambda>r cur. na_attempt r > na_attempt cur"
  by unfold_locales auto

lemma set_getNodeAttemptsForRun:
  "set (getNodeAttemptsForRun run d) = {a \<in> set (nodeAttempts d). na_runId a = run}"
  by (auto simp: getNodeAttemptsForRun_def sql_select_def)

lemma latestExecuted_entry:
  assumes wf: "wf_ledger d"
  shows "(n, a) \<in> set (latestExecutedAttemptByNode (getNodeAttemptsForRun run d)) \<longleftrightarrow>
     a \<in> set (nodeAttempts d) \<and> latest_executed run d a \<and> n = na_nodeId a"
proof -
  let ?rows = "filter (\<lambda>a. na_ownerUserId a = None) (getNodeAttemptsForRun run d)"
  let ?m = "map_of (newest_by na_nodeId (\<lambda>r cur. na_attempt cur < na_attempt r) ?rows)"
  have rows: "b \<in> set ?rows \<longleftrightarrow> b \<in> set (nodeAttempts d) \<and> na_runId b = run \<and> na_ownerUserId b = None" for b
    by (auto simp: set_getNodeAttemptsForRun)
  have "?m n = Some a \<longleftrightarrow> a \<in> set ?rows \<and> na_nodeId a = n \<and>
      (\<forall>s \<in> set ?rows. na_nodeId s = n \<longrightarrow> na_attempt s \<le> na_attempt a)"
  proof
    assume "?m n = Some a"
    from attempts_by_node.newest_by_Some[OF this]
    show "a \<in> set ?rows \<and> na_nodeId a = n \<and>
      (\<forall>s \<in> set ?rows. na_nodeId s = n \<longrightarrow> na_attempt s \<le> na_attempt a)"
      by (auto simp: not_less)
  next
    assume a: "a \<in> set ?rows \<and> na_nodeId a = n \<and>
      (\<forall>s \<in> set ?rows. na_nodeId s = n \<longrightarrow> na_attempt s \<le> na_attempt a)"
    then obtain b where b: "?m n = Some b"
      using attempts_by_node.newest_by_covers[of a ?rows] by auto
    note c = attempts_by_node.newest_by_Some[OF b]
    have "na_attempt b \<le> na_attempt a" and "na_attempt a \<le> na_attempt b"
      using a c by (auto simp: not_less)
    then have "na_attempt a = na_attempt b" by simp
    moreover have "of_node run n a" "of_node run n b" "a \<in> set (nodeAttempts d)" "b \<in> set (nodeAttempts d)"
      using a c rows by (auto simp: of_node_def)
    ultimately have "a = b"
      using wf_ledger_attempt[OF wf] by blast
    with b show "?m n = Some a" by simp
  qed
  then show ?thesis
    unfolding latestExecutedAttemptByNode_def latestAttemptByNode_def
      attempts_by_node.newest_by_entry latest_executed_def list_all_iff of_node_def
    using rows by auto
qed

lemma latestExecuted_ex:
  assumes "wf_ledger d"
  shows "list_ex (\<lambda>(n, b). P n b) (latestExecutedAttemptByNode (getNodeAttemptsForRun run d)) \<longleftrightarrow>
    (\<exists>b \<in> set (nodeAttempts d). latest_executed run d b \<and> P (na_nodeId b) b)"
  unfolding list_ex_iff Bex_def split_paired_Ex latestExecuted_entry[OF assms] case_prod_conv
  by blast

definition stale_ids :: "ident list \<Rightarrow> (ident \<times> node_attempt_row) list \<Rightarrow> node_attempt_row \<Rightarrow> bool" where
  "stale_ids targets es a \<longleftrightarrow>
     list_ex (\<lambda>(n, b). n \<in> set targets \<and> na_status b = NaSucceeded \<and> na_id b = na_id a) es"

definition stale_gate_ids :: "ident list \<Rightarrow> (ident \<times> node_attempt_row) list \<Rightarrow> gate_result_row \<Rightarrow> bool" where
  "stale_gate_ids targets es g \<longleftrightarrow>
     list_ex (\<lambda>(n, b). n \<in> set targets \<and> passed_gate (na_id b) g) es"

lemma stale_entry_skip: "n \<notin> set targets \<Longrightarrow> stale_entry targets (n, a) s = s"
  by (simp add: stale_entry_def split: prod.splits)

lemma stale_entry_db:
  assumes "n \<in> set targets"
  shows "snd (stale_entry targets (n, a) s) =
     (snd s)\<lparr>nodeAttempts := sql_update (\<lambda>b. na_status a = NaSucceeded \<and> na_id b = na_id a) stale_attempt_row
               (nodeAttempts (snd s)),
             gateResults := sql_update (passed_gate (na_id a)) stale_gate (gateResults (snd s))\<rparr>"
  using assms
  by (simp add: stale_entry_def Let_def update_attempt_def sql_update_def split: prod.splits)

lemma fold_stale_entry:
  "snd (fold (stale_entry targets) es s) =
     (snd s)\<lparr>nodeAttempts := sql_update (stale_ids targets es) stale_attempt_row (nodeAttempts (snd s)),
             gateResults := sql_update (stale_gate_ids targets es) stale_gate (gateResults (snd s))\<rparr>"
proof (induction es arbitrary: s)
  case Nil
  then show ?case by (simp add: stale_ids_def stale_gate_ids_def sql_update_def)
next
  case (Cons e es)
  obtain n a where e: "e = (n, a)" by (cases e)
  show ?case
  proof (cases "n \<in> set targets")
    case False
    then show ?thesis
      using Cons.IH[of s] by (simp add: e stale_entry_skip stale_ids_def stale_gate_ids_def)
  next
    case True
    have nodes: "sql_update (stale_ids targets es) stale_attempt_row
        (sql_update (\<lambda>b. na_status a = NaSucceeded \<and> na_id b = na_id a) stale_attempt_row rows)
      = sql_update (stale_ids targets (e # es)) stale_attempt_row rows" for rows
      using True by (auto simp: e sql_update_def stale_ids_def stale_attempt_row_def list_ex_iff)
    have gates: "sql_update (stale_gate_ids targets es) stale_gate
        (sql_update (passed_gate (na_id a)) stale_gate rows)
      = sql_update (stale_gate_ids targets (e # es)) stale_gate rows" for rows
      using True by (auto simp: e sql_update_def stale_gate_ids_def stale_gate_def passed_gate_def list_ex_iff)
    show ?thesis
      using Cons.IH[of "stale_entry targets e s"] nodes gates
      by (simp add: e stale_entry_db[OF True])
  qed
qed

lemma markStale_frame:
  "nodeAttempts (snd (markRunResultStale run ns (markArtifactsStale run ns d))) = nodeAttempts d"
  "gateResults (snd (markRunResultStale run ns (markArtifactsStale run ns d))) = gateResults d"
  "runs (snd (markRunResultStale run ns (markArtifactsStale run ns d))) = runs d"
  by (simp_all add: markRunResultStale_def markArtifactsStale_def)

lemma markDownstreamStale_snd:
  "snd (markDownstreamStale run downstream d) =
     snd (markRunResultStale run downstream (markArtifactsStale run downstream
       (snd (fold (stale_entry (set_of_list downstream))
               (latestExecutedAttemptByNode (getNodeAttemptsForRun run d)) ((0, 0), d)))))"
  by (simp add: markDownstreamStale_def Let_def split: prod.splits)

lemma markDownstreamStale_attempts:
  assumes "wf_ledger d"
  shows "nodeAttempts (snd (markDownstreamStale run downstream d)) =
    sql_update (\<lambda>a. latest_executed run d a \<and> na_nodeId a \<in> set downstream \<and> na_status a = NaSucceeded)
      stale_attempt_row (nodeAttempts d)"
proof -
  have "stale_ids (set_of_list downstream) (latestExecutedAttemptByNode (getNodeAttemptsForRun run d)) a
      \<longleftrightarrow> latest_executed run d a \<and> na_nodeId a \<in> set downstream \<and> na_status a = NaSucceeded"
    if "a \<in> set (nodeAttempts d)" for a
    unfolding stale_ids_def latestExecuted_ex[OF assms] set_set_of_list
    using wf_ledger_id[OF assms that] that by metis
  then show ?thesis
    by (simp add: markDownstreamStale_snd markStale_frame fold_stale_entry sql_update_def)
qed

lemma markDownstreamStale_gates:
  assumes "wf_ledger d"
  shows "gateResults (snd (markDownstreamStale run downstream d)) =
    sql_update (\<lambda>g. gr_status g = GsPassed
        \<and> list_ex (\<lambda>a. latest_executed run d a \<and> na_nodeId a \<in> set downstream
                     \<and> na_id a = gr_nodeAttemptId g) (nodeAttempts d))
      stale_gate (gateResults d)"
proof -
  have "stale_gate_ids (set_of_list downstream) (latestExecutedAttemptByNode (getNodeAttemptsForRun run d)) g
      \<longleftrightarrow> gr_status g = GsPassed
        \<and> list_ex (\<lambda>a. latest_executed run d a \<and> na_nodeId a \<in> set downstream
                     \<and> na_id a = gr_nodeAttemptId g) (nodeAttempts d)" for g
    unfolding stale_gate_ids_def latestExecuted_ex[OF assms]
    unfolding passed_gate_def list_ex_iff by auto
  then show ?thesis
    by (simp add: markDownstreamStale_snd markStale_frame fold_stale_entry sql_update_def)
qed

section \<open>The rework budget over a reset\<close>

lemma latestAttempt_SomeD:
  assumes "latestAttemptForNode run node d = Some a"
  shows "a \<in> set (nodeAttempts d)" and "of_node run node a"
  using sql_latest_SomeD[OF assms[unfolded latestAttemptForNode_def]] by (auto simp: sql_select_def)

lemma sql_latest_unique:
  assumes "a \<in> set rows" and "\<And>r. r \<in> set rows \<Longrightarrow> r \<noteq> a \<Longrightarrow> k r < k a"
  shows "sql_latest k rows = Some a"
proof (cases "sql_latest k rows")
  case None
  with assms(1) show ?thesis by simp
next
  case (Some m)
  with sql_latest_SomeD[OF Some] assms show ?thesis by (metis leD)
qed

lemma sql_latest_map:
  "(\<And>r. k (f r) = k r) \<Longrightarrow> sql_latest k (map f rows) = map_option f (sql_latest k rows)"
  by (induction rows) (auto split: option.splits)

lemma latestAttempt_update:
  assumes "\<And>a. na_runId (f a) = na_runId a" "\<And>a. na_nodeId (f a) = na_nodeId a"
    "\<And>a. na_attempt (f a) = na_attempt a"
  shows "latestAttemptForNode run node (update_attempt i f d) =
    map_option (\<lambda>a. if na_id a = i then f a else a) (latestAttemptForNode run node d)"
proof -
  have "sql_select (of_node run node) (sql_update (\<lambda>a. na_id a = i) f rows)
      = map (\<lambda>a. if na_id a = i then f a else a) (sql_select (of_node run node) rows)" for rows
    using assms(1,2) by (induction rows) (auto simp: sql_select_def sql_update_def of_node_def)
  then show ?thesis
    using assms(3)
    by (simp add: latestAttemptForNode_def update_attempt_def sql_latest_map)
qed

lemma resetReworkBaseline_latest:
  assumes "latestAttemptForNode run node d = Some a"
  shows "latestAttemptForNode run node (snd (resetReworkBaseline run node d))
    = Some (a\<lparr>na_reworkBaseline := Some (na_attempt a)\<rparr>)"
  using assms by (simp add: resetReworkBaseline_def latestAttempt_update)

lemma resetReworkBaseline_ids:
  "na_id ` set (nodeAttempts (snd (resetReworkBaseline run node d))) = na_id ` set (nodeAttempts d)"
proof -
  have "map na_id (nodeAttempts (snd (resetReworkBaseline run node d))) = map na_id (nodeAttempts d)"
    by (simp add: resetReworkBaseline_def update_attempt_def attempts_t.map_pk_update split: option.splits)
  then show ?thesis by (metis set_map)
qed

lemma fold_max_eq:
  assumes "a \<in> set as" and "\<And>b. b \<in> set as \<Longrightarrow> na_attempt b \<le> na_attempt a" and "m \<le> na_attempt a"
  shows "fold (\<lambda>a m. if na_attempt a > m then na_attempt a else m) as m = na_attempt a"
proof (rule le_antisym)
  show "fold (\<lambda>a m. if na_attempt a > m then na_attempt a else m) as m \<le> na_attempt a"
    using assms(2,3) by (induction as arbitrary: m) auto
  show "na_attempt a \<le> fold (\<lambda>a m. if na_attempt a > m then na_attempt a else m) as m"
    using assms(1) by (rule fold_max_covers)
qed

lemma nextAttempt_latest:
  assumes "latestAttemptForNode run node d = Some a"
  shows "nextAttemptFor run node d = na_attempt a + 1"
  using sql_latest_SomeD[OF assms[unfolded latestAttemptForNode_def]]
  by (simp add: nextAttemptFor_def fold_max_eq)

lemma append_after_latest:
  assumes "latestAttemptForNode run node d = Some a"
    and "uuid \<notin> na_id ` set (nodeAttempts d)"
  shows "appendNodeAttempt now uuid run node type plain_append d =
    Some ((uuid, na_attempt a + 1),
      d\<lparr>nodeAttempts := nodeAttempts d @
          [(blank_attempt now uuid run node type (na_attempt a + 1) NaPending)
             \<lparr>na_reworkBaseline := na_reworkBaseline a\<rparr>]\<rparr>)"
proof -
  let ?row = "(blank_attempt now uuid run node type (na_attempt a + 1) NaPending)
    \<lparr>na_reworkBaseline := na_reworkBaseline a\<rparr>"
  have "insertNodeAttempt ?row d = Some (d\<lparr>nodeAttempts := nodeAttempts d @ [?row]\<rparr>)"
    using assms by (intro insertNodeAttempt_Some) (auto simp: blank_attempt_def nextAttempt_latest)
  then show ?thesis
    using assms(1)
    by (simp add: appendNodeAttempt_def plain_append_def nextAttempt_latest blank_attempt_def)
qed

section \<open>Takeovers\<close>

definition open_takeover :: "ident \<Rightarrow> node_attempt_row \<Rightarrow> bool" where
  "open_takeover run a \<longleftrightarrow> na_runId a = run \<and> na_ownerUserId a \<noteq> None \<and> na_endedAt a = None"

lemma active_takeovers:
  "filter (\<lambda>a. na_endedAt a = None) (takeoverRows run d)
     = sort_key na_attempt (filter (open_takeover run) (nodeAttempts d))"
proof -
  have "filter (\<lambda>a. na_endedAt a = None)
      (filter (\<lambda>a. na_runId a = run \<and> na_ownerUserId a \<noteq> None) (nodeAttempts d))
    = filter (open_takeover run) (nodeAttempts d)"
    unfolding filter_filter by (rule filter_cong) (auto simp: open_takeover_def)
  then show ?thesis by (simp add: takeoverRows_def sql_select_def filter_sort)
qed

lemma getActiveTakeover_eq:
  "getActiveTakeover run d =
     (let active = sort_key na_attempt (filter (open_takeover run) (nodeAttempts d))
      in if active = [] then None else Some (last active))"
  by (simp add: getActiveTakeover_def active_takeovers Let_def)

lemma sort_key_Nil_iff [simp]: "sort_key k xs = [] \<longleftrightarrow> xs = []"
  by (metis length_0_conv length_sort)

lemma getActiveTakeover_None_iff:
  "getActiveTakeover run d = None \<longleftrightarrow> filter (open_takeover run) (nodeAttempts d) = []"
  by (simp add: getActiveTakeover_eq Let_def)

lemma getActiveTakeover_one:
  "filter (open_takeover run) (nodeAttempts d) = [a] \<Longrightarrow> getActiveTakeover run d = Some a"
  by (simp add: getActiveTakeover_eq)

text \<open>Ending the only open takeover row leaves none.\<close>

lemma close_takeover:
  assumes "filter (open_takeover run) (nodeAttempts d) = [a]" and "\<And>b. na_endedAt (f b) \<noteq> None"
  shows "getActiveTakeover run (update_attempt (na_id a) f d) = None"
proof -
  have only: "b = a" if "b \<in> set (nodeAttempts d)" "open_takeover run b" for b
  proof -
    from that have "b \<in> set (filter (open_takeover run) (nodeAttempts d))" by simp
    then show ?thesis by (simp add: assms(1))
  qed
  have "\<not> open_takeover run (if na_id b = na_id a then f b else b)" if "b \<in> set (nodeAttempts d)" for b
  proof (cases "na_id b = na_id a")
    case True
    with assms(2)[of b] show ?thesis by (simp add: open_takeover_def)
  next
    case False
    with only[OF that] show ?thesis by auto
  qed
  then show ?thesis
    by (simp add: getActiveTakeover_None_iff update_attempt_def sql_update_def filter_map
        filter_empty_conv comp_def del: set_map)
qed

definition claim_row ::
    "time \<Rightarrow> ident \<Rightarrow> ident \<Rightarrow> ident \<Rightarrow> ident \<Rightarrow> node_type option \<Rightarrow> string option \<Rightarrow> string option \<Rightarrow> db
       \<Rightarrow> node_attempt_row" where
  "claim_row now uuid run node user type decision sha d =
     (blank_attempt now uuid run node (case type of None \<Rightarrow> Human | Some t \<Rightarrow> t)
        (nextAttemptFor run node d) NaNeedsInput)
       \<lparr>na_ownerUserId := Some user, na_claimHeadSha := sha, na_decision := decision\<rparr>"

lemma claim_row_simps [simp]:
  "na_id (claim_row now uuid run node user type decision sha d) = uuid"
  "na_runId (claim_row now uuid run node user type decision sha d) = run"
  "na_nodeId (claim_row now uuid run node user type decision sha d) = node"
  "na_attempt (claim_row now uuid run node user type decision sha d) = nextAttemptFor run node d"
  "na_reworkBaseline (claim_row now uuid run node user type decision sha d) = None"
  "na_startedAt (claim_row now uuid run node user type decision sha d) = now"
  "na_returnedDiff (claim_row now uuid run node user type decision sha d) = None"
  "na_ownerUserId (claim_row now uuid run node user type decision sha d) = Some user"
  "open_takeover run (claim_row now uuid run node user type decision sha d)"
  by (simp_all add: claim_row_def blank_attempt_def open_takeover_def)

lemma claimTakeover_eq:
  assumes "uuid \<notin> na_id ` set (nodeAttempts d)"
  shows "claimTakeover now uuid run node user type decision sha d =
    Some ((uuid, nextAttemptFor run node d),
      d\<lparr>nodeAttempts := nodeAttempts d @ [claim_row now uuid run node user type decision sha d]\<rparr>)"
proof -
  let ?row = "claim_row now uuid run node user type decision sha d"
  have "insertNodeAttempt ?row d = Some (d\<lparr>nodeAttempts := nodeAttempts d @ [?row]\<rparr>)"
    using assms by (intro insertNodeAttempt_Some) auto
  then show ?thesis by (simp add: claimTakeover_def claim_row_def Let_def)
qed

lemma claim_opens:
  assumes "getActiveTakeover run d = None"
  shows "filter (open_takeover run)
      (nodeAttempts d @ [claim_row now uuid run node user type decision sha d])
    = [claim_row now uuid run node user type decision sha d]"
  using assms by (simp add: getActiveTakeover_None_iff)

section \<open>The properties\<close>

text \<open>
  an append without an explicit number takes an attempt number above every earlier attempt of the
  node, cannot collide with the ledger's unique constraints, keeps them, and is then the latest attempt.
\<close>

lemma append_next:
  assumes "wf_ledger d" and "uuid \<notin> na_id ` set (nodeAttempts d)" and "ap_attempt args = None"
  shows "\<exists>n d'. appendNodeAttempt now uuid run node type args d = Some ((uuid, n), d')
    \<and> wf_ledger d'
    \<and> map_option na_id (latestAttemptForNode run node d') = Some uuid
    \<and> (\<forall>a. a \<in> set (nodeAttempts d) \<and> of_node run node a \<longrightarrow> na_attempt a < n)"
proof -
  let ?n = "nextAttemptFor run node d"
  let ?row = "(blank_attempt now uuid run node type ?n NaPending)
    \<lparr>na_reworkFromNode := ap_reworkFromNode args, na_autoRetry := ap_autoRetry args,
     na_sessionPolicy := ap_sessionPolicy args,
     na_reworkBaseline := Option.bind (latestAttemptForNode run node d) na_reworkBaseline,
     na_executionAssignmentId := ap_executionAssignmentId args\<rparr>"
  have row: "na_id ?row = uuid" "na_attempt ?row = ?n" "of_node run node ?row"
    "na_runId ?row = run" "na_nodeId ?row = node"
    by (simp_all add: blank_attempt_def of_node_def)
  have ins: "insertNodeAttempt ?row d = Some (d\<lparr>nodeAttempts := nodeAttempts d @ [?row]\<rparr>)"
    using assms(2) row by (intro insertNodeAttempt_Some) auto
  have "appendNodeAttempt now uuid run node type args d
      = Some ((uuid, ?n), d\<lparr>nodeAttempts := nodeAttempts d @ [?row]\<rparr>)"
    using ins assms(3) by (simp add: appendNodeAttempt_def Let_def)
  moreover have "latestAttemptForNode run node (d\<lparr>nodeAttempts := nodeAttempts d @ [?row]\<rparr>) = Some ?row"
    using row by (intro latestAttempt_append)
  ultimately show ?thesis
    using insertNodeAttempt_wf(1)[OF assms(1) ins] nextAttemptFor_gt[of _ d run node] row(1) by auto
qed

lemma append_next_witness:
  "\<exists>n d'. appendNodeAttempt 5 ''n1'' ''r'' ''plan'' AiCoding plain_append empty_db = Some ((''n1'', n), d')
    \<and> wf_ledger d' \<and> map_option na_id (latestAttemptForNode ''r'' ''plan'' d') = Some ''n1''"
  using append_next[of empty_db "''n1''" plain_append 5 "''r''" "''plan''" AiCoding]
  by (auto simp: wf_ledger_def empty_db_def plain_append_def)

text \<open>
  C27: the rework jump (\<^verbatim>\<open>markDownstreamStale\<close>) is exactly: every downstream node's newest
  executed attempt that had succeeded becomes stale, every passed gate of such a newest attempt becomes
  stale whatever the attempt's status, and no other ledger row and no other gate row changes.  Claim rows
  of a takeover never shield the execution below them.
\<close>

theorem rework_jump_spec:
  assumes "wf_ledger d"
  shows "nodeAttempts (snd (markDownstreamStale run downstream d)) =
      map (\<lambda>a. if latest_executed run d a \<and> na_nodeId a \<in> set downstream \<and> na_status a = NaSucceeded
                then a\<lparr>na_status := NaStale\<rparr> else a) (nodeAttempts d)
    \<and> gateResults (snd (markDownstreamStale run downstream d)) =
      map (\<lambda>g. if gr_status g = GsPassed
                  \<and> list_ex (\<lambda>a. latest_executed run d a \<and> na_nodeId a \<in> set downstream
                               \<and> na_id a = gr_nodeAttemptId g) (nodeAttempts d)
                then g\<lparr>gr_status := GsStale\<rparr> else g) (gateResults d)"
  using markDownstreamStale_attempts[OF assms] markDownstreamStale_gates[OF assms]
  by (simp_all add: sql_update_def stale_attempt_row_def stale_gate_def)

definition example_ledger :: db where
  "example_ledger = empty_db\<lparr>
     nodeAttempts :=
       [blank_attempt 1 ''n1'' ''r'' ''build'' AiCoding 1 NaSucceeded,
        blank_attempt 2 ''n2'' ''r'' ''build'' AiCoding 2 NaSucceeded,
        (blank_attempt 3 ''n3'' ''r'' ''build'' AiCoding 3 NaNeedsInput)\<lparr>na_ownerUserId := Some ''u''\<rparr>],
     gateResults :=
       [\<lparr>gr_id = ''g1'', gr_runId = ''r'', gr_nodeAttemptId = ''n2'', gr_gateId = ''lint'',
         gr_kind = CommandCheck, gr_mode = Blocking, gr_status = GsPassed, gr_verdict = None,
         gr_inputArtifactRefs = None, gr_createdAt = 2\<rparr>]\<rparr>"

theorem rework_jump_spec_witness:
  "map na_status (nodeAttempts (snd (markDownstreamStale ''r'' [''build''] example_ledger)))
     = [NaSucceeded, NaStale, NaNeedsInput]
   \<and> map gr_status (gateResults (snd (markDownstreamStale ''r'' [''build''] example_ledger))) = [GsStale]"
proof -
  have "wf_ledger example_ledger"
    by (simp add: example_ledger_def wf_ledger_def blank_attempt_def empty_db_def)
  from rework_jump_spec[OF this, of "''r''" "[''build'']"] show ?thesis
    by (simp add: example_ledger_def blank_attempt_def empty_db_def latest_executed_def of_node_def)
qed

text \<open>
  re-baselining a node and visiting it again starts a new epoch: the fresh attempt carries the
  baseline, so without provenance attempts the budget check sees visit one of the epoch.
\<close>

lemma reset_starts_epoch:
  assumes "latestAttemptForNode run node d = Some a" and "uuid \<notin> na_id ` set (nodeAttempts d)"
  shows "\<exists>d'. appendNodeAttempt now uuid run node type plain_append (snd (resetReworkBaseline run node d))
      = Some ((uuid, na_attempt a + 1), d')
    \<and> (\<exists>b. latestAttemptForNode run node d' = Some b \<and> na_id b = uuid
          \<and> na_reworkBaseline b = Some (na_attempt a)
          \<and> effectiveAttempts (na_attempt b) (na_reworkBaseline b) 0 = 1)"
proof -
  let ?d = "snd (resetReworkBaseline run node d)"
  note latest = resetReworkBaseline_latest[OF assms(1)]
  let ?row = "(blank_attempt now uuid run node type (na_attempt a + 1) NaPending)
    \<lparr>na_reworkBaseline := Some (na_attempt a)\<rparr>"
  have "uuid \<notin> na_id ` set (nodeAttempts ?d)"
    using assms(2) by (simp add: resetReworkBaseline_ids)
  from append_after_latest[OF latest this]
  have app: "appendNodeAttempt now uuid run node type plain_append ?d
      = Some ((uuid, na_attempt a + 1), ?d\<lparr>nodeAttempts := nodeAttempts ?d @ [?row]\<rparr>)"
    by simp
  have "latestAttemptForNode run node (?d\<lparr>nodeAttempts := nodeAttempts ?d @ [?row]\<rparr>) = Some ?row"
    using nextAttempt_latest[OF latest]
    by (intro latestAttempt_append) (simp_all add: of_node_def blank_attempt_def)
  with app show ?thesis by (simp add: blank_attempt_def effectiveAttempts_def)
qed

lemma reset_starts_epoch_witness:
  "\<exists>d'. appendNodeAttempt 9 ''n4'' ''r'' ''build'' AiCoding plain_append
      (snd (resetReworkBaseline ''r'' ''build'' example_ledger)) = Some ((''n4'', 4), d')"
proof -
  have "latestAttemptForNode ''r'' ''build'' example_ledger
      = Some ((blank_attempt 3 ''n3'' ''r'' ''build'' AiCoding 3 NaNeedsInput)\<lparr>na_ownerUserId := Some ''u''\<rparr>)"
    and "''n4'' \<notin> na_id ` set (nodeAttempts example_ledger)"
    by (simp_all add: example_ledger_def latestAttemptForNode_def sql_select_def of_node_def
        blank_attempt_def empty_db_def)
  from reset_starts_epoch[OF this, of 9 AiCoding] show ?thesis
    by (auto simp: blank_attempt_def)
qed

text \<open>
  the budget check subtracts the baseline and, on top of it, every provenance attempt of the node,
  also those numbered at or below the baseline.  A node whose attempts up to the reset include \<open>k\<close>
  provenance attempts therefore starts its new epoch at \<open>1 - k\<close>: the check
  \<^verbatim>\<open>effective > maxLoops\<close> admits \<open>k\<close> more visits than the \<^verbatim>\<open>maxLoops + 1\<close> an epoch is
  documented to have.
\<close>

lemma reset_double_credit:
  assumes "latestAttemptForNode run node d = Some a"
    and "k = nonCorrectionAttemptCount (getNodeAttemptsForRun run d) node"
  shows "effectiveAttempts (na_attempt a + 1 + m)
           (Option.bind (latestAttemptForNode run node (snd (resetReworkBaseline run node d))) na_reworkBaseline) k
         = int m + 1 - int k"
  using resetReworkBaseline_latest[OF assms(1)] by (simp add: effectiveAttempts_def)

definition interrupted_ledger :: db where
  "interrupted_ledger = empty_db\<lparr>nodeAttempts :=
     [(blank_attempt 1 ''n1'' ''r'' ''build'' AiCoding 1 NaReworked)\<lparr>na_decision := Some ''operator_interrupt''\<rparr>,
      (blank_attempt 2 ''n2'' ''r'' ''build'' AiCoding 2 NaReworked)\<lparr>na_decision := Some ''turn_lost''\<rparr>]\<rparr>"

lemma reset_double_credit_witness:
  "effectiveAttempts 3
     (Option.bind (latestAttemptForNode ''r'' ''build''
        (snd (resetReworkBaseline ''r'' ''build'' interrupted_ledger))) na_reworkBaseline)
     (nonCorrectionAttemptCount (getNodeAttemptsForRun ''r'' interrupted_ledger) ''build'') = -1"
proof -
  have latest: "latestAttemptForNode ''r'' ''build'' interrupted_ledger
      = Some ((blank_attempt 2 ''n2'' ''r'' ''build'' AiCoding 2 NaReworked)\<lparr>na_decision := Some ''turn_lost''\<rparr>)"
    by (simp add: interrupted_ledger_def latestAttemptForNode_def sql_select_def of_node_def
        blank_attempt_def empty_db_def)
  have count: "nonCorrectionAttemptCount (getNodeAttemptsForRun ''r'' interrupted_ledger) ''build'' = 2"
    by (simp add: interrupted_ledger_def nonCorrectionAttemptCount_def getNodeAttemptsForRun_def
        sql_select_def is_non_correction_def blank_attempt_def empty_db_def NON_CORRECTION_DECISIONS_def
        OPERATOR_INTERRUPT_DECISION_def CRASH_RECOVER_DECISION_def TURN_LOST_DECISION_def)
  show ?thesis
    using reset_double_credit[OF latest refl, of 0] count by (simp add: blank_attempt_def)
qed

text \<open>
  C28: on a run with no open takeover a claim opens one, which the run then reports as its active takeover;
  both a return and a release close it, and neither leaves another open.
\<close>

theorem takeover_round_trip:
  assumes "getActiveTakeover run d = None" and "uuid \<notin> na_id ` set (nodeAttempts d)"
  shows "\<exists>d1 d2. claimTakeover now uuid run node user type decision sha d
          = Some ((uuid, nextAttemptFor run node d), d1)
      \<and> map_option na_id (getActiveTakeover run d1) = Some uuid
      \<and> recordTakeoverReturn later run node base commits diff d1 = Inr d2
      \<and> getActiveTakeover run d2 = None
      \<and> getActiveTakeover run (endActiveTakeover later run d1) = None"
proof -
  let ?row = "claim_row now uuid run node user type decision sha d"
  let ?d1 = "d\<lparr>nodeAttempts := nodeAttempts d @ [?row]\<rparr>"
  have "filter (open_takeover run) (nodeAttempts ?d1) = [?row]"
    using claim_opens[OF assms(1)] by simp
  note one = getActiveTakeover_one[OF this] close_takeover[OF this]
  have "\<exists>d2. recordTakeoverReturn later run node base commits diff ?d1 = Inr d2
      \<and> getActiveTakeover run d2 = None"
    using one by (simp add: recordTakeoverReturn_def)
  moreover have "getActiveTakeover run (endActiveTakeover later run ?d1) = None"
    using one by (simp add: endActiveTakeover_def)
  ultimately show ?thesis
    using claimTakeover_eq[OF assms(2)] one(1) by auto
qed

theorem takeover_round_trip_witness:
  "\<exists>d1. claimTakeover 5 ''n9'' ''r'' ''review'' ''u'' None None None interrupted_ledger
      = Some ((''n9'', 1), d1)
    \<and> getActiveTakeover ''r'' (endActiveTakeover 6 ''r'' d1) = None"
proof -
  have "getActiveTakeover ''r'' interrupted_ledger = None"
    and "''n9'' \<notin> na_id ` set (nodeAttempts interrupted_ledger)"
    and n: "nextAttemptFor ''r'' ''review'' interrupted_ledger = 1"
    by (simp_all add: getActiveTakeover_None_iff interrupted_ledger_def open_takeover_def nextAttemptFor_def
        sql_select_def of_node_def blank_attempt_def empty_db_def)
  from takeover_round_trip[OF this(1,2), of 5 "''review''" "''u''" None None None 6 "''b''" "''c''" "''x''"]
  show ?thesis by (auto simp: n)
qed

text \<open>
  a takeover claim row is inserted without the baseline its node carries.  The next append copies the
  baseline of the newest row, which is now the claim row, so the fresh epoch a reset granted is lost and
  the budget check counts from attempt one again.
\<close>

lemma takeover_drops_baseline:
  assumes "latestAttemptForNode run node d = Some a"
    and "uuid \<notin> na_id ` set (nodeAttempts d)" and "uuid' \<notin> na_id ` set (nodeAttempts d)" and "uuid \<noteq> uuid'"
  shows "\<exists>d1 d2. claimTakeover now uuid run node user ty decision sha (snd (resetReworkBaseline run node d))
          = Some ((uuid, na_attempt a + 1), d1)
      \<and> appendNodeAttempt later uuid' run node type plain_append d1 = Some ((uuid', na_attempt a + 2), d2)
      \<and> Option.bind (latestAttemptForNode run node d2) na_reworkBaseline = None
      \<and> effectiveAttempts (na_attempt a + 2) (Option.bind (latestAttemptForNode run node d2) na_reworkBaseline) 0
        = int (na_attempt a) + 2"
proof -
  let ?d = "snd (resetReworkBaseline run node d)"
  let ?row = "claim_row now uuid run node user ty decision sha ?d"
  let ?d1 = "?d\<lparr>nodeAttempts := nodeAttempts ?d @ [?row]\<rparr>"
  let ?new = "(blank_attempt later uuid' run node type (na_attempt a + 2) NaPending)\<lparr>na_reworkBaseline := None\<rparr>"
  have next1: "nextAttemptFor run node ?d = na_attempt a + 1"
    using nextAttempt_latest[OF resetReworkBaseline_latest[OF assms(1)]] by simp
  have claim: "claimTakeover now uuid run node user ty decision sha ?d = Some ((uuid, na_attempt a + 1), ?d1)"
    using claimTakeover_eq[of uuid ?d] assms(2) next1 by (simp add: resetReworkBaseline_ids)
  have latest: "latestAttemptForNode run node ?d1 = Some ?row"
    by (rule latestAttempt_append) (simp_all add: of_node_def)
  have "uuid' \<notin> na_id ` set (nodeAttempts ?d1)"
    using assms(3,4) resetReworkBaseline_ids[of run node d] by simp
  from append_after_latest[OF latest this, of later type]
  have app: "appendNodeAttempt later uuid' run node type plain_append ?d1
      = Some ((uuid', na_attempt a + 2), ?d1\<lparr>nodeAttempts := nodeAttempts ?d1 @ [?new]\<rparr>)"
    using next1 by simp
  have "latestAttemptForNode run node (?d1\<lparr>nodeAttempts := nodeAttempts ?d1 @ [?new]\<rparr>) = Some ?new"
    using nextAttempt_latest[OF latest] next1
    by (intro latestAttempt_append) (simp_all add: of_node_def blank_attempt_def)
  with claim app show ?thesis by (simp add: blank_attempt_def effectiveAttempts_def)
qed

lemma takeover_drops_baseline_witness:
  "\<exists>d1 d2. claimTakeover 5 ''n8'' ''r'' ''build'' ''u'' None None None
          (snd (resetReworkBaseline ''r'' ''build'' interrupted_ledger)) = Some ((''n8'', 3), d1)
      \<and> appendNodeAttempt 6 ''n9'' ''r'' ''build'' AiCoding plain_append d1 = Some ((''n9'', 4), d2)
      \<and> Option.bind (latestAttemptForNode ''r'' ''build'' d2) na_reworkBaseline = None"
proof -
  have "latestAttemptForNode ''r'' ''build'' interrupted_ledger
      = Some ((blank_attempt 2 ''n2'' ''r'' ''build'' AiCoding 2 NaReworked)\<lparr>na_decision := Some ''turn_lost''\<rparr>)"
    and "''n8'' \<notin> na_id ` set (nodeAttempts interrupted_ledger)"
    and "''n9'' \<notin> na_id ` set (nodeAttempts interrupted_ledger)" and "''n8'' \<noteq> ''n9''"
    by (simp_all add: interrupted_ledger_def latestAttemptForNode_def sql_select_def of_node_def
        blank_attempt_def empty_db_def)
  from takeover_drops_baseline[OF this, of 5 "''u''" None None None 6 AiCoding]
  show ?thesis by (auto simp: blank_attempt_def numeral_eq_Suc)
qed

text \<open>
  A run whose second takeover (node \<^verbatim>\<open>qa\<close>, returned at 40) follows an older one at another node
  with a higher attempt number (node \<^verbatim>\<open>review\<close>, claimed at 10), and whose re-entry node ran in
  between (at 20).
\<close>

definition two_takeovers :: db where
  "two_takeovers = empty_db\<lparr>nodeAttempts :=
     [(blank_attempt 10 ''n1'' ''r'' ''review'' Human 5 NaNeedsInput)
        \<lparr>na_ownerUserId := Some ''u'', na_returnedDiff := Some ''d1'', na_endedAt := Some 11\<rparr>,
      blank_attempt 20 ''n2'' ''r'' ''build'' AiCoding 1 NaSucceeded,
      (blank_attempt 30 ''n3'' ''r'' ''qa'' Human 2 NaNeedsInput)
        \<lparr>na_ownerUserId := Some ''u'', na_returnedDiff := Some ''d2'', na_endedAt := Some 40\<rparr>]\<rparr>"

text \<open>
  the pending-resume test takes the takeover with the highest attempt number, which counts per node,
  not the one returned last.  In \<open>two_takeovers\<close> no attempt of the re-entry node follows the last
  return, yet the test reports nothing to resume.
\<close>

lemma pending_resume_shadowed:
  "hasPendingTakeoverResume ''r'' ''build'' two_takeovers = False
   \<and> filter (\<lambda>a. of_node ''r'' ''build'' a \<and> na_startedAt a \<ge> 30) (nodeAttempts two_takeovers) = []
   \<and> list_ex (\<lambda>a. na_returnedDiff a \<noteq> None \<and> na_endedAt a = Some 40) (nodeAttempts two_takeovers)"
  by (simp add: hasPendingTakeoverResume_def takeoverRows_def two_takeovers_def sql_select_def of_node_def
      blank_attempt_def empty_db_def)

end
