(* ===== verification/TemplateExpr.thy ===== *)
theory TemplateExpr
  imports JsNumber
begin

text \<open>
  The template tags of a flow manifest (\<^verbatim>\<open>web/lib/flows/template-expressions.ts\<close>) and the scan that
  decides whether a prompt renders a variable (\<^verbatim>\<open>templateReadsTopLevelVar\<close> of
  \<^verbatim>\<open>flows/graph/compile.ts\<close>).  An index \<^verbatim>\<open>-1\<close> is \<open>None\<close>.
\<close>

section \<open>Finding a tag\<close>

definition is_quote :: "char \<Rightarrow> bool" where
  "is_quote c \<longleftrightarrow> c = CHR 0x27 \<or> c = CHR 0x22"

text \<open>The loop of \<^verbatim>\<open>findMustacheClose\<close> from \<open>index\<close> on, over the rest of the template.\<close>

fun close_from :: "nat \<Rightarrow> char option \<Rightarrow> bool \<Rightarrow> string \<Rightarrow> nat option" where
  "close_from index quote escaped (c # d # rest) =
     (case quote of
        Some q \<Rightarrow>
          if escaped then close_from (Suc index) quote False (d # rest)
          else if c = CHR 0x5C then close_from (Suc index) quote True (d # rest)
          else if c = q then close_from (Suc index) None escaped (d # rest)
          else close_from (Suc index) quote escaped (d # rest)
      | None \<Rightarrow>
          if is_quote c then close_from (Suc index) (Some c) escaped (d # rest)
          else if c = CHR ''}'' \<and> d = CHR ''}'' then Some index
          else close_from (Suc index) None escaped (d # rest))"
| "close_from index quote escaped _ = None"

definition findMustacheClose :: "string \<Rightarrow> nat \<Rightarrow> nat option" where
  "findMustacheClose template start = close_from (start + 2) None False (drop (start + 2) template)"

text \<open>\<^verbatim>\<open>template.indexOf("{{", cursor)\<close>.\<close>

fun open_from :: "nat \<Rightarrow> string \<Rightarrow> nat option" where
  "open_from index (c # d # rest) =
     (if c = CHR ''{'' \<and> d = CHR ''{'' then Some index else open_from (Suc index) (d # rest))"
| "open_from index _ = None"

definition indexOfOpen :: "string \<Rightarrow> nat \<Rightarrow> nat option" where
  "indexOfOpen template cursor = open_from cursor (drop cursor template)"

section \<open>Default expressions\<close>

definition unescape :: "char \<Rightarrow> char" where
  "unescape c = (if c = CHR ''n'' then CHR 0x0A else if c = CHR ''r'' then CHR 0x0D
     else if c = CHR ''t'' then CHR 0x09 else c)"

text \<open>The body of a quoted literal and what follows its closing quote.\<close>

fun read_body :: "char \<Rightarrow> bool \<Rightarrow> string \<Rightarrow> string \<Rightarrow> (string \<times> string) option" where
  "read_body quote escaped literal [] = None"
| "read_body quote escaped literal (c # rest) =
     (if escaped then read_body quote False (literal @ [unescape c]) rest
      else if c = CHR 0x5C then read_body quote True literal rest
      else if c = quote then Some (literal, rest)
      else read_body quote escaped (literal @ [c]) rest)"

text \<open>The rest of the input stands for the returned \<^verbatim>\<open>end\<close> index.\<close>

definition readQuotedLiteral :: "string \<Rightarrow> (string \<times> string) option" where
  "readQuotedLiteral input =
     (case input of
        [] \<Rightarrow> None
      | q # rest \<Rightarrow> if is_quote q then read_body q False [] rest else None)"

definition is_path_char :: "char \<Rightarrow> bool" where
  "is_path_char c \<longleftrightarrow> is_upper_ascii c \<or> is_lower_ascii c \<or> is_digit c \<or> c = CHR ''_'' \<or> c = CHR ''-''"

definition is_template_key :: "string \<Rightarrow> bool" where
  "is_template_key s \<longleftrightarrow> s \<noteq> [] \<and> list_all is_path_char s"

definition is_template_path :: "string \<Rightarrow> bool" where
  "is_template_path s \<longleftrightarrow> list_all is_template_key (js_split (CHR ''.'') s)"

definition parseDefaultExpression :: "string \<Rightarrow> (string \<times> string) option" where
  "parseDefaultExpression tag =
     (let path = takeWhile (\<lambda>c. is_path_char c \<or> c = CHR ''.'') tag;
          rest = dropWhile is_js_ws (dropWhile (\<lambda>c. is_path_char c \<or> c = CHR ''.'') tag)
      in if \<not> is_template_path path \<or> take 2 rest \<noteq> ''??'' then None
         else case readQuotedLiteral (dropWhile is_js_ws (drop 2 rest)) of
           None \<Rightarrow> None
         | Some (literal, tail) \<Rightarrow> if js_trim tail \<noteq> [] then None else Some (path, literal))"

section \<open>Which variables a template reads\<close>

lemma close_from_bound: "close_from index quote escaped s = Some k \<Longrightarrow> index \<le> k \<and> k + 2 \<le> index + length s"
  by (induction index quote escaped s rule: close_from.induct)
     (fastforce split: option.splits if_splits)+

lemma open_from_bound: "open_from index s = Some k \<Longrightarrow> index \<le> k \<and> k + 2 \<le> index + length s"
  by (induction index s rule: open_from.induct) (fastforce split: if_splits)+

lemma indexOfOpen_bound: "indexOfOpen t c = Some k \<Longrightarrow> c \<le> k \<and> k + 2 \<le> max c (length t)"
  using open_from_bound[of c "drop c t" k] by (auto simp: indexOfOpen_def max_def split: if_splits)

lemma findMustacheClose_bound: "findMustacheClose t k = Some j \<Longrightarrow> k + 2 \<le> j \<and> j + 2 \<le> length t"
  using close_from_bound[of "k + 2" None False "drop (k + 2) t" j]
  by (cases "k + 2 \<le> length t") (auto simp: findMustacheClose_def)

text \<open>The tag between two indices, trimmed.\<close>

definition raw_tag :: "string \<Rightarrow> nat \<Rightarrow> nat \<Rightarrow> string" where
  "raw_tag template start close = js_trim (take (close - (start + 2)) (drop (start + 2) template))"

definition tag_path :: "string \<Rightarrow> string" where
  "tag_path rawTag = (case parseDefaultExpression rawTag of None \<Rightarrow> rawTag | Some (path, _) \<Rightarrow> path)"

function reads_from :: "string \<Rightarrow> string \<Rightarrow> nat \<Rightarrow> bool" where
  "reads_from template variable cursor =
     (if cursor \<ge> length template then False
      else case indexOfOpen template cursor of
        None \<Rightarrow> False
      | Some start \<Rightarrow>
          (case findMustacheClose template start of
             None \<Rightarrow> False
           | Some close \<Rightarrow>
               if tag_path (raw_tag template start close) = variable then True
               else reads_from template variable (close + 2)))"
  by pat_completeness auto
termination
  by (relation "measure (\<lambda>(t, v, c). length t - c)")
     (auto dest!: indexOfOpen_bound findMustacheClose_bound)

declare reads_from.simps [simp del]

definition templateReadsTopLevelVar :: "string \<Rightarrow> string \<Rightarrow> bool" where
  "templateReadsTopLevelVar template variable = reads_from template variable 0"

section \<open>Round trip of a default expression\<close>

text \<open>How an author writes a literal: quotes and backslashes escaped.\<close>

definition escape_char :: "char \<Rightarrow> char \<Rightarrow> string" where
  "escape_char q c = (if c = q \<or> c = CHR 0x5C then [CHR 0x5C, c] else [c])"

definition quote_literal :: "char \<Rightarrow> string \<Rightarrow> string" where
  "quote_literal q s = q # concat (map (escape_char q) s) @ [q]"

lemma read_body_escape:
  assumes "is_quote q"
  shows "read_body q False acc (concat (map (escape_char q) s) @ q # rest) = Some (acc @ s, rest)"
proof -
  have "q \<noteq> CHR 0x5C" "unescape q = q" "unescape (CHR 0x5C) = CHR 0x5C"
    using assms by (auto simp: is_quote_def unescape_def)
  then show ?thesis by (induction s arbitrary: acc) (auto simp: escape_char_def)
qed

lemma readQuotedLiteral_quote:
  "is_quote q \<Longrightarrow> readQuotedLiteral (quote_literal q s @ rest) = Some (s, rest)"
  using read_body_escape[of q "[]" s rest] by (simp add: readQuotedLiteral_def quote_literal_def)

lemma default_expression_reads_back:
  assumes "is_template_path path" and "is_quote q" and "list_all is_js_ws w1" and "list_all is_js_ws w2"
    and "list_all is_js_ws w3"
  shows "parseDefaultExpression (path @ w1 @ ''??'' @ w2 @ quote_literal q s @ w3) = Some (path, s)"
proof -
  let ?pc = "\<lambda>c. is_path_char c \<or> c = CHR ''.''"
  have chars: "list_all ?pc path"
    using assms(1) split_chars[of _ path "CHR ''.''"] by (fastforce simp: is_template_path_def is_template_key_def list_all_iff)
  have nows: "\<not> ?pc c" if "is_js_ws c \<or> c = CHR ''?''" for c
    using that by (auto simp: is_js_ws_def is_path_char_def is_upper_ascii_def is_lower_ascii_def is_digit_def)
  let ?r = "w1 @ ''??'' @ w2 @ quote_literal q s @ w3"
  have "\<not> ?pc (hd ?r)" using nows assms(3) by (cases w1) auto
  then have path: "takeWhile ?pc (path @ ?r) = path" "dropWhile ?pc (path @ ?r) = ?r"
    using span_stop[OF chars, of ?r] by blast+
  have "dropWhile is_js_ws ?r = ''??'' @ w2 @ quote_literal q s @ w3"
    by (intro drop_ws assms(3)) (auto simp: is_js_ws_def)
  moreover have "dropWhile is_js_ws (w2 @ quote_literal q s @ w3) = quote_literal q s @ w3"
    using assms(2) by (intro drop_ws assms(4)) (auto simp: quote_literal_def is_quote_def is_js_ws_def)
  moreover have "js_trim w3 = []"
    using assms(5) by (induction w3) (auto simp: js_trim_def)
  ultimately show ?thesis
    using path assms(1) readQuotedLiteral_quote[OF assms(2), of s w3]
    by (simp add: parseDefaultExpression_def Let_def)
qed

end
