(* ===== verification/DecideEval.thy ===== *)
theory DecideEval
  imports JsNumber
begin

text \<open>
  Dynamic routing: the \<^verbatim>\<open>when\<close> predicates and the \<^verbatim>\<open>decide\<close> table of a flow node
  (\<^verbatim>\<open>web/lib/flows/graph/when-grammar.ts\<close>, \<^verbatim>\<open>decide-eval.ts\<close>).

  The regular expression \<^verbatim>\<open>WHEN_RE\<close> is deterministic: its field stops at the first character outside
  \<^verbatim>\<open>[A-Za-z0-9_.]\<close>, its two-character operators are tried before the one-character ones, and a number
  never starts with \<^verbatim>\<open>=\<close>.  \<open>parseWhen\<close> reads the groups in that order; \<open>when_grammar\<close> shows that it
  accepts exactly the texts of the grammar.
\<close>

section \<open>Paths\<close>

definition is_ident_start :: "char \<Rightarrow> bool" where
  "is_ident_start c \<longleftrightarrow> is_upper_ascii c \<or> is_lower_ascii c \<or> c = CHR ''_''"

definition is_ident_char :: "char \<Rightarrow> bool" where
  "is_ident_char c \<longleftrightarrow> is_ident_start c \<or> is_digit c"

definition is_ident :: "string \<Rightarrow> bool" where
  "is_ident s \<longleftrightarrow> s \<noteq> [] \<and> is_ident_start (hd s) \<and> list_all is_ident_char s"

definition is_dotpath :: "string \<Rightarrow> bool" where
  "is_dotpath s \<longleftrightarrow> list_all is_ident (js_split (CHR ''.'') s)"

text \<open>\<^verbatim>\<open>getPath\<close>: \<open>None\<close> is \<^verbatim>\<open>undefined\<close>.\<close>

fun walk_path :: "json \<Rightarrow> string list \<Rightarrow> json option" where
  "walk_path cur [] = Some cur"
| "walk_path cur (seg # segs) =
     (if \<not> is_object cur then None
      else case own_prop cur seg of None \<Rightarrow> None | Some v \<Rightarrow> walk_path v segs)"

definition getPath :: "json \<Rightarrow> string \<Rightarrow> json option" where
  "getPath obj dotpath = (if dotpath = [] then None else walk_path obj (js_split (CHR ''.'') dotpath))"

section \<open>Predicates\<close>

datatype when_op = OpGe | OpGt | OpLe | OpLt | OpEq | OpNe

record predicate =
  p_field :: string
  p_op :: when_op
  p_rhs :: js_number

datatype when_error = InvalidPredicate | NotFinite

definition read_op :: "string \<Rightarrow> (when_op \<times> string) option" where
  "read_op s =
     (if take 2 s = ''>='' then Some (OpGe, drop 2 s)
      else if take 2 s = ''<='' then Some (OpLe, drop 2 s)
      else if take 2 s = ''=='' then Some (OpEq, drop 2 s)
      else if take 2 s = ''!='' then Some (OpNe, drop 2 s)
      else if take 1 s = ''>'' then Some (OpGt, drop 1 s)
      else if take 1 s = ''<'' then Some (OpLt, drop 1 s)
      else None)"

text \<open>\<^verbatim>\<open>-?(?:\d+\.\d+|\d+|\.\d+)\<close> up to the end of the text.\<close>

definition read_number :: "string \<Rightarrow> (bool \<times> string \<times> string) option" where
  "read_number s =
     (let neg = (take 1 s = ''-''); u = (if neg then drop 1 s else s);
          whole = takeWhile is_digit u; rest = dropWhile is_digit u
      in if rest = [] then (if whole \<noteq> [] then Some (neg, whole, []) else None)
         else if hd rest = CHR ''.'' \<and> tl rest \<noteq> [] \<and> list_all is_digit (tl rest)
         then Some (neg, whole, tl rest) else None)"

definition is_field_char :: "char \<Rightarrow> bool" where
  "is_field_char c \<longleftrightarrow> is_ident_char c \<or> c = CHR ''.''"

definition parseWhen :: "string \<Rightarrow> when_error + predicate" where
  "parseWhen input =
     (let s = js_trim input;
          field = takeWhile is_field_char s
      in if \<not> is_dotpath field then Inl InvalidPredicate
         else case read_op (dropWhile is_js_ws (dropWhile is_field_char s)) of
           None \<Rightarrow> Inl InvalidPredicate
         | Some (oper, rest) \<Rightarrow>
             (case read_number (dropWhile is_js_ws rest) of
                None \<Rightarrow> Inl InvalidPredicate
              | Some (neg, whole, part) \<Rightarrow>
                  (let rhs = js_Number_decimal neg whole part
                   in if \<not> is_finite_num rhs then Inl NotFinite
                      else Inr \<lparr>p_field = field, p_op = oper, p_rhs = rhs\<rparr>)))"

definition holds_op :: "when_op \<Rightarrow> js_number \<Rightarrow> js_number \<Rightarrow> bool" where
  "holds_op oper lhs rhs =
     (case oper of OpGe \<Rightarrow> js_le rhs lhs | OpGt \<Rightarrow> js_lt rhs lhs | OpLe \<Rightarrow> js_le lhs rhs | OpLt \<Rightarrow> js_lt lhs rhs
      | OpEq \<Rightarrow> js_eq lhs rhs | OpNe \<Rightarrow> \<not> js_eq lhs rhs)"

definition evalWhen :: "predicate \<Rightarrow> json \<Rightarrow> bool" where
  "evalWhen pred ctx =
     (case getPath ctx (p_field pred) of
        Some (JNum lhs) \<Rightarrow> is_finite_num lhs \<and> holds_op (p_op pred) lhs (p_rhs pred)
      | _ \<Rightarrow> False)"

section \<open>The table\<close>

datatype decide_case =
    WhenCase (case_when: string) (case_target: string)
  | DefaultCase (case_target: string)

record decide_def =
  dd_from :: string
  dd_cases :: "decide_case list option"

fun first_match :: "decide_case list \<Rightarrow> json \<Rightarrow> string option" where
  "first_match [] ctx = None"
| "first_match (WhenCase w t # cs) ctx =
     (case parseWhen w of
        Inr p \<Rightarrow> if evalWhen p ctx then Some t else first_match cs ctx
      | Inl _ \<Rightarrow> first_match cs ctx)"
| "first_match (DefaultCase t # cs) ctx = first_match cs ctx"

definition is_default :: "decide_case \<Rightarrow> bool" where
  "is_default c \<longleftrightarrow> (case c of DefaultCase _ \<Rightarrow> True | WhenCase _ _ \<Rightarrow> False)"

definition decide_cases :: "decide_def \<Rightarrow> decide_case list" where
  "decide_cases d = (case dd_cases d of None \<Rightarrow> [] | Some cs \<Rightarrow> cs)"

datatype decide_throw = StringThrew

definition computeDecideOutcome ::
    "decide_def option \<Rightarrow> json \<Rightarrow> json option \<Rightarrow> string \<Rightarrow> decide_throw + string option" where
  "computeDecideOutcome decide vars verdict legacy =
     (case decide of
        None \<Rightarrow> Inr (Some legacy)
      | Some d \<Rightarrow>
          if dd_from d = ''verdict''
          then Inr (case first_match (decide_cases d) (case verdict of None \<Rightarrow> JObj [] | Some v \<Rightarrow> v) of
                  Some t \<Rightarrow> Some t
                | None \<Rightarrow> map_option case_target (find is_default (decide_cases d)))
          else (case getPath vars (drop (length ''output.'') (dd_from d)) of
                  None \<Rightarrow> Inr None
                | Some JNull \<Rightarrow> Inr None
                | Some raw \<Rightarrow> (case js_String raw of Some s \<Rightarrow> Inr (Some s) | None \<Rightarrow> Inl StringThrew)))"

text \<open>
  The outcome computation is documented as total.  It throws in exactly one case: the node routes on a
  path of its structured output and the value there cannot be converted to a string, because it is, or
  contains as an array element, a JSON object with its own key \<^verbatim>\<open>toString\<close>; such values exist.
\<close>

lemma decide_outcome_throws:
  "(computeDecideOutcome decide vars verdict legacy = Inl StringThrew \<longleftrightarrow>
      (\<exists>d raw. decide = Some d \<and> dd_from d \<noteq> ''verdict''
         \<and> getPath vars (drop (length ''output.'') (dd_from d)) = Some raw \<and> js_String raw = None))
   \<and> js_String (JArr [JObj [(''toString'', JNull)]]) = None"
proof -
  have "js_String raw = None \<Longrightarrow> raw \<noteq> JNull" for raw by auto
  then show ?thesis
    by (auto simp: computeDecideOutcome_def split: option.splits json.splits)
qed

section \<open>What the parser accepts\<close>

definition op_text :: "when_op \<Rightarrow> string" where
  "op_text oper =
     (case oper of OpGe \<Rightarrow> ''>='' | OpGt \<Rightarrow> ''>'' | OpLe \<Rightarrow> ''<='' | OpLt \<Rightarrow> ''<'' | OpEq \<Rightarrow> ''=='' | OpNe \<Rightarrow> ''!='')"

text \<open>A decimal literal, and its printed form.\<close>

definition is_literal :: "string \<Rightarrow> string \<Rightarrow> bool" where
  "is_literal whole part \<longleftrightarrow> list_all is_digit whole \<and> list_all is_digit part \<and> (whole \<noteq> [] \<or> part \<noteq> [])"

definition literal_text :: "bool \<Rightarrow> string \<Rightarrow> string \<Rightarrow> string" where
  "literal_text neg whole part = (if neg then ''-'' else []) @ whole @ (if part = [] then [] else CHR ''.'' # part)"

definition when_text :: "string \<Rightarrow> string \<Rightarrow> when_op \<Rightarrow> string \<Rightarrow> bool \<Rightarrow> string \<Rightarrow> string \<Rightarrow> string" where
  "when_text field w1 oper w2 neg whole part = field @ w1 @ op_text oper @ w2 @ literal_text neg whole part"

lemma is_digit_not_dot: "\<not> is_digit (CHR ''.'')" "\<not> is_digit (CHR ''-'')"
  by code_simp+

lemma ws_not_field: "is_js_ws c \<Longrightarrow> \<not> is_field_char c"
  by (auto simp: is_js_ws_def is_field_char_def is_ident_char_def is_ident_start_def is_upper_ascii_def
      is_lower_ascii_def is_digit_def)

lemma digit_not_ws: "is_digit c \<Longrightarrow> \<not> is_js_ws c"
  by (auto simp: is_js_ws_def is_digit_def)

lemma dotpath_chars: "is_dotpath f \<Longrightarrow> c \<in> set f \<Longrightarrow> is_field_char c"
  using split_chars[of c f "CHR ''.''"]
  by (auto simp: is_dotpath_def is_ident_def is_field_char_def list_all_iff)

lemma dotpath_not_Nil:
  assumes "is_dotpath f"
  shows "f \<noteq> [] \<and> \<not> is_js_ws (hd f)"
proof -
  have "f \<noteq> []" using assms by (auto simp: is_dotpath_def is_ident_def)
  then show ?thesis
    using dotpath_chars[OF assms, of "hd f"] ws_not_field[of "hd f"] by auto
qed

lemma read_op_text:
  assumes "take 1 r \<noteq> ''=''"
  shows "read_op (op_text oper @ r) = Some (oper, r)"
proof -
  have "r = [] \<or> (\<exists>c t. r = c # t \<and> c \<noteq> CHR ''='')" using assms by (cases r) auto
  then show ?thesis by (cases oper) (auto simp: read_op_def op_text_def)
qed

lemma read_op_SomeD: "read_op s = Some (oper, r) \<Longrightarrow> s = op_text oper @ r"
  by (auto simp: read_op_def op_text_def split: if_splits)
     (metis append_take_drop_id append_Cons append_Nil)+

lemma literal_head:
  assumes "is_literal whole part"
  shows "take 1 (whole @ (if part = [] then [] else CHR ''.'' # part)) \<noteq> ''-''"
  using assms is_digit_not_dot by (cases whole) (auto simp: is_literal_def)

lemma read_number_text:
  assumes "is_literal whole part"
  shows "read_number (literal_text neg whole part) = Some (neg, whole, part)"
proof -
  let ?r = "if part = [] then [] else CHR ''.'' # part"
  have u: "(if take 1 (literal_text neg whole part) = ''-'' then drop 1 (literal_text neg whole part)
            else literal_text neg whole part) = whole @ ?r"
    and n: "(take 1 (literal_text neg whole part) = ''-'') = neg"
    using literal_head[OF assms] by (auto simp: literal_text_def)
  have "takeWhile is_digit (whole @ ?r) = whole" "dropWhile is_digit (whole @ ?r) = ?r"
    using span_stop[of is_digit whole ?r] assms is_digit_not_dot by (auto simp: is_literal_def)
  then show ?thesis
    unfolding read_number_def Let_def n u[unfolded n] using assms by (auto simp: is_literal_def)
qed

lemma read_number_SomeD:
  assumes "read_number s = Some (neg, whole, part)"
  shows "s = literal_text neg whole part \<and> is_literal whole part"
proof -
  define u where "u = (if take 1 s = ''-'' then drop 1 s else s)"
  define rest where "rest = dropWhile is_digit u"
  have s: "s = (if take 1 s = ''-'' then ''-'' else []) @ u"
    by (cases s) (auto simp: u_def)
  have u: "u = takeWhile is_digit u @ rest" by (simp add: rest_def)
  have w: "list_all is_digit (takeWhile is_digit u)" by (rule list_all_takeWhile)
  have "read_number s = (if rest = [] then (if takeWhile is_digit u \<noteq> [] then Some (take 1 s = ''-'', takeWhile is_digit u, []) else None)
      else if hd rest = CHR ''.'' \<and> tl rest \<noteq> [] \<and> list_all is_digit (tl rest)
      then Some (take 1 s = ''-'', takeWhile is_digit u, tl rest) else None)"
    unfolding read_number_def Let_def u_def[symmetric] rest_def[symmetric] ..
  with assms have neg: "neg = (take 1 s = ''-'')" and whole: "whole = takeWhile is_digit u"
    and r: "rest = (if part = [] then [] else CHR ''.'' # part)"
    and lit: "list_all is_digit part \<and> (whole \<noteq> [] \<or> part \<noteq> [])"
    by (cases rest; auto split: if_splits)+
  from u whole r have "u = whole @ (if part = [] then [] else CHR ''.'' # part)" by simp
  with s neg have "s = literal_text neg whole part"
    unfolding literal_text_def by simp
  with w whole lit show ?thesis by (simp add: is_literal_def)
qed

lemma literal_ends:
  assumes "is_literal whole part"
  shows "literal_text neg whole part \<noteq> [] \<and> \<not> is_js_ws (hd (literal_text neg whole part))
    \<and> \<not> is_js_ws (last (literal_text neg whole part)) \<and> take 1 (literal_text neg whole part) \<noteq> ''=''"
proof -
  have d: "\<not> is_js_ws c" "c \<noteq> CHR ''=''" if "is_digit c" for c
    using that digit_not_ws by (auto simp: is_digit_def)
  have x: "\<not> is_js_ws (CHR ''.'')" "\<not> is_js_ws (CHR ''-'')" by code_simp+
  have "last (literal_text neg whole part) = (if part = [] then last whole else last part)"
    using assms by (auto simp: literal_text_def is_literal_def)
  moreover have "is_digit (if part = [] then last whole else last part)"
    using assms by (auto simp: is_literal_def list_all_iff)
  ultimately have "\<not> is_js_ws (last (literal_text neg whole part))" using d by simp
  moreover have "literal_text neg whole part \<noteq> []" "\<not> is_js_ws (hd (literal_text neg whole part))"
    "take 1 (literal_text neg whole part) \<noteq> ''=''"
    using assms d x by (cases whole; auto simp: literal_text_def is_literal_def)+
  ultimately show ?thesis by blast
qed

lemma trim_around:
  assumes "list_all is_js_ws a" and "list_all is_js_ws b" and "s \<noteq> []" and "\<not> is_js_ws (hd s)" and "\<not> is_js_ws (last s)"
  shows "js_trim (a @ s @ b) = s"
proof -
  have "dropWhile is_js_ws (a @ s @ b) = s @ b"
    using assms by (intro drop_ws) auto
  moreover have "dropWhile is_js_ws (rev b @ rev s) = rev s"
    using assms by (intro drop_ws) (auto simp: hd_rev)
  ultimately show ?thesis by (simp add: js_trim_def)
qed

lemma trim_split:
  "\<exists>a b. list_all is_js_ws a \<and> list_all is_js_ws b \<and> s = a @ js_trim s @ b"
proof -
  let ?t = "dropWhile is_js_ws s"
  have t: "?t = js_trim s @ rev (takeWhile is_js_ws (rev ?t))"
    unfolding js_trim_def by (metis rev_append rev_rev_ident takeWhile_dropWhile_id)
  have "s = takeWhile is_js_ws s @ ?t" by simp
  then have "s = takeWhile is_js_ws s @ js_trim s @ rev (takeWhile is_js_ws (rev ?t))"
    using t by metis
  then show ?thesis
    by (intro exI[of _ "takeWhile is_js_ws s"] exI[of _ "rev (takeWhile is_js_ws (rev ?t))"])
       (auto simp: list_all_takeWhile)
qed

lemma parse_when_text:
  assumes "is_dotpath field" and "is_literal whole part" and "list_all is_js_ws w1" and "list_all is_js_ws w2"
    and "list_all is_js_ws w0" and "list_all is_js_ws w3"
  shows "parseWhen (w0 @ when_text field w1 oper w2 neg whole part @ w3) =
    (let rhs = js_Number_decimal neg whole part
     in if \<not> is_finite_num rhs then Inl NotFinite else Inr \<lparr>p_field = field, p_op = oper, p_rhs = rhs\<rparr>)"
proof -
  let ?lit = "literal_text neg whole part" and ?core = "when_text field w1 oper w2 neg whole part"
  note lit = literal_ends[OF assms(2), of neg] and f = dotpath_not_Nil[OF assms(1)]
  have trim: "js_trim (w0 @ ?core @ w3) = ?core"
    using assms(5,6) lit f by (intro trim_around) (auto simp: when_text_def op_text_def split: when_op.splits)
  have opc: "op_text oper \<noteq> []" "\<not> is_field_char (hd (op_text oper))" "\<not> is_js_ws (hd (op_text oper))"
    by (cases oper; simp add: op_text_def)
       (cases oper; simp add: op_text_def is_field_char_def is_ident_char_def is_ident_start_def
          is_upper_ascii_def is_lower_ascii_def is_digit_def is_js_ws_def)+
  have "\<not> is_field_char (hd (w1 @ op_text oper @ w2 @ ?lit))"
    using opc assms(3) ws_not_field by (cases w1) auto
  moreover have "list_all is_field_char field"
    using dotpath_chars[OF assms(1)] by (simp add: list_all_iff)
  ultimately have field: "takeWhile is_field_char (field @ w1 @ op_text oper @ w2 @ ?lit) = field"
    "dropWhile is_field_char (field @ w1 @ op_text oper @ w2 @ ?lit) = w1 @ op_text oper @ w2 @ ?lit"
    using span_stop by blast+
  have op1: "dropWhile is_js_ws (w1 @ op_text oper @ w2 @ ?lit) = op_text oper @ w2 @ ?lit"
    using opc by (intro drop_ws assms(3)) auto
  have eqs: "take 1 (w2 @ ?lit) \<noteq> ''=''"
    using lit assms(4) by (cases w2) (auto simp: is_js_ws_def)
  have num: "dropWhile is_js_ws (w2 @ ?lit) = ?lit"
    using lit by (intro drop_ws assms(4)) auto
  show ?thesis
    unfolding parseWhen_def trim Let_def
    using field read_op_text[OF eqs] assms(1)
    by (simp add: when_text_def op1 num read_number_text[OF assms(2)] Let_def)
qed

text \<open>
  C38: \<^verbatim>\<open>parseWhen\<close> accepts exactly the texts of its grammar, a dot-path of identifiers, one of the six
  operators and a decimal literal with any white space around them, reads each of them back to the
  predicate it was written for with the literal rounded to the nearest double, and rejects every other
  text.
\<close>

theorem when_grammar:
  "parseWhen input = Inr p \<longleftrightarrow>
     (\<exists>w0 w1 w2 w3 neg whole part.
        input = w0 @ when_text (p_field p) w1 (p_op p) w2 neg whole part @ w3
        \<and> list_all is_js_ws (w0 @ w1 @ w2 @ w3) \<and> is_dotpath (p_field p) \<and> is_literal whole part
        \<and> p_rhs p = js_Number_decimal neg whole part \<and> is_finite_num (p_rhs p))"
proof
  assume "parseWhen input = Inr p"
  then obtain oper rest neg whole part where
    f: "is_dotpath (takeWhile is_field_char (js_trim input))" and
    o: "read_op (dropWhile is_js_ws (dropWhile is_field_char (js_trim input))) = Some (oper, rest)" and
    n: "read_number (dropWhile is_js_ws rest) = Some (neg, whole, part)" and
    fin: "is_finite_num (js_Number_decimal neg whole part)" and
    p: "p = \<lparr>p_field = takeWhile is_field_char (js_trim input), p_op = oper, p_rhs = js_Number_decimal neg whole part\<rparr>"
    by (auto simp: parseWhen_def Let_def split: option.splits if_splits prod.splits)
  let ?r = "dropWhile is_field_char (js_trim input)"
  have "js_trim input = takeWhile is_field_char (js_trim input) @ ?r" by simp
  also have "?r = takeWhile is_js_ws ?r @ op_text oper @ rest"
    using read_op_SomeD[OF o] by (metis takeWhile_dropWhile_id)
  also have "rest = takeWhile is_js_ws rest @ literal_text neg whole part"
    using read_number_SomeD[OF n] by (metis takeWhile_dropWhile_id)
  finally have core: "js_trim input = when_text (p_field p) (takeWhile is_js_ws ?r) (p_op p) (takeWhile is_js_ws rest) neg whole part"
    by (simp add: when_text_def p)
  have ws: "list_all is_js_ws (takeWhile is_js_ws x)" for x
    by (rule list_all_takeWhile)
  obtain a b where "list_all is_js_ws a" "list_all is_js_ws b" "input = a @ js_trim input @ b"
    using trim_split by blast
  with core ws f fin p read_number_SomeD[OF n]
  show "\<exists>w0 w1 w2 w3 neg whole part.
        input = w0 @ when_text (p_field p) w1 (p_op p) w2 neg whole part @ w3
        \<and> list_all is_js_ws (w0 @ w1 @ w2 @ w3) \<and> is_dotpath (p_field p) \<and> is_literal whole part
        \<and> p_rhs p = js_Number_decimal neg whole part \<and> is_finite_num (p_rhs p)"
    by (intro exI[of _ a] exI[of _ "takeWhile is_js_ws ?r"] exI[of _ "takeWhile is_js_ws rest"] exI[of _ b]
        exI[of _ neg] exI[of _ whole] exI[of _ part]) (simp add: p)
next
  assume "\<exists>w0 w1 w2 w3 neg whole part.
        input = w0 @ when_text (p_field p) w1 (p_op p) w2 neg whole part @ w3
        \<and> list_all is_js_ws (w0 @ w1 @ w2 @ w3) \<and> is_dotpath (p_field p) \<and> is_literal whole part
        \<and> p_rhs p = js_Number_decimal neg whole part \<and> is_finite_num (p_rhs p)"
  then show "parseWhen input = Inr p"
    by (auto simp: parse_when_text Let_def)
qed

end
