(* ===== verification/Streams.thy ===== *)
theory Streams
  imports Prelude
begin

text \<open>
  Accumulators fed by the chunks of a stream.  The locale \<open>chunked_stream\<close> is the contract an accumulator must
  meet for its result not to depend on where the stream was cut: absorbing two chunks is absorbing their
  concatenation.  The gate parser (\<open>GateVerdict\<close>), the consensus capture (\<open>ConsensusText\<close>) and the capped text
  of \<^verbatim>\<open>web/lib/flows/capped-text.ts\<close>, modelled here, interpret it.
\<close>

locale chunked_stream =
  fixes absorb :: "'s \<Rightarrow> 'c list \<Rightarrow> 's" and ok :: "'s \<Rightarrow> bool"
  assumes absorb_ok: "ok s \<Longrightarrow> ok (absorb s chunk)"
    and absorb_Nil: "ok s \<Longrightarrow> absorb s [] = s"
    and absorb_append: "ok s \<Longrightarrow> absorb (absorb s a) b = absorb s (a @ b)"
begin

lemma absorb_chunks: "ok s \<Longrightarrow> fold (\<lambda>chunk s. absorb s chunk) chunks s = absorb s (concat chunks)"
  by (induction chunks arbitrary: s) (simp_all add: absorb_Nil absorb_ok absorb_append)

lemma recut: "ok s \<Longrightarrow> concat chunks = concat pieces \<Longrightarrow>
    fold (\<lambda>chunk s. absorb s chunk) chunks s = fold (\<lambda>chunk s. absorb s chunk) pieces s"
  by (simp add: absorb_chunks)

end

section \<open>Capped text\<close>

definition STDOUT_CAP_BYTES :: nat where
  "STDOUT_CAP_BYTES = 1000000"

definition appendCapped :: "nat \<Rightarrow> string \<Rightarrow> string \<Rightarrow> string" where
  "appendCapped cap buf chunk =
     (if length buf + length chunk > cap then buf @ take (cap - length buf) chunk else buf @ chunk)"

definition isCappedTextTruncated :: "nat \<Rightarrow> string \<Rightarrow> bool" where
  "isCappedTextTruncated cap buf \<longleftrightarrow> length buf \<ge> cap"

lemma appendCapped_take: "length buf \<le> cap \<Longrightarrow> appendCapped cap buf chunk = take cap (buf @ chunk)"
  by (simp add: appendCapped_def)

interpretation capped_text: chunked_stream "appendCapped cap" "\<lambda>buf. length buf \<le> cap" for cap
proof
  show "length (appendCapped cap s chunk) \<le> cap" if "length s \<le> cap" for s chunk
    by (simp add: appendCapped_take that del: take_append)
  show "appendCapped cap s [] = s" if "length s \<le> cap" for s
    by (simp add: appendCapped_take that del: take_append)
  show "appendCapped cap (appendCapped cap s a) b = appendCapped cap s (a @ b)" if "length s \<le> cap" for s a b
    using that by (cases "length (s @ a) \<le> cap") (simp_all add: appendCapped_take)
qed

text \<open>
  A capped capture is the head of the stream, however it was cut, and it reads as truncated exactly when the
  stream reached the cap: a stream of exactly \<open>cap\<close> characters is reported as truncated although nothing of
  it was dropped.
\<close>

lemma capped_capture:
  "fold (\<lambda>chunk buf. appendCapped cap buf chunk) chunks [] = take cap (concat chunks)"
  "isCappedTextTruncated cap (fold (\<lambda>chunk buf. appendCapped cap buf chunk) chunks []) \<longleftrightarrow> cap \<le> length (concat chunks)"
  using capped_text.absorb_chunks[of "[]" cap chunks] by (auto simp: appendCapped_take isCappedTextTruncated_def)

end
