(* ===== verification/GateVerdict.thy ===== *)
theory GateVerdict
  imports Streams JsNumber
begin

text \<open>
  Reading a gate's verdict out of an agent's output (\<^verbatim>\<open>web/lib/flows/graph/gate-verdict.ts\<close>,
  \<^verbatim>\<open>json-extract.ts\<close>).

  \<^item> \<open>extractBalancedJsonObjects\<close> finds the brace-balanced objects of a text.
  \<^item> \<open>parseVerdict\<close> takes the last one that carries a verdict; \<^verbatim>\<open>JSON.parse\<close> is the parameter
    \<open>parse\<close>, with \<open>None\<close> for a thrown \<^verbatim>\<open>SyntaxError\<close>, and every statement holds for any such function.
  \<^item> \<open>appendGateOutput\<close> does the same incrementally over the chunks of a stream.  It is shown to be the
    fold of a one-character automaton, hence blind to where the stream was cut.
  \<^item> \<open>calibrateVerdict\<close> applies a confidence threshold.
\<close>

section \<open>Balanced objects\<close>

text \<open>The scanner's variables; \<open>start = None\<close> is \<^verbatim>\<open>-1\<close>.\<close>

record scan =
  sc_objects :: "string list"
  sc_depth :: nat
  sc_start :: "nat option"
  sc_inString :: bool
  sc_escaped :: bool

definition slice :: "nat \<Rightarrow> nat \<Rightarrow> string \<Rightarrow> string" where
  "slice a b s = take (b - a) (drop a s)"

definition scan_step :: "string \<Rightarrow> nat \<Rightarrow> scan \<Rightarrow> scan" where
  "scan_step input index s =
     (let char = input ! index
      in if sc_inString s
         then (if sc_escaped s then s\<lparr>sc_escaped := False\<rparr>
               else if char = CHR 0x5C then s\<lparr>sc_escaped := True\<rparr>
               else if char = CHR 0x22 then s\<lparr>sc_inString := False\<rparr> else s)
         else if char = CHR 0x22 then s\<lparr>sc_inString := True\<rparr>
         else if char = CHR ''{''
         then s\<lparr>sc_start := (if sc_depth s = 0 then Some index else sc_start s), sc_depth := sc_depth s + 1\<rparr>
         else if char = CHR ''}'' \<and> sc_depth s > 0
         then (let depth = sc_depth s - 1
               in case sc_start s of
                    Some start \<Rightarrow>
                      if depth = 0
                      then s\<lparr>sc_depth := depth, sc_objects := sc_objects s @ [slice start (index + 1) input], sc_start := None\<rparr>
                      else s\<lparr>sc_depth := depth\<rparr>
                  | None \<Rightarrow> s\<lparr>sc_depth := depth\<rparr>)
         else s)"

definition scan_init :: scan where
  "scan_init = \<lparr>sc_objects = [], sc_depth = 0, sc_start = None, sc_inString = False, sc_escaped = False\<rparr>"

definition extractBalancedJsonObjects :: "string \<Rightarrow> string list" where
  "extractBalancedJsonObjects input = sc_objects (fold (scan_step input) [0..<length input] scan_init)"

section \<open>The verdict\<close>

record gate_verdict =
  gv_verdict :: string
  gv_confidence :: "js_number option"
  gv_reasons :: "string list option"
  gv_recommendedAction :: "string option"

text \<open>
  One candidate: \<open>None\<close> keeps scanning (also when \<^verbatim>\<open>String\<close> throws on a reason, which the code
  catches), \<open>Some None\<close> is the early \<^verbatim>\<open>return null\<close> for a confidence that is not finite.
\<close>

definition read_reasons :: "json \<Rightarrow> string list option option" where
  "read_reasons obj =
     (case own_prop obj ''reasons'' of
        Some (JArr rs) \<Rightarrow> map_option Some (those (map js_String rs))
      | _ \<Rightarrow> Some None)"

definition read_verdict :: "json \<Rightarrow> gate_verdict option option" where
  "read_verdict obj =
     (if \<not> is_object obj then None
      else case own_prop obj ''verdict'' of
        Some (JStr v) \<Rightarrow>
          (let conf = (case own_prop obj ''confidence'' of Some (JNum x) \<Rightarrow> Some x | _ \<Rightarrow> None)
           in if (case conf of Some x \<Rightarrow> \<not> is_finite_num x | None \<Rightarrow> False) then Some None
              else map_option (\<lambda>reasons. Some \<lparr>gv_verdict = v, gv_confidence = conf, gv_reasons = reasons,
                gv_recommendedAction =
                  (case own_prop obj ''recommendedAction'' of Some (JStr a) \<Rightarrow> Some a | _ \<Rightarrow> None)\<rparr>) (read_reasons obj))
      | _ \<Rightarrow> None)"

fun scan_candidates :: "(string \<Rightarrow> json option) \<Rightarrow> string list \<Rightarrow> gate_verdict option" where
  "scan_candidates parse [] = None"
| "scan_candidates parse (c # cs) =
     (case parse c of
        None \<Rightarrow> scan_candidates parse cs
      | Some obj \<Rightarrow> (case read_verdict obj of None \<Rightarrow> scan_candidates parse cs | Some r \<Rightarrow> r))"

definition parseVerdict :: "(string \<Rightarrow> json option) \<Rightarrow> string \<Rightarrow> gate_verdict option" where
  "parseVerdict parse output = scan_candidates parse (rev (extractBalancedJsonObjects output))"

definition PASS_VERDICTS :: "string list" where
  "PASS_VERDICTS = [''pass'', ''passed'', ''approve'', ''approved'', ''ok'', ''success'', ''succeeded'', ''ready'']"

definition isPassVerdict :: "string \<Rightarrow> bool" where
  "isPassVerdict verdict \<longleftrightarrow> js_lower (js_trim verdict) \<in> set PASS_VERDICTS"

section \<open>The incremental reader\<close>

record gate_output =
  go_depth :: nat
  go_quoted :: bool
  go_escaped :: bool
  go_candidate :: "string option"
  go_verdict :: "gate_verdict option"
  go_evidence :: string

definition emptyGateOutput :: gate_output where
  "emptyGateOutput = \<lparr>go_depth = 0, go_quoted = False, go_escaped = False, go_candidate = Some [],
     go_verdict = None, go_evidence = []\<rparr>"

definition CANDIDATE_CAP :: nat where
  "CANDIDATE_CAP = 1000000"

definition appendCandidate :: "string option \<Rightarrow> string \<Rightarrow> string option" where
  "appendCandidate candidate part =
     (case candidate of
        None \<Rightarrow> None
      | Some c \<Rightarrow> if length c + length part \<le> CANDIDATE_CAP then Some (c @ part) else None)"

text \<open>What a completed candidate does to the verdict: an oversized one clears it.\<close>

definition close_candidate :: "(string \<Rightarrow> json option) \<Rightarrow> string option \<Rightarrow> gate_verdict option \<Rightarrow> gate_verdict option" where
  "close_candidate parse candidate verdict =
     (case candidate of
        None \<Rightarrow> None
      | Some c \<Rightarrow> (case parseVerdict parse c of None \<Rightarrow> verdict | Some v \<Rightarrow> Some v))"

text \<open>One iteration of the loop on the local variables, with \<open>start\<close> beside the returned ones.\<close>

definition gate_step ::
    "(string \<Rightarrow> json option) \<Rightarrow> string \<Rightarrow> nat \<Rightarrow> gate_output \<times> nat option \<Rightarrow> gate_output \<times> nat option" where
  "gate_step parse chunk index st =
     (case st of (s, start) \<Rightarrow>
        let char = chunk ! index
        in if go_depth s = 0
           then (if char \<noteq> CHR ''{'' then st
                 else (s\<lparr>go_depth := 1, go_candidate := Some []\<rparr>, Some index))
           else if go_escaped s then (s\<lparr>go_escaped := False\<rparr>, start)
           else if go_quoted s \<and> char = CHR 0x5C then (s\<lparr>go_escaped := True\<rparr>, start)
           else if char = CHR 0x22 then (s\<lparr>go_quoted := \<not> go_quoted s\<rparr>, start)
           else if go_quoted s then st
           else let depth = (if char = CHR ''{'' then go_depth s + 1 else go_depth s);
                    depth = (if char = CHR ''}'' then depth - 1 else depth)
                in if depth \<noteq> 0 then (s\<lparr>go_depth := depth\<rparr>, start)
                   else (let candidate = appendCandidate (go_candidate s)
                               (case start of None \<Rightarrow> [] | Some a \<Rightarrow> slice a (index + 1) chunk)
                         in (s\<lparr>go_depth := depth, go_candidate := Some [],
                               go_verdict := close_candidate parse candidate (go_verdict s)\<rparr>, None)))"

definition appendGateOutput :: "(string \<Rightarrow> json option) \<Rightarrow> gate_output \<Rightarrow> string \<Rightarrow> gate_output" where
  "appendGateOutput parse previous chunk =
     (case fold (gate_step parse chunk) [0..<length chunk]
             (previous, if go_depth previous > 0 then Some 0 else None) of
        (s, start) \<Rightarrow>
          s\<lparr>go_candidate :=
               (case start of None \<Rightarrow> go_candidate s
                | Some a \<Rightarrow> appendCandidate (go_candidate s) (drop a chunk)),
             go_evidence := take 2000 (go_evidence previous @ chunk)\<rparr>)"

section \<open>Calibration\<close>

datatype calibration_outcome =
    InvalidConfidence | AboveThreshold | BelowThreshold | MissingConfidenceAllowed | NoConfidence

record calibration_config =
  cc_confidence_min :: "js_number option"
  cc_allow_missing_confidence :: "bool option"

record calibration =
  cal_confidenceMin :: js_number
  cal_rawVerdict :: string
  cal_outcome :: calibration_outcome

definition calibrateVerdict :: "gate_verdict \<Rightarrow> calibration_config option \<Rightarrow> bool \<times> calibration option" where
  "calibrateVerdict parsed config =
     (case Option.bind config cc_confidence_min of
        None \<Rightarrow> (True, None)
      | Some confidenceMin \<Rightarrow>
          (let out = (\<lambda>pass outcome. (pass, Some \<lparr>cal_confidenceMin = confidenceMin,
                 cal_rawVerdict = gv_verdict parsed, cal_outcome = outcome\<rparr>))
           in case gv_confidence parsed of
                Some c \<Rightarrow>
                  if \<not> is_finite_num c \<or> js_lt c (Fin 0) \<or> js_lt (Fin 1) c then out False InvalidConfidence
                  else if js_le confidenceMin c then out True AboveThreshold
                  else out False BelowThreshold
              | None \<Rightarrow>
                  if Option.bind config cc_allow_missing_confidence = Some True then out True MissingConfidenceAllowed
                  else out False NoConfidence))"

section \<open>The reader as an automaton\<close>

text \<open>The reference: one character at a time, the candidate growing with every character of the object.\<close>

definition gate_char :: "(string \<Rightarrow> json option) \<Rightarrow> char \<Rightarrow> gate_output \<Rightarrow> gate_output" where
  "gate_char parse c s =
     (let grown = appendCandidate (go_candidate s) [c]
      in if go_depth s = 0
         then (if c \<noteq> CHR ''{'' then s else s\<lparr>go_depth := 1, go_candidate := appendCandidate (Some []) [c]\<rparr>)
         else if go_escaped s then s\<lparr>go_escaped := False, go_candidate := grown\<rparr>
         else if go_quoted s \<and> c = CHR 0x5C then s\<lparr>go_escaped := True, go_candidate := grown\<rparr>
         else if c = CHR 0x22 then s\<lparr>go_quoted := \<not> go_quoted s, go_candidate := grown\<rparr>
         else if go_quoted s then s\<lparr>go_candidate := grown\<rparr>
         else if c = CHR ''{'' then s\<lparr>go_depth := go_depth s + 1, go_candidate := grown\<rparr>
         else if c = CHR ''}'' \<and> go_depth s = 1
         then s\<lparr>go_depth := 0, go_candidate := Some [], go_verdict := close_candidate parse grown (go_verdict s)\<rparr>
         else if c = CHR ''}'' then s\<lparr>go_depth := go_depth s - 1, go_candidate := grown\<rparr>
         else s\<lparr>go_candidate := grown\<rparr>)"

lemma appendCandidate_assoc:
  "appendCandidate (appendCandidate c a) b = appendCandidate c (a @ b)"
  by (auto simp: appendCandidate_def split: option.splits)

lemma slice_Suc: "a \<le> i \<Longrightarrow> i < length s \<Longrightarrow> slice a (Suc i) s = slice a i s @ [s ! i]"
  by (simp add: slice_def Suc_diff_le take_Suc_conv_app_nth)

lemma slice_self: "i < length s \<Longrightarrow> slice i (Suc i) s = [s ! i]"
  by (simp add: slice_def take_Suc_conv_app_nth)

text \<open>
  The loop's state after \<open>i\<close> characters of a chunk, with the pending slice appended, is the automaton's.
\<close>

definition settled :: "string \<Rightarrow> nat \<Rightarrow> gate_output \<times> nat option \<Rightarrow> gate_output" where
  "settled chunk i st =
     (case st of (s, start) \<Rightarrow>
        s\<lparr>go_candidate := (case start of None \<Rightarrow> go_candidate s
            | Some a \<Rightarrow> appendCandidate (go_candidate s) (slice a i chunk))\<rparr>)"

definition in_step :: "nat \<Rightarrow> gate_output \<times> nat option \<Rightarrow> bool" where
  "in_step i st \<longleftrightarrow> (go_depth (fst st) = 0 \<longleftrightarrow> snd st = None) \<and> (\<forall>a. snd st = Some a \<longrightarrow> a \<le> i)"

lemma gate_step_settled:
  assumes "i < length chunk" and "in_step i st"
  shows "settled chunk (Suc i) (gate_step parse chunk i st) = gate_char parse (chunk ! i) (settled chunk i st)
    \<and> in_step (Suc i) (gate_step parse chunk i st)"
proof (cases "snd st")
  case None
  with assms show ?thesis
    by (cases st) (auto simp: in_step_def settled_def gate_step_def gate_char_def Let_def slice_self)
next
  case (Some a)
  with assms show ?thesis
    by (cases st) (auto simp: in_step_def settled_def gate_step_def gate_char_def Let_def slice_Suc
        appendCandidate_assoc)
qed

lemma gate_loop_settled:
  assumes "n \<le> length chunk" and "in_step 0 st"
  shows "settled chunk n (fold (gate_step parse chunk) [0..<n] st) = fold (gate_char parse) (take n chunk) (settled chunk 0 st)
    \<and> in_step n (fold (gate_step parse chunk) [0..<n] st)"
  using assms(1)
proof (induction n)
  case 0
  with assms(2) show ?case by simp
next
  case (Suc n)
  then show ?case
    using gate_step_settled[of n chunk "fold (gate_step parse chunk) [0..<n] st" parse]
    by (simp add: take_Suc_conv_app_nth)
qed

lemma gate_char_evidence [simp]:
  "gate_char parse c (s\<lparr>go_evidence := e\<rparr>) = (gate_char parse c s)\<lparr>go_evidence := e\<rparr>"
  by (simp add: gate_char_def Let_def)

lemma fold_gate_char_evidence:
  "fold (gate_char parse) cs (s\<lparr>go_evidence := e\<rparr>) = (fold (gate_char parse) cs s)\<lparr>go_evidence := e\<rparr>"
  by (induction cs arbitrary: s) auto

text \<open>The buffered candidate never exceeds its cap, and outside an object no quote is open.\<close>

definition gate_ok :: "gate_output \<Rightarrow> bool" where
  "gate_ok s \<longleftrightarrow>
     (\<forall>c. go_candidate s = Some c \<longrightarrow> length c \<le> CANDIDATE_CAP)
     \<and> (go_depth s = 0 \<longrightarrow> \<not> go_quoted s \<and> \<not> go_escaped s) \<and> (go_escaped s \<longrightarrow> go_quoted s)"

lemma gate_ok_empty: "gate_ok emptyGateOutput"
  by (simp add: gate_ok_def emptyGateOutput_def)

lemma appendCandidate_le: "appendCandidate c a = Some x \<Longrightarrow> length x \<le> CANDIDATE_CAP"
  by (auto simp: appendCandidate_def split: option.splits if_splits)

lemma gate_char_ok: "gate_ok s \<Longrightarrow> gate_ok (gate_char parse c s)"
  by (auto simp: gate_ok_def gate_char_def Let_def dest: appendCandidate_le)

lemma fold_gate_char_ok: "gate_ok s \<Longrightarrow> gate_ok (fold (gate_char parse) cs s)"
  by (induction cs arbitrary: s) (auto simp: gate_char_ok)

lemma gate_ok_evidence [simp]: "gate_ok (s\<lparr>go_evidence := e\<rparr>) = gate_ok s"
  by (simp add: gate_ok_def)

lemma appendGateOutput_automaton:
  assumes "gate_ok previous"
  shows "appendGateOutput parse previous chunk =
     (fold (gate_char parse) chunk previous)\<lparr>go_evidence := take 2000 (go_evidence previous @ chunk)\<rparr>"
proof -
  let ?st = "(previous, if go_depth previous > 0 then Some 0 else None)"
  let ?final = "fold (gate_step parse chunk) [0..<length chunk] ?st"
  have "in_step 0 ?st" by (simp add: in_step_def)
  moreover have "settled chunk 0 ?st = previous"
    using assms by (cases "go_candidate previous") (auto simp: settled_def slice_def appendCandidate_def gate_ok_def)
  ultimately have "settled chunk (length chunk) ?final = fold (gate_char parse) chunk previous"
    using gate_loop_settled[of "length chunk" chunk ?st parse] by simp
  moreover have "appendGateOutput parse previous chunk =
      (settled chunk (length chunk) ?final)\<lparr>go_evidence := take 2000 (go_evidence previous @ chunk)\<rparr>"
    by (cases ?final) (auto simp: appendGateOutput_def settled_def slice_def split: option.splits)
  ultimately show ?thesis by simp
qed

lemma appendGateOutput_ok: "gate_ok s \<Longrightarrow> gate_ok (appendGateOutput parse s chunk)"
  by (simp add: appendGateOutput_automaton fold_gate_char_ok)

lemma take_take_append: "take n (take n p @ b) = take n (p @ b)"
  by (cases "n \<le> length p") simp_all

lemma appendGateOutput_append:
  assumes "gate_ok s"
  shows "appendGateOutput parse (appendGateOutput parse s a) b = appendGateOutput parse s (a @ b)"
proof -
  have "take 2000 (take 2000 (go_evidence s @ a) @ b) = take 2000 (go_evidence s @ a @ b)"
    by (simp only: take_take_append append_assoc)
  then show ?thesis
    using assms by (simp add: appendGateOutput_automaton fold_gate_char_ok fold_gate_char_evidence del: take_append)
qed

interpretation gate_stream: chunked_stream "appendGateOutput parse" "\<lambda>s. gate_ok s \<and> length (go_evidence s) \<le> 2000" for parse
proof
  show "gate_ok (appendGateOutput parse s chunk) \<and> length (go_evidence (appendGateOutput parse s chunk)) \<le> 2000"
    if "gate_ok s \<and> length (go_evidence s) \<le> 2000" for s chunk
    using that by (simp add: appendGateOutput_ok) (simp add: appendGateOutput_automaton del: take_append)
  show "appendGateOutput parse s [] = s" if "gate_ok s \<and> length (go_evidence s) \<le> 2000" for s
    using that by (cases s) (simp add: appendGateOutput_automaton)
  show "appendGateOutput parse (appendGateOutput parse s a) b = appendGateOutput parse s (a @ b)"
    if "gate_ok s \<and> length (go_evidence s) \<le> 2000" for s a b
    using that by (simp add: appendGateOutput_append)
qed

lemma gate_output_chunks:
  "fold (\<lambda>chunk s. appendGateOutput parse s chunk) chunks emptyGateOutput
     = appendGateOutput parse emptyGateOutput (concat chunks)"
  using gate_ok_empty by (intro gate_stream.absorb_chunks) (simp add: emptyGateOutput_def)

text \<open>
  C36: the verdict, the evidence preview and the pending state read from a stream do not depend on where the
  stream was cut into chunks, and at every point the buffered candidate is at most a million characters and
  the preview at most 2000.
\<close>

theorem gate_output_chunking:
  "fold (\<lambda>chunk s. appendGateOutput parse s chunk) chunks emptyGateOutput
     = appendGateOutput parse emptyGateOutput (concat chunks)
   \<and> (case go_candidate (appendGateOutput parse emptyGateOutput text) of
        None \<Rightarrow> True | Some c \<Rightarrow> length c \<le> 1000000)
   \<and> length (go_evidence (appendGateOutput parse emptyGateOutput text)) \<le> 2000"
proof -
  let ?s = "appendGateOutput parse emptyGateOutput text"
  have "gate_ok ?s"
    by (rule appendGateOutput_ok[OF gate_ok_empty])
  then have "case go_candidate ?s of None \<Rightarrow> True | Some c \<Rightarrow> length c \<le> 1000000"
    by (simp add: gate_ok_def CANDIDATE_CAP_def split: option.splits)
  moreover have "length (go_evidence ?s) \<le> 2000"
    by (simp add: appendGateOutput_automaton gate_ok_empty)
  ultimately show ?thesis by (simp add: gate_output_chunks)
qed

section \<open>One whole object\<close>

text \<open>The bracket structure both readers follow inside an object.\<close>

definition brace_step :: "char \<Rightarrow> nat \<times> bool \<times> bool \<Rightarrow> nat \<times> bool \<times> bool" where
  "brace_step c st =
     (case st of (d, q, e) \<Rightarrow>
        if e then (d, q, False)
        else if q \<and> c = CHR 0x5C then (d, q, True)
        else if c = CHR 0x22 then (d, \<not> q, e)
        else if q then st
        else if c = CHR ''{'' then (d + 1, q, e)
        else if c = CHR ''}'' then (d - 1, q, e)
        else st)"

fun closes_at_end :: "nat \<times> bool \<times> bool \<Rightarrow> string \<Rightarrow> bool" where
  "closes_at_end st [] = False"
| "closes_at_end st (c # cs) =
     (let st' = brace_step c st in if fst st' = 0 then cs = [] else closes_at_end st' cs)"

definition complete_object :: "string \<Rightarrow> bool" where
  "complete_object s \<longleftrightarrow> s \<noteq> [] \<and> hd s = CHR ''{'' \<and> closes_at_end (1, False, False) (tl s)"

lemma scan_closes:
  assumes "closes_at_end (sc_depth s, sc_inString s, sc_escaped s) t" and "sc_depth s > 0"
    and "sc_escaped s \<longrightarrow> sc_inString s" and "sc_start s = Some 0"
  shows "sc_objects (fold (scan_step (p @ t)) [length p..<length p + length t] s) = sc_objects s @ [p @ t]"
  using assms
proof (induction t arbitrary: p s)
  case (Cons c cs)
  let ?s = "scan_step (p @ c # cs) (length p) s"
  have step: "brace_step c (sc_depth s, sc_inString s, sc_escaped s) = (sc_depth ?s, sc_inString ?s, sc_escaped ?s)"
    using Cons.prems by (auto simp: brace_step_def scan_step_def Let_def)
  have rest: "fold (scan_step (p @ c # cs)) [length p..<length p + length (c # cs)] s
      = fold (scan_step ((p @ [c]) @ cs)) [length (p @ [c])..<length (p @ [c]) + length cs] ?s"
    by (simp add: upt_conv_Cons del: upt_Suc)
  show ?case
  proof (cases "sc_depth ?s = 0")
    case True
    with Cons.prems(1) step have cs: "cs = []" by simp
    with True Cons.prems have "sc_objects ?s = sc_objects s @ [p @ c # cs]"
      by (auto simp: scan_step_def Let_def slice_def split: if_splits)
    with rest cs show ?thesis by simp
  next
    case False
    have "closes_at_end (sc_depth ?s, sc_inString ?s, sc_escaped ?s) cs"
      using Cons.prems(1) step False by simp
    moreover have "sc_escaped ?s \<longrightarrow> sc_inString ?s" "sc_start ?s = Some 0" "sc_objects ?s = sc_objects s"
      using Cons.prems False by (auto simp: scan_step_def Let_def)
    ultimately show ?thesis
      using Cons.IH[of ?s "p @ [c]"] False rest by simp
  qed
qed simp

lemma extract_complete_object:
  assumes "complete_object obj"
  shows "extractBalancedJsonObjects obj = [obj]"
proof -
  obtain t where obj: "obj = CHR ''{'' # t" and t: "closes_at_end (1, False, False) t"
    using assms by (cases obj) (auto simp: complete_object_def)
  let ?s = "scan_step obj 0 scan_init"
  have s: "?s = scan_init\<lparr>sc_depth := 1, sc_start := Some 0\<rparr>"
    by (simp add: obj scan_step_def scan_init_def)
  have "fold (scan_step obj) [0..<length obj] scan_init = fold (scan_step ([CHR ''{''] @ t)) [1..<1 + length t] ?s"
    by (simp add: obj upt_conv_Cons del: upt_Suc)
  then show ?thesis
    using scan_closes[of ?s t "[CHR ''{'']"] t s
    by (simp add: extractBalancedJsonObjects_def scan_init_def obj)
qed

lemma gate_closes:
  assumes "closes_at_end (go_depth s, go_quoted s, go_escaped s) t" and "go_depth s > 0"
    and "go_candidate s = Some acc" and "length acc + length t \<le> CANDIDATE_CAP"
  shows "go_verdict (fold (gate_char parse) t s) = close_candidate parse (Some (acc @ t)) (go_verdict s)
    \<and> go_depth (fold (gate_char parse) t s) = 0"
  using assms
proof (induction t arbitrary: s acc)
  case (Cons c cs)
  let ?s = "gate_char parse c s"
  have grown: "appendCandidate (Some acc) [c] = Some (acc @ [c])"
    using Cons.prems(4) by (simp add: appendCandidate_def)
  have step: "brace_step c (go_depth s, go_quoted s, go_escaped s) = (go_depth ?s, go_quoted ?s, go_escaped ?s)"
    using Cons.prems by (auto simp: brace_step_def gate_char_def Let_def)
  show ?case
  proof (cases "go_depth ?s = 0")
    case True
    with Cons.prems(1) step have "cs = []" by simp
    with True Cons.prems(2,3) grown show ?thesis
      by (auto simp: gate_char_def Let_def split: if_splits)
  next
    case False
    then have "go_candidate ?s = Some (acc @ [c])" "go_verdict ?s = go_verdict s"
      using Cons.prems(2,3) grown by (auto simp: gate_char_def Let_def split: if_splits)
    then show ?thesis
      using Cons.IH[of ?s "acc @ [c]"] Cons.prems(1,4) step False by simp
  qed
qed simp

lemma object_verdict:
  assumes "complete_object obj" and "length obj \<le> 1000000" and "CHR ''{'' \<notin> set prose"
    and "concat chunks = before @ prose @ obj"
    and "go_depth (appendGateOutput parse emptyGateOutput before) = 0"
  shows "go_verdict (fold (\<lambda>chunk s. appendGateOutput parse s chunk) chunks emptyGateOutput)
    = (case Option.bind (parse obj) read_verdict of
         Some (Some v) \<Rightarrow> Some v
       | _ \<Rightarrow> go_verdict (appendGateOutput parse emptyGateOutput before))
    \<and> go_depth (fold (\<lambda>chunk s. appendGateOutput parse s chunk) chunks emptyGateOutput) = 0"
proof -
  let ?b = "appendGateOutput parse emptyGateOutput before"
  have ok: "gate_ok ?b" by (rule appendGateOutput_ok[OF gate_ok_empty])
  have skip: "fold (gate_char parse) cs s = s" if "go_depth s = 0" "CHR ''{'' \<notin> set cs" for cs s
    using that by (induction cs) (auto simp: gate_char_def)
  obtain t where obj: "obj = CHR ''{'' # t" and t: "closes_at_end (1, False, False) t"
    using assms(1) by (cases obj) (auto simp: complete_object_def)
  let ?s = "gate_char parse (CHR ''{'') ?b"
  have s: "?s = ?b\<lparr>go_depth := 1, go_candidate := Some [CHR ''{'']\<rparr>"
    using assms(5) by (simp add: gate_char_def appendCandidate_def CANDIDATE_CAP_def)
  have "closes_at_end (go_depth ?s, go_quoted ?s, go_escaped ?s) t"
    using ok assms(5) t by (simp add: s gate_ok_def)
  from gate_closes[OF this, of "[CHR ''{'']" parse] assms(2) obj
  have "go_verdict (fold (gate_char parse) t ?s) = close_candidate parse (Some obj) (go_verdict ?b)
      \<and> go_depth (fold (gate_char parse) t ?s) = 0"
    by (simp add: s CANDIDATE_CAP_def)
  moreover have "fold (\<lambda>chunk s. appendGateOutput parse s chunk) chunks emptyGateOutput
      = appendGateOutput parse ?b (prose @ obj)"
    using gate_output_chunks[of parse chunks] assms(4) by (simp add: appendGateOutput_append gate_ok_empty)
  ultimately have "go_verdict (fold (\<lambda>chunk s. appendGateOutput parse s chunk) chunks emptyGateOutput)
      = close_candidate parse (Some obj) (go_verdict ?b)
    \<and> go_depth (fold (\<lambda>chunk s. appendGateOutput parse s chunk) chunks emptyGateOutput) = 0"
    using skip[of ?b prose] assms(3,5) ok by (simp add: appendGateOutput_automaton[OF ok] obj)
  moreover have "close_candidate parse (Some obj) (go_verdict ?b) =
      (case Option.bind (parse obj) read_verdict of Some (Some v) \<Rightarrow> Some v | _ \<Rightarrow> go_verdict ?b)"
    by (simp add: close_candidate_def parseVerdict_def extract_complete_object[OF assms(1)] split: option.splits)
  ultimately show ?thesis by simp
qed


definition dq :: string where
  "dq = [CHR 0x22]"

definition pass_text :: string where
  "pass_text = ''{'' @ dq @ ''verdict'' @ dq @ '':'' @ dq @ ''pass'' @ dq @ ''}''"

definition huge_text :: string where
  "huge_text = ''{'' @ dq @ ''verdict'' @ dq @ '':'' @ dq @ ''fail'' @ dq @ '','' @ dq @ ''confidence'' @ dq @ '':1e999}''"

text \<open>What \<^verbatim>\<open>JSON.parse\<close> gives on the two example texts: \<^verbatim>\<open>1e999\<close> reads as infinity.\<close>

definition example_parse :: "string \<Rightarrow> json option" where
  "example_parse s =
     (if s = pass_text then Some (JObj [(''verdict'', JStr ''pass'')])
      else if s = huge_text then Some (JObj [(''verdict'', JStr ''fail''), (''confidence'', JNum PosInf)])
      else None)"

lemma complete_examples: "complete_object pass_text" "complete_object huge_text"
  by code_simp+

lemma read_examples:
  "Option.bind (example_parse pass_text) read_verdict =
     Some (Some \<lparr>gv_verdict = ''pass'', gv_confidence = None, gv_reasons = None, gv_recommendedAction = None\<rparr>)"
  "Option.bind (example_parse huge_text) read_verdict = Some None"
  by code_simp+


text \<open>
  a later object whose confidence overflows to infinity does not invalidate an earlier passing verdict
  of the stream, while the same text read at once has no verdict.
\<close>

lemma stream_keeps_overruled_verdict:
  "map_option gv_verdict (go_verdict (appendGateOutput example_parse emptyGateOutput (pass_text @ huge_text))) = Some ''pass''
   \<and> parseVerdict example_parse (pass_text @ huge_text) = None"
proof -
  let ?read = "\<lambda>chunks. fold (\<lambda>chunk s. appendGateOutput example_parse s chunk) chunks emptyGateOutput"
  have len: "length pass_text \<le> 1000000" "length huge_text \<le> 1000000"
    by (simp_all add: pass_text_def huge_text_def dq_def)
  from object_verdict[OF complete_examples(1) len(1), of "[]" "[pass_text]" "[]" example_parse]
  have one: "map_option gv_verdict (go_verdict (?read [pass_text])) = Some ''pass''" "go_depth (?read [pass_text]) = 0"
    by (simp_all add: read_examples appendGateOutput_def emptyGateOutput_def)
  with object_verdict[OF complete_examples(2) len(2), of "[]" "[pass_text @ huge_text]" pass_text example_parse]
  have "map_option gv_verdict (go_verdict (?read [pass_text @ huge_text])) = Some ''pass''"
    by (simp add: read_examples)
  moreover have "extractBalancedJsonObjects (pass_text @ huge_text) = [pass_text, huge_text]"
    by code_simp
  ultimately show ?thesis
    using read_examples by (auto simp: parseVerdict_def split: option.splits bind_splits)
qed

section \<open>Thresholds\<close>

text \<open>
  With a threshold configured a verdict passes only with a confidence between 0 and 1 that reaches the
  threshold, or with none at all where the gate allows that; a confidence that is not finite or lies
  outside that range never passes, whatever the gate allows.
\<close>

lemma calibrate_fail_closed:
  "fst (calibrateVerdict v config) \<longleftrightarrow>
     (case Option.bind config cc_confidence_min of
        None \<Rightarrow> True
      | Some m \<Rightarrow>
          (case gv_confidence v of
             Some c \<Rightarrow> (\<exists>q. c = Fin q \<and> 0 \<le> q \<and> q \<le> 1 \<and> js_le m (Fin q))
           | None \<Rightarrow> Option.bind config cc_allow_missing_confidence = Some True))"
proof (cases "Option.bind config cc_confidence_min")
  case (Some m)
  show ?thesis
  proof (cases "gv_confidence v")
    case (Some c)
    with \<open>Option.bind config cc_confidence_min = Some m\<close> show ?thesis
      by (cases c) (auto simp: calibrateVerdict_def Let_def)
  qed (use Some in \<open>simp add: calibrateVerdict_def Let_def\<close>)
qed (simp add: calibrateVerdict_def)

end
