(* ===== verification/FlowCompile.thy ===== *)
theory FlowCompile
  imports TemplateExpr DecideEval GateVerdict Database
begin

text \<open>
  Compiling a flow manifest into its traversal graph (\<^verbatim>\<open>web/lib/flows/graph/compile.ts\<close>,
  \<^verbatim>\<open>traversal-requirements.ts\<close>).

  A node definition keeps the fields the compiler reads; settings and artifact declarations, which it only
  copies, stay inside \<open>cn_source\<close>.  Plain objects are association lists, so a key of
  \<^verbatim>\<open>Object.prototype\<close> reads as absent.  Each \<^verbatim>\<open>throw\<close> is a constructor of \<open>compile_error\<close>; all
  but \<open>NoNodes\<close>, JavaScript's own \<^verbatim>\<open>TypeError\<close> on an empty manifest, carry code \<^verbatim>\<open>CONFIG\<close>.
\<close>

section \<open>Definitions of a manifest\<close>

record gate_def =
  gd_id :: ident
  gd_kind :: gate_kind
  gd_mode :: gate_mode
  gd_calibration :: "calibration_config option"

record rework_def =
  rw_allowedTargets :: "ident list"
  rw_maxLoops :: nat
  rw_commentsVar :: "string option"
  rw_onExhaustion :: "string option"
  rw_resetTargets :: "ident list option"

record node_def =
  nd_id :: ident
  nd_type :: node_type
  nd_action :: string
  nd_transitions :: "(string \<times> ident) list option"
  nd_gates :: "gate_def list option"
  nd_rework :: "rework_def option"
  nd_finishCommentsVar :: "string option"
  nd_decide :: "decide_def option"
  nd_result :: "string option option"
  nd_retry_safe :: "bool option"
  nd_session :: "ident option"
  nd_runner :: "ident option"

text \<open>\<open>nd_result\<close>: \<open>None\<close> without \<^verbatim>\<open>output.result\<close>, \<open>Some m\<close> with its \<^verbatim>\<open>on_mismatch\<close>.\<close>

record flow_manifest =
  fm_nodes :: "node_def list"
  fm_confidence_min :: "js_number option"
  fm_sessions :: "(ident \<times> ident) list option"
  fm_reentry :: "ident option"

datatype compile_error =
    VerdictGateCount | InvalidWhen | CaseTargetUndeclared | OutputResultMissing
  | MismatchWithoutRework | MismatchWithoutCommentsVar | MismatchWithoutTransition | MismatchTargetNotAllowed
  | ExhaustionUndeclared | ExhaustionReenters | ResetUnknown | ResetNotLoop | ResetUnreachable
  | FeedbackVarInvalid | FeedbackTargetMissing | FeedbackTargetUnsupported | FeedbackNotRendered
  | ReentryUnknown | NoNodes

definition TERMINAL_TRANSITION_TARGET :: ident where
  "TERMINAL_TRANSITION_TARGET = ''done''"

definition transitions_of :: "node_def \<Rightarrow> (string \<times> ident) list" where
  "transitions_of n = (case nd_transitions n of None \<Rightarrow> [] | Some ts \<Rightarrow> ts)"

definition guard :: "bool \<Rightarrow> 'e \<Rightarrow> 'e + unit" where
  "guard b e = (if b then Inr () else Inl e)"

fun check_all :: "('a \<Rightarrow> 'e + unit) \<Rightarrow> 'a list \<Rightarrow> 'e + unit" where
  "check_all f [] = Inr ()"
| "check_all f (x # xs) = rbind (f x) (\<lambda>_. check_all f xs)"

section \<open>Routing tables\<close>

definition is_verdict_kind :: "gate_kind \<Rightarrow> bool" where
  "is_verdict_kind k \<longleftrightarrow> k = AiJudgment \<or> k = SkillCheck"

definition gates_of :: "node_def \<Rightarrow> gate_def list" where
  "gates_of n = (case nd_gates n of None \<Rightarrow> [] | Some gs \<Rightarrow> gs)"

definition check_case :: "string list \<Rightarrow> decide_case \<Rightarrow> compile_error + unit" where
  "check_case keys c =
     rbind (case c of
              WhenCase w _ \<Rightarrow> (case parseWhen w of Inl _ \<Rightarrow> Inl InvalidWhen | Inr _ \<Rightarrow> Inr ())
            | DefaultCase _ \<Rightarrow> Inr ())
       (\<lambda>_. guard (case_target c \<in> set keys) CaseTargetUndeclared)"

definition verify_decide :: "node_def \<Rightarrow> compile_error + unit" where
  "verify_decide node =
     (case nd_decide node of
        None \<Rightarrow> Inr ()
      | Some d \<Rightarrow>
          if dd_from d = ''verdict''
          then rbind (guard (length (filter (is_verdict_kind \<circ> gd_kind) (gates_of node)) = 1) VerdictGateCount)
                 (\<lambda>_. check_all (check_case (map fst (transitions_of node))) (decide_cases d))
          else guard (nd_result node \<noteq> None) OutputResultMissing)"

definition verify_mismatch :: "node_def \<Rightarrow> compile_error + unit" where
  "verify_mismatch node =
     (case nd_result node of
        Some (Some onMismatch) \<Rightarrow>
          (case nd_rework node of
             None \<Rightarrow> Inl MismatchWithoutRework
           | Some rw \<Rightarrow>
               rbind (guard (rw_commentsVar rw \<noteq> None) MismatchWithoutCommentsVar) (\<lambda>_.
                 if onMismatch = ''retry'' then Inr ()
                 else case map_of (transitions_of node) onMismatch of
                        None \<Rightarrow> Inl MismatchWithoutTransition
                      | Some target \<Rightarrow> guard (target \<in> set (rw_allowedTargets rw)) MismatchTargetNotAllowed))
      | _ \<Rightarrow> Inr ())"

definition verifyDecideAndOnMismatch :: "node_def \<Rightarrow> compile_error + unit" where
  "verifyDecideAndOnMismatch node = rbind (verify_decide node) (\<lambda>_. verify_mismatch node)"

section \<open>Reachability\<close>

text \<open>The breadth-first search: a queue and the visited set in insertion order.\<close>

definition push_targets :: "ident list \<Rightarrow> node_def \<Rightarrow> ident list" where
  "push_targets reachable node =
     filter (\<lambda>t. t \<noteq> TERMINAL_TRANSITION_TARGET \<and> t \<notin> set reachable) (map snd (transitions_of node))"

function forward_loop :: "(ident \<times> node_def) list \<Rightarrow> ident list \<Rightarrow> ident list \<Rightarrow> ident list" where
  "forward_loop nodesById reachable [] = reachable"
| "forward_loop nodesById reachable (i # queue) =
     (if i \<in> set reachable then forward_loop nodesById reachable queue
      else let reachable' = reachable @ [i]
           in case map_of nodesById i of
                None \<Rightarrow> forward_loop nodesById reachable' queue
              | Some node \<Rightarrow> forward_loop nodesById reachable' (queue @ push_targets reachable' node))"
  by pat_completeness auto

text \<open>Every iteration shortens the queue, or visits one more node of the manifest.\<close>

termination
proof (relation "measures [\<lambda>(m, r, q). card (fst ` set m - set r), \<lambda>(m, r, q). length q]", goal_cases)
  case (3 m r i q)
  have "card (fst ` set m - set (r @ [i])) \<le> card (fst ` set m - set r)"
    by (intro card_mono) auto
  with 3 show ?case by auto
next
  case (4 m r i q r' node)
  then have "i \<in> fst ` set m - set r" by (force dest: map_of_SomeD)
  then have "fst ` set m - set (r @ [i]) \<subset> fst ` set m - set r" by auto
  then have "card (fst ` set m - set (r @ [i])) < card (fst ` set m - set r)"
    by (intro psubset_card_mono) auto
  with 4 show ?case by auto
qed auto

definition forwardReachableNodeIds :: "ident list \<Rightarrow> (ident \<times> node_def) list \<Rightarrow> ident list" where
  "forwardReachableNodeIds seeds nodesById = forward_loop nodesById [] seeds"

section \<open>Rework loops\<close>

definition verify_exhaustion :: "node_def \<Rightarrow> rework_def \<Rightarrow> compile_error + unit" where
  "verify_exhaustion node rw =
     (case rw_onExhaustion rw of
        None \<Rightarrow> Inr ()
      | Some key \<Rightarrow>
          (case map_of (transitions_of node) key of
             None \<Rightarrow> Inl ExhaustionUndeclared
           | Some target \<Rightarrow> guard (target \<notin> set (rw_allowedTargets rw)) ExhaustionReenters))"

definition check_reset :: "(ident \<times> node_def) list \<Rightarrow> ident list \<Rightarrow> ident \<Rightarrow> compile_error + unit" where
  "check_reset nodesById reachable targetId =
     (case map_of nodesById targetId of
        None \<Rightarrow> Inl ResetUnknown
      | Some target \<Rightarrow>
          rbind (guard (nd_rework target \<noteq> None) ResetNotLoop)
            (\<lambda>_. guard (targetId \<in> set reachable) ResetUnreachable))"

definition verifyReworkReset :: "node_def \<Rightarrow> (ident \<times> node_def) list \<Rightarrow> compile_error + unit" where
  "verifyReworkReset node nodesById =
     (case nd_rework node of
        None \<Rightarrow> Inr ()
      | Some rw \<Rightarrow>
          rbind (verify_exhaustion node rw) (\<lambda>_.
            case rw_resetTargets rw of
              None \<Rightarrow> Inr ()
            | Some targets \<Rightarrow>
                check_all (check_reset nodesById (forwardReachableNodeIds (rw_allowedTargets rw) nodesById)) targets))"

section \<open>Feedback of a human review\<close>

definition rendererTemplate :: "node_def \<Rightarrow> string option" where
  "rendererTemplate node =
     (if nd_type node \<in> {AiCoding, Judge, Orchestrator, Cli, Check} then Some (nd_action node) else None)"

definition check_feedback :: "string \<Rightarrow> (ident \<times> node_def) list \<Rightarrow> ident \<Rightarrow> compile_error + unit" where
  "check_feedback commentsVar nodesById targetId =
     (case map_of nodesById targetId of
        None \<Rightarrow> Inl FeedbackTargetMissing
      | Some target \<Rightarrow>
          (case rendererTemplate target of
             None \<Rightarrow> Inl FeedbackTargetUnsupported
           | Some template \<Rightarrow> guard (templateReadsTopLevelVar template commentsVar) FeedbackNotRendered))"

definition verifyHumanReviewFeedbackConsumers :: "node_def \<Rightarrow> (ident \<times> node_def) list \<Rightarrow> compile_error + unit" where
  "verifyHumanReviewFeedbackConsumers node nodesById =
     (case nd_rework node of
        None \<Rightarrow> Inr ()
      | Some rw \<Rightarrow>
          if nd_type node \<noteq> Human
             \<or> filter (\<lambda>t. t \<in> set (rw_allowedTargets rw)) (map snd (transitions_of node)) = []
          then Inr ()
          else (case (case rw_commentsVar rw of Some v \<Rightarrow> Some v | None \<Rightarrow> nd_finishCommentsVar node) of
                  None \<Rightarrow> Inl FeedbackVarInvalid
                | Some commentsVar \<Rightarrow>
                    rbind (guard (is_template_key commentsVar) FeedbackVarInvalid)
                      (\<lambda>_. check_all (check_feedback commentsVar nodesById) (rw_allowedTargets rw))))"

section \<open>The graph\<close>

record compiled_node =
  cn_id :: ident
  cn_nodeType :: node_type
  cn_source :: node_def
  cn_transitions :: "(string \<times> ident) list"
  cn_gates :: "gate_def list"
  cn_retrySafe :: bool
  cn_session :: "ident option"

record flow_graph =
  fg_entry :: ident
  fg_order :: "ident list"
  fg_nodes :: "(ident \<times> compiled_node) list"
  fg_sessions :: "(ident \<times> ident option) list"
  fg_reentry :: "ident option"

definition RUNNER_BEARING_NODE_TYPES :: "node_type list" where
  "RUNNER_BEARING_NODE_TYPES = [AiCoding, Orchestrator, Judge]"

definition addSession :: "ident \<Rightarrow> ident option \<Rightarrow> (ident \<times> ident option) list \<Rightarrow> (ident \<times> ident option) list" where
  "addSession name runner sessions = (if map_of sessions name = None then sessions @ [(name, runner)] else sessions)"

text \<open>\<^verbatim>\<open>if (node.session)\<close>: an empty name counts as none.\<close>

definition named_session :: "node_def \<Rightarrow> ident option" where
  "named_session node = (if nd_session node = Some [] then None else nd_session node)"

definition assignSession ::
    "(ident \<times> ident) list \<Rightarrow> node_def \<Rightarrow> (ident \<times> ident option) list \<Rightarrow> ident option \<times> (ident \<times> ident option) list" where
  "assignSession defs node sessions =
     (if nd_type node \<notin> set RUNNER_BEARING_NODE_TYPES then (None, sessions)
      else case named_session node of
        Some s \<Rightarrow> (Some s, addSession s (map_of defs s) sessions)
      | None \<Rightarrow>
          (case nd_runner node of
             Some r \<Rightarrow> (Some (nd_id node), addSession (nd_id node) (Some r) sessions)
           | None \<Rightarrow> (Some ''default'', addSession ''default'' (map_of defs ''default'') sessions)))"

text \<open>Folding the flow's confidence threshold into a gate that has none of its own.\<close>

definition fold_calibration :: "js_number option \<Rightarrow> gate_def \<Rightarrow> gate_def" where
  "fold_calibration flowConfidenceMin g =
     (if is_verdict_kind (gd_kind g) \<and> flowConfidenceMin \<noteq> None
         \<and> Option.bind (gd_calibration g) cc_confidence_min = None
      then g\<lparr>gd_calibration := Some \<lparr>cc_confidence_min = flowConfidenceMin,
             cc_allow_missing_confidence = Option.bind (gd_calibration g) cc_allow_missing_confidence\<rparr>\<rparr>
      else g)"

definition verify_node :: "(ident \<times> node_def) list \<Rightarrow> node_def \<Rightarrow> compile_error + unit" where
  "verify_node nodesById node =
     rbind (verifyDecideAndOnMismatch node) (\<lambda>_.
     rbind (verifyReworkReset node nodesById) (\<lambda>_.
     verifyHumanReviewFeedbackConsumers node nodesById))"

definition compile_node :: "js_number option \<Rightarrow> node_def \<Rightarrow> ident option \<Rightarrow> compiled_node" where
  "compile_node flowConfidenceMin node session =
     \<lparr>cn_id = nd_id node, cn_nodeType = nd_type node, cn_source = node, cn_transitions = transitions_of node,
      cn_gates = map (fold_calibration flowConfidenceMin) (gates_of node),
      cn_retrySafe = (nd_retry_safe node = Some True), cn_session = session\<rparr>"

fun compile_nodes ::
    "js_number option \<Rightarrow> (ident \<times> ident) list \<Rightarrow> (ident \<times> node_def) list \<Rightarrow> node_def list
       \<Rightarrow> (ident \<times> compiled_node) list \<times> (ident \<times> ident option) list
       \<Rightarrow> compile_error + ((ident \<times> compiled_node) list \<times> (ident \<times> ident option) list)" where
  "compile_nodes conf defs nodesById [] acc = Inr acc"
| "compile_nodes conf defs nodesById (node # rest) acc =
     rbind (verify_node nodesById node) (\<lambda>_.
       case assignSession defs node (snd acc) of
         (session, sessions) \<Rightarrow>
           compile_nodes conf defs nodesById rest
             (AList.update (nd_id node) (compile_node conf node session) (fst acc), sessions))"

definition nodes_by_id :: "node_def list \<Rightarrow> (ident \<times> node_def) list" where
  "nodes_by_id nodes = fold (\<lambda>n. AList.update (nd_id n) n) nodes []"

definition compileManifest :: "flow_manifest \<Rightarrow> compile_error + flow_graph" where
  "compileManifest m =
     (let defs = (case fm_sessions m of None \<Rightarrow> [] | Some s \<Rightarrow> s)
      in rbind (compile_nodes (fm_confidence_min m) defs (nodes_by_id (fm_nodes m)) (fm_nodes m) ([], []))
           (\<lambda>(nodes, sessions).
              rbind (case fm_reentry m of
                       None \<Rightarrow> Inr ()
                     | Some r \<Rightarrow> guard (map_of nodes r \<noteq> None) ReentryUnknown) (\<lambda>_.
                case fm_nodes m of
                  [] \<Rightarrow> Inl NoNodes
                | n # _ \<Rightarrow> Inr \<lparr>fg_entry = nd_id n, fg_order = map nd_id (fm_nodes m), fg_nodes = nodes,
                             fg_sessions = sessions, fg_reentry = fm_reentry m\<rparr>)))"

definition resolveTransition :: "compiled_node \<Rightarrow> string \<Rightarrow> ident option" where
  "resolveTransition node outcome =
     (case map_of (cn_transitions node) outcome of
        None \<Rightarrow> None
      | Some target \<Rightarrow> if target = TERMINAL_TRANSITION_TARGET then None else Some target)"

definition flowTraversalRequirements :: "flow_graph \<Rightarrow> bool \<times> bool" where
  "flowTraversalRequirements g =
     (let nodes = map snd (fg_nodes g)
      in (list_ex (\<lambda>n. cn_nodeType n \<in> {AiCoding, Judge, Orchestrator, Consensus}
                       \<or> list_ex (is_verdict_kind \<circ> gd_kind) (cn_gates n)) nodes,
          list_ex (\<lambda>n. cn_nodeType n \<in> {Cli, Check} \<or> list_ex (\<lambda>g. gd_kind g = CommandCheck) (cn_gates n)) nodes))"

end
