(* ===== verification/FlowGraphProps.thy ===== *)
theory FlowGraphProps
  imports FlowCompile
begin

text \<open>
  What compilation guarantees: the search behind \<^verbatim>\<open>rework.resetTargets\<close> is graph reachability and ends;
  a compiled graph is well formed; a compiled \<^verbatim>\<open>decide\<close> table always yields a declared outcome.
\<close>

section \<open>Checks\<close>

lemma guard_Inr [simp]: "guard b e = Inr u \<longleftrightarrow> b"
  by (simp add: guard_def)

lemma check_all_Inr [simp]: "check_all f xs = Inr u \<longleftrightarrow> (\<forall>x \<in> set xs. f x = Inr ())"
  by (induction xs) (auto simp: rbind_Inr_iff)

section \<open>Reachability\<close>

definition flow_edge :: "(ident \<times> node_def) list \<Rightarrow> ident \<Rightarrow> ident \<Rightarrow> bool" where
  "flow_edge m a b \<longleftrightarrow>
     (\<exists>n. map_of m a = Some n \<and> b \<in> snd ` set (transitions_of n) \<and> b \<noteq> TERMINAL_TRANSITION_TARGET)"

text \<open>The loop's invariant: the visited ids' successors are visited or queued.\<close>

definition frontier :: "(ident \<times> node_def) list \<Rightarrow> ident list \<Rightarrow> ident list \<Rightarrow> bool" where
  "frontier m reachable queue \<longleftrightarrow>
     (\<forall>a b. a \<in> set reachable \<and> flow_edge m a b \<longrightarrow> b \<in> set reachable \<union> set queue)"

lemma set_push_targets:
  "set (push_targets r n) = snd ` set (transitions_of n) - {TERMINAL_TRANSITION_TARGET} - set r"
  by (auto simp: push_targets_def)

lemma forward_loop_visits:
  assumes "frontier m r q" and "distinct r"
  shows "set r \<union> set q \<subseteq> set (forward_loop m r q)
    \<and> frontier m (forward_loop m r q) [] \<and> distinct (forward_loop m r q)"
  using assms
proof (induction m r q rule: forward_loop.induct)
  case (2 m r i q)
  show ?case
  proof (cases "i \<in> set r")
    case True
    with "2.prems" have "frontier m r q" by (auto simp: frontier_def)
    with True "2.IH"(1) "2.prems" show ?thesis by auto
  next
    case new: False
    show ?thesis
    proof (cases "map_of m i")
      case None
      with "2.prems" have "frontier m (r @ [i]) q" by (auto simp: frontier_def flow_edge_def)
      with None new "2.IH"(2) "2.prems" show ?thesis by auto
    next
      case (Some n)
      have "b \<in> set (r @ [i]) \<union> set (q @ push_targets (r @ [i]) n)" if "a \<in> set (r @ [i])" "flow_edge m a b" for a b
      proof (cases "a = i")
        case True
        with that(2) Some show ?thesis by (auto simp: flow_edge_def set_push_targets)
      next
        case False
        with that "2.prems"(1) show ?thesis unfolding frontier_def by fastforce
      qed
      then have "frontier m (r @ [i]) (q @ push_targets (r @ [i]) n)"
        unfolding frontier_def by blast
      with "2.IH"(3)[OF new refl Some] "2.prems"(2) new
      have "set (r @ [i]) \<union> set (q @ push_targets (r @ [i]) n) \<subseteq> set (forward_loop m (r @ [i]) (q @ push_targets (r @ [i]) n))
        \<and> frontier m (forward_loop m (r @ [i]) (q @ push_targets (r @ [i]) n)) []
        \<and> distinct (forward_loop m (r @ [i]) (q @ push_targets (r @ [i]) n))"
        by simp
      with Some new show ?thesis by (simp add: Let_def)
    qed
  qed
qed auto

lemma forward_loop_sound:
  assumes "\<And>x. x \<in> set r \<union> set q \<Longrightarrow> \<exists>s \<in> S. (flow_edge m)\<^sup>*\<^sup>* s x"
  shows "x \<in> set (forward_loop m r q) \<Longrightarrow> \<exists>s \<in> S. (flow_edge m)\<^sup>*\<^sup>* s x"
  using assms
proof (induction m r q arbitrary: x rule: forward_loop.induct)
  case (2 m r i q)
  have push: "\<exists>s \<in> S. (flow_edge m)\<^sup>*\<^sup>* s y" if "map_of m i = Some n" "y \<in> set (push_targets (r @ [i]) n)" for n y
  proof -
    have "flow_edge m i y" using that by (auto simp: flow_edge_def set_push_targets)
    moreover obtain s where "s \<in> S" "(flow_edge m)\<^sup>*\<^sup>* s i" using "2.prems"(2)[of i] by auto
    ultimately show ?thesis by (meson rtranclp.rtrancl_into_rtrancl)
  qed
  show ?case
  proof (cases "i \<in> set r")
    case True
    with "2.IH"(1)[OF True, of x] "2.prems" show ?thesis by auto
  next
    case new: False
    show ?thesis
    proof (cases "map_of m i")
      case None
      with new "2.IH"(2)[OF new refl None, of x] "2.prems" show ?thesis by auto
    next
      case (Some n)
      have "\<exists>s \<in> S. (flow_edge m)\<^sup>*\<^sup>* s y" if "y \<in> set (r @ [i]) \<union> set (q @ push_targets (r @ [i]) n)" for y
        using that "2.prems"(2) push[OF Some] by auto
      with new Some "2.IH"(3)[OF new refl Some, of x] "2.prems"(1) show ?thesis by (simp add: Let_def)
    qed
  qed
qed auto

lemma frontier_closed:
  assumes "frontier m r []" and "(flow_edge m)\<^sup>*\<^sup>* a b" and "a \<in> set r"
  shows "b \<in> set r"
  using assms(2,3)
proof (induction rule: rtranclp_induct)
  case (step y z)
  with assms(1) show ?case by (auto simp: frontier_def)
qed

lemma forwardReachable_iff:
  "x \<in> set (forwardReachableNodeIds seeds m) \<longleftrightarrow> (\<exists>s \<in> set seeds. (flow_edge m)\<^sup>*\<^sup>* s x)"
proof
  assume "x \<in> set (forwardReachableNodeIds seeds m)"
  then show "\<exists>s \<in> set seeds. (flow_edge m)\<^sup>*\<^sup>* s x"
    unfolding forwardReachableNodeIds_def by (rule forward_loop_sound[rotated]) auto
next
  assume "\<exists>s \<in> set seeds. (flow_edge m)\<^sup>*\<^sup>* s x"
  then obtain s where s: "s \<in> set seeds" "(flow_edge m)\<^sup>*\<^sup>* s x" by blast
  have "frontier m [] seeds" by (simp add: frontier_def)
  from forward_loop_visits[OF this] s frontier_closed[of m "forward_loop m [] seeds" s x]
  show "x \<in> set (forwardReachableNodeIds seeds m)"
    by (auto simp: forwardReachableNodeIds_def)
qed

text \<open>
  C35: the breadth-first search over a manifest ends on every graph, cyclic ones included, and returns each
  node id that transitions lead to from the seeds, the seeds themselves included, exactly once, and no
  other.
\<close>

theorem reachable_closure:
  "set (forwardReachableNodeIds seeds m) = {x. \<exists>s \<in> set seeds. (flow_edge m)\<^sup>*\<^sup>* s x}
   \<and> distinct (forwardReachableNodeIds seeds m)"
proof -
  have "frontier m [] seeds" by (simp add: frontier_def)
  then show ?thesis
    using forward_loop_visits[of m "[]" seeds] forwardReachable_iff[of _ seeds m]
    by (auto simp: forwardReachableNodeIds_def)
qed

section \<open>A compiled graph is well formed\<close>

text \<open>What the compiler promises of one node, as the runtime relies on it.\<close>

definition decide_sound :: "node_def \<Rightarrow> bool" where
  "decide_sound n \<longleftrightarrow>
     (case nd_decide n of
        None \<Rightarrow> True
      | Some d \<Rightarrow>
          if dd_from d = ''verdict''
          then length (filter (is_verdict_kind \<circ> gd_kind) (gates_of n)) = 1
               \<and> (\<forall>c \<in> set (decide_cases d). case_target c \<in> fst ` set (transitions_of n)
                    \<and> (is_default c \<or> (\<exists>p. parseWhen (case_when c) = Inr p)))
          else nd_result n \<noteq> None)"

definition mismatch_sound :: "node_def \<Rightarrow> bool" where
  "mismatch_sound n \<longleftrightarrow>
     (case nd_result n of
        Some (Some key) \<Rightarrow>
          (\<exists>rw. nd_rework n = Some rw \<and> rw_commentsVar rw \<noteq> None
            \<and> (key = ''retry'' \<or> (\<exists>t. map_of (transitions_of n) key = Some t \<and> t \<in> set (rw_allowedTargets rw))))
      | _ \<Rightarrow> True)"

definition loop_sound :: "(ident \<times> node_def) list \<Rightarrow> node_def \<Rightarrow> bool" where
  "loop_sound m n \<longleftrightarrow>
     (\<forall>rw. nd_rework n = Some rw \<longrightarrow>
        (\<forall>key. rw_onExhaustion rw = Some key \<longrightarrow>
           (\<exists>t. map_of (transitions_of n) key = Some t \<and> t \<notin> set (rw_allowedTargets rw)))
        \<and> (\<forall>ts. rw_resetTargets rw = Some ts \<longrightarrow>
           (\<forall>t \<in> set ts. (\<exists>target. map_of m t = Some target \<and> nd_rework target \<noteq> None)
              \<and> (\<exists>s \<in> set (rw_allowedTargets rw). (flow_edge m)\<^sup>*\<^sup>* s t))))"

definition feedback_sound :: "(ident \<times> node_def) list \<Rightarrow> node_def \<Rightarrow> bool" where
  "feedback_sound m n \<longleftrightarrow>
     (\<forall>rw. nd_rework n = Some rw \<and> nd_type n = Human
        \<and> (\<exists>t \<in> snd ` set (transitions_of n). t \<in> set (rw_allowedTargets rw)) \<longrightarrow>
        (\<exists>v. (rw_commentsVar rw = Some v \<or> rw_commentsVar rw = None \<and> nd_finishCommentsVar n = Some v)
           \<and> is_template_key v
           \<and> (\<forall>t \<in> set (rw_allowedTargets rw). \<exists>target template.
                map_of m t = Some target \<and> rendererTemplate target = Some template
                \<and> templateReadsTopLevelVar template v)))"

lemma check_case_Inr:
  "check_case keys c = Inr u \<longleftrightarrow> case_target c \<in> set keys \<and> (is_default c \<or> (\<exists>p. parseWhen (case_when c) = Inr p))"
  by (cases c) (auto simp: check_case_def is_default_def rbind_Inr_iff split: sum.splits)

lemma verify_decide_sound: "verify_decide n = Inr u \<Longrightarrow> decide_sound n"
  by (cases "nd_decide n")
     (simp_all add: verify_decide_def decide_sound_def rbind_Inr_iff check_case_Inr split: if_splits)

lemma verify_mismatch_sound: "verify_mismatch n = Inr u \<Longrightarrow> mismatch_sound n"
  by (auto simp: verify_mismatch_def mismatch_sound_def rbind_Inr_iff split: option.splits if_splits)

lemma verify_loop_sound: "verifyReworkReset n m = Inr u \<Longrightarrow> loop_sound m n"
  by (auto simp: verifyReworkReset_def verify_exhaustion_def loop_sound_def check_reset_def rbind_Inr_iff
      forwardReachable_iff split: option.splits)

lemma check_feedback_Inr:
  "check_feedback v m t = Inr u \<longleftrightarrow>
     (\<exists>target template. map_of m t = Some target \<and> rendererTemplate target = Some template
        \<and> templateReadsTopLevelVar template v)"
  by (auto simp: check_feedback_def split: option.splits)

lemma verify_feedback_sound: "verifyHumanReviewFeedbackConsumers n m = Inr u \<Longrightarrow> feedback_sound m n"
  by (auto simp: verifyHumanReviewFeedbackConsumers_def feedback_sound_def check_feedback_Inr rbind_Inr_iff
      filter_empty_conv split: option.splits if_splits)

lemma verify_node_sound:
  assumes "verify_node m n = Inr u"
  shows "decide_sound n \<and> mismatch_sound n \<and> loop_sound m n \<and> feedback_sound m n"
  using assms verify_decide_sound verify_mismatch_sound verify_loop_sound verify_feedback_sound
  by (auto simp: verify_node_def verifyDecideAndOnMismatch_def rbind_Inr_iff)

text \<open>A runner-bearing node belongs to a session of the graph, no other node to any.\<close>

definition session_sound :: "(ident \<times> ident option) list \<Rightarrow> compiled_node \<Rightarrow> bool" where
  "session_sound sessions cn \<longleftrightarrow>
     (case cn_session cn of
        None \<Rightarrow> cn_nodeType cn \<notin> set RUNNER_BEARING_NODE_TYPES
      | Some s \<Rightarrow> cn_nodeType cn \<in> set RUNNER_BEARING_NODE_TYPES \<and> s \<in> fst ` set sessions)"

lemma addSession_keys: "fst ` set (addSession s r xs) = insert s (fst ` set xs)"
  by (auto simp: addSession_def map_of_eq_None_iff)

lemma assignSession_sound:
  assumes "assignSession defs n xs = (s, ys)"
  shows "session_sound ys (compile_node conf n s) \<and> fst ` set xs \<subseteq> fst ` set ys"
proof -
  have "s = None \<and> ys = xs \<and> nd_type n \<notin> set RUNNER_BEARING_NODE_TYPES
      \<or> (\<exists>a r. s = Some a \<and> ys = addSession a r xs \<and> nd_type n \<in> set RUNNER_BEARING_NODE_TYPES)"
    using assms by (simp add: assignSession_def split: if_splits option.splits) metis+
  then show ?thesis
  proof (elim disjE exE conjE)
    fix a r
    assume "s = Some a" "ys = addSession a r xs" "nd_type n \<in> set RUNNER_BEARING_NODE_TYPES"
    then show ?thesis
      unfolding session_sound_def compile_node_def
      by (simp only: addSession_keys subset_insertI compiled_node.simps option.case insertI1 simp_thms)
  qed (simp add: session_sound_def compile_node_def)
qed

definition compiled_from :: "js_number option \<Rightarrow> node_def list \<Rightarrow> (ident \<times> ident option) list \<Rightarrow> compiled_node \<Rightarrow> bool" where
  "compiled_from conf ns sessions cn \<longleftrightarrow>
     (\<exists>n \<in> set ns. \<exists>s. cn = compile_node conf n s) \<and> session_sound sessions cn"

lemma compiled_from_mono:
  "compiled_from conf ns xs cn \<Longrightarrow> set ns \<subseteq> set ns' \<Longrightarrow> fst ` set xs \<subseteq> fst ` set ys \<Longrightarrow> compiled_from conf ns' ys cn"
  by (auto simp: compiled_from_def session_sound_def split: option.splits)

lemma compile_nodes_sound:
  assumes "compile_nodes conf defs m rest acc = Inr (nodes, sessions)"
    and "\<forall>cn \<in> ran (map_of (fst acc)). compiled_from conf seen (snd acc) cn"
  shows "(\<forall>n \<in> set rest. \<exists>u. verify_node m n = Inr u)
    \<and> dom (map_of nodes) = dom (map_of (fst acc)) \<union> nd_id ` set rest
    \<and> (\<forall>cn \<in> ran (map_of nodes). compiled_from conf (seen @ rest) sessions cn)"
  using assms
proof (induction rest arbitrary: acc seen)
  case (Cons n rest)
  obtain s ys where s: "assignSession defs n (snd acc) = (s, ys)" by fastforce
  let ?acc = "(AList.update (nd_id n) (compile_node conf n s) (fst acc), ys)"
  from Cons.prems(1) s obtain u where v: "verify_node m n = Inr u"
    and step: "compile_nodes conf defs m rest ?acc = Inr (nodes, sessions)"
    by (auto simp: rbind_Inr_iff)
  note session = assignSession_sound[OF s, of conf]
  have inv: "compiled_from conf (seen @ [n]) ys cn" if "cn \<in> ran (map_of (fst ?acc))" for cn
  proof (cases "cn = compile_node conf n s")
    case True
    with session show ?thesis by (auto simp: compiled_from_def)
  next
    case False
    from that obtain k where "((map_of (fst acc))(nd_id n \<mapsto> compile_node conf n s)) k = Some cn"
      by (auto simp: ran_def)
    with False have "cn \<in> ran (map_of (fst acc))" by (auto simp: ran_def split: if_splits)
    with Cons.prems(2) have old: "compiled_from conf seen (snd acc) cn" by blast
    show ?thesis by (rule compiled_from_mono[OF old]) (use session in auto)
  qed
  then have "\<forall>cn \<in> ran (map_of (fst ?acc)). compiled_from conf (seen @ [n]) (snd ?acc) cn" by simp
  note rest = Cons.IH[OF step this]
  have "dom (map_of (fst ?acc)) = insert (nd_id n) (dom (map_of (fst acc)))"
    by simp
  with rest have "dom (map_of nodes) = dom (map_of (fst acc)) \<union> nd_id ` set (n # rest)" by auto
  with rest v show ?case by simp
qed auto

lemma compiled_nodes:
  assumes "compileManifest m = Inr g"
  shows "fg_order g = map nd_id (fm_nodes m) \<and> fg_entry g = hd (fg_order g)
    \<and> dom (map_of (fg_nodes g)) = set (fg_order g)
    \<and> (\<forall>r. fg_reentry g = Some r \<longrightarrow> r \<in> set (fg_order g))
    \<and> (\<forall>n \<in> set (fm_nodes m). decide_sound n \<and> mismatch_sound n \<and> loop_sound (nodes_by_id (fm_nodes m)) n
         \<and> feedback_sound (nodes_by_id (fm_nodes m)) n)
    \<and> (\<forall>cn \<in> ran (map_of (fg_nodes g)). cn_source cn \<in> set (fm_nodes m)
         \<and> cn_transitions cn = transitions_of (cn_source cn) \<and> session_sound (fg_sessions g) cn)"
proof -
  let ?defs = "case fm_sessions m of None \<Rightarrow> [] | Some s \<Rightarrow> s"
  from assms obtain nodes sessions where
    c: "compile_nodes (fm_confidence_min m) ?defs (nodes_by_id (fm_nodes m)) (fm_nodes m) ([], []) = Inr (nodes, sessions)"
    and r: "\<forall>r. fm_reentry m = Some r \<longrightarrow> map_of nodes r \<noteq> None"
    and g: "fm_nodes m \<noteq> []" "g = \<lparr>fg_entry = nd_id (hd (fm_nodes m)), fg_order = map nd_id (fm_nodes m),
        fg_nodes = nodes, fg_sessions = sessions, fg_reentry = fm_reentry m\<rparr>"
    by (cases "fm_nodes m"; cases "fm_reentry m") (auto simp: compileManifest_def Let_def rbind_Inr_iff)
  from compile_nodes_sound[OF c, of "[]"]
  have v: "\<forall>n \<in> set (fm_nodes m). \<exists>u. verify_node (nodes_by_id (fm_nodes m)) n = Inr u"
    and d: "dom (map_of nodes) = nd_id ` set (fm_nodes m)"
    and cn: "\<forall>cn \<in> ran (map_of nodes). compiled_from (fm_confidence_min m) (fm_nodes m) sessions cn"
    by auto
  have "r' \<in> set (fg_order g)" if "fg_reentry g = Some r'" for r'
    using that r d g by (auto simp: dom_def)
  moreover have "\<forall>n \<in> set (fm_nodes m). decide_sound n \<and> mismatch_sound n \<and> loop_sound (nodes_by_id (fm_nodes m)) n
         \<and> feedback_sound (nodes_by_id (fm_nodes m)) n"
    using v verify_node_sound by blast
  moreover have "cn_source cn' \<in> set (fm_nodes m) \<and> cn_transitions cn' = transitions_of (cn_source cn')
      \<and> session_sound (fg_sessions g) cn'" if "cn' \<in> ran (map_of (fg_nodes g))" for cn'
    using that cn g by (auto simp: compiled_from_def compile_node_def)
  ultimately show ?thesis using d g by (simp add: hd_map)
qed

text \<open>
  C33: a manifest that compiles gives a well-formed graph: its order and entry are the manifest's, exactly the
  ordered ids have nodes, the re-entry point exists; every node routes only to declared outcomes, leaves an
  exhausted loop, resets only rework loops it can re-enter, sends malformed output only to allowed rework
  targets and delivers review feedback only to nodes whose prompt renders it; and exactly the
  runner-bearing nodes carry a session, one the graph lists.
\<close>

theorem compiled_graph_sound:
  assumes "compileManifest m = Inr g"
  shows "fg_order g = map nd_id (fm_nodes m) \<and> fg_entry g = hd (fg_order g)
    \<and> dom (map_of (fg_nodes g)) = set (fg_order g)
    \<and> (\<forall>r. fg_reentry g = Some r \<longrightarrow> r \<in> set (fg_order g))
    \<and> (\<forall>n \<in> set (fm_nodes m). decide_sound n \<and> mismatch_sound n \<and> loop_sound (nodes_by_id (fm_nodes m)) n
         \<and> feedback_sound (nodes_by_id (fm_nodes m)) n)
    \<and> (\<forall>cn \<in> ran (map_of (fg_nodes g)). cn_source cn \<in> set (fm_nodes m)
         \<and> cn_transitions cn = transitions_of (cn_source cn) \<and> session_sound (fg_sessions g) cn)"
  by (rule compiled_nodes[OF assms])

text \<open>A two-node flow: an agent writes, a judge routes on its verdict, back to the agent or out.\<close>

definition plain_node :: "ident \<Rightarrow> node_type \<Rightarrow> node_def" where
  "plain_node i t = \<lparr>nd_id = i, nd_type = t, nd_action = ''{{ comments }}'', nd_transitions = None, nd_gates = None,
     nd_rework = None, nd_finishCommentsVar = None, nd_decide = None, nd_result = None, nd_retry_safe = None,
     nd_session = None, nd_runner = None\<rparr>"

definition verdict_gate :: gate_def where
  "verdict_gate = \<lparr>gd_id = ''quality'', gd_kind = AiJudgment, gd_mode = Blocking, gd_calibration = None\<rparr>"

definition judge_table :: decide_def where
  "judge_table = \<lparr>dd_from = ''verdict'',
     dd_cases = Some [WhenCase ''confidence >= 0.5'' ''success'', DefaultCase ''rework'']\<rparr>"

definition judge_node :: node_def where
  "judge_node = (plain_node ''judge'' Judge)\<lparr>nd_transitions := Some [(''success'', ''done''), (''rework'', ''write'')],
     nd_gates := Some [verdict_gate], nd_decide := Some judge_table\<rparr>"

definition two_nodes :: flow_manifest where
  "two_nodes = \<lparr>fm_nodes = [(plain_node ''write'' AiCoding)\<lparr>nd_transitions := Some [(''success'', ''judge'')]\<rparr>, judge_node],
     fm_confidence_min = None, fm_sessions = None, fm_reentry = Some ''write''\<rparr>"

lemma half_parses:
  "parseWhen ''confidence >= 0.5'' = Inr \<lparr>p_field = ''confidence'', p_op = OpGe, p_rhs = js_Number_decimal False ''0'' ''5''\<rparr>"
proof -
  have fin: "is_finite_num (js_Number_decimal False ''0'' ''5'')" by code_simp
  have "is_dotpath ''confidence''" "is_literal ''0'' ''5''" "list_all is_js_ws '' ''" by code_simp+
  from parse_when_text[OF this(1,2,3,3), of "[]" "[]" OpGe False] fin show ?thesis
    by (simp add: when_text_def op_text_def literal_text_def)
qed

lemma two_nodes_compile: "\<exists>g. compileManifest two_nodes = Inr g \<and> fg_order g = [''write'', ''judge'']
    \<and> map_of (fg_nodes g) ''judge'' = Some (compile_node None judge_node (Some ''default''))"
  by (simp add: compileManifest_def two_nodes_def judge_node_def plain_node_def judge_table_def verdict_gate_def
      verify_node_def verifyDecideAndOnMismatch_def verify_decide_def verify_mismatch_def verifyReworkReset_def
      verifyHumanReviewFeedbackConsumers_def check_case_def half_parses guard_def decide_cases_def gates_of_def
      transitions_of_def is_verdict_kind_def assignSession_def named_session_def RUNNER_BEARING_NODE_TYPES_def
      addSession_def nodes_by_id_def Let_def)

theorem compiled_graph_sound_witness:
  "\<exists>g. compileManifest two_nodes = Inr g \<and> dom (map_of (fg_nodes g)) = {''write'', ''judge''}"
proof -
  obtain g where g: "compileManifest two_nodes = Inr g" "fg_order g = [''write'', ''judge'']"
    using two_nodes_compile by blast
  from compiled_graph_sound[OF g(1)] g show ?thesis by auto
qed

section \<open>Routing\<close>

text \<open>\<^verbatim>\<open>decideSchema\<close>: a verdict table has exactly one default case.\<close>

definition decide_schema :: "decide_def \<Rightarrow> bool" where
  "decide_schema d \<longleftrightarrow>
     (if dd_from d = ''verdict'' then length (filter is_default (decide_cases d)) = 1 else dd_cases d = None)"

lemma first_match_target: "first_match cs ctx = Some t \<Longrightarrow> \<exists>c \<in> set cs. case_target c = t"
  by (induction cs ctx rule: first_match.induct) (auto split: sum.splits if_splits)

text \<open>
  C34: in a compiled flow a node that routes on its verdict always has somewhere to go: whatever verdict the
  gate surfaced, even none, the table yields an outcome, and that outcome is one of the node's declared
  transitions, so the runtime guard against an undeclared outcome never fires.
\<close>

theorem decide_always_routes:
  assumes "compileManifest m = Inr g" and "map_of (fg_nodes g) i = Some cn"
    and "nd_decide (cn_source cn) = Some d" and "dd_from d = ''verdict''" and "decide_schema d"
  shows "\<exists>outcome target. computeDecideOutcome (nd_decide (cn_source cn)) vars verdict legacy = Inr (Some outcome)
    \<and> map_of (cn_transitions cn) outcome = Some target
    \<and> resolveTransition cn outcome = (if target = ''done'' then None else Some target)"
proof -
  have "cn \<in> ran (map_of (fg_nodes g))" using assms(2) by (auto simp: ran_def)
  then have src: "cn_source cn \<in> set (fm_nodes m)" "cn_transitions cn = transitions_of (cn_source cn)"
    using compiled_nodes[OF assms(1)] by auto
  then have sound: "decide_sound (cn_source cn)" using compiled_nodes[OF assms(1)] by blast
  have declared: "\<exists>target. map_of (cn_transitions cn) (case_target c) = Some target" if "c \<in> set (decide_cases d)" for c
  proof -
    have "case_target c \<in> fst ` set (cn_transitions cn)"
      using sound that assms(3,4) src(2) by (simp add: decide_sound_def)
    then show ?thesis by (metis map_of_eq_None_iff not_Some_eq)
  qed
  obtain c where c: "c \<in> set (decide_cases d)"
    and out: "computeDecideOutcome (nd_decide (cn_source cn)) vars verdict legacy = Inr (Some (case_target c))"
  proof (cases "first_match (decide_cases d) (case verdict of None \<Rightarrow> JObj [] | Some v \<Rightarrow> v)")
    case (Some t)
    with first_match_target[OF Some] that assms(3,4) show thesis by (auto simp: computeDecideOutcome_def)
  next
    case None
    have "filter is_default (decide_cases d) \<noteq> []"
      using assms(4,5) by (auto simp: decide_schema_def)
    then obtain c where c: "find is_default (decide_cases d) = Some c" "c \<in> set (decide_cases d)"
      by (cases "find is_default (decide_cases d)") (auto simp: find_None_iff filter_empty_conv find_Some_iff)
    with None that assms(3,4) show thesis by (auto simp: computeDecideOutcome_def)
  qed
  from declared[OF c] obtain target where target: "map_of (cn_transitions cn) (case_target c) = Some target" ..
  then have "resolveTransition cn (case_target c) = (if target = ''done'' then None else Some target)"
    by (simp only: resolveTransition_def TERMINAL_TRANSITION_TARGET_def option.case)
  with out target show ?thesis by (intro exI conjI)
qed

theorem decide_always_routes_witness:
  "\<exists>outcome target. computeDecideOutcome (Some judge_table) (JObj []) None ''success'' = Inr (Some outcome)
     \<and> map_of [(''success'', ''done''), (''rework'', ''write'')] outcome = Some target"
proof -
  obtain g where g: "compileManifest two_nodes = Inr g"
    "map_of (fg_nodes g) ''judge'' = Some (compile_node None judge_node (Some ''default''))"
    using two_nodes_compile by blast
  have d: "nd_decide (cn_source (compile_node None judge_node (Some ''default''))) = Some judge_table"
    by (simp add: compile_node_def judge_node_def)
  have s: "dd_from judge_table = ''verdict''" "decide_schema judge_table"
    by (simp_all add: judge_table_def decide_schema_def decide_cases_def is_default_def)
  have t: "cn_transitions (compile_node None judge_node (Some ''default'')) = [(''success'', ''done''), (''rework'', ''write'')]"
    by (simp add: compile_node_def judge_node_def transitions_of_def)
  from decide_always_routes[OF g d s, of "JObj []" None "''success''"] show ?thesis
    unfolding t d by (elim exE conjE) (rule exI, rule exI, rule conjI)
qed

end
