(* ===== verification/ArtifactStore.thy ===== *)
theory ArtifactStore
  imports NodeLedger
begin

text \<open>
  The artifact ledger (\<^verbatim>\<open>web/lib/flows/graph/artifact-store.ts\<close>): deterministic ids, the upsert, atomic
  replacement of a declared output, and the validity transitions.

  An argument field that the caller may leave out is an option of its value: \<open>None\<close> is
  \<^verbatim>\<open>undefined\<close>, which an insert replaces by the column's default and an update skips.  The guard on a
  host object's row is the parameter \<open>referenceable\<close>.
\<close>

section \<open>Ids\<close>

definition kind_text :: "artifact_kind \<Rightarrow> string" where
  "kind_text k =
     (case k of AkDiff \<Rightarrow> ''diff'' | AkLog \<Rightarrow> ''log'' | AkTestReport \<Rightarrow> ''test_report'' | AkLintReport \<Rightarrow> ''lint_report''
      | AkAiJudgment \<Rightarrow> ''ai_judgment'' | AkHumanNote \<Rightarrow> ''human_note'' | AkCommitSet \<Rightarrow> ''commit_set''
      | AkCheckpoint \<Rightarrow> ''checkpoint'' | AkPreview \<Rightarrow> ''preview'' | AkGenericFile \<Rightarrow> ''generic_file''
      | AkMutationReport \<Rightarrow> ''mutation_report'' | AkPlan \<Rightarrow> ''plan'')"

definition artifactInstanceId :: "ident \<Rightarrow> ident option \<Rightarrow> artifact_kind option \<Rightarrow> ident" where
  "artifactInstanceId nodeAttemptId artifactDefId kind =
     (case artifactDefId of
        Some def \<Rightarrow>
          if def \<noteq> [] then ''run:'' @ nodeAttemptId @ '':'' @ def
          else ''run:'' @ nodeAttemptId @ '':default:'' @ (case kind of None \<Rightarrow> ''generic_file'' | Some k \<Rightarrow> kind_text k)
      | None \<Rightarrow>
          ''run:'' @ nodeAttemptId @ '':default:'' @ (case kind of None \<Rightarrow> ''generic_file'' | Some k \<Rightarrow> kind_text k))"

definition projectorArtifactId :: "ident \<Rightarrow> nat \<Rightarrow> ident" where
  "projectorArtifactId run monotonicId = ''proj:'' @ run @ '':'' @ nat_digits monotonicId"

definition canonicalProjectorArtifactId :: "ident \<Rightarrow> ident \<Rightarrow> ident" where
  "canonicalProjectorArtifactId run eventId = ''proj:'' @ run @ '':event:'' @ eventId"

section \<open>Recording\<close>

record record_args =
  ra_id :: "ident option"
  ra_runId :: ident
  ra_nodeAttemptId :: "ident option"
  ra_nodeId :: "ident option"
  ra_attempt :: "nat option"
  ra_artifactDefId :: "ident option"
  ra_kind :: artifact_kind
  ra_producer :: artifact_producer
  ra_locator :: json
  ra_uri :: "string option option"
  ra_hash :: "string option option"
  ra_sizeBytes :: "nat option option"
  ra_validity :: "artifact_validity option"
  ra_requiredFor :: "string list option option"
  ra_monotonicId :: "int option option"

definition set_given :: "'a option \<Rightarrow> 'a \<Rightarrow> 'a" where
  "set_given given old = (case given of None \<Rightarrow> old | Some v \<Rightarrow> v)"

definition fresh_artifact :: "time \<Rightarrow> ident \<Rightarrow> record_args \<Rightarrow> artifact_row" where
  "fresh_artifact now i args =
     \<lparr>ai_id = i, ai_runId = ra_runId args, ai_nodeAttemptId = ra_nodeAttemptId args, ai_nodeId = ra_nodeId args,
      ai_attempt = ra_attempt args, ai_artifactDefId = ra_artifactDefId args, ai_kind = ra_kind args,
      ai_producer = ra_producer args, ai_locator = ra_locator args, ai_uri = set_given (ra_uri args) None,
      ai_hash = set_given (ra_hash args) None, ai_sizeBytes = set_given (ra_sizeBytes args) None,
      ai_validity = set_given (ra_validity args) AvCurrent, ai_requiredFor = set_given (ra_requiredFor args) None,
      ai_monotonicId = set_given (ra_monotonicId args) None, ai_supersededById = None, ai_createdAt = now\<rparr>"

definition merge_artifact :: "record_args \<Rightarrow> artifact_row \<Rightarrow> artifact_row" where
  "merge_artifact args x =
     x\<lparr>ai_locator := ra_locator args, ai_validity := set_given (ra_validity args) AvCurrent,
       ai_uri := set_given (ra_uri args) (ai_uri x), ai_hash := set_given (ra_hash args) (ai_hash x),
       ai_sizeBytes := set_given (ra_sizeBytes args) (ai_sizeBytes x),
       ai_requiredFor := set_given (ra_requiredFor args) (ai_requiredFor x),
       ai_monotonicId := set_given (ra_monotonicId args) (ai_monotonicId x)\<rparr>"

definition insertArtifactRow :: "time \<Rightarrow> ident \<Rightarrow> record_args \<Rightarrow> db \<Rightarrow> db" where
  "insertArtifactRow now i args d =
     (if list_ex (\<lambda>x. ai_id x = i) (artifactInstances d)
      then d\<lparr>artifactInstances := sql_update (\<lambda>x. ai_id x = i) (merge_artifact args) (artifactInstances d)\<rparr>
      else d\<lparr>artifactInstances := artifactInstances d @ [fresh_artifact now i args]\<rparr>)"

definition record_id :: "record_args \<Rightarrow> ident" where
  "record_id args =
     (case ra_id args of
        Some i \<Rightarrow> i
      | None \<Rightarrow> artifactInstanceId (case ra_nodeAttemptId args of None \<Rightarrow> [] | Some a \<Rightarrow> a)
                  (ra_artifactDefId args) (Some (ra_kind args)))"

text \<open>The host object a locator points at, where its kind is \<^verbatim>\<open>execution-object\<close>.\<close>

definition object_locator :: "json \<Rightarrow> ident option" where
  "object_locator locator =
     (if own_prop locator ''kind'' = Some (JStr ''execution-object'')
      then (case own_prop locator ''objectId'' of Some (JStr i) \<Rightarrow> Some i | _ \<Rightarrow> Some [])
      else None)"

definition recordArtifact ::
    "(ident \<Rightarrow> db \<Rightarrow> maister_error + unit) \<Rightarrow> time \<Rightarrow> record_args \<Rightarrow> db \<Rightarrow> maister_error + (ident \<times> db)" where
  "recordArtifact referenceable now args d =
     (let i = record_id args
      in case object_locator (ra_locator args) of
           Some obj \<Rightarrow> rbind (referenceable obj d) (\<lambda>_. Inr (i, insertArtifactRow now i args d))
         | None \<Rightarrow> Inr (i, insertArtifactRow now i args d))"

definition output_of :: "ident \<Rightarrow> ident \<Rightarrow> ident \<Rightarrow> artifact_row \<Rightarrow> bool" where
  "output_of run node def x \<longleftrightarrow> ai_runId x = run \<and> ai_nodeId x = Some node \<and> ai_artifactDefId x = Some def"

definition supersedePrior :: "ident \<Rightarrow> ident \<Rightarrow> ident \<Rightarrow> ident \<Rightarrow> db \<Rightarrow> db" where
  "supersedePrior run node def newId d =
     d\<lparr>artifactInstances := sql_update (\<lambda>x. output_of run node def x \<and> ai_id x \<noteq> newId)
         (\<lambda>x. x\<lparr>ai_validity := AvSuperseded, ai_supersededById := Some newId\<rparr>) (artifactInstances d)\<rparr>"

definition recordCurrentArtifact ::
    "(ident \<Rightarrow> db \<Rightarrow> maister_error + unit) \<Rightarrow> time \<Rightarrow> record_args \<Rightarrow> db \<Rightarrow> maister_error + (ident \<times> db)" where
  "recordCurrentArtifact referenceable now args d =
     rbind (recordArtifact referenceable now args d) (\<lambda>(i, d1).
       Inr (i, case (ra_nodeId args, ra_artifactDefId args) of
                 (Some node, Some def) \<Rightarrow>
                   if ra_runId args \<noteq> [] \<and> node \<noteq> [] \<and> def \<noteq> [] then supersedePrior (ra_runId args) node def i d1 else d1
               | _ \<Rightarrow> d1))"

section \<open>Reading and retiring\<close>

definition getArtifactsForRun :: "ident \<Rightarrow> db \<Rightarrow> artifact_row list" where
  "getArtifactsForRun run d = sql_select (\<lambda>x. ai_runId x = run) (artifactInstances d)"

definition current_of :: "ident \<Rightarrow> ident \<Rightarrow> artifact_row \<Rightarrow> bool" where
  "current_of run def x \<longleftrightarrow> ai_runId x = run \<and> ai_artifactDefId x = Some def \<and> ai_validity x = AvCurrent"

text \<open>
  \<^verbatim>\<open>ORDER BY created_at DESC, id DESC LIMIT 1\<close>, with ids compared by code unit as the table's
  deterministic collation does.
\<close>

fun text_less :: "string \<Rightarrow> string \<Rightarrow> bool" where
  "text_less [] t = (t \<noteq> [])"
| "text_less (a # s) [] = False"
| "text_less (a # s) (b # t) = (of_char a < (of_char b :: nat) \<or> a = b \<and> text_less s t)"

definition later_artifact :: "artifact_row \<Rightarrow> artifact_row \<Rightarrow> bool" where
  "later_artifact x y \<longleftrightarrow>
     ai_createdAt x > ai_createdAt y \<or> ai_createdAt x = ai_createdAt y \<and> text_less (ai_id y) (ai_id x)"

fun latest_artifact :: "artifact_row list \<Rightarrow> artifact_row option" where
  "latest_artifact [] = None"
| "latest_artifact (x # xs) =
     (case latest_artifact xs of None \<Rightarrow> Some x | Some y \<Rightarrow> if later_artifact x y then Some x else Some y)"

definition getCurrentArtifact :: "ident \<Rightarrow> ident \<Rightarrow> db \<Rightarrow> artifact_row option" where
  "getCurrentArtifact run def d = latest_artifact (sql_select (current_of run def) (artifactInstances d))"

definition getCurrentRequiredForGitArtifacts :: "ident \<Rightarrow> db \<Rightarrow> artifact_row list" where
  "getCurrentRequiredForGitArtifacts run d =
     filter (\<lambda>x. case ai_requiredFor x of None \<Rightarrow> False | Some ps \<Rightarrow> ps \<noteq> [])
       (sql_select (\<lambda>x. ai_runId x = run \<and> ai_validity x = AvCurrent \<and> ai_kind x \<in> {AkDiff, AkCommitSet})
         (artifactInstances d))"

definition failArtifact :: "ident \<Rightarrow> db \<Rightarrow> db" where
  "failArtifact i d =
     d\<lparr>artifactInstances := sql_update (\<lambda>x. ai_id x = i) (\<lambda>x. x\<lparr>ai_validity := AvFailed\<rparr>) (artifactInstances d)\<rparr>"

definition failStaleArtifactsForDef :: "ident \<Rightarrow> ident \<Rightarrow> db \<Rightarrow> nat \<times> db" where
  "failStaleArtifactsForDef run def d =
     (let P = (\<lambda>x. ai_runId x = run \<and> ai_artifactDefId x = Some def \<and> ai_validity x = AvStale);
          f = (\<lambda>x. x\<lparr>ai_validity := AvFailed\<rparr>)
      in (length (sql_returning P f (artifactInstances d)),
          d\<lparr>artifactInstances := sql_update P f (artifactInstances d)\<rparr>))"

definition recordSkippedArtifact ::
    "(ident \<Rightarrow> db \<Rightarrow> maister_error + unit) \<Rightarrow> time \<Rightarrow> ident \<Rightarrow> ident \<Rightarrow> ident \<Rightarrow> nat option \<Rightarrow> ident \<Rightarrow> artifact_kind
       \<Rightarrow> db \<Rightarrow> maister_error + (ident \<times> db)" where
  "recordSkippedArtifact referenceable now run attemptId node attempt def kind d =
     recordArtifact referenceable now
       \<lparr>ra_id = Some (''run:'' @ attemptId @ '':'' @ def), ra_runId = run, ra_nodeAttemptId = Some attemptId,
        ra_nodeId = Some node, ra_attempt = attempt, ra_artifactDefId = Some def, ra_kind = kind, ra_producer = ByGate,
        ra_locator = JObj [(''kind'', JStr ''inline''), (''text'', JStr [])], ra_uri = None, ra_hash = None,
        ra_sizeBytes = None, ra_validity = Some AvSkipped, ra_requiredFor = None, ra_monotonicId = None\<rparr> d"

section \<open>One current row per output\<close>

lemma merge_artifact_simps [simp]:
  "ai_id (merge_artifact args x) = ai_id x" "ai_runId (merge_artifact args x) = ai_runId x"
  "ai_nodeId (merge_artifact args x) = ai_nodeId x" "ai_artifactDefId (merge_artifact args x) = ai_artifactDefId x"
  "ai_validity (merge_artifact args x) = set_given (ra_validity args) AvCurrent"
  by (simp_all add: merge_artifact_def)

lemma latest_artifact_None_iff [simp]: "latest_artifact xs = None \<longleftrightarrow> xs = []"
  by (cases xs) (auto split: option.splits)

lemma getCurrentArtifact_iff:
  "getCurrentArtifact run def d \<noteq> None \<longleftrightarrow> (\<exists>x \<in> set (artifactInstances d). current_of run def x)"
  by (auto simp: getCurrentArtifact_def sql_select_def filter_empty_conv)

lemma insertArtifact_wf:
  "artifacts_t.wf_rows (artifactInstances d) \<Longrightarrow> artifacts_t.wf_rows (artifactInstances (insertArtifactRow now i args d))"
  by (auto simp: insertArtifactRow_def fresh_artifact_def list_ex_iff intro!: artifacts_t.wf_update artifacts_t.wf_insert)

lemma insertArtifact_row:
  assumes "artifacts_t.wf_rows (artifactInstances d)"
  shows "\<exists>x \<in> set (artifactInstances (insertArtifactRow now i args d)). ai_id x = i
    \<and> ai_validity x = set_given (ra_validity args) AvCurrent"
proof (cases "list_ex (\<lambda>x. ai_id x = i) (artifactInstances d)")
  case True
  then obtain x where "x \<in> set (artifactInstances d)" "ai_id x = i" by (auto simp: list_ex_iff)
  with True show ?thesis
    by (intro bexI[of _ "merge_artifact args x"]) (auto simp: insertArtifactRow_def set_sql_update)
next
  case False
  then show ?thesis by (auto simp: insertArtifactRow_def fresh_artifact_def)
qed

text \<open>
  C39: recording a declared output replaces it atomically.  Afterwards its new row is there and current (or in
  the validity the caller gave), every other row of the same run, node and definition is superseded by it,
  the rows of other outputs are as before, and ids stay unique.
\<close>

theorem one_current_output:
  assumes "artifacts_t.wf_rows (artifactInstances d)"
    and "recordCurrentArtifact referenceable now args d = Inr (i, d')"
    and "ra_nodeId args = Some node" and "ra_artifactDefId args = Some def"
    and "ra_runId args \<noteq> []" and "node \<noteq> []" and "def \<noteq> []"
  shows "artifacts_t.wf_rows (artifactInstances d')
    \<and> (\<exists>x \<in> set (artifactInstances d'). ai_id x = i \<and> ai_validity x = set_given (ra_validity args) AvCurrent)
    \<and> (\<forall>x \<in> set (artifactInstances d'). output_of (ra_runId args) node def x \<longrightarrow>
          ai_id x = i \<or> ai_validity x = AvSuperseded \<and> ai_supersededById x = Some i)
    \<and> filter (\<lambda>x. \<not> output_of (ra_runId args) node def x \<and> ai_id x \<noteq> i) (artifactInstances d')
        = filter (\<lambda>x. \<not> output_of (ra_runId args) node def x \<and> ai_id x \<noteq> i) (artifactInstances d)"
proof -
  let ?out = "output_of (ra_runId args) node def"
  have i: "i = record_id args" and d': "d' = supersedePrior (ra_runId args) node def i (insertArtifactRow now i args d)"
    using assms(2-7) by (auto simp: recordCurrentArtifact_def recordArtifact_def Let_def rbind_Inr_iff split: option.splits)
  let ?d1 = "insertArtifactRow now i args d"
  have rows: "artifactInstances d' = sql_update (\<lambda>x. ?out x \<and> ai_id x \<noteq> i)
      (\<lambda>x. x\<lparr>ai_validity := AvSuperseded, ai_supersededById := Some i\<rparr>) (artifactInstances ?d1)"
    by (simp add: d' supersedePrior_def)
  have "artifacts_t.wf_rows (artifactInstances d')"
    unfolding rows by (rule artifacts_t.wf_update) (simp_all add: insertArtifact_wf assms(1))
  moreover obtain x where "x \<in> set (artifactInstances ?d1)" "ai_id x = i" "ai_validity x = set_given (ra_validity args) AvCurrent"
    using insertArtifact_row[OF assms(1)] by blast
  then have "x \<in> set (artifactInstances d') \<and> ai_id x = i \<and> ai_validity x = set_given (ra_validity args) AvCurrent"
    by (auto simp: rows set_sql_update)
  moreover have "\<forall>x \<in> set (artifactInstances d'). ?out x \<longrightarrow> ai_id x = i \<or> ai_validity x = AvSuperseded \<and> ai_supersededById x = Some i"
    by (auto simp: rows set_sql_update)
  moreover have "filter (\<lambda>x. \<not> ?out x \<and> ai_id x \<noteq> i) (artifactInstances d') = filter (\<lambda>x. \<not> ?out x \<and> ai_id x \<noteq> i) (artifactInstances ?d1)"
    unfolding rows by (rule filter_sql_update_frame) (auto simp: output_of_def)
  moreover have "filter (\<lambda>x. \<not> ?out x \<and> ai_id x \<noteq> i) (artifactInstances ?d1) = filter (\<lambda>x. \<not> ?out x \<and> ai_id x \<noteq> i) (artifactInstances d)"
    by (auto simp: insertArtifactRow_def fresh_artifact_def intro: filter_sql_update_frame)
  ultimately show ?thesis by auto
qed

definition plan_args :: "ident \<Rightarrow> record_args" where
  "plan_args attempt = \<lparr>ra_id = None, ra_runId = ''r'', ra_nodeAttemptId = Some attempt, ra_nodeId = Some ''plan'',
     ra_attempt = Some 1, ra_artifactDefId = Some ''plan-doc'', ra_kind = AkPlan, ra_producer = ByRunner,
     ra_locator = JObj [(''kind'', JStr ''inline'')], ra_uri = None, ra_hash = None, ra_sizeBytes = None,
     ra_validity = None, ra_requiredFor = Some (Some [''review'']), ra_monotonicId = None\<rparr>"

theorem one_current_output_witness:
  "\<exists>d1 d2. recordCurrentArtifact (\<lambda>_ _. Inr ()) 1 (plan_args ''a1'') empty_db = Inr (''run:a1:plan-doc'', d1)
     \<and> recordCurrentArtifact (\<lambda>_ _. Inr ()) 2 (plan_args ''a2'') d1 = Inr (''run:a2:plan-doc'', d2)
     \<and> (\<exists>x \<in> set (artifactInstances d2). ai_id x = ''run:a2:plan-doc'' \<and> ai_validity x = AvCurrent)
     \<and> list_all (\<lambda>x. ai_id x = ''run:a2:plan-doc'' \<or> ai_validity x = AvSuperseded) (artifactInstances d2)"
proof -
  note defs = recordCurrentArtifact_def recordArtifact_def record_id_def artifactInstanceId_def object_locator_def
    own_prop_def plan_args_def Let_def
  obtain d1 where d1: "recordCurrentArtifact (\<lambda>_ _. Inr ()) 1 (plan_args ''a1'') empty_db = Inr (''run:a1:plan-doc'', d1)"
    and r1: "artifactInstances d1 = [fresh_artifact 1 ''run:a1:plan-doc'' (plan_args ''a1'')]"
    by (simp add: defs supersedePrior_def insertArtifactRow_def empty_db_def sql_update_def fresh_artifact_def)
  have wf: "artifacts_t.wf_rows (artifactInstances d1)" by (simp add: r1 artifacts_t.wf_rows_def)
  obtain d2 where d2: "recordCurrentArtifact (\<lambda>_ _. Inr ()) 2 (plan_args ''a2'') d1 = Inr (''run:a2:plan-doc'', d2)"
    and out: "list_all (output_of ''r'' ''plan'' ''plan-doc'') (artifactInstances d2)"
    by (simp add: defs supersedePrior_def insertArtifactRow_def r1 sql_update_def fresh_artifact_def output_of_def)
  from one_current_output[OF wf d2, of "''plan''" "''plan-doc''"] d1 d2 out show ?thesis
    by (auto simp: plan_args_def set_given_def list_all_iff)
qed

end
