(* ===== verification/ExecutionPolicy.thy ===== *)
theory ExecutionPolicy
  imports Prelude JsValue
begin

text \<open>
  A run's execution policy (\<^verbatim>\<open>web/lib/runs/execution-policy.ts\<close>): presets and per-axis overrides, the
  rule against shipping with no validation, the readers of the snapshot stored on the run, and the
  disposition of a human gate.

  The snapshot is open JSON validated by a zod schema.  zod is a parameter, \<open>safeParse\<close>, with \<open>None\<close> for a
  failed parse; every reader is stated for any such function.
\<close>

section \<open>Axes\<close>

datatype execution_preset = Supervised | Assisted | Unattended
datatype rework_exhaustion = ReEscalate | ReShipWithWarning | ReFail
datatype crash_retry = CrFail | CrRalphLoop | CrAutoRetry
datatype check_strictness = Strict | Advisory_checks | Skip_checks
datatype permission_autonomy = Ask | AutoApprove
datatype human_gate = StopGate | AutoPass
datatype on_stuck = OsEscalate | OsShipWithWarning | OsNotifyOnly
datatype promotion_trigger = Manual | AutoOnReady
datatype commit_policy = KeepAll | SquashRework | SquashOnPromote | DeferCommits
datatype dirty_resolution = DirtyAsk | DirtyCommit | DirtyProceed
datatype budget_breach = BbEscalate | BbTerminate | BbTerminateRestorable

record budget_limits =
  bl_maxTokens :: "nat option"
  bl_hardMaxTokens :: "nat option"
  bl_consecutiveFailures :: "nat option"
  bl_wallClockMinutes :: "nat option"
  bl_warnAtPct :: "nat option"

record budget_axis =
  bx_run :: "budget_limits option"
  bx_task :: "budget_limits option"
  bx_tree :: "budget_limits option"

definition no_budget :: budget_axis where
  "no_budget = \<lparr>bx_run = None, bx_task = None, bx_tree = None\<rparr>"

record policy_overrides =
  po_reworkExhaustion :: "rework_exhaustion option"
  po_crashRetry :: "crash_retry option"
  po_checks :: "check_strictness option"
  po_permissions :: "permission_autonomy option"
  po_humanGate :: "human_gate option"
  po_onStuck :: "on_stuck option"
  po_promotion :: "promotion_trigger option"
  po_commits :: "commit_policy option"
  po_dirtyResolve :: "dirty_resolution option"
  po_budget :: "budget_axis option"
  po_onBudgetBreach :: "budget_breach option"

record execution_policy =
  ep_preset :: execution_preset
  ep_overrides :: "policy_overrides option"

record resolved_policy =
  rp_preset :: execution_preset
  rp_reworkExhaustion :: rework_exhaustion
  rp_crashRetry :: crash_retry
  rp_checks :: check_strictness
  rp_permissions :: permission_autonomy
  rp_humanGate :: human_gate
  rp_onStuck :: on_stuck
  rp_promotion :: promotion_trigger
  rp_commits :: commit_policy
  rp_dirtyResolve :: dirty_resolution
  rp_budget :: budget_axis
  rp_onBudgetBreach :: "budget_breach option"

section \<open>Expansion\<close>

definition PRESET_AXES :: "execution_preset \<Rightarrow> resolved_policy" where
  "PRESET_AXES preset =
     (case preset of
        Supervised \<Rightarrow> \<lparr>rp_preset = preset, rp_reworkExhaustion = ReEscalate, rp_crashRetry = CrFail, rp_checks = Strict,
          rp_permissions = Ask, rp_humanGate = StopGate, rp_onStuck = OsEscalate, rp_promotion = Manual,
          rp_commits = KeepAll, rp_dirtyResolve = DirtyAsk, rp_budget = no_budget, rp_onBudgetBreach = None\<rparr>
      | Assisted \<Rightarrow> \<lparr>rp_preset = preset, rp_reworkExhaustion = ReEscalate, rp_crashRetry = CrFail, rp_checks = Strict,
          rp_permissions = AutoApprove, rp_humanGate = StopGate, rp_onStuck = OsEscalate, rp_promotion = Manual,
          rp_commits = KeepAll, rp_dirtyResolve = DirtyProceed, rp_budget = no_budget, rp_onBudgetBreach = None\<rparr>
      | Unattended \<Rightarrow> \<lparr>rp_preset = preset, rp_reworkExhaustion = ReEscalate, rp_crashRetry = CrRalphLoop, rp_checks = Strict,
          rp_permissions = AutoApprove, rp_humanGate = AutoPass, rp_onStuck = OsEscalate, rp_promotion = AutoOnReady,
          rp_commits = SquashRework, rp_dirtyResolve = DirtyProceed, rp_budget = no_budget, rp_onBudgetBreach = None\<rparr>)"

text \<open>\<^verbatim>\<open>o.axis ?? base.axis\<close>.\<close>

definition coalesce :: "'a option \<Rightarrow> 'a \<Rightarrow> 'a" where
  "coalesce x y = (case x of None \<Rightarrow> y | Some v \<Rightarrow> v)"

definition expandExecutionPolicy :: "execution_policy \<Rightarrow> resolved_policy" where
  "expandExecutionPolicy p =
     (let base = PRESET_AXES (ep_preset p)
      in case ep_overrides p of
           None \<Rightarrow> base
         | Some v \<Rightarrow>
             \<lparr>rp_preset = ep_preset p,
              rp_reworkExhaustion = coalesce (po_reworkExhaustion v) (rp_reworkExhaustion base),
              rp_crashRetry = coalesce (po_crashRetry v) (rp_crashRetry base),
              rp_checks = coalesce (po_checks v) (rp_checks base),
              rp_permissions = coalesce (po_permissions v) (rp_permissions base),
              rp_humanGate = coalesce (po_humanGate v) (rp_humanGate base),
              rp_onStuck = coalesce (po_onStuck v) (rp_onStuck base),
              rp_promotion = coalesce (po_promotion v) (rp_promotion base),
              rp_commits = coalesce (po_commits v) (rp_commits base),
              rp_dirtyResolve = coalesce (po_dirtyResolve v) (rp_dirtyResolve base),
              rp_budget = coalesce (po_budget v) (rp_budget base),
              rp_onBudgetBreach = (case po_onBudgetBreach v of None \<Rightarrow> rp_onBudgetBreach base | x \<Rightarrow> x)\<rparr>)"

definition defaultExecutionPolicy :: execution_policy where
  "defaultExecutionPolicy = \<lparr>ep_preset = Supervised, ep_overrides = None\<rparr>"

definition resolveExecutionPolicy ::
    "execution_policy option \<Rightarrow> execution_policy option \<Rightarrow> execution_policy option \<Rightarrow> execution_policy" where
  "resolveExecutionPolicy launchOverride taskDefault projectDefault =
     coalesce launchOverride (coalesce taskDefault (coalesce projectDefault defaultExecutionPolicy))"

section \<open>No blind ship\<close>

definition isBlindShip :: "execution_policy \<Rightarrow> bool" where
  "isBlindShip p \<longleftrightarrow>
     (let r = expandExecutionPolicy p
      in rp_checks r \<noteq> Strict \<and> (rp_humanGate r = AutoPass \<or> rp_promotion r = AutoOnReady))"

definition assertNoBlindShip :: "execution_policy \<Rightarrow> maister_error + unit" where
  "assertNoBlindShip p = (if isBlindShip p then Inl (MaisterError PRECONDITION []) else Inr ())"

definition requiresLaunchUnattended :: "execution_policy \<Rightarrow> bool" where
  "requiresLaunchUnattended p \<longleftrightarrow>
     (let r = expandExecutionPolicy p
      in rp_humanGate r = AutoPass \<or> rp_promotion r = AutoOnReady \<or> rp_checks r \<noteq> Strict \<or> rp_onStuck r \<noteq> OsEscalate)"

text \<open>\<^verbatim>\<open>blindShipLockedOptions\<close>: relaxed checks, auto-pass, auto-promote disabled.\<close>

definition blindShipLockedOptions ::
    "check_strictness \<Rightarrow> human_gate \<Rightarrow> promotion_trigger \<Rightarrow> bool \<times> bool \<times> bool" where
  "blindShipLockedOptions checks humanGate promotion =
     (let autoShip = (humanGate = AutoPass \<or> promotion = AutoOnReady); checksRelaxed = (checks \<noteq> Strict)
      in (autoShip, checksRelaxed, checksRelaxed))"

section \<open>Reading the snapshot\<close>

definition from_snapshot ::
    "(json \<Rightarrow> execution_policy option) \<Rightarrow> (resolved_policy \<Rightarrow> 'a) \<Rightarrow> 'a \<Rightarrow> json \<Rightarrow> 'a" where
  "from_snapshot safeParse axis fallback snapshot =
     (case safeParse snapshot of Some p \<Rightarrow> axis (expandExecutionPolicy p) | None \<Rightarrow> fallback)"

definition checksFromSnapshot :: "(json \<Rightarrow> execution_policy option) \<Rightarrow> json \<Rightarrow> check_strictness" where
  "checksFromSnapshot safeParse = from_snapshot safeParse rp_checks Strict"

definition reworkExhaustionFromSnapshot :: "(json \<Rightarrow> execution_policy option) \<Rightarrow> json \<Rightarrow> rework_exhaustion" where
  "reworkExhaustionFromSnapshot safeParse = from_snapshot safeParse rp_reworkExhaustion ReEscalate"

definition presetFromSnapshot :: "(json \<Rightarrow> execution_policy option) \<Rightarrow> json \<Rightarrow> execution_preset" where
  "presetFromSnapshot safeParse = from_snapshot safeParse rp_preset Supervised"

definition crashRetryFromSnapshot :: "(json \<Rightarrow> execution_policy option) \<Rightarrow> json \<Rightarrow> crash_retry" where
  "crashRetryFromSnapshot safeParse = from_snapshot safeParse rp_crashRetry CrFail"

definition permissionsFromSnapshot :: "(json \<Rightarrow> execution_policy option) \<Rightarrow> json \<Rightarrow> permission_autonomy" where
  "permissionsFromSnapshot safeParse = from_snapshot safeParse rp_permissions Ask"

definition humanGateFromSnapshot :: "(json \<Rightarrow> execution_policy option) \<Rightarrow> json \<Rightarrow> human_gate" where
  "humanGateFromSnapshot safeParse = from_snapshot safeParse rp_humanGate StopGate"

definition onStuckFromSnapshot :: "(json \<Rightarrow> execution_policy option) \<Rightarrow> json \<Rightarrow> on_stuck" where
  "onStuckFromSnapshot safeParse = from_snapshot safeParse rp_onStuck OsEscalate"

definition promotionFromSnapshot :: "(json \<Rightarrow> execution_policy option) \<Rightarrow> json \<Rightarrow> promotion_trigger" where
  "promotionFromSnapshot safeParse = from_snapshot safeParse rp_promotion Manual"

definition commitsFromSnapshot :: "(json \<Rightarrow> execution_policy option) \<Rightarrow> json \<Rightarrow> commit_policy" where
  "commitsFromSnapshot safeParse = from_snapshot safeParse rp_commits KeepAll"

definition dirtyResolveFromSnapshot :: "(json \<Rightarrow> execution_policy option) \<Rightarrow> json \<Rightarrow> dirty_resolution" where
  "dirtyResolveFromSnapshot safeParse = from_snapshot safeParse rp_dirtyResolve DirtyAsk"

definition budgetFromSnapshot :: "(json \<Rightarrow> execution_policy option) \<Rightarrow> json \<Rightarrow> budget_axis" where
  "budgetFromSnapshot safeParse = from_snapshot safeParse rp_budget no_budget"

definition onBudgetBreachFromSnapshot :: "(json \<Rightarrow> execution_policy option) \<Rightarrow> json \<Rightarrow> budget_breach option" where
  "onBudgetBreachFromSnapshot safeParse = from_snapshot safeParse rp_onBudgetBreach None"

section \<open>In-run retries and human gates\<close>

definition RETRYABLE_ERROR_CODES :: "maister_error_code list" where
  "RETRYABLE_ERROR_CODES = [SPAWN, EXECUTOR_UNAVAILABLE, CHECKPOINT, ACP_PROTOCOL]"

text \<open>The attempt bound and the retryable codes; the workspace policy is always \<^verbatim>\<open>keep\<close>.\<close>

definition resolveAutoRetryPolicy ::
    "(json \<Rightarrow> execution_policy option) \<Rightarrow> bool \<Rightarrow> json \<Rightarrow> nat \<Rightarrow> (nat \<times> maister_error_code list) option" where
  "resolveAutoRetryPolicy safeParse retrySafe snapshot maxAttempts =
     (if \<not> retrySafe then None
      else if crashRetryFromSnapshot safeParse snapshot \<noteq> CrAutoRetry then None
      else Some (maxAttempts, RETRYABLE_ERROR_CODES))"

datatype gate_disposition = PauseGate (assigns: bool) | PassGate | ShipWithWarning

definition resolveHumanGateDisposition :: "human_gate \<Rightarrow> on_stuck \<Rightarrow> bool \<Rightarrow> bool \<Rightarrow> gate_disposition" where
  "resolveHumanGateDisposition humanGate onStuck hasSafeDefault evidenceReady =
     (if humanGate \<noteq> AutoPass then PauseGate True
      else if hasSafeDefault \<and> evidenceReady then PassGate
      else if onStuck = OsShipWithWarning \<and> hasSafeDefault then ShipWithWarning
      else if onStuck = OsNotifyOnly then PauseGate False
      else PauseGate True)"

section \<open>Laws\<close>

lemma preset_not_blind: "ep_overrides p = None \<Longrightarrow> \<not> isBlindShip p"
  by (cases "ep_preset p") (simp_all add: isBlindShip_def expandExecutionPolicy_def PRESET_AXES_def)

lemma from_snapshot_corrupt: "safeParse s = None \<Longrightarrow> from_snapshot safeParse axis fallback s = fallback"
  by (simp add: from_snapshot_def)

lemma accepted_strict:
  assumes "assertNoBlindShip p = Inr u" and "safeParse snapshot = Some p"
    and "humanGateFromSnapshot safeParse snapshot = AutoPass \<or> promotionFromSnapshot safeParse snapshot = AutoOnReady"
  shows "checksFromSnapshot safeParse snapshot = Strict"
  using assms
  by (auto simp: assertNoBlindShip_def isBlindShip_def humanGateFromSnapshot_def promotionFromSnapshot_def
      checksFromSnapshot_def from_snapshot_def Let_def split: if_splits)

text \<open>The options the launch dialog leaves open never form a blind ship.\<close>

lemma locked_options_exact:
  "(checks \<noteq> Strict \<and> (hg = AutoPass \<or> pr = AutoOnReady)) \<longleftrightarrow>
     (case blindShipLockedOptions checks hg pr of
        (relaxed, pass, promote) \<Rightarrow> relaxed \<and> checks \<noteq> Strict \<or> pass \<and> hg = AutoPass \<or> promote \<and> pr = AutoOnReady)"
  by (auto simp: blindShipLockedOptions_def Let_def)

end
