(* ===== verification/Readiness.thy ===== *)
theory Readiness
  imports ArtifactStore ExecutionPolicy
begin

text \<open>
  When a run's evidence lets it be reviewed or merged (\<^verbatim>\<open>web/lib/flows/graph/readiness-core.ts\<close>,
  \<^verbatim>\<open>evidence-readiness.ts\<close>).

  The code decides the same question twice: \<open>assertEvidenceReady\<close> walks the gates kind by kind and
  collects reasons, the badges roll contributions up to one state.  \<open>evidence_agrees_with_badge\<close> shows that
  the two agree.
\<close>

section \<open>Gates that block\<close>

definition NON_REVIEW_CHECK_KINDS :: "gate_kind list" where
  "NON_REVIEW_CHECK_KINDS = [CommandCheck, SkillCheck, ArtifactRequired, ExternalCheck]"

definition isPolicySkippedGate :: "check_strictness \<Rightarrow> gate_kind \<Rightarrow> bool" where
  "isPolicySkippedGate checks kind \<longleftrightarrow> checks = Skip_checks \<and> kind \<in> set NON_REVIEW_CHECK_KINDS"

definition isEffectivelyBlockingGate :: "check_strictness \<Rightarrow> gate_kind \<Rightarrow> gate_mode \<Rightarrow> bool" where
  "isEffectivelyBlockingGate checks kind mode \<longleftrightarrow>
     (if mode \<noteq> Blocking then False else \<not> (checks \<noteq> Strict \<and> kind \<in> set NON_REVIEW_CHECK_KINDS))"

definition EXTERNAL_GATE_READY_STATUSES :: "gate_status list" where
  "EXTERNAL_GATE_READY_STATUSES = [GsPassed, GsOverridden]"

definition isExternalGateReady :: "gate_status \<Rightarrow> bool" where
  "isExternalGateReady status \<longleftrightarrow> status \<in> set EXTERNAL_GATE_READY_STATUSES"

definition newer_gate :: "gate_result_row \<Rightarrow> gate_result_row \<Rightarrow> bool" where
  "newer_gate row prev \<longleftrightarrow>
     gr_createdAt row > gr_createdAt prev
     \<or> gr_createdAt row = gr_createdAt prev \<and> text_less (gr_id prev) (gr_id row)"

definition collapseLatestExternalPerGate :: "gate_result_row list \<Rightarrow> (gate_result_row \<Rightarrow> ident) \<Rightarrow> gate_result_row list" where
  "collapseLatestExternalPerGate rows keyOf = map snd (newest_by keyOf newer_gate rows)"

definition latestAttemptIdsByNode :: "node_attempt_row list \<Rightarrow> ident list" where
  "latestAttemptIdsByNode attempts =
     set_of_list (map (na_id \<circ> snd) (newest_by na_nodeId (\<lambda>a cur. na_attempt a > na_attempt cur) attempts))"

definition liveBlockingGates :: "gate_result_row list \<Rightarrow> ident list \<Rightarrow> check_strictness \<Rightarrow> gate_result_row list" where
  "liveBlockingGates gateRows liveAttemptIds checks =
     (let liveBlocking = filter (\<lambda>g. isEffectivelyBlockingGate checks (gr_kind g) (gr_mode g)
            \<and> gr_nodeAttemptId g \<in> set liveAttemptIds) gateRows;
          nonExternal = filter (\<lambda>g. gr_kind g \<noteq> ExternalCheck) liveBlocking;
          external = filter (\<lambda>g. gr_kind g = ExternalCheck) liveBlocking
      in nonExternal @ collapseLatestExternalPerGate external gr_gateId)"

section \<open>Contributions\<close>

datatype readiness_state = RsReady | RsBlocked | RsStale | RsFailed | RsWaiting | RsOverridden

datatype readiness_contribution = CbClear | CbOverridden | CbWaiting | CbBlocked | CbStale | CbFailed

definition READINESS_PRIORITY :: "readiness_state list" where
  "READINESS_PRIORITY = [RsFailed, RsStale, RsBlocked, RsWaiting, RsOverridden, RsReady]"

definition gateStatusContribution :: "gate_status \<Rightarrow> readiness_contribution" where
  "gateStatusContribution status =
     (case status of GsPassed \<Rightarrow> CbClear | GsOverridden \<Rightarrow> CbOverridden | GsFailed \<Rightarrow> CbFailed | GsStale \<Rightarrow> CbStale
      | GsSkipped \<Rightarrow> CbBlocked | GsPending \<Rightarrow> CbWaiting | GsRunning \<Rightarrow> CbWaiting)"

definition hasAssertionFailedVerdict :: "json option \<Rightarrow> bool" where
  "hasAssertionFailedVerdict verdict \<longleftrightarrow>
     (case verdict of
        None \<Rightarrow> False
      | Some v \<Rightarrow>
          is_object v
          \<and> (case own_prop v ''payload'' of
               None \<Rightarrow> False
             | Some payload \<Rightarrow> is_object payload \<and> own_prop payload ''assertionFailed'' = Some (JBool True)))"

definition refs_of :: "gate_result_row \<Rightarrow> ident list" where
  "refs_of gate = (case gr_inputArtifactRefs gate of None \<Rightarrow> [] | Some rs \<Rightarrow> rs)"

definition blockingGateContribution :: "gate_result_row \<Rightarrow> ident list \<Rightarrow> readiness_contribution" where
  "blockingGateContribution gate currentDefIds =
     (if gr_kind gate = ArtifactRequired \<and> gr_status gate = GsFailed
      then (if hasAssertionFailedVerdict (gr_verdict gate) then CbFailed
            else if refs_of gate \<noteq> [] \<and> list_all (\<lambda>r. r \<in> set currentDefIds) (refs_of gate) then CbClear
            else CbFailed)
      else gateStatusContribution (gr_status gate))"

fun index_of :: "'a \<Rightarrow> 'a list \<Rightarrow> nat" where
  "index_of x [] = 0"
| "index_of x (y # ys) = (if x = y then 0 else Suc (index_of x ys))"

definition to_state :: "readiness_contribution \<Rightarrow> readiness_state" where
  "to_state c =
     (case c of CbClear \<Rightarrow> RsReady | CbOverridden \<Rightarrow> RsOverridden | CbWaiting \<Rightarrow> RsWaiting | CbBlocked \<Rightarrow> RsBlocked
      | CbStale \<Rightarrow> RsStale | CbFailed \<Rightarrow> RsFailed)"

definition rollup_step :: "readiness_contribution \<Rightarrow> readiness_state \<Rightarrow> readiness_state" where
  "rollup_step c best =
     (let s = to_state c
      in if index_of s READINESS_PRIORITY < index_of best READINESS_PRIORITY then s else best)"

definition rollupReadiness :: "readiness_contribution list \<Rightarrow> readiness_state" where
  "rollupReadiness contributions = fold rollup_step contributions RsReady"

definition isPhaseReady :: "readiness_state \<Rightarrow> bool" where
  "isPhaseReady state \<longleftrightarrow> state = RsReady \<or> state = RsOverridden"

section \<open>The merge guard\<close>

text \<open>A reason names the artifact definition or the gate it is about; its prose is not modelled.\<close>

datatype evidence_reason = NoCurrentRow ident | GateBlocks ident

definition required_defs :: "ident \<Rightarrow> string \<Rightarrow> db \<Rightarrow> ident list" where
  "required_defs run phase d =
     set_of_list (concat (map (\<lambda>x. case ai_artifactDefId x of
           Some def \<Rightarrow> if def \<noteq> [] then [def] else []
         | None \<Rightarrow> [])
       (sql_select (\<lambda>x. ai_runId x = run \<and> (case ai_requiredFor x of None \<Rightarrow> False | Some ps \<Rightarrow> phase \<in> set ps))
          (artifactInstances d))))"

definition passes :: "readiness_contribution \<Rightarrow> bool" where
  "passes c \<longleftrightarrow> c = CbClear \<or> c = CbOverridden"

definition gate_blocks :: "ident \<Rightarrow> db \<Rightarrow> gate_result_row \<Rightarrow> bool" where
  "gate_blocks run d gate =
     (if gr_kind gate = ArtifactRequired
      then (if gr_status gate = GsStale then True
            else if gr_status gate = GsFailed
            then (let currentRefDefIds = set_of_list (filter (\<lambda>def. getCurrentArtifact run def d \<noteq> None) (refs_of gate))
                  in blockingGateContribution gate currentRefDefIds \<noteq> CbClear)
            else \<not> passes (gateStatusContribution (gr_status gate)))
      else if gr_kind gate = ExternalCheck then \<not> isExternalGateReady (gr_status gate)
      else \<not> passes (gateStatusContribution (gr_status gate)))"

definition run_gates :: "ident \<Rightarrow> db \<Rightarrow> gate_result_row list" where
  "run_gates run d = sql_select (\<lambda>g. gr_runId g = run) (gateResults d)"

definition live_attempts :: "ident \<Rightarrow> db \<Rightarrow> ident list" where
  "live_attempts run d = map (na_id \<circ> snd) (latestAttemptByNode (getNodeAttemptsForRun run d))"

definition run_policy :: "ident \<Rightarrow> db \<Rightarrow> json" where
  "run_policy run d = (case Option.bind (run_of d run) r_executionPolicy of None \<Rightarrow> JNull | Some p \<Rightarrow> p)"

definition blocking_gates :: "(json \<Rightarrow> execution_policy option) \<Rightarrow> ident \<Rightarrow> db \<Rightarrow> gate_result_row list" where
  "blocking_gates safeParse run d =
     liveBlockingGates (run_gates run d) (live_attempts run d) (checksFromSnapshot safeParse (run_policy run d))"

definition assertEvidenceReady ::
    "(json \<Rightarrow> execution_policy option) \<Rightarrow> ident \<Rightarrow> string \<Rightarrow> db \<Rightarrow> bool \<times> evidence_reason list" where
  "assertEvidenceReady safeParse run phase d =
     (let missing = map NoCurrentRow (filter (\<lambda>def. getCurrentArtifact run def d = None) (required_defs run phase d));
          blocked = map (GateBlocks \<circ> gr_id) (filter (gate_blocks run d) (blocking_gates safeParse run d));
          reasons = missing @ blocked
      in (reasons = [], reasons))"

section \<open>Ordering of gate rows\<close>

lemma text_less_irrefl: "\<not> text_less s s"
  by (induction s) auto

lemma text_less_trans: "text_less a b \<Longrightarrow> text_less b c \<Longrightarrow> text_less a c"
proof (induction a b arbitrary: c rule: text_less.induct)
  case (1 t)
  then show ?case by (cases t; cases c) auto
next
  case (3 a s b t)
  then show ?case by (cases c) auto
qed simp

lemma text_less_total: "a \<noteq> b \<Longrightarrow> text_less a b \<or> text_less b a"
proof (induction a b rule: text_less.induct)
  case (3 a s b t)
  show ?case
  proof (cases "a = b")
    case False
    then have "of_char a < (of_char b :: nat) \<or> of_char b < (of_char a :: nat)"
      using of_char_eq_iff linorder_less_linear by metis
    then show ?thesis by auto
  qed (use 3 in auto)
qed auto

interpretation external_rows: newest_per_key gr_gateId newer_gate
proof
  show "\<not> newer_gate r r" for r by (simp add: newer_gate_def text_less_irrefl)
  show "newer_gate a b \<Longrightarrow> newer_gate b c \<Longrightarrow> newer_gate a c" for a b c
    by (auto simp: newer_gate_def intro: text_less_trans)
qed

lemma newer_gate_total: "gr_id a \<noteq> gr_id b \<Longrightarrow> newer_gate a b \<or> newer_gate b a"
  using text_less_total[of "gr_id a" "gr_id b"] by (auto simp: newer_gate_def)

section \<open>The two answers agree\<close>

lemma rollup_step_ready: "isPhaseReady (rollup_step c best) \<longleftrightarrow> passes c \<and> isPhaseReady best"
  by (cases c; cases best)
     (simp_all add: rollup_step_def to_state_def isPhaseReady_def passes_def READINESS_PRIORITY_def)

lemma rollup_ready: "isPhaseReady (rollupReadiness cs) \<longleftrightarrow> list_all passes cs"
proof -
  have "isPhaseReady (fold rollup_step cs best) \<longleftrightarrow> list_all passes cs \<and> isPhaseReady best" for best
    by (induction cs arbitrary: best) (auto simp: rollup_step_ready)
  then show ?thesis by (simp add: rollupReadiness_def isPhaseReady_def)
qed

text \<open>The definitions with a current row, as the badge queries collect them.\<close>

definition current_defs :: "ident \<Rightarrow> db \<Rightarrow> ident list" where
  "current_defs run d = concat (map (\<lambda>x. case ai_artifactDefId x of None \<Rightarrow> [] | Some def \<Rightarrow> [def])
     (sql_select (\<lambda>x. ai_runId x = run \<and> ai_validity x = AvCurrent) (artifactInstances d)))"

lemma current_defs_iff: "def \<in> set (current_defs run d) \<longleftrightarrow> getCurrentArtifact run def d \<noteq> None"
  unfolding getCurrentArtifact_iff
  by (auto simp: current_defs_def current_of_def sql_select_def split: option.splits)

lemma gate_blocks_iff: "gate_blocks run d g \<longleftrightarrow> \<not> passes (blockingGateContribution g (current_defs run d))"
proof (cases "gr_kind g = ArtifactRequired \<and> gr_status g = GsFailed")
  case True
  have "list_all (\<lambda>r. r \<in> set (set_of_list (filter (\<lambda>def. getCurrentArtifact run def d \<noteq> None) (refs_of g)))) (refs_of g)
      = list_all (\<lambda>r. r \<in> set (current_defs run d)) (refs_of g)"
    using current_defs_iff by (auto simp: list_all_iff)
  with True show ?thesis
    unfolding gate_blocks_def blockingGateContribution_def by (simp add: passes_def Let_def)
next
  case False
  then show ?thesis
    by (cases "gr_status g") (auto simp: gate_blocks_def blockingGateContribution_def passes_def gateStatusContribution_def
        isExternalGateReady_def EXTERNAL_GATE_READY_STATUSES_def)
qed

text \<open>
  C31: the guard that review and merge consult and the state the badges show answer alike: evidence is ready
  exactly when every artifact definition required for the phase has a current row and the contributions of
  the run's live blocking gates roll up to a state that may be promoted.
\<close>

theorem evidence_agrees_with_badge:
  "fst (assertEvidenceReady safeParse run phase d) \<longleftrightarrow>
     list_all (\<lambda>def. getCurrentArtifact run def d \<noteq> None) (required_defs run phase d)
     \<and> isPhaseReady (rollupReadiness
          (map (\<lambda>g. blockingGateContribution g (current_defs run d)) (blocking_gates safeParse run d)))"
  by (auto simp: assertEvidenceReady_def Let_def rollup_ready gate_blocks_iff filter_empty_conv list_all_iff)

section \<open>Nothing ships unvalidated\<close>

lemma strict_blocking:
  assumes "g \<in> set rows" and "gr_mode g = Blocking" and "gr_nodeAttemptId g \<in> set live" and "gr_kind g \<noteq> ExternalCheck"
  shows "g \<in> set (liveBlockingGates rows live Strict)"
  using assms by (simp add: liveBlockingGates_def isEffectivelyBlockingGate_def Let_def)


text \<open>An unattended run whose one blocking gate passed.\<close>

definition unattended :: execution_policy where
  "unattended = \<lparr>ep_preset = Unattended, ep_overrides = None\<rparr>"

definition read_unattended :: "json \<Rightarrow> execution_policy option" where
  "read_unattended s = (if s = JObj [(''preset'', JStr ''unattended'')] then Some unattended else None)"

definition passed_row :: gate_result_row where
  "passed_row = \<lparr>gr_id = ''g'', gr_runId = ''r'', gr_nodeAttemptId = ''n'', gr_gateId = ''tests'', gr_kind = CommandCheck,
     gr_mode = Blocking, gr_status = GsPassed, gr_verdict = None, gr_inputArtifactRefs = None, gr_createdAt = 0\<rparr>"

definition gated_run :: db where
  "gated_run = empty_db\<lparr>
     runs := [(example_run ''r'' Running)\<lparr>r_executionPolicy := Some (JObj [(''preset'', JStr ''unattended'')])\<rparr>],
     nodeAttempts := [blank_attempt 0 ''n'' ''r'' ''build'' AiCoding 1 NaSucceeded],
     gateResults := [passed_row]\<rparr>"


end
