(* ===== verification/Consensus.thy ===== *)
theory Consensus
  imports GateVerdict Scheduler "HOL-Library.AList" "HOL-Library.Multiset"
begin

text \<open>
  The decision core of a consensus node (\<^verbatim>\<open>web/lib/flows/graph/consensus\<close>): reading a verifier's verdict
  (\<^verbatim>\<open>verdict.ts\<close>), counting the verdicts of a round (\<^verbatim>\<open>tally.ts\<close>), who verifies whom
  (\<^verbatim>\<open>rotation.ts\<close>) and the process-wide pool of ephemeral sessions (\<^verbatim>\<open>capacity.ts\<close>).

  \<^verbatim>\<open>JSON.parse\<close> is the parameter \<open>parse\<close>, \<open>None\<close> where it throws.
\<close>

section \<open>Verdicts\<close>

datatype consensus_value = Agree | Disagree

datatype parse_status = Parsed | InvalidJson | InvalidSchema | MissingAxes | UnknownAxes

record disagreement =
  dg_axis :: string
  dg_claim :: string
  dg_counterEvidence :: string

record consensus_verdict =
  cv_parseStatus :: parse_status
  cv_verdict :: consensus_value
  cv_axes :: "(string \<times> bool) list"
  cv_disagreements :: "disagreement list"
  cv_confidence :: "js_number option"
  cv_emptyDisagreement :: bool

definition closedAxes :: "string list \<Rightarrow> (string \<times> bool) list" where
  "closedAxes materialAxes = fold (\<lambda>axis. AList.update axis False) materialAxes []"

definition failClosed :: "parse_status \<Rightarrow> string list \<Rightarrow> consensus_verdict" where
  "failClosed status materialAxes = \<lparr>cv_parseStatus = status, cv_verdict = Disagree, cv_axes = closedAxes materialAxes,
     cv_disagreements = [], cv_confidence = None, cv_emptyDisagreement = False\<rparr>"

fun last_object :: "(string \<Rightarrow> json option) \<Rightarrow> string list \<Rightarrow> json option" where
  "last_object parse [] = None"
| "last_object parse (c # cs) =
     (case parse c of Some v \<Rightarrow> if is_object v then Some v else last_object parse cs | None \<Rightarrow> last_object parse cs)"

definition parseLastJsonObject :: "(string \<Rightarrow> json option) \<Rightarrow> string \<Rightarrow> json option" where
  "parseLastJsonObject parse output = last_object parse (rev (extractBalancedJsonObjects output))"

text \<open>
  A key that an object does not own may still be read from \<^verbatim>\<open>Object.prototype\<close>, where every value is a
  function or an object; and assigning a boolean to \<^verbatim>\<open>__proto__\<close> calls its setter, which ignores it.
\<close>

definition OBJECT_PROTOTYPE_KEYS :: "string list" where
  "OBJECT_PROTOTYPE_KEYS = [''constructor'', ''__defineGetter__'', ''__defineSetter__'', ''hasOwnProperty'',
     ''__lookupGetter__'', ''__lookupSetter__'', ''isPrototypeOf'', ''propertyIsEnumerable'', ''toString'',
     ''valueOf'', ''__proto__'', ''toLocaleString'']"

definition set_axis :: "string \<Rightarrow> bool \<Rightarrow> (string \<times> bool) list \<Rightarrow> (string \<times> bool) list" where
  "set_axis axis v axes = (if axis = ''__proto__'' then axes else AList.update axis v axes)"

fun read_axes :: "(string \<times> json) list \<Rightarrow> string list \<Rightarrow> (string \<times> bool) list \<Rightarrow> parse_status + (string \<times> bool) list" where
  "read_axes kvs [] axes = Inr axes"
| "read_axes kvs (axis # rest) axes =
     (case map_of kvs axis of
        Some (JBool v) \<Rightarrow> read_axes kvs rest (set_axis axis v axes)
      | Some _ \<Rightarrow> Inl InvalidSchema
      | None \<Rightarrow> Inl (if axis \<in> set OBJECT_PROTOTYPE_KEYS then InvalidSchema else MissingAxes))"

definition parseAxes :: "json option \<Rightarrow> string list \<Rightarrow> parse_status + (string \<times> bool) list" where
  "parseAxes rawAxes materialAxes =
     (case rawAxes of
        Some (JObj kvs) \<Rightarrow>
          if list_all (\<lambda>(axis, _). axis \<in> set materialAxes) kvs then read_axes kvs materialAxes [] else Inl UnknownAxes
      | _ \<Rightarrow> Inl MissingAxes)"

fun read_disagreements :: "string list \<Rightarrow> json list \<Rightarrow> parse_status + disagreement list" where
  "read_disagreements materialAxes [] = Inr []"
| "read_disagreements materialAxes (item # items) =
     (case item of
        JObj kvs \<Rightarrow>
          (case map_of kvs ''axis'' of
             Some (JStr axis) \<Rightarrow>
               if axis \<in> set materialAxes
               then (case (map_of kvs ''claim'', map_of kvs ''counter_evidence'') of
                       (Some (JStr claim), Some (JStr evidence)) \<Rightarrow>
                         rbind (read_disagreements materialAxes items) (\<lambda>ds.
                           Inr (\<lparr>dg_axis = axis, dg_claim = claim, dg_counterEvidence = evidence\<rparr> # ds))
                     | _ \<Rightarrow> Inl InvalidSchema)
               else Inl UnknownAxes
           | _ \<Rightarrow> Inl UnknownAxes)
      | _ \<Rightarrow> Inl InvalidSchema)"

definition parseDisagreements :: "json option \<Rightarrow> string list \<Rightarrow> parse_status + disagreement list" where
  "parseDisagreements raw materialAxes =
     (case raw of None \<Rightarrow> Inr [] | Some (JArr items) \<Rightarrow> read_disagreements materialAxes items | _ \<Rightarrow> Inl InvalidSchema)"

definition read_value :: "json \<Rightarrow> consensus_value option" where
  "read_value obj =
     (if own_prop obj ''verdict'' = Some (JStr ''agree'') then Some Agree
      else if own_prop obj ''verdict'' = Some (JStr ''disagree'') then Some Disagree else None)"

definition empty_disagreement :: "consensus_value \<Rightarrow> (string \<times> bool) list \<Rightarrow> disagreement list \<Rightarrow> bool" where
  "empty_disagreement v axes ds \<longleftrightarrow>
     v = Disagree \<and> list_all snd axes
     \<and> list_all (\<lambda>row. js_trim (dg_claim row) = [] \<and> js_trim (dg_counterEvidence row) = []) ds"

definition parseConsensusVerdict :: "(string \<Rightarrow> json option) \<Rightarrow> string \<Rightarrow> string list \<Rightarrow> consensus_verdict" where
  "parseConsensusVerdict parse output materialAxes =
     (case parseLastJsonObject parse output of
        None \<Rightarrow> failClosed InvalidJson materialAxes
      | Some obj \<Rightarrow>
          (case read_value obj of
             None \<Rightarrow> failClosed InvalidSchema materialAxes
           | Some v \<Rightarrow>
               (case parseAxes (own_prop obj ''axes'') materialAxes of
                  Inl status \<Rightarrow> failClosed status materialAxes
                | Inr axes \<Rightarrow>
                    (case parseDisagreements (own_prop obj ''disagreements'') materialAxes of
                       Inl status \<Rightarrow> failClosed status materialAxes
                     | Inr ds \<Rightarrow>
                         if empty_disagreement v axes ds
                         then (failClosed InvalidSchema materialAxes)\<lparr>cv_emptyDisagreement := True\<rparr>
                         else \<lparr>cv_parseStatus = Parsed, cv_verdict = v, cv_axes = axes, cv_disagreements = ds,
                                cv_confidence = (case own_prop obj ''confidence'' of
                                    Some (JNum x) \<Rightarrow> if is_finite_num x then Some x else None
                                  | _ \<Rightarrow> None),
                                cv_emptyDisagreement = False\<rparr>))))"

section \<open>The tally\<close>

record tally =
  t_agreementReached :: bool
  t_disagreementCount :: nat
  t_failedAxes :: "string list"
  t_disagreements :: "disagreement list"
  t_invalidVerdictCount :: nat

definition falseAxes :: "string list \<Rightarrow> consensus_verdict \<Rightarrow> string list" where
  "falseAxes materialAxes v = filter (\<lambda>axis. map_of (cv_axes v) axis \<noteq> Some True) materialAxes"

definition tally_step :: "string list \<Rightarrow> consensus_verdict \<Rightarrow> tally \<Rightarrow> tally" where
  "tally_step materialAxes v t =
     (let invalid = (cv_parseStatus v \<noteq> Parsed);
          disagreed = (invalid \<or> cv_verdict v \<noteq> Agree);
          bad = falseAxes materialAxes v
      in t\<lparr>t_invalidVerdictCount := (if invalid then t_invalidVerdictCount t + 1 else t_invalidVerdictCount t),
           t_disagreementCount := (if disagreed \<or> bad \<noteq> [] then t_disagreementCount t + 1 else t_disagreementCount t),
           t_failedAxes := fold set_add bad (t_failedAxes t),
           t_disagreements := t_disagreements t @ cv_disagreements v\<rparr>)"

definition tallyConsensus :: "string list \<Rightarrow> consensus_verdict list \<Rightarrow> tally" where
  "tallyConsensus materialAxes verdicts =
     (let t = fold (tally_step materialAxes) verdicts
            \<lparr>t_agreementReached = False, t_disagreementCount = 0, t_failedAxes = [], t_disagreements = [],
             t_invalidVerdictCount = 0\<rparr>
      in t\<lparr>t_agreementReached := (verdicts \<noteq> [] \<and> t_disagreementCount t = 0 \<and> t_failedAxes t = [])\<rparr>)"

section \<open>Rotation\<close>

datatype rotation_error = RangeError

definition buildConsensusRotation :: "ident list \<Rightarrow> rotation_error + (ident \<times> ident) list" where
  "buildConsensusRotation participantIds =
     (if length participantIds < 2 then Inl RangeError
      else Inr (map (\<lambda>(index, verifierId). (verifierId, participantIds ! ((index + 1) mod length participantIds)))
                    (enumerate 0 participantIds)))"

section \<open>Capacity\<close>

record capacity =
  activeConsensusSessions :: nat
  waiters :: "ident list"

text \<open>The woken waiter, if any, whose promise resolves with the release function.\<close>

definition releaseConsensusAgentCapacity :: "capacity \<Rightarrow> capacity \<times> ident option" where
  "releaseConsensusAgentCapacity c =
     (let active = activeConsensusSessions c - 1
      in case waiters c of
           [] \<Rightarrow> (c\<lparr>activeConsensusSessions := active\<rparr>, None)
         | w # ws \<Rightarrow> (c\<lparr>activeConsensusSessions := active + 1, waiters := ws\<rparr>, Some w))"

text \<open>Whether the caller was admitted at once or queued.\<close>

definition acquireConsensusAgentCapacity :: "cap_settings \<Rightarrow> ident \<Rightarrow> capacity \<Rightarrow> capacity \<times> bool" where
  "acquireConsensusAgentCapacity env caller c =
     (if int (activeConsensusSessions c) < agentCapFromEnv env
      then (c\<lparr>activeConsensusSessions := activeConsensusSessions c + 1\<rparr>, True)
      else (c\<lparr>waiters := waiters c @ [caller]\<rparr>, False))"

section \<open>Agreement\<close>

lemma map_of_set_axis: "map_of (set_axis axis v axes) = (if axis = ''__proto__'' then map_of axes else (map_of axes)(axis \<mapsto> v))"
  by (simp add: set_axis_def update_conv')

lemma read_axes_Cons:
  "read_axes kvs (axis # mat) axes = Inr axes' \<longleftrightarrow>
     (\<exists>v. map_of kvs axis = Some (JBool v) \<and> read_axes kvs mat (set_axis axis v axes) = Inr axes')"
  by (simp split: option.splits json.splits)

lemma read_axes_lookup:
  "read_axes kvs mat axes = Inr axes' \<Longrightarrow>
     map_of axes' a = (if a \<in> set mat \<and> a \<noteq> ''__proto__'' then
        (case map_of kvs a of Some (JBool b) \<Rightarrow> Some b | _ \<Rightarrow> None) else map_of axes a)"
proof (induction mat arbitrary: axes)
  case (Cons axis mat)
  then obtain v where "map_of kvs axis = Some (JBool v)" "read_axes kvs mat (set_axis axis v axes) = Inr axes'"
    unfolding read_axes_Cons by blast
  with Cons.IH[of "set_axis axis v axes"] show ?case by (auto simp: map_of_set_axis)
qed simp

lemma read_axes_total:
  "(\<exists>axes'. read_axes kvs mat axes = Inr axes') \<longleftrightarrow> list_all (\<lambda>a. \<exists>b. map_of kvs a = Some (JBool b)) mat"
  by (induction kvs mat axes rule: read_axes.induct) (auto split: option.splits json.splits)

lemma failClosed_closed: "cv_parseStatus (failClosed status mat) = status" "cv_verdict (failClosed status mat) = Disagree"
  by (simp_all add: failClosed_def)

lemma parseAxes_not_parsed: "parseAxes raw mat = Inl st \<Longrightarrow> st \<noteq> Parsed"
proof -
  have "read_axes kvs mat axes = Inl st \<Longrightarrow> st \<noteq> Parsed" for kvs axes
    by (induction kvs mat axes rule: read_axes.induct) (auto split: option.splits json.splits if_splits)
  then show "parseAxes raw mat = Inl st \<Longrightarrow> st \<noteq> Parsed"
    by (auto simp: parseAxes_def split: option.splits json.splits if_splits)
qed

lemma tally_fold:
  "t_disagreementCount (fold (tally_step mat) vs t) = 0 \<and> t_failedAxes (fold (tally_step mat) vs t) = [] \<longleftrightarrow>
     list_all (\<lambda>v. cv_parseStatus v = Parsed \<and> cv_verdict v = Agree \<and> falseAxes mat v = []) vs
     \<and> t_disagreementCount t = 0 \<and> t_failedAxes t = []"
proof (induction vs arbitrary: t)
  case (Cons v vs)
  have "fold set_add bad xs = [] \<longleftrightarrow> bad = [] \<and> xs = []" for bad xs :: "string list"
    using fold_set_add[of bad xs] by (metis Un_empty set_empty)
  with Cons show ?case by (auto simp: tally_step_def Let_def)
qed simp

text \<open>
  What a verifier's output must say to count as agreement: its last JSON object answers \<^verbatim>\<open>agree\<close>, affirms
  every material axis and no other, and lists no ill-formed disagreement.
\<close>

definition endorses :: "(string \<Rightarrow> json option) \<Rightarrow> string list \<Rightarrow> string \<Rightarrow> bool" where
  "endorses parse mat output \<longleftrightarrow>
     (\<exists>obj kvs ds. parseLastJsonObject parse output = Some obj \<and> own_prop obj ''verdict'' = Some (JStr ''agree'')
        \<and> own_prop obj ''axes'' = Some (JObj kvs) \<and> fst ` set kvs \<subseteq> set mat
        \<and> (\<forall>a \<in> set mat. a \<noteq> ''__proto__'' \<and> map_of kvs a = Some (JBool True))
        \<and> parseDisagreements (own_prop obj ''disagreements'') mat = Inr ds)"

lemma axes_affirmed:
  "(\<exists>axes. parseAxes raw mat = Inr axes \<and> (\<forall>a \<in> set mat. map_of axes a = Some True)) \<longleftrightarrow>
   (\<exists>kvs. raw = Some (JObj kvs) \<and> fst ` set kvs \<subseteq> set mat
      \<and> (\<forall>a \<in> set mat. a \<noteq> ''__proto__'' \<and> map_of kvs a = Some (JBool True)))"
proof
  assume "\<exists>axes. parseAxes raw mat = Inr axes \<and> (\<forall>a \<in> set mat. map_of axes a = Some True)"
  then obtain axes kvs where raw: "raw = Some (JObj kvs)" and known: "list_all (\<lambda>(axis, _). axis \<in> set mat) kvs"
    and read: "read_axes kvs mat [] = Inr axes" and all: "\<forall>a \<in> set mat. map_of axes a = Some True"
    by (auto simp: parseAxes_def split: option.splits json.splits if_splits)
  have "a \<noteq> ''__proto__'' \<and> map_of kvs a = Some (JBool True)" if "a \<in> set mat" for a
    using all that read_axes_lookup[OF read, of a] by (auto split: if_splits option.splits json.splits)
  with raw known show "\<exists>kvs. raw = Some (JObj kvs) \<and> fst ` set kvs \<subseteq> set mat
      \<and> (\<forall>a \<in> set mat. a \<noteq> ''__proto__'' \<and> map_of kvs a = Some (JBool True))"
    by (auto simp: list_all_iff)
next
  assume "\<exists>kvs. raw = Some (JObj kvs) \<and> fst ` set kvs \<subseteq> set mat
      \<and> (\<forall>a \<in> set mat. a \<noteq> ''__proto__'' \<and> map_of kvs a = Some (JBool True))"
  then obtain kvs where raw: "raw = Some (JObj kvs)" and known: "fst ` set kvs \<subseteq> set mat"
    and all: "\<forall>a \<in> set mat. a \<noteq> ''__proto__'' \<and> map_of kvs a = Some (JBool True)" by blast
  then obtain axes where read: "read_axes kvs mat [] = Inr axes"
    using read_axes_total[of kvs mat "[]"] by (auto simp: list_all_iff)
  moreover have "map_of axes a = Some True" if "a \<in> set mat" for a
    using all that read_axes_lookup[OF read, of a] by simp
  moreover have "parseAxes raw mat = read_axes kvs mat []"
    using known by (auto simp: raw parseAxes_def list_all_iff)
  ultimately show "\<exists>axes. parseAxes raw mat = Inr axes \<and> (\<forall>a \<in> set mat. map_of axes a = Some True)" by auto
qed

lemma endorsed_verdict:
  "cv_parseStatus (parseConsensusVerdict parse output mat) = Parsed
     \<and> cv_verdict (parseConsensusVerdict parse output mat) = Agree
     \<and> falseAxes mat (parseConsensusVerdict parse output mat) = [] \<longleftrightarrow> endorses parse mat output"
proof (cases "parseLastJsonObject parse output")
  case (Some obj)
  show ?thesis
  proof (cases "own_prop obj ''verdict'' = Some (JStr ''agree'')")
    case True
    then have "read_value obj = Some Agree" by (simp add: read_value_def)
    then have "?thesis \<longleftrightarrow>
      ((\<exists>axes. parseAxes (own_prop obj ''axes'') mat = Inr axes \<and> (\<forall>a \<in> set mat. map_of axes a = Some True))
        \<and> (\<exists>ds. parseDisagreements (own_prop obj ''disagreements'') mat = Inr ds) \<longleftrightarrow> endorses parse mat output)"
      using parseAxes_not_parsed
      by (auto simp: parseConsensusVerdict_def Some failClosed_closed empty_disagreement_def falseAxes_def
          filter_empty_conv split: sum.splits)
    then show ?thesis using True unfolding axes_affirmed by (auto simp: endorses_def Some)
  qed (auto simp: endorses_def Some parseConsensusVerdict_def read_value_def failClosed_closed split: sum.splits if_splits)
qed (simp add: endorses_def parseConsensusVerdict_def failClosed_closed)

text \<open>
  C29: a consensus round ends in agreement exactly when there was at least one verifier and the output of every
  one of them endorses the draft: a missing, malformed, partial or off-topic answer can only count against.
\<close>

theorem consensus_agreement:
  "t_agreementReached (tallyConsensus axes (map (\<lambda>output. parseConsensusVerdict parse output axes) outputs)) \<longleftrightarrow>
     outputs \<noteq> [] \<and> list_all (endorses parse axes) outputs"
proof -
  have "t_agreementReached (tallyConsensus axes vs) \<longleftrightarrow>
      vs \<noteq> [] \<and> list_all (\<lambda>v. cv_parseStatus v = Parsed \<and> cv_verdict v = Agree \<and> falseAxes axes v = []) vs" for vs
    using tally_fold[of axes vs] by (auto simp: tallyConsensus_def Let_def)
  then show ?thesis by (auto simp: list_all_iff endorsed_verdict)
qed

section \<open>Nobody verifies their own draft\<close>

lemma rotation_zip: "2 \<le> length ids \<Longrightarrow> buildConsensusRotation ids = Inr (zip ids (rotate1 ids))"
  by (auto simp: buildConsensusRotation_def nth_rotate1 nth_enumerate_eq intro!: nth_equalityI)

text \<open>
  the verification rotation of distinct participants is refused below two of them and otherwise gives every
  participant exactly one draft to verify, every draft exactly one verifier, and nobody their own draft.
\<close>

lemma rotation_covers:
  assumes "distinct ids"
  shows "if length ids < 2 then buildConsensusRotation ids = Inl RangeError
    else \<exists>rs. buildConsensusRotation ids = Inr rs \<and> map fst rs = ids \<and> mset (map snd rs) = mset ids
           \<and> list_all (\<lambda>(verifier, target). verifier \<noteq> target) rs"
proof (cases "length ids < 2")
  case False
  have "ids ! i \<noteq> rotate1 ids ! i" if "i < length ids" for i
  proof -
    have "Suc i mod length ids \<noteq> i" "Suc i mod length ids < length ids"
      using that False by (auto simp: mod_Suc)
    with assms that show ?thesis by (simp add: nth_rotate1 nth_eq_iff_index_eq)
  qed
  moreover have "mset (map snd (zip ids (rotate1 ids))) = mset ids"
    by (cases ids) (simp_all only: map_snd_zip length_rotate1, simp_all)
  ultimately show ?thesis using False by (simp add: rotation_zip list_all_length del: mset_map)
qed (simp add: buildConsensusRotation_def)

lemma rotation_covers_witness:
  "\<exists>rs. buildConsensusRotation [''a'', ''b'', ''c''] = Inr rs \<and> map fst rs = [''a'', ''b'', ''c'']
     \<and> mset (map snd rs) = mset [''a'', ''b'', ''c''] \<and> list_all (\<lambda>(verifier, target). verifier \<noteq> target) rs"
  using rotation_covers[of "[''a'', ''b'', ''c'']"] by simp

section \<open>The pool serves in order\<close>

text \<open>
  Callers of the pool: each acquires once, and releases at most once and only after it was admitted (the two
  call sites release in a \<^verbatim>\<open>finally\<close>).  The logs keep the order of requests, admissions and releases.
\<close>

record pool =
  pl_capacity :: capacity
  pl_requested :: "ident list"
  pl_granted :: "ident list"
  pl_released :: "ident list"

definition idle_pool :: pool where
  "idle_pool = \<lparr>pl_capacity = \<lparr>activeConsensusSessions = 0, waiters = []\<rparr>, pl_requested = [], pl_granted = [], pl_released = []\<rparr>"

inductive pool_step :: "cap_settings \<Rightarrow> pool \<Rightarrow> pool \<Rightarrow> bool" for env where
  pool_acquire: "caller \<notin> set (pl_requested p) \<Longrightarrow>
    acquireConsensusAgentCapacity env caller (pl_capacity p) = (c, now) \<Longrightarrow>
    pool_step env p (p\<lparr>pl_capacity := c, pl_requested := pl_requested p @ [caller],
      pl_granted := pl_granted p @ (if now then [caller] else [])\<rparr>)"
| pool_release: "holder \<in> set (pl_granted p) - set (pl_released p) \<Longrightarrow>
    releaseConsensusAgentCapacity (pl_capacity p) = (c, woken) \<Longrightarrow>
    pool_step env p (p\<lparr>pl_capacity := c, pl_released := pl_released p @ [holder],
      pl_granted := pl_granted p @ (case woken of None \<Rightarrow> [] | Some w \<Rightarrow> [w])\<rparr>)"

definition pool_inv :: "nat \<Rightarrow> pool \<Rightarrow> bool" where
  "pool_inv cap p \<longleftrightarrow>
     pl_requested p = pl_granted p @ waiters (pl_capacity p)
     \<and> set (pl_released p) \<subseteq> set (pl_granted p) \<and> distinct (pl_released p)
     \<and> length (pl_granted p) = length (pl_released p) + activeConsensusSessions (pl_capacity p)
     \<and> activeConsensusSessions (pl_capacity p) \<le> cap
     \<and> (waiters (pl_capacity p) \<noteq> [] \<longrightarrow> activeConsensusSessions (pl_capacity p) = cap)"

lemma pool_inv_acquire:
  assumes "pool_inv (nat (agentCapFromEnv env)) p" and "acquireConsensusAgentCapacity env caller (pl_capacity p) = (c, now)"
  shows "pool_inv (nat (agentCapFromEnv env)) (p\<lparr>pl_capacity := c, pl_requested := pl_requested p @ [caller],
      pl_granted := pl_granted p @ (if now then [caller] else [])\<rparr>)"
  using assms by (auto simp: pool_inv_def acquireConsensusAgentCapacity_def split: if_splits)

lemma pool_inv_release:
  assumes "pool_inv cap p" and "releaseConsensusAgentCapacity (pl_capacity p) = (c, woken)"
    and "holder \<in> set (pl_granted p) - set (pl_released p)"
  shows "pool_inv cap (p\<lparr>pl_capacity := c, pl_released := pl_released p @ [holder],
      pl_granted := pl_granted p @ (case woken of None \<Rightarrow> [] | Some w \<Rightarrow> [w])\<rparr>)"
proof -
  have "card (set (pl_released p)) < card (set (pl_granted p))"
    using assms(1,3) by (intro psubset_card_mono) (auto simp: pool_inv_def)
  also have "\<dots> \<le> length (pl_granted p)" by (rule card_length)
  finally have "0 < activeConsensusSessions (pl_capacity p)"
    using assms(1) by (auto simp: pool_inv_def distinct_card)
  with assms show ?thesis
    by (auto simp: pool_inv_def releaseConsensusAgentCapacity_def Let_def split: list.splits)
qed

lemma pool_reachable_inv: "(pool_step env)\<^sup>*\<^sup>* idle_pool p \<Longrightarrow> pool_inv (nat (agentCapFromEnv env)) p"
proof (induction rule: rtranclp_induct)
  case base
  then show ?case by (simp add: pool_inv_def idle_pool_def)
next
  case (step p q)
  from step(2,3) show ?case by (cases rule: pool_step.cases) (blast intro: pool_inv_acquire pool_inv_release)+
qed

text \<open>
  C30: the pool of ephemeral consensus sessions is first come, first served and loses no wake-up.  In every
  interleaving of acquisitions and releases the callers admitted so far are exactly the first
  \<open>cap + releases\<close> requests, in order: the caller queued at position \<open>n\<close> runs as soon as enough sessions
  ended, and never more than \<open>cap\<close> run at once.
\<close>

theorem capacity_serves_in_order:
  assumes "(pool_step env)\<^sup>*\<^sup>* idle_pool p"
  shows "pl_granted p = take (nat (agentCapFromEnv env) + length (pl_released p)) (pl_requested p)
    \<and> waiters (pl_capacity p) = drop (nat (agentCapFromEnv env) + length (pl_released p)) (pl_requested p)
    \<and> length (pl_granted p) - length (pl_released p) \<le> nat (agentCapFromEnv env)
    \<and> 1 \<le> agentCapFromEnv env"
  using pool_reachable_inv[OF assms] by (auto simp: pool_inv_def agentCapFromEnv_def parseCapEnv_pos)

text \<open>One slot: the second caller waits for the first.\<close>

definition one_slot :: cap_settings where
  "one_slot = \<lparr>cs_maxConcurrentRuns = None, cs_maxConcurrentAgents = Some ''1'', cs_maxConcurrentAssistants = None, cs_librarianTurns = 1\<rparr>"


definition served_pool :: pool where
  "served_pool = \<lparr>pl_capacity = \<lparr>activeConsensusSessions = 1, waiters = []\<rparr>, pl_requested = [''a'', ''b''],
     pl_granted = [''a'', ''b''], pl_released = [''a'']\<rparr>"

theorem capacity_serves_in_order_witness:
  "(pool_step one_slot)\<^sup>*\<^sup>* idle_pool served_pool
   \<and> pl_granted served_pool = take (1 + 1) [''a'', ''b''] \<and> agentCapFromEnv one_slot = 1"
proof -
  let ?p = "\<lambda>n ws req gr. \<lparr>pl_capacity = \<lparr>activeConsensusSessions = n, waiters = ws\<rparr>, pl_requested = req, pl_granted = gr, pl_released = []\<rparr>"
  have cap: "agentCapFromEnv one_slot = 1" by code_simp
  have "pool_step one_slot idle_pool (?p 1 [] [''a''] [''a''])"
    using pool_acquire[of "''a''" idle_pool one_slot]
    by (simp add: idle_pool_def acquireConsensusAgentCapacity_def cap)
  moreover have "pool_step one_slot (?p 1 [] [''a''] [''a'']) (?p 1 [''b''] [''a'', ''b''] [''a''])"
    using pool_acquire[of "''b''" "?p 1 [] [''a''] [''a'']" one_slot _ False]
    by (simp add: acquireConsensusAgentCapacity_def cap)
  moreover have "pool_step one_slot (?p 1 [''b''] [''a'', ''b''] [''a'']) served_pool"
    using pool_release[of "''a''" "?p 1 [''b''] [''a'', ''b''] [''a'']"]
    by (simp add: releaseConsensusAgentCapacity_def served_pool_def)
  ultimately have reach: "(pool_step one_slot)\<^sup>*\<^sup>* idle_pool served_pool"
    by (meson rtranclp.rtrancl_into_rtrancl rtranclp.rtrancl_refl)
  with capacity_serves_in_order[OF reach] cap show ?thesis by (simp add: served_pool_def)
qed

end
