(* ===== verification/ConsensusText.thy ===== *)
theory ConsensusText
  imports JsValue Streams "HOL-Library.Word"
begin

text \<open>
  Bounding consensus texts by their UTF-8 size (\<^verbatim>\<open>web/lib/flows/graph/consensus/text.ts\<close>): the streaming
  capture of a generation and the truncation with an exact marker.

  Here a JavaScript string is what it is in memory, a list of 16-bit code units, because the code is about
  surrogates.  \<open>points\<close> is the string iterator: a high surrogate followed by a low one is one code point, every
  other unit is a point of its own.  \<open>byteLength\<close> is \<^verbatim>\<open>Buffer.byteLength(s, "utf8")\<close>: a pair takes four
  bytes, a lone surrogate the three bytes of the replacement character.
\<close>

section \<open>Code units\<close>

type_synonym unit16 = "16 word"

definition is_high :: "unit16 \<Rightarrow> bool" where
  "is_high u \<longleftrightarrow> 0xD800 \<le> u \<and> u \<le> 0xDBFF"

definition is_low :: "unit16 \<Rightarrow> bool" where
  "is_low u \<longleftrightarrow> 0xDC00 \<le> u \<and> u \<le> 0xDFFF"

fun points :: "unit16 list \<Rightarrow> unit16 list list" where
  "points [] = []"
| "points [u] = [[u]]"
| "points (u # v # us) = (if is_high u \<and> is_low v then [u, v] # points us else [u] # points (v # us))"

definition unit_bytes :: "unit16 \<Rightarrow> nat" where
  "unit_bytes u = (if u < 0x80 then 1 else if u < 0x800 then 2 else 3)"

definition point_bytes :: "unit16 list \<Rightarrow> nat" where
  "point_bytes p = (case p of [u] \<Rightarrow> unit_bytes u | _ \<Rightarrow> 4)"

definition bytes_of :: "unit16 list list \<Rightarrow> nat" where
  "bytes_of ps = sum_list (map point_bytes ps)"

definition byteLength :: "unit16 list \<Rightarrow> nat" where
  "byteLength s = bytes_of (points s)"

section \<open>Streaming capture\<close>

record retained_output =
  ro_text :: "unit16 list"
  ro_retainedBytes :: nat
  ro_droppedBytes :: nat
  ro_pendingHighSurrogate :: "unit16 list option"

text \<open>The loop over the points of a chunk: bytes and units kept so far, until the first point that does not fit.\<close>

fun retain_points :: "nat \<Rightarrow> unit16 list list \<Rightarrow> nat \<times> nat \<Rightarrow> nat \<times> nat" where
  "retain_points cap [] kept = kept"
| "retain_points cap (p # ps) (bytes, units) =
     (if bytes + point_bytes p > cap then (bytes, units)
      else retain_points cap ps (bytes + point_bytes p, units + length p))"

definition pending_units :: "retained_output \<Rightarrow> unit16 list" where
  "pending_units r = (case ro_pendingHighSurrogate r of None \<Rightarrow> [] | Some h \<Rightarrow> h)"

definition pending_of :: "unit16 list \<Rightarrow> unit16 list option" where
  "pending_of joined = (if joined \<noteq> [] \<and> is_high (last joined) then Some [last joined] else None)"

definition complete_of :: "unit16 list \<Rightarrow> unit16 list" where
  "complete_of joined = (if joined \<noteq> [] \<and> is_high (last joined) then butlast joined else joined)"

definition absorb_chunk :: "retained_output \<Rightarrow> unit16 list \<Rightarrow> unit16 list option \<Rightarrow> nat \<Rightarrow> retained_output" where
  "absorb_chunk current completeChunk pending cap =
     (if ro_droppedBytes current > 0
      then current\<lparr>ro_droppedBytes := ro_droppedBytes current + byteLength completeChunk,
                   ro_pendingHighSurrogate := pending\<rparr>
      else let (bytes, units) = retain_points cap (points completeChunk) (ro_retainedBytes current, 0)
           in \<lparr>ro_text = ro_text current @ take units completeChunk,
               ro_retainedBytes = bytes,
               ro_droppedBytes = ro_droppedBytes current + byteLength (drop units completeChunk),
               ro_pendingHighSurrogate = pending\<rparr>)"

definition retainConsensusOutput :: "retained_output \<Rightarrow> unit16 list \<Rightarrow> nat \<Rightarrow> retained_output" where
  "retainConsensusOutput current chunk cap =
     (let joined = pending_units current @ chunk
      in absorb_chunk current (complete_of joined) (pending_of joined) cap)"

definition finishConsensusOutput :: "retained_output \<Rightarrow> nat \<Rightarrow> retained_output" where
  "finishConsensusOutput current cap =
     (case ro_pendingHighSurrogate current of
        None \<Rightarrow> current
      | Some pending \<Rightarrow>
          if pending = [] then current
          else let pendingBytes = byteLength pending
               in if ro_droppedBytes current > 0 \<or> ro_retainedBytes current + pendingBytes > cap
                  then current\<lparr>ro_droppedBytes := ro_droppedBytes current + pendingBytes, ro_pendingHighSurrogate := None\<rparr>
                  else current\<lparr>ro_text := ro_text current @ pending,
                               ro_retainedBytes := ro_retainedBytes current + pendingBytes, ro_pendingHighSurrogate := None\<rparr>)"

section \<open>Truncation with a marker\<close>

record text_bounds =
  tb_bytes :: nat
  tb_retainedBytes :: nat
  tb_droppedBytes :: nat
  tb_cap :: nat

record bounded_text =
  bt_text :: "unit16 list"
  bt_truncated :: bool
  bt_bounds :: text_bounds

datatype bound_error = CapCannotFitMarker nat

definition units_of :: "string \<Rightarrow> unit16 list" where
  "units_of s = map (\<lambda>c. of_nat (of_char c)) s"

definition truncation_marker :: "nat \<Rightarrow> nat \<Rightarrow> unit16 list" where
  "truncation_marker droppedBytes cap =
     units_of (CHR 0x0A # ''[consensus text truncated: dropped '' @ nat_digits droppedBytes @ '' UTF-8 bytes; cap ''
       @ nat_digits cap @ '' bytes]'')"

text \<open>The scan: prefix bytes and units, and the last prefix that fitted with its marker.\<close>

fun bound_scan :: "nat \<Rightarrow> nat \<Rightarrow> unit16 list list \<Rightarrow> nat \<times> nat \<Rightarrow> nat \<times> nat \<Rightarrow> nat \<times> nat" where
  "bound_scan bytes cap [] before kept = kept"
| "bound_scan bytes cap (p # ps) (prefixBytes, prefixUnits) kept =
     (let b = prefixBytes + point_bytes p; u = prefixUnits + length p
      in if b + byteLength (truncation_marker (bytes - b) cap) > cap then kept
         else bound_scan bytes cap ps (b, u) (b, u))"

definition boundConsensusText :: "unit16 list \<Rightarrow> nat \<Rightarrow> bound_error + bounded_text" where
  "boundConsensusText val cap =
     (let bytes = byteLength val
      in if bytes \<le> cap
         then Inr \<lparr>bt_text = val, bt_truncated = False,
                   bt_bounds = \<lparr>tb_bytes = bytes, tb_retainedBytes = bytes, tb_droppedBytes = 0, tb_cap = cap\<rparr>\<rparr>
         else let (retainedBytes, retainedUnits) = bound_scan bytes cap (points val) (0, 0) (0, 0);
                  droppedBytes = bytes - retainedBytes;
                  marker = truncation_marker droppedBytes cap
              in if byteLength marker > cap then Inl (CapCannotFitMarker cap)
                 else Inr \<lparr>bt_text = take retainedUnits val @ marker, bt_truncated = True,
                   bt_bounds = \<lparr>tb_bytes = bytes, tb_retainedBytes = retainedBytes, tb_droppedBytes = droppedBytes, tb_cap = cap\<rparr>\<rparr>)"

section \<open>Stop reasons\<close>

definition consensusTurnStopReason :: "string \<Rightarrow> json option \<Rightarrow> string" where
  "consensusTurnStopReason state response =
     (if state \<noteq> ''succeeded'' then ''host_failure''
      else case Option.bind response (\<lambda>r. own_prop r ''stopReason'') of
             Some (JStr reason) \<Rightarrow> reason
           | _ \<Rightarrow> ''stop_reason_unavailable'')"

section \<open>Points\<close>

lemma concat_points [simp]: "concat (points s) = s"
  by (induction s rule: points.induct) auto

lemma points_Nil_iff [simp]: "points s = [] \<longleftrightarrow> s = []"
  by (cases s rule: points.cases) auto

lemma point_shape: "p \<in> set (points s) \<Longrightarrow> (\<exists>u. p = [u]) \<or> (\<exists>u v. p = [u, v] \<and> is_high u \<and> is_low v)"
  by (induction s rule: points.induct) (auto split: if_splits)

lemma point_bytes_pos: "0 < point_bytes p"
  by (auto simp: point_bytes_def unit_bytes_def split: list.splits)

lemma high_not_low: "is_high u \<Longrightarrow> \<not> is_low u"
  by (simp add: is_high_def is_low_def word_le_nat_alt)

text \<open>Splitting between two units that are not a pair splits the points.\<close>

lemma points_append:
  "\<not> (a \<noteq> [] \<and> b \<noteq> [] \<and> is_high (last a) \<and> is_low (hd b)) \<Longrightarrow> points (a @ b) = points a @ points b"
proof (induction a rule: points.induct)
  case (2 u)
  then show ?case by (cases b) auto
next
  case (3 u v us)
  then show ?case by (cases "us = []") auto
qed simp

lemma points_Cons: "points s = p # ps \<Longrightarrow> points (concat ps) = ps"
  by (induction s rule: points.induct) (auto split: if_splits)

lemma points_suffix: "points s = a @ b \<Longrightarrow> points (concat b) = b"
proof (induction a arbitrary: s)
  case Nil
  then show ?case by (metis append_Nil concat_points)
next
  case (Cons p a)
  then show ?case using points_Cons[of s p "a @ b"] Cons.IH[of "concat (a @ b)"] by simp
qed

lemma bytes_of_append [simp]: "bytes_of (a @ b) = bytes_of a + bytes_of b"
  by (simp add: bytes_of_def)

lemma bytes_of_simps [simp]: "bytes_of [] = 0" "bytes_of (p # ps) = point_bytes p + bytes_of ps"
  by (simp_all add: bytes_of_def)

lemma bytes_of_0_iff: "bytes_of ps = 0 \<longleftrightarrow> ps = []"
  using point_bytes_pos by (cases ps) (auto simp: bytes_of_def)

lemma points_prefix: "points s = a @ b \<Longrightarrow> points (concat a) = a"
proof (induction s arbitrary: a rule: points.induct)
  case (2 u)
  then show ?case by (auto simp: Cons_eq_append_conv)
next
  case (3 u v us)
  show ?case
  proof (cases "is_high u \<and> is_low v")
    case True
    with 3 show ?thesis by (auto simp: Cons_eq_append_conv)
  next
    case False
    then consider "a = []" | a' where "a = [u] # a'" "points (v # us) = a' @ b"
      using 3(3) by (auto simp: Cons_eq_append_conv)
    then show ?thesis
    proof cases
      case 2
      have IH: "points (concat a') = a'" using 3(2)[OF False] 2 by blast
      show ?thesis
      proof (cases "concat a'")
        case Nil
        with 2 IH show ?thesis by simp
      next
        case (Cons w ws)
        have "concat a' @ concat b = v # us" by (metis 2(2) concat_append concat_points)
        with Cons False have "\<not> (is_high u \<and> is_low w)" by simp
        with 2 IH Cons show ?thesis by simp
      qed
    qed simp
  qed
qed simp

lemma byteLength_prefix: "points s = a @ b \<Longrightarrow> byteLength (concat a) = bytes_of a"
  by (simp add: byteLength_def points_prefix)

lemma byteLength_suffix: "points s = a @ b \<Longrightarrow> byteLength (concat b) = bytes_of b"
  by (simp add: byteLength_def points_suffix)

section \<open>The capture is greedy\<close>

fun fitting :: "nat \<Rightarrow> unit16 list list \<Rightarrow> unit16 list list" where
  "fitting budget [] = []"
| "fitting budget (p # ps) = (if point_bytes p > budget then [] else p # fitting (budget - point_bytes p) ps)"

lemma fitting_split:
  "\<exists>rest. ps = fitting budget ps @ rest \<and> (rest = [] \<or> budget < bytes_of (fitting budget ps) + point_bytes (hd rest))"
proof (induction budget ps rule: fitting.induct)
  case (2 budget p ps)
  show ?case
  proof (cases "point_bytes p > budget")
    case False
    with 2 obtain rest where "ps = fitting (budget - point_bytes p) ps @ rest"
      "rest = [] \<or> budget - point_bytes p < bytes_of (fitting (budget - point_bytes p) ps) + point_bytes (hd rest)" by blast
    with False show ?thesis by (intro exI[of _ rest]) auto
  qed simp
qed simp

lemma fitting_le: "bytes_of (fitting budget ps) \<le> budget"
  by (induction budget ps rule: fitting.induct) auto

lemma fitting_append:
  "fitting budget (a @ b) = (if fitting budget a = a then a @ fitting (budget - bytes_of a) b else fitting budget a)"
  by (induction budget a rule: fitting.induct) auto

lemma retain_points_fitting:
  "bytes \<le> cap \<Longrightarrow> retain_points cap ps (bytes, units) =
     (bytes + bytes_of (fitting (cap - bytes) ps), units + length (concat (fitting (cap - bytes) ps)))"
proof (induction cap ps "(bytes, units)" arbitrary: bytes units rule: retain_points.induct)
  case (2 cap p ps bytes units)
  then show ?case by (auto simp: diff_diff_eq)
qed simp

definition captured :: "nat \<Rightarrow> unit16 list \<Rightarrow> unit16 list option \<Rightarrow> retained_output" where
  "captured cap s pending =
     \<lparr>ro_text = concat (fitting cap (points s)), ro_retainedBytes = bytes_of (fitting cap (points s)),
      ro_droppedBytes = byteLength s - bytes_of (fitting cap (points s)), ro_pendingHighSurrogate = pending\<rparr>"

lemma captured_pending [simp]: "ro_pendingHighSurrogate (captured cap s pending) = pending"
  by (simp add: captured_def)

lemma fitting_bytes: "bytes_of (fitting budget ps) \<le> bytes_of ps"
  "bytes_of (fitting budget ps) = bytes_of ps \<longleftrightarrow> fitting budget ps = ps"
proof -
  obtain rest where "ps = fitting budget ps @ rest" using fitting_split by blast
  then have "bytes_of ps = bytes_of (fitting budget ps) + bytes_of rest" "fitting budget ps = ps \<longleftrightarrow> rest = []"
    by (metis bytes_of_append, metis append_self_conv)
  then show "bytes_of (fitting budget ps) \<le> bytes_of ps"
    "bytes_of (fitting budget ps) = bytes_of ps \<longleftrightarrow> fitting budget ps = ps"
    by (simp_all add: bytes_of_0_iff)
qed

lemma captured_dropped: "ro_droppedBytes (captured cap s pending) > 0 \<longleftrightarrow> fitting cap (points s) \<noteq> points s"
  using fitting_bytes[of cap "points s"] by (auto simp: captured_def byteLength_def)

lemma take_points: "points s = a @ b \<Longrightarrow> take (length (concat a)) s = concat a \<and> drop (length (concat a)) s = concat b"
  by (metis append_eq_conv_conj concat_append concat_points)

text \<open>A chunk that does not split a pair extends the captured text.\<close>

lemma absorb_captured:
  assumes "\<not> (s \<noteq> [] \<and> whole \<noteq> [] \<and> is_high (last s) \<and> is_low (hd whole))"
  shows "absorb_chunk (captured cap s before) whole pending cap = captured cap (s @ whole) pending"
proof (cases "fitting cap (points s) = points s")
  case True
  let ?keep = "fitting (cap - bytes_of (points s)) (points whole)"
  have pts: "points (s @ whole) = points s @ points whole" using assms by (rule points_append)
  have fit: "fitting cap (points s @ points whole) = points s @ ?keep" by (simp add: fitting_append True)
  obtain rest where rest: "points whole = ?keep @ rest" using fitting_split by blast
  have "bytes_of (points whole) = bytes_of ?keep + bytes_of rest" by (subst rest) simp
  moreover have "bytes_of (points s) \<le> cap" using fitting_le[of cap "points s"] True by simp
  moreover have "ro_droppedBytes (captured cap s before) = 0" using captured_dropped[of cap s before] True by simp
  ultimately show ?thesis
    using take_points[OF rest] byteLength_suffix[OF rest]
    by (simp add: absorb_chunk_def retain_points_fitting captured_def fit True byteLength_def pts)
next
  case False
  have "points (s @ whole) = points s @ points whole" using assms by (rule points_append)
  moreover from this have "fitting cap (points (s @ whole)) = fitting cap (points s)"
    by (simp add: fitting_append False)
  moreover have "ro_droppedBytes (captured cap s before) > 0" using captured_dropped[of cap s before] False by simp
  ultimately show ?thesis
    using fitting_bytes(1)[of cap "points s"] by (simp add: absorb_chunk_def captured_def byteLength_def)
qed

text \<open>After the text \<open>t\<close> the state holds its complete part and a final high surrogate aside.\<close>

definition streamed :: "nat \<Rightarrow> unit16 list \<Rightarrow> retained_output" where
  "streamed cap t = captured cap (complete_of t) (pending_of t)"

lemma streamed_split: "complete_of t @ pending_units (streamed cap t) = t"
  by (auto simp: streamed_def complete_of_def pending_of_def pending_units_def captured_def)

lemma retain_streamed: "retainConsensusOutput (streamed cap t) chunk cap = streamed cap (t @ chunk)"
proof (cases "pending_units (streamed cap t) @ chunk = []")
  case True
  then have t: "complete_of t = t" "pending_of t = None" "chunk = []"
    using streamed_split[of t cap] by (auto simp: streamed_def pending_units_def captured_def complete_of_def pending_of_def split: if_splits)
  with True absorb_captured[of t "[]" cap None None] show ?thesis
    by (simp add: retainConsensusOutput_def streamed_def) (simp add: complete_of_def pending_of_def)
next
  case False
  let ?joined = "pending_units (streamed cap t) @ chunk"
  have t: "t @ chunk = complete_of t @ ?joined" using streamed_split[of t cap] by (metis append.assoc)
  then have "complete_of (t @ chunk) = complete_of t @ complete_of ?joined" "pending_of (t @ chunk) = pending_of ?joined"
    using False by (simp_all only: complete_of_def pending_of_def) (auto simp: butlast_append)
  moreover have bound: "\<not> (complete_of t \<noteq> [] \<and> complete_of ?joined \<noteq> [] \<and> is_high (last (complete_of t)) \<and> is_low (hd (complete_of ?joined)))"
  proof (cases "t \<noteq> [] \<and> is_high (last t)")
    case True
    then have "?joined = last t # chunk" by (simp add: streamed_def captured_def pending_units_def pending_of_def)
    then have "complete_of ?joined \<noteq> [] \<Longrightarrow> hd (complete_of ?joined) = last t"
      by (cases chunk) (auto simp: complete_of_def split: if_splits)
    with True show ?thesis using high_not_low by auto
  next
    case False
    then have "complete_of t = t" by (auto simp: complete_of_def)
    with False show ?thesis by auto
  qed
  ultimately show ?thesis
    using absorb_captured[OF bound, of cap "pending_of t" "pending_of ?joined", folded streamed_def]
    by (simp add: retainConsensusOutput_def Let_def) (simp add: streamed_def)
qed

interpretation capture: chunked_stream "\<lambda>r chunk. retainConsensusOutput r chunk cap" "\<lambda>r. \<exists>t. r = streamed cap t" for cap
  by unfold_locales (auto simp: retain_streamed)

lemma finish_streamed: "finishConsensusOutput (streamed cap t) cap = captured cap t None"
proof (cases "t \<noteq> [] \<and> is_high (last t)")
  case True
  have "absorb_chunk (captured cap (butlast t) (Some [last t])) [last t] None cap = captured cap (butlast t @ [last t]) None"
    using True high_not_low by (intro absorb_captured) auto
  moreover have "finishConsensusOutput (captured cap (butlast t) (Some [last t])) cap
      = absorb_chunk (captured cap (butlast t) (Some [last t])) [last t] None cap"
    by (auto simp: finishConsensusOutput_def absorb_chunk_def Let_def byteLength_def)
  ultimately show ?thesis using True by (simp add: streamed_def complete_of_def pending_of_def)
qed (auto simp: streamed_def complete_of_def pending_of_def finishConsensusOutput_def captured_def)

definition nothing_retained :: retained_output where
  "nothing_retained = \<lparr>ro_text = [], ro_retainedBytes = 0, ro_droppedBytes = 0, ro_pendingHighSurrogate = None\<rparr>"

text \<open>
  C40: however a generation is cut into chunks, even in the middle of a surrogate pair, the capture keeps the
  longest prefix of whole code points that fits the byte budget, and its accounting is exact: the retained bytes
  are the size of the kept text, and retained and dropped bytes add up to the size of the whole output.
\<close>

theorem capture_is_longest_prefix:
  "\<exists>kept rest r. finishConsensusOutput (fold (\<lambda>chunk r. retainConsensusOutput r chunk cap) chunks nothing_retained) cap = r
     \<and> points (concat chunks) = kept @ rest \<and> ro_text r = concat kept
     \<and> ro_retainedBytes r = byteLength (ro_text r) \<and> ro_retainedBytes r \<le> cap
     \<and> (rest = [] \<or> cap < ro_retainedBytes r + point_bytes (hd rest))
     \<and> ro_retainedBytes r + ro_droppedBytes r = byteLength (concat chunks)
     \<and> ro_pendingHighSurrogate r = None"
proof -
  have "fold (\<lambda>chunk r. retainConsensusOutput r chunk cap) chunks (streamed cap []) = streamed cap (concat chunks)"
    by (subst capture.absorb_chunks) (auto simp: retain_streamed)
  moreover have "streamed cap [] = nothing_retained"
    by (simp add: streamed_def captured_def nothing_retained_def complete_of_def pending_of_def byteLength_def)
  ultimately have final: "finishConsensusOutput (fold (\<lambda>chunk r. retainConsensusOutput r chunk cap) chunks nothing_retained) cap
      = captured cap (concat chunks) None"
    by (simp add: finish_streamed)
  obtain rest where "points (concat chunks) = fitting cap (points (concat chunks)) @ rest"
    "rest = [] \<or> cap < bytes_of (fitting cap (points (concat chunks))) + point_bytes (hd rest)"
    using fitting_split by blast
  with byteLength_prefix[OF this(1)] fitting_le[of cap] fitting_bytes(1)[of cap "points (concat chunks)"] show ?thesis
    unfolding final by (intro exI[of _ "fitting cap (points (concat chunks))"] exI[of _ rest]) (simp add: captured_def byteLength_def)
qed

section \<open>The truncation is the longest that fits\<close>

lemma points_plain: "list_all (\<lambda>u. \<not> is_high u) s \<Longrightarrow> points s = map (\<lambda>u. [u]) s"
  by (induction s rule: points.induct) auto

definition ascii :: "string \<Rightarrow> bool" where
  "ascii s \<longleftrightarrow> list_all (\<lambda>c. (of_char c :: nat) < 128) s"

lemma ascii_unit: "(of_char c :: nat) < 128 \<Longrightarrow> (of_nat (of_char c) :: unit16) < 0x80"
  by (simp add: word_less_nat_alt unat_of_nat)

lemma byteLength_ascii: "ascii s \<Longrightarrow> byteLength (units_of s) = length s"
proof -
  assume "ascii s"
  then have small: "list_all (\<lambda>u. u < 0x80) (units_of s)"
    by (auto simp: ascii_def units_of_def list_all_iff ascii_unit)
  then have "list_all (\<lambda>u. \<not> is_high u) (units_of s)"
    by (auto simp: list_all_iff is_high_def word_less_nat_alt word_le_nat_alt)
  moreover have "sum_list (map unit_bytes us) = length us" if "list_all (\<lambda>u. u < 0x80) us" for us
    using that by (induction us) (auto simp: unit_bytes_def)
  ultimately have "byteLength (units_of s) = length (units_of s)"
    using small by (simp add: byteLength_def points_plain bytes_of_def comp_def point_bytes_def)
  then show ?thesis by (simp add: units_of_def)
qed

lemma ascii_simps [simp]: "ascii []" "ascii (c # s) \<longleftrightarrow> (of_char c :: nat) < 128 \<and> ascii s" "ascii (s @ t) \<longleftrightarrow> ascii s \<and> ascii t"
  by (auto simp: ascii_def)

lemma ascii_digits: "ascii (nat_digits n)"
proof (induction n rule: nat_digits.induct)
  case (1 n)
  have "n mod 10 < 80" using mod_less_divisor[of 10 n] by linarith
  with 1 show ?case by (subst nat_digits.simps) simp
qed

lemma byteLength_marker: "byteLength (truncation_marker dropped cap) = 61 + length (nat_digits dropped) + length (nat_digits cap)"
  by (simp add: truncation_marker_def byteLength_ascii ascii_digits)

lemma digits_drop: "k \<le> n \<Longrightarrow> k \<le> 9 \<Longrightarrow> length (nat_digits n) \<le> Suc (length (nat_digits (n - k)))"
proof (induction n arbitrary: k rule: less_induct)
  case (less n)
  show ?case
  proof (cases "n < 10")
    case True
    then show ?thesis by (subst nat_digits.simps) simp
  next
    case False
    show ?thesis
    proof (cases "n - k < 10")
      case True
      with False less(2,3) have "n div 10 < 10" by simp
      then have "length (nat_digits (n div 10)) = 1" by (subst nat_digits.simps) simp
      moreover have "length (nat_digits (n - k)) = 1" using True by (subst nat_digits.simps) simp
      ultimately show ?thesis using False by (subst nat_digits.simps) simp
    next
      case large: False
      have "(n - k) div 10 = n div 10 - (n div 10 - (n - k) div 10)" by (simp add: div_le_mono)
      moreover have "n div 10 - (n - k) div 10 \<le> 9" using less(3) by linarith
      ultimately have "length (nat_digits (n div 10)) \<le> Suc (length (nat_digits ((n - k) div 10)))"
        using less(1)[of "n div 10" "n div 10 - (n - k) div 10"] False by auto
      moreover have "length (nat_digits n) = Suc (length (nat_digits (n div 10)))"
        using False by (subst nat_digits.simps) simp
      moreover have "length (nat_digits (n - k)) = Suc (length (nat_digits ((n - k) div 10)))"
        using large by (subst nat_digits.simps) simp
      ultimately show ?thesis by simp
    qed
  qed
qed

text \<open>The size of a prefix together with its marker, which never shrinks as the prefix grows.\<close>

definition marked_size :: "nat \<Rightarrow> nat \<Rightarrow> unit16 list list \<Rightarrow> nat" where
  "marked_size bytes cap ps = bytes_of ps + byteLength (truncation_marker (bytes - bytes_of ps) cap)"

lemma marked_size_snoc:
  assumes "bytes_of (ps @ [p]) \<le> bytes"
  shows "marked_size bytes cap ps \<le> marked_size bytes cap (ps @ [p])"
proof -
  have "1 \<le> point_bytes p" "point_bytes p \<le> 9"
    using point_bytes_pos[of p] by (auto simp: point_bytes_def unit_bytes_def split: list.splits)
  moreover have "point_bytes p \<le> bytes - bytes_of ps" using assms by simp
  ultimately have "length (nat_digits (bytes - bytes_of ps)) \<le> Suc (length (nat_digits (bytes - (bytes_of ps + point_bytes p))))"
    using digits_drop[of "point_bytes p" "bytes - bytes_of ps"] by simp
  with \<open>1 \<le> point_bytes p\<close> show ?thesis by (simp add: marked_size_def byteLength_marker)
qed

lemma marked_size_mono: "bytes_of (ps @ qs) \<le> bytes \<Longrightarrow> marked_size bytes cap ps \<le> marked_size bytes cap (ps @ qs)"
proof (induction qs rule: rev_induct)
  case (snoc q qs)
  then show ?case using marked_size_snoc[of "ps @ qs" q bytes cap] by simp
qed simp

lemma bound_scan_spec:
  "\<exists>a b. ps = a @ b
     \<and> bound_scan bytes cap ps (bytes_of pre, length (concat pre)) (bytes_of pre, length (concat pre))
         = (bytes_of (pre @ a), length (concat (pre @ a)))
     \<and> (b = [] \<or> cap < marked_size bytes cap (pre @ a @ [hd b]))
     \<and> (a = [] \<or> marked_size bytes cap (pre @ a) \<le> cap)"
proof (induction ps arbitrary: pre)
  case (Cons p ps)
  show ?case
  proof (cases "marked_size bytes cap (pre @ [p]) > cap")
    case True
    then show ?thesis by (intro exI[of _ "[]"] exI[of _ "p # ps"]) (simp add: marked_size_def)
  next
    case False
    from Cons[of "pre @ [p]"] obtain a b where "ps = a @ b"
      "bound_scan bytes cap ps (bytes_of (pre @ [p]), length (concat (pre @ [p]))) (bytes_of (pre @ [p]), length (concat (pre @ [p])))
         = (bytes_of (pre @ p # a), length (concat (pre @ p # a)))"
      "b = [] \<or> cap < marked_size bytes cap (pre @ p # a @ [hd b])"
      "a = [] \<or> marked_size bytes cap (pre @ p # a) \<le> cap" by auto
    with False show ?thesis
      by (intro exI[of _ "p # a"] exI[of _ b]) (auto simp: marked_size_def)
  qed
qed simp

lemma longer_prefix:
  assumes "points val = a @ b" and "length a < n \<and> n \<le> length (points val)"
    and "b = [] \<or> cap < marked_size (byteLength val) cap (a @ [hd b])"
  shows "cap < marked_size (byteLength val) cap (take n (points val))"
proof -
  have "b \<noteq> []" using assms(1,2) by auto
  then have pre: "take n (points val) = (a @ [hd b]) @ take (n - Suc (length a)) (tl b)"
    using assms(2) by (cases b) (simp_all add: assms(1) take_Cons' Suc_diff_le)
  have "bytes_of (take n (points val)) \<le> byteLength val"
    by (metis append_take_drop_id byteLength_def bytes_of_append le_add1)
  then show ?thesis
    using assms(3) \<open>b \<noteq> []\<close> marked_size_mono[of "a @ [hd b]" _ "byteLength val" cap] unfolding pre by fastforce
qed

text \<open>
  bounding a text either returns it unchanged, or returns the longest prefix of whole code points that
  fits the cap together with the marker naming exactly the bytes dropped; it fails only when even the empty
  prefix and its marker do not fit.  The result never exceeds the cap and retained and dropped bytes add up.
\<close>

lemma bounded_text_is_longest:
  "case boundConsensusText val cap of
     Inl e \<Rightarrow> e = CapCannotFitMarker cap \<and> cap < byteLength val \<and> cap < byteLength (truncation_marker (byteLength val) cap)
   | Inr r \<Rightarrow>
       byteLength (bt_text r) \<le> cap
       \<and> tb_retainedBytes (bt_bounds r) + tb_droppedBytes (bt_bounds r) = byteLength val
       \<and> (if bt_truncated r
          then \<exists>a b. points val = a @ b \<and> tb_retainedBytes (bt_bounds r) = byteLength (concat a)
                 \<and> bt_text r = concat a @ truncation_marker (tb_droppedBytes (bt_bounds r)) cap
                 \<and> list_all (\<lambda>n. cap < marked_size (byteLength val) cap (take n (points val)))
                     [Suc (length a)..<Suc (length (points val))]
          else bt_text r = val)"
proof (cases "byteLength val \<le> cap")
  case True
  then show ?thesis by (simp add: boundConsensusText_def Let_def)
next
  case False
  let ?n = "byteLength val"
  obtain a b where ab: "points val = a @ b"
    and scan: "bound_scan ?n cap (points val) (0, 0) (0, 0) = (bytes_of a, length (concat a))"
    and stop: "b = [] \<or> cap < marked_size ?n cap (a @ [hd b])" and fits: "a = [] \<or> marked_size ?n cap a \<le> cap"
    using bound_scan_spec[of "points val" ?n cap "[]"]
    unfolding append_Nil bytes_of_simps concat.simps list.size by blast
  have kept: "bytes_of a \<le> ?n" by (simp add: byteLength_def ab)
  have longest: "list_all (\<lambda>n. cap < marked_size ?n cap (take n (points val))) [Suc (length a)..<Suc (length (points val))]"
    using longer_prefix[OF ab _ stop] by (simp add: list_all_iff del: upt_Suc)
  have marker: "byteLength (concat a @ truncation_marker d cap) = bytes_of a + byteLength (truncation_marker d cap)" for d
  proof -
    have "\<not> is_low (hd (truncation_marker d cap))"
      by (simp add: truncation_marker_def units_of_def is_low_def word_le_nat_alt)
    then show ?thesis by (simp add: byteLength_def points_append points_prefix[OF ab])
  qed
  have val: "take (length (concat a)) val = concat a" using take_points[OF ab] by simp
  show ?thesis
  proof (cases "byteLength (truncation_marker (?n - bytes_of a) cap) > cap")
    case True
    with fits have "a = []" by (auto simp: marked_size_def)
    with True False show ?thesis by (simp add: boundConsensusText_def Let_def scan)
  next
    case fit: False
    have "bytes_of a + byteLength (truncation_marker (?n - bytes_of a) cap) \<le> cap"
      using fit fits by (auto simp: marked_size_def)
    then show ?thesis
      using False fit kept
      by (simp add: boundConsensusText_def Let_def scan val marker del: upt_Suc)
         (intro exI[of _ a] exI[of _ b] conjI ab longest, simp_all add: byteLength_prefix[OF ab])
  qed
qed

end
