(* ===== verification/Admission.thy ===== *)
theory Admission
  imports Prelude "HOL-Library.Multiset"
begin

text \<open>
  Which unit of work a freed slot goes to: the criticality dictionary (\<^verbatim>\<open>web/lib/tasks/criticality.ts\<close>), the
  order of the admission funnel (\<^verbatim>\<open>web/lib/tasks/admission-selector.ts\<close>) and the failure budget of automatic
  launches (\<^verbatim>\<open>web/lib/scheduler/c2-eligibility.ts\<close>).

  \<^verbatim>\<open>Array.prototype.sort\<close> is stable; on a consistent comparator its result is determined, and \<open>js_sort\<close>
  computes it by insertion.  The locale \<open>consistent_comparator\<close> says what consistency is and what follows; the
  funnel's comparator interprets it.
\<close>

section \<open>Sorting with a comparator\<close>

fun insert_by :: "('a \<Rightarrow> 'a \<Rightarrow> int) \<Rightarrow> 'a \<Rightarrow> 'a list \<Rightarrow> 'a list" where
  "insert_by cmp x [] = [x]"
| "insert_by cmp x (y # ys) = (if cmp x y \<le> 0 then x # y # ys else y # insert_by cmp x ys)"

definition js_sort :: "('a \<Rightarrow> 'a \<Rightarrow> int) \<Rightarrow> 'a list \<Rightarrow> 'a list" where
  "js_sort cmp xs = foldr (insert_by cmp) xs []"

text \<open>The first of the least elements.\<close>

definition better :: "('a \<Rightarrow> 'a \<Rightarrow> int) \<Rightarrow> 'a option \<Rightarrow> 'a option \<Rightarrow> 'a option" where
  "better cmp a b = (case (a, b) of (Some x, Some y) \<Rightarrow> if cmp x y \<le> 0 then a else b | (None, _) \<Rightarrow> b | _ \<Rightarrow> a)"

fun best :: "('a \<Rightarrow> 'a \<Rightarrow> int) \<Rightarrow> 'a list \<Rightarrow> 'a option" where
  "best cmp [] = None"
| "best cmp (x # xs) = better cmp (Some x) (best cmp xs)"

lemma mset_insert_by [simp]: "mset (insert_by cmp x xs) = add_mset x (mset xs)"
  by (induction xs) auto

lemma js_sort_simps [simp]: "js_sort cmp [] = []" "js_sort cmp (x # xs) = insert_by cmp x (js_sort cmp xs)"
  by (simp_all add: js_sort_def)

lemma mset_js_sort [simp]: "mset (js_sort cmp xs) = mset xs"
  by (induction xs) simp_all

lemma js_sort_Nil_iff [simp]: "js_sort cmp xs = [] \<longleftrightarrow> xs = []"
  by (metis mset_js_sort mset_zero_iff)

lemma hd_js_sort: "(if xs = [] then None else Some (hd (js_sort cmp xs))) = best cmp xs"
proof (induction xs)
  case (Cons x xs)
  have "hd (insert_by cmp x ys) = (case ys of [] \<Rightarrow> x | y # _ \<Rightarrow> if cmp x y \<le> 0 then x else y)" for ys
    by (cases ys) auto
  moreover have "insert_by cmp x ys \<noteq> []" for ys
    by (cases ys) auto
  ultimately show ?case
    using Cons js_sort_Nil_iff[of cmp xs] by (cases "js_sort cmp xs"; cases "best cmp xs") (auto simp: better_def split: if_splits)
qed simp

locale consistent_comparator =
  fixes cmp :: "'a \<Rightarrow> 'a \<Rightarrow> int"
  assumes sign: "cmp b a = - cmp a b"
    and trans: "cmp a b \<le> 0 \<Longrightarrow> cmp b c \<le> 0 \<Longrightarrow> cmp a c \<le> 0"
begin

lemma refl: "cmp a a = 0"
  using sign[of a a] by simp

lemma sorted_insert_by: "sorted_wrt (\<lambda>a b. cmp a b \<le> 0) xs \<Longrightarrow> sorted_wrt (\<lambda>a b. cmp a b \<le> 0) (insert_by cmp x xs)"
proof (induction xs)
  case (Cons y ys)
  show ?case
  proof (cases "cmp x y \<le> 0")
    case True
    with Cons.prems show ?thesis using trans by auto
  next
    case False
    then have "cmp y x \<le> 0" using sign[of x y] by simp
    moreover have "set (insert_by cmp x ys) = insert x (set ys)"
      by (metis mset_insert_by set_mset_add_mset_insert set_mset_mset)
    ultimately show ?thesis using Cons False by simp
  qed
qed simp

lemma sorted_js_sort: "sorted_wrt (\<lambda>a b. cmp a b \<le> 0) (js_sort cmp xs)"
  by (induction xs) (simp_all add: sorted_insert_by)

text \<open>Equal elements keep their order.\<close>

lemma stable_insert_by:
  "filter (\<lambda>y. cmp z y = 0) (insert_by cmp x xs) = (if cmp z x = 0 then x # filter (\<lambda>y. cmp z y = 0) xs
     else filter (\<lambda>y. cmp z y = 0) xs)"
proof (induction xs)
  case (Cons y ys)
  have "\<not> cmp x y \<le> 0 \<Longrightarrow> cmp z x = 0 \<Longrightarrow> cmp z y \<noteq> 0"
    using trans[of x z y] sign[of x z] by force
  with Cons show ?case by auto
qed simp

lemma stable_js_sort: "filter (\<lambda>y. cmp z y = 0) (js_sort cmp xs) = filter (\<lambda>y. cmp z y = 0) xs"
  by (induction xs) (simp_all add: stable_insert_by)

lemma better_assoc: "better cmp (better cmp a b) c = better cmp a (better cmp b c)"
proof (cases a; cases b; cases c)
  fix x y z assume s: "a = Some x" "b = Some y" "c = Some z"
  have "cmp x y \<le> 0 \<Longrightarrow> \<not> cmp x z \<le> 0 \<Longrightarrow> \<not> cmp y z \<le> 0" using trans by blast
  moreover have "\<not> cmp x y \<le> 0 \<Longrightarrow> cmp y z \<le> 0 \<or> \<not> cmp x z \<le> 0"
    using trans[of x z y] sign[of y z] by force
  ultimately show ?thesis unfolding s better_def by auto
qed (simp_all add: better_def)

lemma best_append: "best cmp (xs @ ys) = better cmp (best cmp xs) (best cmp ys)"
  by (induction xs) (simp_all add: better_assoc, simp add: better_def split: option.splits)

lemma best_sorted: "sorted_wrt (\<lambda>a b. cmp a b \<le> 0) xs \<Longrightarrow> best cmp xs = (case xs of [] \<Rightarrow> None | x # _ \<Rightarrow> Some x)"
proof (induction xs)
  case (Cons x xs)
  then show ?case by (cases xs) (auto simp: better_def)
qed simp

lemma best_take:
  assumes "sorted_wrt (\<lambda>a b. cmp a b \<le> 0) xs" and "0 < n"
  shows "best cmp (take n xs) = best cmp xs"
  using best_sorted[OF assms(1)] best_sorted[OF sorted_wrt_take[OF assms(1), of n]] assms(2)
  by (cases xs; cases n) auto

text \<open>Cutting sorted sources does not change what comes first.\<close>

lemma limits_keep_best:
  "list_all (\<lambda>(n, s). 0 < n \<and> sorted_wrt (\<lambda>a b. cmp a b \<le> 0) s) sources \<Longrightarrow>
     best cmp (concat (map (\<lambda>(n, s). take n s) sources)) = best cmp (concat (map snd sources))"
  by (induction sources) (auto simp: best_append best_take)

end

section \<open>Criticality\<close>

definition TASK_PRIORITIES :: "string list" where
  "TASK_PRIORITIES = [''low'', ''normal'', ''high'', ''urgent'']"

definition DEFAULT_TASK_PRIORITY :: string where
  "DEFAULT_TASK_PRIORITY = ''normal''"

definition CRITICALITY_WEIGHT :: "(string \<times> int) list" where
  "CRITICALITY_WEIGHT = [(''low'', 100), (''normal'', 200), (''high'', 300), (''urgent'', 400)]"

definition weight_entry :: "string \<Rightarrow> int" where
  "weight_entry p = (case map_of CRITICALITY_WEIGHT p of Some w \<Rightarrow> w | None \<Rightarrow> 0)"

definition criticalityWeightEntries :: "(string \<times> int) list" where
  "criticalityWeightEntries = map (\<lambda>p. (p, weight_entry p)) TASK_PRIORITIES"

definition isTaskPriority :: "string \<Rightarrow> bool" where
  "isTaskPriority v \<longleftrightarrow> v \<in> set TASK_PRIORITIES"

definition weightOf :: "string option \<Rightarrow> maister_error + int" where
  "weightOf priority =
     (case priority of
        None \<Rightarrow> Inr (weight_entry DEFAULT_TASK_PRIORITY)
      | Some p \<Rightarrow> if isTaskPriority p then Inr (weight_entry p) else Inl (MaisterError CONFIG []))"

section \<open>The admission order\<close>

text \<open>Queued runs and accepted requests, fresh tasks of the backlog, and answered idle runs.\<close>

datatype admission_class = QueuedRun | FreshTask | IdleResume

definition CLASS_RANK :: "admission_class \<Rightarrow> int" where
  "CLASS_RANK cls = (case cls of IdleResume \<Rightarrow> 0 | QueuedRun \<Rightarrow> 1 | FreshTask \<Rightarrow> 2)"

record admission_candidate =
  ac_cls :: admission_class
  ac_priority :: "string option"
  ac_fifoMs :: int
  ac_ref :: ident

definition candidate_weight :: "admission_candidate \<Rightarrow> int" where
  "candidate_weight c = (case weightOf (ac_priority c) of Inr w \<Rightarrow> w | Inl _ \<Rightarrow> 0)"

definition known_priority :: "admission_candidate \<Rightarrow> bool" where
  "known_priority c \<longleftrightarrow> (case ac_priority c of None \<Rightarrow> True | Some p \<Rightarrow> isTaskPriority p)"

definition compare_candidates :: "admission_candidate \<Rightarrow> admission_candidate \<Rightarrow> int" where
  "compare_candidates a b =
     (let wa = candidate_weight a; wb = candidate_weight b; ra = CLASS_RANK (ac_cls a); rb = CLASS_RANK (ac_cls b)
      in if wa \<noteq> wb then wb - wa else if ra \<noteq> rb then ra - rb else ac_fifoMs a - ac_fifoMs b)"

text \<open>
  The comparator throws on a priority outside the dictionary; a sort of two or more elements compares every
  element at least once, a sort of fewer none.
\<close>

definition orderAdmissions :: "admission_candidate list \<Rightarrow> maister_error + admission_candidate list" where
  "orderAdmissions candidates =
     (if 2 \<le> length candidates \<and> \<not> list_all known_priority candidates
      then Inl (MaisterError CONFIG []) else Inr (js_sort compare_candidates candidates))"

text \<open>The value of the SQL expression \<^verbatim>\<open>case when priority = p then w ... else default end\<close>.\<close>

definition priorityWeightSql :: "string option \<Rightarrow> int" where
  "priorityWeightSql col =
     (case Option.bind col (map_of criticalityWeightEntries) of
        Some w \<Rightarrow> w
      | None \<Rightarrow> weight_entry DEFAULT_TASK_PRIORITY)"

text \<open>\<^verbatim>\<open>ORDER BY weight DESC, instant ASC\<close>, the order of every candidate query of the gate.\<close>

definition sql_ordered :: "admission_candidate list \<Rightarrow> bool" where
  "sql_ordered rows \<longleftrightarrow>
     sorted_wrt (\<lambda>a b. priorityWeightSql (ac_priority a) > priorityWeightSql (ac_priority b)
       \<or> priorityWeightSql (ac_priority a) = priorityWeightSql (ac_priority b) \<and> ac_fifoMs a \<le> ac_fifoMs b) rows"

section \<open>Failures of automatic launches\<close>

definition MAX_AUTO_LAUNCH_ATTEMPTS :: nat where
  "MAX_AUTO_LAUNCH_ATTEMPTS = 3"

definition AUTO_LAUNCH_BACKOFF_BASE_SECONDS :: int where
  "AUTO_LAUNCH_BACKOFF_BASE_SECONDS = 60"

definition isWithinFailureBackoff :: "int \<Rightarrow> int option \<Rightarrow> int \<Rightarrow> bool" where
  "isWithinFailureBackoff failures latestEndedAt nowMs \<longleftrightarrow>
     (case latestEndedAt of
        None \<Rightarrow> False
      | Some t \<Rightarrow> \<not> failures \<le> 0 \<and> nowMs < t + AUTO_LAUNCH_BACKOFF_BASE_SECONDS * 2 ^ nat (failures - 1) * 1000)"

text \<open>\<open>None\<close> is a thrown value that is no \<^verbatim>\<open>MaisterError\<close>.\<close>

definition isTerminalLaunchRefusal :: "maister_error option \<Rightarrow> bool" where
  "isTerminalLaunchRefusal err =
     (case err of
        None \<Rightarrow> False
      | Some e \<Rightarrow>
          if take 14 (err_reason e) = ''qualification_'' \<or> err_reason e = ''launch_automation_not_armed'' then False
          else err_code e = PRECONDITION \<or> err_code e = CONFIG)"

section \<open>Properties\<close>

interpretation funnel: consistent_comparator compare_candidates
proof
  show "compare_candidates b a = - compare_candidates a b" for a b
    by (simp add: compare_candidates_def Let_def)
  show "compare_candidates a b \<le> 0 \<Longrightarrow> compare_candidates b c \<le> 0 \<Longrightarrow> compare_candidates a c \<le> 0" for a b c
    by (auto simp: compare_candidates_def Let_def split: if_splits)
qed

lemma weight_sql: "weightOf p = Inr w \<Longrightarrow> priorityWeightSql p = w"
  by (auto simp: weightOf_def priorityWeightSql_def criticalityWeightEntries_def isTaskPriority_def TASK_PRIORITIES_def
      split: option.splits if_splits)

lemma sql_ordered_sorted:
  assumes "sql_ordered rows" and "list_all (\<lambda>c. ac_cls c = cls \<and> known_priority c) rows"
  shows "sorted_wrt (\<lambda>a b. compare_candidates a b \<le> 0) rows"
proof -
  have w: "candidate_weight c = priorityWeightSql (ac_priority c)" if "c \<in> set rows" for c
  proof -
    have "known_priority c" using assms(2) that by (simp add: list_all_iff)
    then obtain v where "weightOf (ac_priority c) = Inr v"
      by (auto simp: weightOf_def known_priority_def split: option.splits)
    with weight_sql[OF this] show ?thesis by (simp add: candidate_weight_def)
  qed
  have "\<forall>c \<in> set rows. ac_cls c = cls" using assms(2) by (simp add: list_all_iff)
  with assms(1) w show ?thesis
    unfolding sql_ordered_def by (auto simp: compare_candidates_def Let_def elim!: sorted_wrt_mono_rel[rotated])
qed

text \<open>What the gate's queries hand over: rows of one class, in the order of their SQL, each cut by a limit.\<close>

definition gate_source :: "nat \<times> admission_candidate list \<Rightarrow> bool" where
  "gate_source source \<longleftrightarrow>
     (case source of (limit, rows) \<Rightarrow>
        0 < limit \<and> sql_ordered rows
        \<and> (\<exists>cls. list_all (\<lambda>c. ac_cls c = cls \<and> known_priority c) rows))"

lemma gate_source_sorted: "gate_source (n, rows) \<Longrightarrow> 0 < n \<and> sorted_wrt (\<lambda>a b. compare_candidates a b \<le> 0) rows"
  by (auto simp: gate_source_def intro: sql_ordered_sorted)

lemma gate_source_priorities:
  "list_all gate_source sources \<Longrightarrow> list_all known_priority (concat (map (\<lambda>(n, s). take n s) sources))"
  by (induction sources) (auto simp: gate_source_def list_all_iff dest: in_set_takeD)

text \<open>
  C25: the admission gate serves the most critical work first, and the limits of its queries never hide it.  From
  the rows its queries cut off, the funnel orders a permutation by criticality, then class, then age, keeps equal
  candidates in place, and puts first the candidate that would come first if no query had a limit.
\<close>

theorem limits_keep_most_critical:
  assumes "list_all gate_source sources"
  shows "\<exists>ordered. orderAdmissions (concat (map (\<lambda>(limit, rows). take limit rows) sources)) = Inr ordered
    \<and> mset ordered = mset (concat (map (\<lambda>(limit, rows). take limit rows) sources))
    \<and> sorted_wrt (\<lambda>a b. candidate_weight a > candidate_weight b
         \<or> candidate_weight a = candidate_weight b \<and> (CLASS_RANK (ac_cls a) < CLASS_RANK (ac_cls b)
             \<or> ac_cls a = ac_cls b \<and> ac_fifoMs a \<le> ac_fifoMs b)) ordered
    \<and> filter (\<lambda>c. compare_candidates z c = 0) ordered
        = filter (\<lambda>c. compare_candidates z c = 0) (concat (map (\<lambda>(limit, rows). take limit rows) sources))
    \<and> (if ordered = [] then concat (map snd sources) = []
       else hd ordered = hd (js_sort compare_candidates (concat (map snd sources))))"
proof -
  let ?cut = "concat (map (\<lambda>(limit, rows). take limit rows) sources)"
  let ?all = "concat (map snd sources)"
  have rank: "CLASS_RANK a = CLASS_RANK b \<longleftrightarrow> a = b" for a b
    by (cases a; cases b) (simp_all add: CLASS_RANK_def)
  have "orderAdmissions ?cut = Inr (js_sort compare_candidates ?cut)"
    using gate_source_priorities[OF assms] by (simp add: orderAdmissions_def)
  moreover have "sorted_wrt (\<lambda>a b. candidate_weight a > candidate_weight b
         \<or> candidate_weight a = candidate_weight b \<and> (CLASS_RANK (ac_cls a) < CLASS_RANK (ac_cls b)
             \<or> ac_cls a = ac_cls b \<and> ac_fifoMs a \<le> ac_fifoMs b)) (js_sort compare_candidates ?cut)"
    using funnel.sorted_js_sort[of ?cut]
    by (rule sorted_wrt_mono_rel[rotated]) (auto simp: compare_candidates_def Let_def rank order_less_le split: if_splits)
  moreover have "best compare_candidates ?cut = best compare_candidates ?all"
    using assms gate_source_sorted by (intro funnel.limits_keep_best) (auto simp: list_all_iff)
  then have "(if ?cut = [] then None else Some (hd (js_sort compare_candidates ?cut)))
      = (if ?all = [] then None else Some (hd (js_sort compare_candidates ?all)))"
    by (simp only: hd_js_sort)
  then have "if js_sort compare_candidates ?cut = [] then ?all = []
      else hd (js_sort compare_candidates ?cut) = hd (js_sort compare_candidates ?all)"
    by (simp del: concat_eq_Nil_conv split: if_splits)
  ultimately show ?thesis
    by (intro exI[of _ "js_sort compare_candidates ?cut"] conjI mset_js_sort funnel.stable_js_sort)
qed

text \<open>An urgent task in the backlog goes before a queued run that waited longer.\<close>

definition queue_example :: "(nat \<times> admission_candidate list) list" where
  "queue_example =
     [(1, [\<lparr>ac_cls = QueuedRun, ac_priority = None, ac_fifoMs = 1, ac_ref = ''run-1''\<rparr>,
           \<lparr>ac_cls = QueuedRun, ac_priority = Some ''low'', ac_fifoMs = 0, ac_ref = ''run-2''\<rparr>]),
      (50, [\<lparr>ac_cls = FreshTask, ac_priority = Some ''urgent'', ac_fifoMs = 9, ac_ref = ''task-1''\<rparr>])]"

theorem limits_keep_most_critical_witness:
  "\<exists>ordered. orderAdmissions (concat (map (\<lambda>(limit, rows). take limit rows) queue_example)) = Inr ordered
     \<and> ordered \<noteq> [] \<and> ac_ref (hd ordered) = ''task-1''"
proof -
  have src: "list_all gate_source queue_example"
    by (auto simp: queue_example_def gate_source_def known_priority_def sql_ordered_def priorityWeightSql_def criticalityWeightEntries_def
        isTaskPriority_def TASK_PRIORITIES_def weight_entry_def CRITICALITY_WEIGHT_def DEFAULT_TASK_PRIORITY_def)
  have "hd (js_sort compare_candidates (concat (map snd queue_example)))
      = \<lparr>ac_cls = FreshTask, ac_priority = Some ''urgent'', ac_fifoMs = 9, ac_ref = ''task-1''\<rparr>"
    by (simp add: queue_example_def compare_candidates_def candidate_weight_def weightOf_def isTaskPriority_def
        TASK_PRIORITIES_def weight_entry_def CRITICALITY_WEIGHT_def DEFAULT_TASK_PRIORITY_def Let_def)
  moreover have "concat (map snd queue_example) \<noteq> []" by (simp add: queue_example_def)
  moreover obtain ordered where
    "orderAdmissions (concat (map (\<lambda>(limit, rows). take limit rows) queue_example)) = Inr ordered"
    "if ordered = [] then concat (map snd queue_example) = []
     else hd ordered = hd (js_sort compare_candidates (concat (map snd queue_example)))"
    using limits_keep_most_critical[OF src] by blast
  ultimately show ?thesis by (intro exI[of _ ordered]) (simp split: if_splits)
qed

end
