(* ===== verification/Spec2Isabelle.thy ===== *)
theory Spec2Isabelle
  imports HostRecovery CommandRequests FencedDrivers RunEffects NodeLedgerProps LifecycleClaim FlowGraphProps Readiness Consensus ConsensusText Admission
begin

text \<open>
  A verification of the control core of MAIster, a control plane that drives coding agents through flows
  (\<^verbatim>\<open>src/web/lib\<close>), and of the durable state of the execution hosts that run the agents (\<^verbatim>\<open>src/supervisor/src\<close>).

  \<^bold>\<open>The program.\<close>  A \<^emph>\<open>run\<close> executes a \<^emph>\<open>flow\<close>, a graph of nodes compiled from a manifest.  Its row in the
  database carries a status; every change of status is one transaction of
  \<^verbatim>\<open>runs/state-transitions.ts\<close> guarded by a compare-and-set.  The process that drives a run holds an
  \<^emph>\<open>execution assignment\<close> with an epoch, so that a superseded driver can be fenced.  The graph runner appends one row
  per visit of a node to the \<^emph>\<open>attempt ledger\<close>, evaluates \<^emph>\<open>gates\<close> on an agent's output, records
  \<^emph>\<open>artifacts\<close>, and routes on outcomes.  Review and merge consult the \<^emph>\<open>readiness\<close> of that evidence.  The
  \<^emph>\<open>scheduler\<close> admits runs under pool caps.  A \<^emph>\<open>lifecycle claim\<close> keeps two operations from working in one
  worktree.  Terminal transitions write \<^emph>\<open>outbox\<close> events in the same transaction.

  An \<^emph>\<open>execution host\<close> (the supervisor) runs the sessions of agents.  The manager sends it \<^emph>\<open>commands\<close>; each carries a
  fence with the assignment and its epoch, and a receipt under the command's id makes a retry safe.  Every event of
  a session goes into an outbox in the host's SQLite file under the next sequence number; the manager replays it,
  acknowledges a prefix, and the host prunes what is acknowledged.  Admission control keeps room: producers hold
  wallets of control rows, an output frame reserves rows and bytes before it is read, files are charged against a
  budget, and pressure bits with two thresholds refuse new work.

  \<^bold>\<open>Theories and sources.\<close>  Paths are relative to \<^verbatim>\<open>src/web/lib\<close>.

  \<^item> \<open>Prelude\<close>: errors (\<^verbatim>\<open>errors-core.ts\<close>), the result monad, tables and SQL statements on them, JavaScript
    sets; the locales \<open>keyed_table\<close> (rows with a primary key) and \<open>newest_per_key\<close> (the newest row of each
    group).
  \<^item> \<open>JsValue\<close>, \<open>JsNumber\<close>: the language: strings, IEEE doubles with rounding, number printing and reading, JSON
    values, dates.
  \<^item> \<open>Streams\<close>: the locale \<open>chunked_stream\<close> for accumulators whose result must not depend on chunk borders,
    and \<^verbatim>\<open>flows/capped-text.ts\<close>.
  \<^item> \<open>RunStatus\<close>: \<^verbatim>\<open>runs/run-status-values.ts\<close>, \<^verbatim>\<open>run-status-sets.ts\<close>.
  \<^item> \<open>Database\<close>: the tables of \<^verbatim>\<open>db/schema.ts\<close> that are read or written here, as a record \<open>db\<close> of row
    lists; the tables with a primary key interpret \<open>keyed_table\<close>.
  \<^item> \<open>Outbox\<close>: \<^verbatim>\<open>domain-events/{taxonomy,outbox,coordinator-wake-intent}.ts\<close>, \<^verbatim>\<open>webhooks/outbox.ts\<close>,
    \<^verbatim>\<open>runs/delegated-review-emit.ts\<close>.
  \<^item> \<open>Assignments\<close>: \<^verbatim>\<open>execution-host/{assignments,placement}.ts\<close>.  The locale \<open>driver_generation\<close> is the
    contract of epochs and the single active generation; it is interpreted on the code's mint and release.
  \<^item> \<open>LifecycleClaim\<close>: \<^verbatim>\<open>runs/lifecycle-claim.ts\<close>, the settings of \<^verbatim>\<open>instance-config.ts\<close> and the fences
    of \<^verbatim>\<open>runs/promote.ts\<close>, \<^verbatim>\<open>runs/sync-target.ts\<close>, \<^verbatim>\<open>workbench-lifecycle/service.ts\<close>.
  \<^item> \<open>Scheduler\<close>: \<^verbatim>\<open>scheduler.ts\<close> up to \<^verbatim>\<open>tryStartRun\<close>, with the capacity and obligation predicates it
    calls (\<^verbatim>\<open>tasks/launch-capacity.ts\<close>, \<^verbatim>\<open>tasks/admission-selector.ts\<close>, \<^verbatim>\<open>orchestrator/child-obligations.ts\<close>).
  \<^item> \<open>Admission\<close>: \<^verbatim>\<open>tasks/{criticality,admission-selector}.ts\<close> and the failure budget of
    \<^verbatim>\<open>scheduler/c2-eligibility.ts\<close>; the locale \<open>consistent_comparator\<close> for \<^verbatim>\<open>Array.prototype.sort\<close>.
  \<^item> \<open>RunState\<close>: every transition of \<^verbatim>\<open>runs/state-transitions.ts\<close>, with \<^verbatim>\<open>runs/keepalive-config.ts\<close> and
    \<^verbatim>\<open>hitl-closed-answer.ts\<close>.
  \<^item> \<open>NodeLedger\<close>: \<^verbatim>\<open>flows/graph/{ledger,attempt-decisions,rework-baseline,session-policy}.ts\<close>.
  \<^item> \<open>ArtifactStore\<close>: \<^verbatim>\<open>flows/graph/artifact-store.ts\<close>.
  \<^item> \<open>GateVerdict\<close>: \<^verbatim>\<open>flows/graph/{gate-verdict,json-extract}.ts\<close>.
  \<^item> \<open>DecideEval\<close>: \<^verbatim>\<open>flows/graph/{when-grammar,decide-eval}.ts\<close>.
  \<^item> \<open>TemplateExpr\<close>: \<^verbatim>\<open>flows/template-expressions.ts\<close> and the template reader of the compiler.
  \<^item> \<open>FlowCompile\<close>: \<^verbatim>\<open>flows/graph/{compile,traversal-requirements}.ts\<close> and the parts of
    \<^verbatim>\<open>config.schema.ts\<close> they read.
  \<^item> \<open>ExecutionPolicy\<close>: \<^verbatim>\<open>runs/execution-policy.ts\<close>.
  \<^item> \<open>Readiness\<close>: \<^verbatim>\<open>flows/graph/{readiness-core,evidence-readiness}.ts\<close>.
  \<^item> \<open>Consensus\<close>, \<open>ConsensusText\<close>: \<^verbatim>\<open>flows/graph/consensus/{verdict,tally,rotation,capacity,text}.ts\<close>.

  Paths of the host are relative to \<^verbatim>\<open>src/supervisor/src\<close>.

  \<^item> \<open>HostSequence\<close>: \<^verbatim>\<open>host-runtime-errors.ts\<close>, sequence numbers and sort keys of \<^verbatim>\<open>host-state.ts\<close>.
  \<^item> \<open>HostDb\<close>: \<^verbatim>\<open>runtime-limits.ts\<close> and the tables and triggers of the host's schema, as the record \<open>host_db\<close>.
  \<^item> \<open>OutboxBudget\<close>, \<open>FileBudget\<close>: \<^verbatim>\<open>outbox-budget.ts\<close>, \<^verbatim>\<open>runtime-file-budget.ts\<close>.
  \<^item> \<open>RuntimeEvents\<close>: \<^verbatim>\<open>runtime-events.ts\<close> (redaction and envelopes).
  \<^item> \<open>HostOutbox\<close>: the outbox of \<^verbatim>\<open>host-state.ts\<close> and \<^verbatim>\<open>outbox-ack.ts\<close>.
  \<^item> \<open>HostState\<close>: the other operations of \<^verbatim>\<open>openHostState\<close> and the start; \<open>host_op\<close> lists the operations, \<open>host_run\<close>
    runs a history in which each operation names the process (boot id) that made it.
  \<^item> \<open>HostRecovery\<close>: \<^verbatim>\<open>recoverAcceptedPromptReceipts\<close> and \<^verbatim>\<open>recoverReleasedSessionProcess\<close>, with the state an error leaves.
  \<^item> \<open>CommandJson\<close>, \<open>CommandEvidence\<close>: \<^verbatim>\<open>src/runtime/command-json.ts\<close>, \<^verbatim>\<open>src/runtime/command-evidence.ts\<close>,
    \<^verbatim>\<open>command-event.ts\<close> (canonical texts, validators of evidence, native payloads).
  \<^item> \<open>HostCommands\<close>: \<^verbatim>\<open>execution-fence.ts\<close>, \<^verbatim>\<open>command-receipts.ts\<close>, the admission table and error mapping of
    \<^verbatim>\<open>http-api.ts\<close>; \<open>command_run\<close> interleaves commands, settlements of effects, store operations and restarts.
  \<^item> \<open>CommandRequests\<close>: the digests of requests of \<^verbatim>\<open>command-receipts.ts\<close>.
  \<^item> \<open>FencedDrivers\<close>: the envelope builder of \<^verbatim>\<open>web/lib/execution-host/ledger.ts\<close>, and the fence from end to end.
  \<^item> \<open>Transactions\<close>: the locale \<open>transactional\<close> of a store whose operations commit or leave the state alone; it is
    interpreted on the host's store (\<open>HostHistory\<close>) and on the host under commands (\<open>HostCommandProps\<close>).

  \<^bold>\<open>Conventions.\<close>  An operation that may throw returns \<open>error + result\<close>; an async function over a transaction is a
  function from the database to the database it commits, and a transaction that throws leaves it as it was.  Values
  the environment supplies (the clock, fresh uuids, environment variables) are arguments.  Instants are
  milliseconds as \<open>int\<close>.  Strings are lists of code units below 256, except in \<open>ConsensusText\<close>, which is about
  surrogates and uses 16-bit words.  Names follow the code.

  \<^bold>\<open>What is proved.\<close>

  \<^item> \<open>RunMachine\<close>, \<open>RunStateProps\<close>, \<open>RunGuarantees\<close>: each transition refines an edge of an abstract table of statuses
    (\<open>exec_conforms\<close>); over every interleaving of transitions, parked and ended runs have no driver, a fenced
    generation never returns, a transition has one winner, terminal statuses stick.
  \<^item> \<open>RunEffects\<close>: refused transitions write nothing; terminal transitions emit one event each, arm the coordinator and
    release the sync claim; crashes keep the recovery point; wakes are admitted.
  \<^item> \<open>Scheduler\<close>, \<open>Admission\<close>: a start respects the cap and the single shared writer; the most critical candidate is
    served first whatever the limits of the queries.
  \<^item> \<open>LifecycleClaim\<close>: one owner per worktree; where the fences agree and where they do not.
  \<^item> \<open>NodeLedgerProps\<close>: numbering, the meaning of a rework jump, budgets over resets, takeovers.
  \<^item> \<open>FlowGraphProps\<close>: the reachability loop ends and is reachability; compiled graphs are well formed; verdict routing
    always finds a declared transition.
  \<^item> \<open>GateVerdict\<close>, \<open>ConsensusText\<close>: results independent of chunk borders; which object decides; exact byte accounting
    and the longest prefix that fits.
  \<^item> \<open>DecideEval\<close>, \<open>TemplateExpr\<close>: the grammars accept and read back exactly their texts.
  \<^item> \<open>ArtifactStore\<close>, \<open>Readiness\<close>: one live row per output; the merge guard agrees with the badge; nothing is passed by
    the machine without validated checks.
  \<^item> \<open>Consensus\<close>: agreement means that every verifier endorsed every axis; the rotation is a derangement; the session
    pool is first come, first served.

  \<^item> \<open>HostOutboxProps\<close>, \<open>OutboxFunding\<close>, \<open>HostInvariant\<close>: the invariant of the host's file (sequences contiguous above the
    replay floor, counters equal to the stored rows, promises within the limits, file books balanced) is kept by every
    operation.
  \<^item> \<open>HostHistory\<close>, \<open>HostGuarantees\<close>: unacknowledged events are kept, replay has no gaps, promised room is there, stored
    events are redacted, the health signal is admission's answer, and the host reopens its own file.
  \<^item> \<open>HostLedger\<close>, \<open>HostCommandProps\<close>, \<open>HostCommandGuarantees\<close>: receipts keep their identity, fences only rise, a command
    id takes effect at most once, superseded assignments are refused and start no process.
  \<^item> \<open>CommandJson\<close>, \<open>CommandRequests\<close>: the canonical text of a value determines it up to the order of keys, so a
    command id names one request for good.
  \<^item> \<open>CommandEvidence\<close>: the evidence of a settled command validates at its own place in the stream only.
  \<^item> \<open>HostRecovery\<close>: recovery ends, is a sequence of transactions, and leaves no prompt waiting for a session that is gone.
  \<^item> \<open>FencedDrivers\<close>: a driver superseded in the manager's ledger is locked out of the host.

  Several theorems show that code departs from its comments: a failed resume strands a sync claim, provenance
  attempts are credited twice, a takeover loses the rework baseline, an older takeover hides the latest one, a
  renewed lease can be taken by a branch sync, the stream keeps a verdict that the whole text would not, and an
  outcome computation documented as total can throw.

  \<^bold>\<open>Parameters.\<close>  \<^verbatim>\<open>JSON.parse\<close> (\<open>parse\<close>), the zod schema of policies (\<open>safeParse\<close>), the permission and
  action authorizers of a resume (with the frame condition \<open>authorizers_frame\<close>: they leave runs, assignments and
  claims alone) and the reference check on host objects (\<open>referenceable\<close>) are arguments of the definitions that use
  them.  For the host they are the zod schema of envelopes and its reader (\<open>hi_accepts\<close>, \<open>hi_parse\<close>, related by
  \<open>codec_ok\<close>: what was accepted reads back), the event id digest (\<open>hi_event_id\<close>), the digests of requests
  (\<open>command_digests\<close>, which \<open>request_digests\<close> builds from a hash), whether \<^verbatim>\<open>Date.parse\<close> gives a number, the measurements of the
  disk (\<open>host_physical\<close>, free bytes) and the termination of a process.
  All loops are structural or have a termination proof; no fuel is used.

  \<^bold>\<open>Not modelled.\<close>  The graph runner, the HITL service, agent launch, worktrees and the rest of the supervisor (process
  control, ACP streams, HTTP routes, object files, schema migrations) work on processes, sockets, files and git; the UI, routes, MCP server and site are adapters; \<^verbatim>\<open>promoteNextPending\<close> (the
  scheduler's queue drain), the consensus runtime and its ledger, run results, orchestrator bounds and the
  remaining zod schemas are left for extensions of this development.
\<close>

end
